(* ===== verification/Prelude.thy ===== *)
theory Prelude
  imports Main
begin

text \<open>
  Shared vocabulary of the development: the collections of simplification rules, the string
  functions of the JavaScript and Go standard libraries that the sources use (decimal printing
  and parsing, \<open>split\<close>, \<open>join\<close>, \<open>endsWith\<close>), the UTF-8 encoding of the
  user-interface literals, JavaScript truthiness, and thrown values.

  Strings. A \<open>string\<close> of the model is the UTF-8 encoding of a JavaScript or Go string.
  The sources only compare, concatenate, test for emptiness and encode strings, and each of
  these commutes with UTF-8 encoding.

  Numbers. Identifiers, counters and page numbers are JavaScript numbers or Go \<open>int64\<close>
  values that hold integers; they are \<open>int\<close> here. Where a width matters (the range check
  of \<open>strconv.ParseInt\<close>) it is written out.
\<close>

section \<open>Rule collections\<close>

named_theorems ui_defs "the definitions of the rendered trees"
named_theorems api_defs "the definitions of the API requests"

section \<open>Lists\<close>

lemma takeWhile_neq_append [simp]:
  "c \<notin> set xs \<Longrightarrow> takeWhile (\<lambda>x. x \<noteq> c) (xs @ c # ys) = xs"
  by (induction xs) auto

lemma takeWhile_neq_id [simp]: "c \<notin> set xs \<Longrightarrow> takeWhile (\<lambda>x. x \<noteq> c) xs = xs"
  by (induction xs) auto

lemma find_Some_in: "find P xs = Some x \<Longrightarrow> x \<in> set xs \<and> P x"
  by (auto simp: find_Some_iff)

lemma find_None_no: "find P xs = None \<Longrightarrow> x \<in> set xs \<Longrightarrow> \<not> P x"
  by (simp add: find_None_iff)

section \<open>Invariants of a stateful component\<close>

text \<open>
  The contract of a component that runs one operation after the other: every operation keeps the
  invariant. The client may then rely on it after any sequence of operations.
\<close>

locale kept =
  fixes step :: "'o \<Rightarrow> 's \<Rightarrow> 's" and inv :: "'s \<Rightarrow> bool"
  assumes step_keeps: "inv s \<Longrightarrow> inv (step x s)"
begin

lemma run_keeps: "inv s \<Longrightarrow> inv (fold step xs s)"
  by (induction xs arbitrary: s) (simp_all add: step_keeps)

end

section \<open>Integer division\<close>

lemma le_div_iff_int: "0 < l \<Longrightarrow> n \<le> a div l \<longleftrightarrow> n * l \<le> a" for n a l :: int
proof
  assume l: "0 < l" and "n \<le> a div l"
  then have "n * l \<le> a div l * l" by (simp add: mult_right_mono)
  also have "\<dots> = a - a mod l" by (simp add: minus_mod_eq_div_mult)
  also have "\<dots> \<le> a" using l by simp
  finally show "n * l \<le> a" .
next
  assume l: "0 < l" and "n * l \<le> a"
  then have "n * l div l \<le> a div l" by (simp only: zdiv_mono1)
  with l show "n \<le> a div l" by simp
qed

section \<open>JavaScript truthiness and nullish coalescing\<close>

text \<open>\<open>s || d\<close> on strings: the empty string is the only falsy one.\<close>

definition str_or :: "string \<Rightarrow> string \<Rightarrow> string" where
  "str_or s d = (if s = [] then d else s)"

text \<open>\<open>x ?? d\<close>: the default is taken for \<open>null\<close> and \<open>undefined\<close> only.\<close>

definition nullish :: "'a option \<Rightarrow> 'a \<Rightarrow> 'a" where
  "nullish x d = (case x of None \<Rightarrow> d | Some v \<Rightarrow> v)"

text \<open>A string that is passed on only when it is truthy.\<close>

definition truthy_str :: "string option \<Rightarrow> bool" where
  "truthy_str x \<longleftrightarrow> (case x of None \<Rightarrow> False | Some s \<Rightarrow> s \<noteq> [])"

definition truthy_num :: "int option \<Rightarrow> bool" where
  "truthy_num x \<longleftrightarrow> (case x of None \<Rightarrow> False | Some n \<Rightarrow> n \<noteq> 0)"

lemma nullish_simps [simp]: "nullish None d = d" "nullish (Some v) d = v"
  by (simp_all add: nullish_def)

lemma truthy_simps [simp]:
  "\<not> truthy_str None" "truthy_str (Some s) \<longleftrightarrow> s \<noteq> []"
  "\<not> truthy_num None" "truthy_num (Some n) \<longleftrightarrow> n \<noteq> 0"
  by (simp_all add: truthy_str_def truthy_num_def)

lemma str_or_simps [simp]: "str_or [] d = d" "s \<noteq> [] \<Longrightarrow> str_or s d = s"
  by (simp_all add: str_or_def)

section \<open>Thrown values\<close>

text \<open>
  What an \<open>await\<close> can throw: an \<open>ApiError\<close> (with its HTTP status), another
  \<open>Error\<close> (a \<open>TypeError\<close> of \<open>fetch\<close>, a \<open>SyntaxError\<close> of
  \<open>res.json()\<close>), or a value that is not an \<open>Error\<close>.
\<close>

datatype thrown = ApiError string int | JsError string | NonError

type_synonym 'a outcome = "thrown + 'a"

text \<open>\<open>err instanceof Error ? err.message : fallback\<close>\<close>

definition error_text :: "string \<Rightarrow> thrown \<Rightarrow> string" where
  "error_text fallback e =
     (case e of ApiError m st \<Rightarrow> m | JsError m \<Rightarrow> m | NonError \<Rightarrow> fallback)"

lemma error_text_simps [simp]:
  "error_text fb (ApiError m st) = m" "error_text fb (JsError m) = m" "error_text fb NonError = fb"
  by (simp_all add: error_text_def)

section \<open>Decimal numerals\<close>

definition digit_char :: "nat \<Rightarrow> char" where
  "digit_char d = char_of (48 + d)"

definition digit_val :: "char \<Rightarrow> nat option" where
  "digit_val c = (let n = (of_char c :: nat) in if 48 \<le> n \<and> n \<le> 57 then Some (n - 48) else None)"

fun nat_str :: "nat \<Rightarrow> string" where
  "nat_str n = (if n < 10 then [digit_char n] else nat_str (n div 10) @ [digit_char (n mod 10)])"

declare nat_str.simps [simp del]

text \<open>\<open>String(n)\<close> and template interpolation of an integer.\<close>

definition int_str :: "int \<Rightarrow> string" where
  "int_str i = (if i < 0 then CHR ''-'' # nat_str (nat (- i)) else nat_str (nat i))"

fun parse_digits :: "nat \<Rightarrow> string \<Rightarrow> nat option" where
  "parse_digits acc [] = Some acc"
| "parse_digits acc (c # cs) =
     (case digit_val c of None \<Rightarrow> None | Some d \<Rightarrow> parse_digits (10 * acc + d) cs)"

text \<open>
  \<open>strconv.ParseInt(s, 10, 64)\<close>, which \<open>strconv.Atoi\<close> is on a 64-bit platform: an
  optional sign, at least one digit, and a range check.
\<close>

definition parse_int64 :: "string \<Rightarrow> int option" where
  "parse_int64 s =
     (let (neg, ds) = (case s of c # cs \<Rightarrow> if c = CHR ''-'' then (True, cs)
                                     else if c = CHR ''+'' then (False, cs) else (False, s)
                      | [] \<Rightarrow> (False, []))
      in if ds = [] then None
         else case parse_digits 0 ds of
                None \<Rightarrow> None
              | Some n \<Rightarrow> (let v = (if neg then - int n else int n)
                          in if - (2 ^ 63) \<le> v \<and> v < 2 ^ 63 then Some v else None))"

lemma digit_val_digit_char [simp]: "d < 10 \<Longrightarrow> digit_val (digit_char d) = Some d"
  by (simp add: digit_val_def digit_char_def Let_def)

lemma parse_digits_append:
  "parse_digits a (xs @ ys) =
     (case parse_digits a xs of None \<Rightarrow> None | Some b \<Rightarrow> parse_digits b ys)"
  by (induction xs arbitrary: a) (auto split: option.splits)

lemma nat_str_nonempty [simp]: "nat_str n \<noteq> []"
  by (subst nat_str.simps) simp

lemma parse_digits_nat_str [simp]: "parse_digits 0 (nat_str n) = Some n"
proof (induction n rule: nat_str.induct)
  case (1 n)
  show ?case
  proof (cases "n < 10")
    case True
    then show ?thesis by (subst nat_str.simps) simp
  next
    case False
    with 1 have "parse_digits 0 (nat_str (n div 10)) = Some (n div 10)" by simp
    with False show ?thesis
      by (subst nat_str.simps) (simp add: parse_digits_append)
  qed
qed

definition is_digit :: "char \<Rightarrow> bool" where
  "is_digit c \<longleftrightarrow> digit_val c \<noteq> None"

lemma nat_str_digits: "c \<in> set (nat_str n) \<Longrightarrow> is_digit c"
proof (induction n rule: nat_str.induct)
  case (1 n)
  show ?case
  proof (cases "n < 10")
    case True
    with 1 show ?thesis by (subst (asm) nat_str.simps) (simp add: is_digit_def)
  next
    case False
    with 1 show ?thesis by (subst (asm) nat_str.simps) (auto simp: is_digit_def)
  qed
qed

lemma not_digits [simp]:
  "\<not> is_digit CHR ''-''" "\<not> is_digit CHR ''+''" "\<not> is_digit CHR '' ''"
  "\<not> is_digit CHR ''.''" "\<not> is_digit CHR ''/''" "\<not> is_digit CHR ''?''"
  by (simp_all add: is_digit_def digit_val_def)

lemma nat_str_inject [simp]: "nat_str m = nat_str n \<longleftrightarrow> m = n"
  by (metis option.inject parse_digits_nat_str)

lemma nat_str_no_char: "\<not> is_digit c \<Longrightarrow> c \<notin> set (nat_str n)"
  using nat_str_digits by blast

lemma int_str_nonempty [simp]: "int_str i \<noteq> []"
  by (simp add: int_str_def)

lemma parse_int64_nat_str: "int n < 2 ^ 63 \<Longrightarrow> parse_int64 (nat_str n) = Some (int n)"
proof -
  assume le: "int n < 2 ^ 63"
  obtain c cs where s: "nat_str n = c # cs" by (cases "nat_str n") auto
  have "is_digit c" using nat_str_digits [of c n] s by simp
  then have "c \<noteq> CHR ''-''" "c \<noteq> CHR ''+''" by auto
  then have "parse_int64 (nat_str n) =
      (case parse_digits 0 (nat_str n) of None \<Rightarrow> None
       | Some k \<Rightarrow> (if - (2 ^ 63) \<le> int k \<and> int k < 2 ^ 63 then Some (int k) else None))"
    by (simp only: parse_int64_def s list.case Let_def split_beta fst_conv snd_conv if_False) simp
  with le show ?thesis by simp
qed

lemma parse_int64_int_str [simp]:
  "- (2 ^ 63) < i \<Longrightarrow> i < 2 ^ 63 \<Longrightarrow> parse_int64 (int_str i) = Some i"
proof (cases "i < 0")
  case True
  assume "- (2 ^ 63) < i"
  with True show ?thesis
    by (simp add: int_str_def parse_int64_def Let_def)
next
  case False
  assume "i < 2 ^ 63"
  with False show ?thesis
    using parse_int64_nat_str [of "nat i"] by (simp add: int_str_def)
qed

section \<open>Splitting and joining\<close>

fun split_on :: "char \<Rightarrow> string \<Rightarrow> string list" where
  "split_on c [] = [[]]"
| "split_on c (x # xs) =
     (if x = c then [] # split_on c xs
      else (case split_on c xs of [] \<Rightarrow> [[x]] | y # ys \<Rightarrow> (x # y) # ys))"

fun join :: "string \<Rightarrow> string list \<Rightarrow> string" where
  "join sep [] = []"
| "join sep [x] = x"
| "join sep (x # y # ys) = x @ sep @ join sep (y # ys)"

lemma split_on_nonempty [simp]: "split_on c s \<noteq> []"
  by (induction s) (auto split: list.splits)

lemma split_on_free [simp]: "c \<notin> set s \<Longrightarrow> split_on c s = [s]"
  by (induction s) auto

lemma split_on_append: "c \<notin> set s \<Longrightarrow> split_on c (s @ c # t) = s # split_on c t"
  by (induction s) auto

lemma split_on_join:
  "ps \<noteq> [] \<Longrightarrow> \<forall>p \<in> set ps. c \<notin> set p \<Longrightarrow> split_on c (join [c] ps) = ps"
  by (induction "[c]" ps rule: join.induct) (auto simp: split_on_append)

lemma set_join: "set (join sep ps) \<subseteq> set sep \<union> \<Union> (set ` set ps)"
  by (induction sep ps rule: join.induct) auto

lemma join_nonempty: "ps \<noteq> [] \<Longrightarrow> \<forall>p \<in> set ps. p \<noteq> [] \<Longrightarrow> join sep ps \<noteq> []"
  by (induction sep ps rule: join.induct) auto

text \<open>\<open>s.endsWith(t)\<close>\<close>

definition ends_with :: "string \<Rightarrow> string \<Rightarrow> bool" where
  "ends_with s t \<longleftrightarrow> length t \<le> length s \<and> drop (length s - length t) s = t"

lemma ends_with_iff: "ends_with s t \<longleftrightarrow> (\<exists>p. s = p @ t)"
  unfolding ends_with_def
  by (metis append_eq_conv_conj append_take_drop_id diff_le_self length_append le_add2
      length_drop add_diff_cancel_right')

section \<open>UTF-8 literals\<close>

text \<open>
  The literals of the user interface are written with their Unicode code points; \<open>utf8\<close>
  encodes the code points below \<open>U+10000\<close>, which is all the sources use.
\<close>

definition utf8_char :: "nat \<Rightarrow> string" where
  "utf8_char n =
     (if n < 128 then [char_of n]
      else if n < 2048 then [char_of (192 + n div 64), char_of (128 + n mod 64)]
      else [char_of (224 + n div 4096), char_of (128 + n div 64 mod 64), char_of (128 + n mod 64)])"

definition utf8 :: "nat list \<Rightarrow> string" where
  "utf8 ns = concat (map utf8_char ns)"

end
