(* ===== verification/Json.thy ===== *)
theory Json
  imports Prelude Complex_Main
begin

text \<open>
  JSON values as \<open>res.json()\<close> returns them and \<open>JSON.stringify\<close> takes them, with the
  JavaScript operations the client applies to them (property access, truthiness, conversion to a
  string). A number is the exact value of its decimal literal. Objects are association lists, in
  the order of their properties.
\<close>

datatype json =
    JNull
  | JBool bool
  | JNum rat
  | JStr string
  | JArr "json list"
  | JObj "(string \<times> json) list"

abbreviation JInt :: "int \<Rightarrow> json" where
  "JInt i \<equiv> JNum (of_int i)"

section \<open>JavaScript conversions\<close>

fun json_truthy :: "json \<Rightarrow> bool" where
  "json_truthy JNull = False"
| "json_truthy (JBool b) = b"
| "json_truthy (JNum r) = (r \<noteq> 0)"
| "json_truthy (JStr s) = (s \<noteq> [])"
| "json_truthy (JArr xs) = True"
| "json_truthy (JObj ps) = True"

text \<open>The fractional digits of \<open>m / d\<close>; a JavaScript number prints at most 17 digits.\<close>

fun frac_digits :: "nat \<Rightarrow> nat \<Rightarrow> nat \<Rightarrow> string" where
  "frac_digits 0 m d = []"
| "frac_digits (Suc k) m d =
     (if m = 0 then [] else digit_char (10 * m div d) # frac_digits k (10 * m mod d) d)"

definition num_str :: "rat \<Rightarrow> string" where
  "num_str r =
     (if of_int \<lfloor>r\<rfloor> = r then int_str \<lfloor>r\<rfloor>
      else let (n, d) = quotient_of r; m = nat \<bar>n\<bar>; e = nat d in
        (if r < 0 then ''-'' else []) @ nat_str (m div e) @ ''.'' @ frac_digits 17 (m mod e) e)"

fun json_str :: "json \<Rightarrow> string" where
  "json_str JNull = ''null''"
| "json_str (JBool b) = (if b then ''true'' else ''false'')"
| "json_str (JNum r) = num_str r"
| "json_str (JStr s) = s"
| "json_str (JArr xs) = join '','' (map (\<lambda>x. if x = JNull then [] else json_str x) xs)"
| "json_str (JObj ps) = ''[object Object]''"

text \<open>
  \<open>v.name\<close>: a \<open>TypeError\<close> on \<open>null\<close>, \<open>undefined\<close> (here \<open>None\<close>) for a
  property the value does not have.
\<close>

definition property :: "json \<Rightarrow> string \<Rightarrow> (json option) outcome" where
  "property v k =
     (case v of
        JNull \<Rightarrow> Inl (JsError (''Cannot read properties of null (reading '' @ [CHR 0x27] @ k @ [CHR 0x27] @ '')''))
      | JObj ps \<Rightarrow> Inr (map_of ps k)
      | _ \<Rightarrow> Inr None)"

section \<open>Building objects\<close>

text \<open>\<open>JSON.stringify\<close> leaves out a property whose value is \<open>undefined\<close>.\<close>

definition opt_field :: "string \<Rightarrow> ('a \<Rightarrow> json) \<Rightarrow> 'a option \<Rightarrow> (string \<times> json) list" where
  "opt_field k f x = (case x of None \<Rightarrow> [] | Some v \<Rightarrow> [(k, f v)])"

lemma opt_field_simps [simp]:
  "opt_field k f None = []" "opt_field k f (Some v) = [(k, f v)]"
  by (simp_all add: opt_field_def)

lemma num_str_of_int [simp]: "num_str (of_int i) = int_str i"
  by (simp add: num_str_def)

lemma property_obj [simp]: "property (JObj ps) k = Inr (map_of ps k)"
  by (simp add: property_def)

end
