(* ===== verification/Api_Types.thy ===== *)
theory Api_Types
  imports Json
begin

text \<open>
  \<open>web/src/api/types.ts\<close>: the rows the server sends and the requests the client sends.
  An optional property is an \<open>option\<close>. \<open>write_queue\<close> and \<open>write_timeout_ms\<close> are
  declared as numbers in \<open>types.ts\<close> but the server omits them while they are unset, so
  they are optional here; the client never reads them. The \<open>stringify\<close> functions are
  \<open>JSON.stringify\<close> on the request types.
\<close>

section \<open>Rows\<close>

record user =
  u_id :: int
  u_username :: string
  u_role :: string
  u_enabled :: bool

record mountpoint_row =
  m_id :: int
  m_name :: string
  m_description :: string
  m_enabled :: bool
  m_format :: string
  m_source_auth_mode :: string
  m_write_queue :: "int option"
  m_write_timeout_ms :: "int option"
  m_max_clients :: int

record mountpoint_info = mountpoint_row +
  m_source_online :: bool
  m_client_count :: int
  m_antenna_lat :: "rat option"
  m_antenna_lon :: "rat option"
  m_antenna_height :: "rat option"
  m_antenna_updated_at :: "string option"

record binding =
  b_id :: int
  b_user_id :: int
  b_mountpoint_id :: int
  b_username :: "string option"
  b_mountpoint_name :: "string option"

record source_info =
  si_mountpoint :: string
  si_source_id :: string
  si_user_id :: int
  si_username :: string
  si_bytes_in :: int
  si_connected_at :: string
  si_duration_seconds :: int

record client_info =
  ci_mountpoint :: string
  ci_client_id :: string
  ci_user_id :: int
  ci_username :: string
  ci_bytes_out :: int
  ci_connected_at :: string
  ci_duration_seconds :: int

record mountpoint_stats =
  ms_name :: string
  ms_client_count :: int
  ms_source_online :: bool
  ms_bytes_in :: int
  ms_bytes_out :: int
  ms_slow_clients :: int
  ms_kick_count :: int

text \<open>
  Lists the server builds by appending to a nil slice are \<open>null\<close> in JSON when they are
  empty, so \<open>mountpoints\<close> and \<open>data\<close> may be absent.
\<close>

record system_stats =
  ss_total_clients :: int
  ss_total_sources :: int
  ss_mountpoints :: "mountpoint_stats list option"
  ss_timestamp :: string

record 'a paginated_response =
  pr_data :: "'a list option"
  pr_total :: int
  pr_page :: int
  pr_limit :: int

section \<open>Requests\<close>

record create_user_req =
  cu_username :: string
  cu_password :: string
  cu_role :: string

record update_user_req =
  uu_role :: "string option"
  uu_enabled :: "bool option"
  uu_password :: "string option"

record create_mountpoint_req =
  cm_name :: string
  cm_description :: string
  cm_format :: "string option"
  cm_source_secret :: "string option"
  cm_max_clients :: "int option"

record update_mountpoint_req =
  um_description :: "string option"
  um_format :: "string option"
  um_enabled :: "bool option"
  um_source_secret :: "string option"
  um_max_clients :: "int option"

record create_binding_req =
  cb_user_id :: int
  cb_mountpoint_id :: int

record list_users_params =
  lu_page :: "int option"
  lu_limit :: "int option"
  lu_search :: "string option"
  lu_role :: "string option"
  lu_enabled :: "string option"

record list_mountpoints_params =
  lm_page :: "int option"
  lm_limit :: "int option"
  lm_search :: "string option"
  lm_format :: "string option"
  lm_enabled :: "string option"

section \<open>Serialisation of the requests\<close>

definition stringify_create_user :: "create_user_req \<Rightarrow> json" where
  "stringify_create_user r =
     JObj [(''username'', JStr (cu_username r)), (''password'', JStr (cu_password r)),
           (''role'', JStr (cu_role r))]"

definition stringify_update_user :: "update_user_req \<Rightarrow> json" where
  "stringify_update_user r =
     JObj (opt_field ''role'' JStr (uu_role r) @ opt_field ''enabled'' JBool (uu_enabled r)
           @ opt_field ''password'' JStr (uu_password r))"

definition stringify_create_mountpoint :: "create_mountpoint_req \<Rightarrow> json" where
  "stringify_create_mountpoint r =
     JObj ([(''name'', JStr (cm_name r)), (''description'', JStr (cm_description r))]
           @ opt_field ''format'' JStr (cm_format r)
           @ opt_field ''max_clients'' JInt (cm_max_clients r)
           @ opt_field ''source_secret'' JStr (cm_source_secret r))"

definition stringify_update_mountpoint :: "update_mountpoint_req \<Rightarrow> json" where
  "stringify_update_mountpoint r =
     JObj (opt_field ''description'' JStr (um_description r) @ opt_field ''format'' JStr (um_format r)
           @ opt_field ''enabled'' JBool (um_enabled r)
           @ opt_field ''max_clients'' JInt (um_max_clients r)
           @ opt_field ''source_secret'' JStr (um_source_secret r))"

definition stringify_create_binding :: "create_binding_req \<Rightarrow> json" where
  "stringify_create_binding r =
     JObj [(''user_id'', JInt (cb_user_id r)), (''mountpoint_id'', JInt (cb_mountpoint_id r))]"

lemmas stringify_defs [api_defs] =
  stringify_create_user_def stringify_update_user_def stringify_create_mountpoint_def
  stringify_update_mountpoint_def stringify_create_binding_def

end
