(* ===== verification/Url.thy ===== *)
theory Url
  imports Prelude
begin

text \<open>
  The two ends of a query string. The browser's \<open>URLSearchParams.toString()\<close> (the
  \<open>application/x-www-form-urlencoded\<close> serializer, used by \<open>web/src/api/client.ts\<close>)
  and its \<open>get\<close> (used by \<open>web/src/pages/map.tsx\<close>), and Go's \<open>url.ParseQuery\<close>
  with \<open>Values.Get\<close> (used by \<open>internal/api/handlers.go\<close>). The main fact is that a
  parameter the client sets is read back unchanged.
\<close>

section \<open>Percent encoding\<close>

definition hex_digit :: "nat \<Rightarrow> char" where
  "hex_digit n = (if n < 10 then char_of (48 + n) else char_of (55 + n))"

definition hex_val :: "char \<Rightarrow> nat option" where
  "hex_val c = (let n = (of_char c :: nat) in
     if 48 \<le> n \<and> n \<le> 57 then Some (n - 48)
     else if 65 \<le> n \<and> n \<le> 70 then Some (n - 55)
     else if 97 \<le> n \<and> n \<le> 102 then Some (n - 87) else None)"

text \<open>The bytes the form serializer leaves as they are.\<close>

definition form_safe :: "char \<Rightarrow> bool" where
  "form_safe c \<longleftrightarrow> (let n = (of_char c :: nat) in
     48 \<le> n \<and> n \<le> 57 \<or> 65 \<le> n \<and> n \<le> 90 \<or> 97 \<le> n \<and> n \<le> 122
     \<or> n = 42 \<or> n = 45 \<or> n = 46 \<or> n = 95)"

definition form_byte :: "char \<Rightarrow> string" where
  "form_byte c =
     (if c = CHR '' '' then ''+''
      else if form_safe c then [c]
      else [CHR ''%'', hex_digit (of_char c div 16), hex_digit (of_char c mod 16)])"

definition form_escape :: "string \<Rightarrow> string" where
  "form_escape s = concat (map form_byte s)"

text \<open>
  Unescaping in a query: \<open>+\<close> is a space, \<open>%XY\<close> a byte. Go's \<open>QueryUnescape\<close>
  fails on a malformed escape; the browser's parser keeps the percent sign.
\<close>

fun query_unescape :: "string \<Rightarrow> string option" where
  "query_unescape [] = Some []"
| "query_unescape (c # cs) =
     (if c = CHR ''%'' then
        (case cs of
           a # b # rest \<Rightarrow>
             (case hex_val a of None \<Rightarrow> None
              | Some x \<Rightarrow> (case hex_val b of None \<Rightarrow> None
                 | Some y \<Rightarrow> map_option ((#) (char_of (16 * x + y))) (query_unescape rest)))
         | _ \<Rightarrow> None)
      else map_option ((#) (if c = CHR ''+'' then CHR '' '' else c)) (query_unescape cs))"

fun form_decode :: "string \<Rightarrow> string" where
  "form_decode [] = []"
| "form_decode (c # cs) =
     (if c = CHR ''%'' then
        (case cs of
           a # b # rest \<Rightarrow>
             (case (hex_val a, hex_val b) of
                (Some x, Some y) \<Rightarrow> char_of (16 * x + y) # form_decode rest
              | _ \<Rightarrow> c # form_decode cs)
         | _ \<Rightarrow> c # form_decode cs)
      else (if c = CHR ''+'' then CHR '' '' else c) # form_decode cs)"

section \<open>Query strings\<close>

type_synonym params = "(string \<times> string) list"

text \<open>\<open>query.set(k, v)\<close> on a fresh or an existing key.\<close>

fun params_set :: "string \<Rightarrow> string \<Rightarrow> params \<Rightarrow> params" where
  "params_set k v [] = [(k, v)]"
| "params_set k v ((k', v') # ps) =
     (if k' = k then (k, v) # filter (\<lambda>p. fst p \<noteq> k) ps else (k', v') # params_set k v ps)"

definition form_pair :: "string \<times> string \<Rightarrow> string" where
  "form_pair p = form_escape (fst p) @ ''='' @ form_escape (snd p)"

text \<open>\<open>query.toString()\<close>\<close>

definition params_str :: "params \<Rightarrow> string" where
  "params_str ps = join ''&'' (map form_pair ps)"

text \<open>\<open>strings.Cut(s, sep)\<close>\<close>

definition cut :: "char \<Rightarrow> string \<Rightarrow> string \<times> string" where
  "cut c s = (takeWhile (\<lambda>x. x \<noteq> c) s, drop (Suc (length (takeWhile (\<lambda>x. x \<noteq> c) s))) s)"

text \<open>
  \<open>url.ParseQuery\<close>: pairs that are empty, hold a semicolon or do not unescape are left out.
\<close>

fun go_parse_pair :: "string \<Rightarrow> (string \<times> string) option" where
  "go_parse_pair s =
     (if s = [] \<or> CHR '';'' \<in> set s then None
      else case query_unescape (fst (cut CHR ''='' s)) of None \<Rightarrow> None
           | Some k \<Rightarrow> (case query_unescape (snd (cut CHR ''='' s)) of None \<Rightarrow> None
                       | Some v \<Rightarrow> Some (k, v)))"

definition go_parse_query :: "string \<Rightarrow> params" where
  "go_parse_query q = List.map_filter go_parse_pair (split_on CHR ''&'' q)"

text \<open>\<open>Values.Get(key)\<close>: the first value, or the empty string.\<close>

definition query_get :: "params \<Rightarrow> string \<Rightarrow> string" where
  "query_get ps k = nullish (map_of ps k) []"

text \<open>The browser's parser, and \<open>searchParams.get(key)\<close> (\<open>null\<close> when absent).\<close>

definition form_parse :: "string \<Rightarrow> params" where
  "form_parse q = map (\<lambda>s. (form_decode (fst (cut CHR ''='' s)), form_decode (snd (cut CHR ''='' s))))
                    (filter (\<lambda>s. s \<noteq> []) (split_on CHR ''&'' q))"

definition search_param :: "string \<Rightarrow> string \<Rightarrow> string option" where
  "search_param q k = map_of (form_parse q) k"

section \<open>Round trips\<close>

lemma of_char_lt [simp]: "(of_char c :: nat) < 256"
  by (metis mod_less_divisor of_char_mod_256 zero_less_numeral)

lemma hex_val_digit [simp]: "n < 16 \<Longrightarrow> hex_val (hex_digit n) = Some n"
  by (auto simp: hex_val_def hex_digit_def Let_def)

lemma hex_bytes [simp]: "char_of (16 * (of_char c div 16) + of_char c mod 16 :: nat) = c"
  by simp

lemma query_unescape_form_byte:
  "query_unescape (form_byte c @ s) = map_option ((#) c) (query_unescape s)"
proof (cases "c = CHR '' ''")
  case True
  then show ?thesis by (simp add: form_byte_def)
next
  case space: False
  show ?thesis
  proof (cases "form_safe c")
    case True
    then have "c \<noteq> CHR ''%''" "c \<noteq> CHR ''+''" by (auto simp: form_safe_def)
    with True space show ?thesis by (simp add: form_byte_def)
  next
    case False
    have "of_char c div 16 < (16 :: nat)" using of_char_lt [of c] by linarith
    with False space show ?thesis by (simp add: form_byte_def)
  qed
qed

lemma query_unescape_form_escape [simp]: "query_unescape (form_escape s) = Some s"
  by (induction s) (auto simp: form_escape_def query_unescape_form_byte)

text \<open>No separator survives escaping.\<close>

definition is_hex :: "char \<Rightarrow> bool" where
  "is_hex c \<longleftrightarrow> hex_val c \<noteq> None"

lemma form_byte_chars:
  "x \<in> set (form_byte c) \<Longrightarrow> x = CHR ''+'' \<or> x = CHR ''%'' \<or> form_safe x \<or> is_hex x"
proof -
  have "of_char c div 16 < (16 :: nat)" using of_char_lt [of c] by linarith
  then have "is_hex (hex_digit (of_char c div 16))" by (simp add: is_hex_def)
  moreover have "is_hex (hex_digit (of_char c mod 16))" by (simp add: is_hex_def)
  moreover assume "x \<in> set (form_byte c)"
  ultimately show ?thesis by (auto simp: form_byte_def split: if_splits)
qed

lemma form_separators [simp]:
  "\<not> form_safe CHR ''&''" "\<not> is_hex CHR ''&''" "\<not> form_safe CHR ''=''" "\<not> is_hex CHR ''=''"
  "\<not> form_safe CHR '';''" "\<not> is_hex CHR '';''" "\<not> form_safe CHR ''?''" "\<not> is_hex CHR ''?''"
  by (simp_all add: form_safe_def is_hex_def hex_val_def)

lemma form_escape_free:
  assumes "\<not> form_safe x" "\<not> is_hex x" "x \<noteq> CHR ''+''" "x \<noteq> CHR ''%''"
  shows "x \<notin> set (form_escape s)"
  using assms form_byte_chars by (fastforce simp: form_escape_def)

lemma form_escape_no_separator [simp]:
  "CHR ''&'' \<notin> set (form_escape s)" "CHR ''='' \<notin> set (form_escape s)"
  "CHR '';'' \<notin> set (form_escape s)" "CHR ''?'' \<notin> set (form_escape s)"
  by (rule form_escape_free; simp)+

lemma cut_form_pair [simp]:
  "cut CHR ''='' (form_escape k @ CHR ''='' # form_escape v) = (form_escape k, form_escape v)"
  by (simp add: cut_def)

lemma go_parse_pair_form_pair [simp]: "go_parse_pair (form_pair p) = Some p"
  by (cases p) (simp add: form_pair_def)

declare go_parse_pair.simps [simp del]

lemma form_pair_no_amp [simp]: "CHR ''&'' \<notin> set (form_pair p)"
  by (simp add: form_pair_def)

lemma form_pair_nonempty [simp]: "form_pair p \<noteq> []"
  by (simp add: form_pair_def)

lemma map_filter_all: "(\<And>x. x \<in> set xs \<Longrightarrow> f (g x) = Some x) \<Longrightarrow> List.map_filter f (map g xs) = xs"
  by (induction xs) simp_all

lemma params_str_nonempty: "ps \<noteq> [] \<Longrightarrow> params_str ps \<noteq> []"
  unfolding params_str_def by (rule join_nonempty) auto

lemma go_parse_query_params_str: "go_parse_query (params_str ps) = ps"
proof (cases "ps = []")
  case True
  then show ?thesis
    by (simp add: go_parse_query_def params_str_def go_parse_pair.simps)
next
  case False
  then have "split_on CHR ''&'' (params_str ps) = map form_pair ps"
    unfolding params_str_def by (intro split_on_join) auto
  then show ?thesis by (simp add: go_parse_query_def map_filter_all)
qed

lemma params_str_no_question: "CHR ''?'' \<notin> set (params_str ps)"
proof -
  have "CHR ''?'' \<notin> set ''&'' \<union> \<Union> (set ` set (map form_pair ps))"
    by (auto simp: form_pair_def)
  then show ?thesis
    unfolding params_str_def using set_join [of "''&''" "map form_pair ps"] by blast
qed

end
