(* ===== verification/Api_Client.thy ===== *)
theory Api_Client
  imports Api_Types Url
begin

text \<open>
  \<open>web/src/api/client.ts\<close>. \<open>request\<close> builds the arguments of \<open>fetch\<close> and turns its
  outcome into a JSON value or a thrown error, with a redirect to the login page on a 401; the
  members of \<open>api\<close> build one request each. \<open>fetch\<close> itself (the browser and the
  network) is an argument.
\<close>

section \<open>Requests\<close>

record request_init =
  ri_method :: "string option"
  ri_body :: "json option"
  ri_headers :: "params option"

definition no_options :: request_init where
  "no_options = \<lparr>ri_method = None, ri_body = None, ri_headers = None\<rparr>"

definition with_method :: "string \<Rightarrow> request_init" where
  "with_method m = no_options\<lparr>ri_method := Some m\<rparr>"

definition with_body :: "string \<Rightarrow> json \<Rightarrow> request_init" where
  "with_body m b = no_options\<lparr>ri_method := Some m, ri_body := Some b\<rparr>"

record http_request =
  hr_path :: string
  hr_method :: string
  hr_headers :: params
  hr_body :: "json option"
  hr_credentials :: string

text \<open>
  The first argument list of \<open>fetch\<close>: \<open>...options\<close> comes last, so headers given in the
  options replace the merged ones.
\<close>

definition fetch_args :: "string \<Rightarrow> request_init \<Rightarrow> http_request" where
  "fetch_args path options =
     \<lparr>hr_path = path,
      hr_method = nullish (ri_method options) ''GET'',
      hr_headers = nullish (ri_headers options) [(''Content-Type'', ''application/json'')],
      hr_body = ri_body options,
      hr_credentials = ''include''\<rparr>"

text \<open>
  What \<open>fetch\<close> gives: a rejection with its message, or a response with its status and what
  \<open>res.json()\<close> gives (a rejection with its message, or a value).
\<close>

datatype fetch_outcome = Rejected string | Response int "string + json"

record request_result =
  rr_redirect :: "string option"
  rr_result :: "json outcome"

definition error_message :: "json \<Rightarrow> string outcome" where
  "error_message body =
     (case property body ''error'' of
        Inl e \<Rightarrow> Inl e
      | Inr v \<Rightarrow> Inr (case v of None \<Rightarrow> ''Request failed''
                       | Some j \<Rightarrow> if json_truthy j then json_str j else ''Request failed''))"

definition handle_response :: "string \<Rightarrow> string \<Rightarrow> fetch_outcome \<Rightarrow> request_result" where
  "handle_response pathname path res =
     (case res of
        Rejected m \<Rightarrow> \<lparr>rr_redirect = None, rr_result = Inl (JsError m)\<rparr>
      | Response st body \<Rightarrow>
          if st = 401 then
            \<lparr>rr_redirect = (if \<not> ends_with path ''/api/login'' \<and> pathname \<noteq> ''/login''
                             then Some ''/login'' else None),
             rr_result = Inl (ApiError ''Unauthorized'' 401)\<rparr>
          else if \<not> (200 \<le> st \<and> st \<le> 299) then
            \<lparr>rr_redirect = None,
             rr_result = (case body of
                 Inl m \<Rightarrow> Inl (ApiError ''Request failed'' st)
               | Inr b \<Rightarrow> (case error_message b of Inl e \<Rightarrow> Inl e
                          | Inr m \<Rightarrow> Inl (ApiError m st)))\<rparr>
          else
            \<lparr>rr_redirect = None,
             rr_result = (case body of Inl m \<Rightarrow> Inl (JsError m) | Inr b \<Rightarrow> Inr b)\<rparr>)"

definition request ::
  "(http_request \<Rightarrow> fetch_outcome) \<Rightarrow> string \<Rightarrow> string \<Rightarrow> request_init \<Rightarrow> request_result" where
  "request fetch pathname path options =
     handle_response pathname path (fetch (fetch_args path options))"

section \<open>The members of api\<close>

text \<open>A member is the path and the options it passes to \<open>request\<close>.\<close>

type_synonym api_call = "string \<times> request_init"

definition api_login :: "string \<Rightarrow> string \<Rightarrow> api_call" where
  "api_login username password =
     (''/api/login'', with_body ''POST''
        (JObj [(''username'', JStr username), (''password'', JStr password)]))"

definition api_logout :: api_call where
  "api_logout = (''/api/logout'', with_method ''POST'')"

definition set_num :: "string \<Rightarrow> int option \<Rightarrow> params \<Rightarrow> params" where
  "set_num k x ps = (if truthy_num x then params_set k (int_str (the x)) ps else ps)"

definition set_str :: "string \<Rightarrow> string option \<Rightarrow> params \<Rightarrow> params" where
  "set_str k x ps = (if truthy_str x then params_set k (the x) ps else ps)"

definition with_query :: "string \<Rightarrow> params \<Rightarrow> string" where
  "with_query base ps = (let qs = params_str ps in base @ (if qs \<noteq> [] then ''?'' @ qs else []))"

definition list_users_query :: "list_users_params \<Rightarrow> params" where
  "list_users_query p =
     set_str ''enabled'' (lu_enabled p) (set_str ''role'' (lu_role p)
      (set_str ''search'' (lu_search p) (set_num ''limit'' (lu_limit p)
       (set_num ''page'' (lu_page p) []))))"

definition api_listUsers :: "list_users_params option \<Rightarrow> api_call" where
  "api_listUsers params =
     (with_query ''/api/users'' (case params of None \<Rightarrow> [] | Some p \<Rightarrow> list_users_query p),
      no_options)"

definition api_createUser :: "create_user_req \<Rightarrow> api_call" where
  "api_createUser data = (''/api/users'', with_body ''POST'' (stringify_create_user data))"

definition api_updateUser :: "int \<Rightarrow> update_user_req \<Rightarrow> api_call" where
  "api_updateUser uid data =
     (''/api/users/'' @ int_str uid, with_body ''PUT'' (stringify_update_user data))"

definition api_deleteUser :: "int \<Rightarrow> api_call" where
  "api_deleteUser uid = (''/api/users/'' @ int_str uid, with_method ''DELETE'')"

definition list_mountpoints_query :: "list_mountpoints_params \<Rightarrow> params" where
  "list_mountpoints_query p =
     set_str ''enabled'' (lm_enabled p) (set_str ''format'' (lm_format p)
      (set_str ''search'' (lm_search p) (set_num ''limit'' (lm_limit p)
       (set_num ''page'' (lm_page p) []))))"

definition api_listMountpoints :: "list_mountpoints_params option \<Rightarrow> api_call" where
  "api_listMountpoints params =
     (with_query ''/api/mountpoints''
        (case params of None \<Rightarrow> [] | Some p \<Rightarrow> list_mountpoints_query p),
      no_options)"

definition api_createMountpoint :: "create_mountpoint_req \<Rightarrow> api_call" where
  "api_createMountpoint data =
     (''/api/mountpoints'', with_body ''POST'' (stringify_create_mountpoint data))"

definition api_updateMountpoint :: "int \<Rightarrow> update_mountpoint_req \<Rightarrow> api_call" where
  "api_updateMountpoint mid data =
     (''/api/mountpoints/'' @ int_str mid, with_body ''PUT'' (stringify_update_mountpoint data))"

definition api_deleteMountpoint :: "int \<Rightarrow> api_call" where
  "api_deleteMountpoint mid = (''/api/mountpoints/'' @ int_str mid, with_method ''DELETE'')"

definition api_listBindings :: api_call where
  "api_listBindings = (''/api/bindings'', no_options)"

definition api_listUserBindings :: "int \<Rightarrow> api_call" where
  "api_listUserBindings userId = (''/api/users/'' @ int_str userId @ ''/bindings'', no_options)"

definition api_createBinding :: "create_binding_req \<Rightarrow> api_call" where
  "api_createBinding data = (''/api/bindings'', with_body ''POST'' (stringify_create_binding data))"

definition api_deleteBinding :: "int \<Rightarrow> api_call" where
  "api_deleteBinding bid = (''/api/bindings/'' @ int_str bid, with_method ''DELETE'')"

definition api_listSources :: api_call where
  "api_listSources = (''/api/sources'', no_options)"

definition api_listClients :: api_call where
  "api_listClients = (''/api/clients'', no_options)"

definition api_kickSource :: "string \<Rightarrow> api_call" where
  "api_kickSource mount = (''/api/sources/'' @ mount, with_method ''DELETE'')"

definition api_kickClient :: "string \<Rightarrow> api_call" where
  "api_kickClient cid = (''/api/clients/'' @ cid, with_method ''DELETE'')"

definition api_getStats :: api_call where
  "api_getStats = (''/api/stats'', no_options)"

lemmas api_member_defs [api_defs] =
  api_login_def api_logout_def api_listUsers_def api_createUser_def api_updateUser_def
  api_deleteUser_def api_listMountpoints_def api_createMountpoint_def api_updateMountpoint_def
  api_deleteMountpoint_def api_listBindings_def api_listUserBindings_def api_createBinding_def
  api_deleteBinding_def api_listSources_def api_listClients_def api_kickSource_def
  api_kickClient_def api_getStats_def with_body_def with_method_def no_options_def

section \<open>Query parameters survive the trip\<close>

lemma map_of_params_set [simp]: "map_of (params_set k v ps) k' = (if k' = k then Some v else map_of ps k')"
proof (induction ps rule: params_set.induct [of _ k v])
  case (2 k v k2 v2 ps)
  have "map_of (filter (\<lambda>p. fst p \<noteq> k) ps) k' = (if k' = k then None else map_of ps k')"
    by (induction ps) auto
  with 2 show ?case by auto
qed simp

lemma query_get_set_num:
  "query_get (set_num k x ps) k' =
     (if k' = k \<and> truthy_num x then int_str (the x) else query_get ps k')"
  by (simp add: set_num_def query_get_def)

lemma query_get_set_str:
  "query_get (set_str k x ps) k' =
     (if k' = k \<and> truthy_str x then the x else query_get ps k')"
  by (simp add: set_str_def query_get_def)

lemma query_get_Nil [simp]: "query_get [] k = []"
  by (simp add: query_get_def)

lemmas query_get_simps = query_get_set_num query_get_set_str

text \<open>The query part of a request path, as \<open>r.URL.Query()\<close> reads it.\<close>

definition url_query :: "string \<Rightarrow> params" where
  "url_query path = go_parse_query (snd (cut CHR ''?'' path))"

lemma url_query_with_query:
  assumes "CHR ''?'' \<notin> set base"
  shows "url_query (with_query base ps) = ps"
proof (cases "ps = []")
  case True
  with assms show ?thesis
    by (simp add: url_query_def with_query_def cut_def params_str_def go_parse_query_def
        go_parse_pair.simps)
next
  case False
  then have "params_str ps \<noteq> []" by (rule params_str_nonempty)
  with assms show ?thesis
    by (simp add: url_query_def with_query_def cut_def go_parse_query_params_str)
qed

section \<open>Properties\<close>

text \<open>
  C30. What \<open>request\<close> makes of an answer: it returns a value exactly for a 2xx status with a
  JSON body, it sends the browser to the login page exactly for a 401 on another request than
  the login while another page is shown, and a 401 always throws.
\<close>

theorem request_outcomes:
  "(rr_result (request fetch pathname path options) = Inr v \<longleftrightarrow>
      (\<exists>st. 200 \<le> st \<and> st \<le> 299 \<and> fetch (fetch_args path options) = Response st (Inr v)))
   \<and> (rr_redirect (request fetch pathname path options) \<noteq> None \<longleftrightarrow>
      (\<exists>b. fetch (fetch_args path options) = Response 401 b)
      \<and> \<not> ends_with path ''/api/login'' \<and> pathname \<noteq> ''/login'')
   \<and> (fetch (fetch_args path options) = Response 401 b \<longrightarrow>
      rr_result (request fetch pathname path options) = Inl (ApiError ''Unauthorized'' 401))"
proof (cases "fetch (fetch_args path options)")
  case (Rejected m)
  then show ?thesis by (simp add: request_def handle_response_def)
next
  case (Response st body)
  then show ?thesis
    by (cases body) (auto simp: request_def handle_response_def split: sum.split)
qed

theorem request_outcomes_witness:
  "rr_result (request (\<lambda>r. Response 401 (Inr JNull)) ''/users'' ''/api/users'' no_options)
     = Inl (ApiError ''Unauthorized'' 401)"
  using request_outcomes [of "\<lambda>r. Response 401 (Inr JNull)" "''/users''" "''/api/users''" no_options JNull "Inr JNull"]
  by simp

end
