(* ===== verification/Api_Hooks.thy ===== *)
theory Api_Hooks
  imports Api_Client "HOL-Library.Sublist"
begin

text \<open>
  \<open>web/src/api/hooks.ts\<close>: the query keys, the options each query hook passes to
  \<open>useQuery\<close> and each mutation hook to \<open>useMutation\<close>. The query client itself
  (\<open>@tanstack/react-query\<close>) is not part of the repository: its \<open>invalidateQueries\<close> is an
  argument of \<open>mutateAsync\<close>.
\<close>

section \<open>Query keys\<close>

datatype key_part =
    K_name string
  | K_users "list_users_params option"
  | K_mountpoints "list_mountpoints_params option"
  | K_num int

type_synonym query_key = "key_part list"

definition users_key :: "list_users_params option \<Rightarrow> query_key" where
  "users_key params = [K_name ''users'', K_users params]"

definition usersAll_key :: query_key where
  "usersAll_key = [K_name ''users'']"

definition mountpoints_key :: "list_mountpoints_params option \<Rightarrow> query_key" where
  "mountpoints_key params = [K_name ''mountpoints'', K_mountpoints params]"

definition mountpointsAll_key :: query_key where
  "mountpointsAll_key = [K_name ''mountpoints'']"

definition bindings_key :: query_key where
  "bindings_key = [K_name ''bindings'']"

definition sources_key :: query_key where
  "sources_key = [K_name ''sources'']"

definition clients_key :: query_key where
  "clients_key = [K_name ''clients'']"

definition stats_key :: query_key where
  "stats_key = [K_name ''stats'']"

lemmas key_defs = users_key_def usersAll_key_def mountpoints_key_def mountpointsAll_key_def
  bindings_key_def sources_key_def clients_key_def stats_key_def

section \<open>Queries\<close>

record query_options =
  qo_queryKey :: query_key
  qo_queryFn :: api_call
  qo_refetchInterval :: "int option"
  qo_enabled :: bool

definition plain_query :: "query_key \<Rightarrow> api_call \<Rightarrow> query_options" where
  "plain_query k f = \<lparr>qo_queryKey = k, qo_queryFn = f, qo_refetchInterval = None, qo_enabled = True\<rparr>"

definition useStats :: query_options where
  "useStats = (plain_query stats_key api_getStats)\<lparr>qo_refetchInterval := Some 5000\<rparr>"

definition useUsers :: "list_users_params option \<Rightarrow> query_options" where
  "useUsers params = plain_query (users_key params) (api_listUsers params)"

definition useMountpoints :: "list_mountpoints_params option \<Rightarrow> query_options" where
  "useMountpoints params = plain_query (mountpoints_key params) (api_listMountpoints params)"

definition useBindings :: query_options where
  "useBindings = plain_query bindings_key api_listBindings"

definition useUserBindings :: "int \<Rightarrow> query_options" where
  "useUserBindings userId =
     (plain_query (bindings_key @ [K_num userId]) (api_listUserBindings userId))
       \<lparr>qo_enabled := userId > 0\<rparr>"

definition useSources :: query_options where
  "useSources = (plain_query sources_key api_listSources)\<lparr>qo_refetchInterval := Some 10000\<rparr>"

definition useClients :: query_options where
  "useClients = (plain_query clients_key api_listClients)\<lparr>qo_refetchInterval := Some 10000\<rparr>"

section \<open>Mutations\<close>

record mutation_options =
  mo_mutationFn :: api_call
  mo_invalidates :: "query_key list"

definition useCreateUser :: "create_user_req \<Rightarrow> mutation_options" where
  "useCreateUser data = \<lparr>mo_mutationFn = api_createUser data, mo_invalidates = [usersAll_key]\<rparr>"

definition useUpdateUser :: "int \<Rightarrow> update_user_req \<Rightarrow> mutation_options" where
  "useUpdateUser uid data =
     \<lparr>mo_mutationFn = api_updateUser uid data, mo_invalidates = [usersAll_key]\<rparr>"

definition useDeleteUser :: "int \<Rightarrow> mutation_options" where
  "useDeleteUser uid = \<lparr>mo_mutationFn = api_deleteUser uid, mo_invalidates = [usersAll_key]\<rparr>"

definition useCreateMountpoint :: "create_mountpoint_req \<Rightarrow> mutation_options" where
  "useCreateMountpoint data =
     \<lparr>mo_mutationFn = api_createMountpoint data, mo_invalidates = [mountpointsAll_key]\<rparr>"

definition useUpdateMountpoint :: "int \<Rightarrow> update_mountpoint_req \<Rightarrow> mutation_options" where
  "useUpdateMountpoint mid data =
     \<lparr>mo_mutationFn = api_updateMountpoint mid data, mo_invalidates = [mountpointsAll_key]\<rparr>"

definition useDeleteMountpoint :: "int \<Rightarrow> mutation_options" where
  "useDeleteMountpoint mid =
     \<lparr>mo_mutationFn = api_deleteMountpoint mid, mo_invalidates = [mountpointsAll_key]\<rparr>"

definition useCreateBinding :: "create_binding_req \<Rightarrow> mutation_options" where
  "useCreateBinding data =
     \<lparr>mo_mutationFn = api_createBinding data, mo_invalidates = [bindings_key]\<rparr>"

definition useDeleteBinding :: "int \<Rightarrow> mutation_options" where
  "useDeleteBinding bid =
     \<lparr>mo_mutationFn = api_deleteBinding bid, mo_invalidates = [bindings_key]\<rparr>"

definition useKickSource :: "string \<Rightarrow> mutation_options" where
  "useKickSource mount =
     \<lparr>mo_mutationFn = api_kickSource mount, mo_invalidates = [sources_key, stats_key]\<rparr>"

definition useKickClient :: "string \<Rightarrow> mutation_options" where
  "useKickClient cid =
     \<lparr>mo_mutationFn = api_kickClient cid, mo_invalidates = [clients_key, stats_key]\<rparr>"

text \<open>A call of one of the mutation hooks with its variables.\<close>

datatype mutation =
    Create_user create_user_req
  | Update_user int update_user_req
  | Delete_user int
  | Create_mountpoint create_mountpoint_req
  | Update_mountpoint int update_mountpoint_req
  | Delete_mountpoint int
  | Create_binding create_binding_req
  | Delete_binding int
  | Kick_source string
  | Kick_client string

fun mutation_hook :: "mutation \<Rightarrow> mutation_options" where
  "mutation_hook (Create_user d) = useCreateUser d"
| "mutation_hook (Update_user i d) = useUpdateUser i d"
| "mutation_hook (Delete_user i) = useDeleteUser i"
| "mutation_hook (Create_mountpoint d) = useCreateMountpoint d"
| "mutation_hook (Update_mountpoint i d) = useUpdateMountpoint i d"
| "mutation_hook (Delete_mountpoint i) = useDeleteMountpoint i"
| "mutation_hook (Create_binding d) = useCreateBinding d"
| "mutation_hook (Delete_binding i) = useDeleteBinding i"
| "mutation_hook (Kick_source m) = useKickSource m"
| "mutation_hook (Kick_client c) = useKickClient c"

lemmas mutation_hook_defs = useCreateUser_def useUpdateUser_def useDeleteUser_def
  useCreateMountpoint_def useUpdateMountpoint_def useDeleteMountpoint_def useCreateBinding_def
  useDeleteBinding_def useKickSource_def useKickClient_def

text \<open>
  \<open>mutateAsync\<close>: the request, then on success the invalidations of \<open>onSuccess\<close> in order,
  and the outcome of the request as the outcome of the promise.
\<close>

definition mutateAsync ::
  "(query_key \<Rightarrow> 'c \<Rightarrow> 'c) \<Rightarrow> (http_request \<Rightarrow> fetch_outcome) \<Rightarrow> string \<Rightarrow> mutation_options \<Rightarrow> 'c
   \<Rightarrow> request_result \<times> 'c" where
  "mutateAsync invalidateQueries fetch pathname m cache =
     (let r = request fetch pathname (fst (mo_mutationFn m)) (snd (mo_mutationFn m))
      in (r, case rr_result r of
               Inl e \<Rightarrow> cache
             | Inr v \<Rightarrow> fold invalidateQueries (mo_invalidates m) cache))"

section \<open>Which queries a mutation refreshes\<close>

text \<open>The resource names whose queries a mutation is to refresh.\<close>

fun mutation_scopes :: "mutation \<Rightarrow> string set" where
  "mutation_scopes (Create_user d) = {''users''}"
| "mutation_scopes (Update_user i d) = {''users''}"
| "mutation_scopes (Delete_user i) = {''users''}"
| "mutation_scopes (Create_mountpoint d) = {''mountpoints''}"
| "mutation_scopes (Update_mountpoint i d) = {''mountpoints''}"
| "mutation_scopes (Delete_mountpoint i) = {''mountpoints''}"
| "mutation_scopes (Create_binding d) = {''bindings''}"
| "mutation_scopes (Delete_binding i) = {''bindings''}"
| "mutation_scopes (Kick_source m) = {''sources'', ''stats''}"
| "mutation_scopes (Kick_client c) = {''clients'', ''stats''}"

lemma fold_invalidate:
  assumes "\<And>k c q. stale (invq k c) q \<longleftrightarrow> stale c q \<or> prefix k q"
  shows "stale (fold invq ks c) q \<longleftrightarrow> stale c q \<or> (\<exists>k \<in> set ks. prefix k q)"
  by (induction ks arbitrary: c) (auto simp: assms)

lemma mutation_keys:
  "(\<exists>k \<in> set (mo_invalidates (mutation_hook m)). prefix k q)
     \<longleftrightarrow> (\<exists>s rest. q = K_name s # rest \<and> s \<in> mutation_scopes m)"
  by (cases m) (auto simp: mutation_hook_defs key_defs prefix_def)

section \<open>The queries as one type\<close>

datatype query =
    Q_stats
  | Q_users "list_users_params option"
  | Q_mountpoints "list_mountpoints_params option"
  | Q_bindings
  | Q_userBindings int
  | Q_sources
  | Q_clients

fun query_hook :: "query \<Rightarrow> query_options" where
  "query_hook Q_stats = useStats"
| "query_hook (Q_users p) = useUsers p"
| "query_hook (Q_mountpoints p) = useMountpoints p"
| "query_hook Q_bindings = useBindings"
| "query_hook (Q_userBindings i) = useUserBindings i"
| "query_hook Q_sources = useSources"
| "query_hook Q_clients = useClients"

lemmas query_hook_defs = useStats_def useUsers_def useMountpoints_def useBindings_def
  useUserBindings_def useSources_def useClients_def plain_query_def

section \<open>Properties\<close>

text \<open>
  Two query hooks that share a cache entry (the same query key) send the same request, so an
  entry never holds the answer of another request.
\<close>

theorem query_key_determines_request:
  assumes "qo_queryKey (query_hook q) = qo_queryKey (query_hook r)"
  shows "qo_queryFn (query_hook q) = qo_queryFn (query_hook r)"
  using assms by (cases q; cases r) (simp_all add: query_hook_defs key_defs)

theorem query_key_determines_request_witness:
  "qo_queryFn (query_hook (Q_userBindings 4)) = qo_queryFn (query_hook (Q_userBindings 4))"
  by (rule query_key_determines_request) simp

text \<open>
  A mutation that succeeds marks exactly the queries of its own resources as stale, whatever
  their parameters, and one that fails leaves the cache as it is. \<open>invalidateQueries\<close> with a
  key is documented to invalidate the queries whose key starts with it.
\<close>

theorem mutation_refreshes_its_scopes:
  assumes "\<And>k c q. stale (invalidateQueries k c) q \<longleftrightarrow> stale c q \<or> prefix k q"
  shows "stale (snd (mutateAsync invalidateQueries fetch pathname (mutation_hook m) cache)) q \<longleftrightarrow>
    stale cache q
    \<or> (\<exists>v. rr_result (fst (mutateAsync invalidateQueries fetch pathname (mutation_hook m) cache)) = Inr v)
      \<and> (\<exists>s rest. q = K_name s # rest \<and> s \<in> mutation_scopes m)"
proof (cases "rr_result (request fetch pathname (fst (mo_mutationFn (mutation_hook m))) (snd (mo_mutationFn (mutation_hook m))))")
  case (Inl e)
  then show ?thesis by (simp add: mutateAsync_def Let_def)
next
  case (Inr v)
  then show ?thesis
    using fold_invalidate [of stale invalidateQueries "mo_invalidates (mutation_hook m)" cache q, OF assms]
    by (simp add: mutateAsync_def Let_def mutation_keys)
qed

theorem mutation_refreshes_its_scopes_witness:
  "[K_name ''users'', K_users None]
     \<in> snd (mutateAsync (\<lambda>k c. c \<union> {q. prefix k q}) (\<lambda>r. Response 200 (Inr JNull)) ''/users''
              (mutation_hook (Delete_user 7)) {})"
proof -
  have "rr_result (fst (mutateAsync (\<lambda>k c. c \<union> {q. prefix k q}) (\<lambda>r. Response 200 (Inr JNull)) ''/users''
          (mutation_hook (Delete_user 7)) {})) = Inr JNull"
    by (simp add: mutateAsync_def Let_def request_def handle_response_def)
  with mutation_refreshes_its_scopes [of "\<lambda>c q. q \<in> c" "\<lambda>k c. c \<union> {q. prefix k q}"
      "\<lambda>r. Response 200 (Inr JNull)" "''/users''" "Delete_user 7" "{}" "[K_name ''users'', K_users None]"]
  show ?thesis by simp
qed

end
