(* ===== verification/Texts.thy ===== *)
theory Texts
  imports Prelude
begin

text \<open>
  The literals of the user interface under \<open>web/src\<close> that are not ASCII, by their code points.
  The name says what the text means.
\<close>

definition txt_dashboard_title :: string where
  "txt_dashboard_title = utf8
    [0x4EEA, 0x8868, 0x76D8]"

definition txt_prev_page :: string where
  "txt_prev_page = utf8
    [0x4E0A, 0x4E00, 0x9875]"

definition txt_next_page :: string where
  "txt_next_page = utf8
    [0x4E0B, 0x4E00, 0x9875]"

definition txt_total_prefix :: string where
  "txt_total_prefix = utf8
    [0x5171, 0x0020]"

definition txt_total_suffix :: string where
  "txt_total_suffix = utf8
    [0x0020, 0x6761]"

definition txt_dash :: string where
  "txt_dash = utf8
    [0x2014]"

definition txt_bullets :: string where
  "txt_bullets = utf8
    [0x2022, 0x2022, 0x2022, 0x2022, 0x2022, 0x2022]"

definition txt_save :: string where
  "txt_save = utf8
    [0x4FDD, 0x5B58]"

definition txt_saving :: string where
  "txt_saving = utf8
    [0x4FDD, 0x5B58, 0x4E2D, 0x2026]"

definition txt_create :: string where
  "txt_create = utf8
    [0x521B, 0x5EFA]"

definition txt_creating :: string where
  "txt_creating = utf8
    [0x521B, 0x5EFA, 0x4E2D, 0x2026]"

definition txt_create_failed :: string where
  "txt_create_failed = utf8
    [0x521B, 0x5EFA, 0x5931, 0x8D25]"

definition txt_delete :: string where
  "txt_delete = utf8
    [0x5220, 0x9664]"

definition txt_delete_failed :: string where
  "txt_delete_failed = utf8
    [0x5220, 0x9664, 0x5931, 0x8D25]"

definition txt_update_failed :: string where
  "txt_update_failed = utf8
    [0x66F4, 0x65B0, 0x5931, 0x8D25]"

definition txt_cancel :: string where
  "txt_cancel = utf8
    [0x53D6, 0x6D88]"

definition txt_edit :: string where
  "txt_edit = utf8
    [0x7F16, 0x8F91]"

definition txt_confirm_delete :: string where
  "txt_confirm_delete = utf8
    [0x786E, 0x8BA4, 0x5220, 0x9664]"

definition txt_enabled :: string where
  "txt_enabled = utf8
    [0x542F, 0x7528]"

definition txt_disabled :: string where
  "txt_disabled = utf8
    [0x7981, 0x7528]"

definition txt_all_roles :: string where
  "txt_all_roles = utf8
    [0x5168, 0x90E8, 0x89D2, 0x8272]"

definition txt_all_status :: string where
  "txt_all_status = utf8
    [0x5168, 0x90E8, 0x72B6, 0x6001]"

definition txt_all_formats :: string where
  "txt_all_formats = utf8
    [0x5168, 0x90E8, 0x683C, 0x5F0F]"

definition txt_all_mounts :: string where
  "txt_all_mounts = utf8
    [0x5168, 0x90E8, 0x6302, 0x8F7D, 0x70B9]"

definition txt_user_created :: string where
  "txt_user_created = utf8
    [0x7528, 0x6237, 0x521B, 0x5EFA, 0x6210, 0x529F]"

definition txt_user_updated :: string where
  "txt_user_updated = utf8
    [0x7528, 0x6237, 0x66F4, 0x65B0, 0x6210, 0x529F]"

definition txt_user_deleted :: string where
  "txt_user_deleted = utf8
    [0x7528, 0x6237, 0x5DF2, 0x5220, 0x9664]"

definition txt_user_admin :: string where
  "txt_user_admin = utf8
    [0x7528, 0x6237, 0x7BA1, 0x7406]"

definition txt_create_user :: string where
  "txt_create_user = utf8
    [0x521B, 0x5EFA, 0x7528, 0x6237]"

definition txt_search_username :: string where
  "txt_search_username = utf8
    [0x641C, 0x7D22, 0x7528, 0x6237, 0x540D]"

definition txt_username :: string where
  "txt_username = utf8
    [0x7528, 0x6237, 0x540D]"

definition txt_password :: string where
  "txt_password = utf8
    [0x5BC6, 0x7801]"

definition txt_role :: string where
  "txt_role = utf8
    [0x89D2, 0x8272]"

definition txt_mountpoint :: string where
  "txt_mountpoint = utf8
    [0x6302, 0x8F7D, 0x70B9]"

definition txt_status :: string where
  "txt_status = utf8
    [0x72B6, 0x6001]"

definition txt_actions :: string where
  "txt_actions = utf8
    [0x64CD, 0x4F5C]"

definition txt_no_users :: string where
  "txt_no_users = utf8
    [0x6682, 0x65E0, 0x7528, 0x6237]"

definition txt_edit_user :: string where
  "txt_edit_user = utf8
    [0x7F16, 0x8F91, 0x7528, 0x6237, 0x003A, 0x0020]"

definition txt_reset_password :: string where
  "txt_reset_password = utf8
    [0x91CD, 0x7F6E, 0x5BC6, 0x7801, 0xFF08, 0x7559, 0x7A7A, 0x5219, 0x4E0D, 0x4FEE,
     0x6539, 0xFF09]"

definition txt_new_password :: string where
  "txt_new_password = utf8
    [0x65B0, 0x5BC6, 0x7801]"

definition txt_delete_user_q :: string where
  "txt_delete_user_q = utf8
    [0x786E, 0x5B9A, 0x8981, 0x5220, 0x9664, 0x7528, 0x6237, 0x0020]"

definition txt_irrevocable :: string where
  "txt_irrevocable = utf8
    [0x0020, 0x5417, 0xFF1F, 0x6B64, 0x64CD, 0x4F5C, 0x4E0D, 0x53EF, 0x64A4, 0x9500,
     0x3002]"

definition txt_accessible_mounts :: string where
  "txt_accessible_mounts = utf8
    [0x53EF, 0x8BBF, 0x95EE, 0x7684, 0x6302, 0x8F7D, 0x70B9]"

definition txt_binding_hint :: string where
  "txt_binding_hint = utf8
    [0x0062, 0x0061, 0x0073, 0x0065, 0x0020, 0x7528, 0x6237, 0x7ED1, 0x5B9A, 0x540E,
     0x53EF, 0x63A8, 0x6D41, 0xFF0C, 0x0072, 0x006F, 0x0076, 0x0065, 0x0072, 0x0020,
     0x7528, 0x6237, 0x7ED1, 0x5B9A, 0x540E, 0x53EF, 0x8BA2, 0x9605]"

definition txt_no_bindings :: string where
  "txt_no_bindings = utf8
    [0x6682, 0x65E0, 0x7ED1, 0x5B9A, 0x5173, 0x7CFB]"

definition txt_choose_mount :: string where
  "txt_choose_mount = utf8
    [0x9009, 0x62E9, 0x6302, 0x8F7D, 0x70B9]"

definition txt_binding_added :: string where
  "txt_binding_added = utf8
    [0x7ED1, 0x5B9A, 0x6DFB, 0x52A0, 0x6210, 0x529F]"

definition txt_add_failed :: string where
  "txt_add_failed = utf8
    [0x6DFB, 0x52A0, 0x5931, 0x8D25]"

definition txt_binding_removed :: string where
  "txt_binding_removed = utf8
    [0x7ED1, 0x5B9A, 0x5DF2, 0x79FB, 0x9664]"

definition txt_remove_failed :: string where
  "txt_remove_failed = utf8
    [0x79FB, 0x9664, 0x5931, 0x8D25]"

definition txt_mount_created :: string where
  "txt_mount_created = utf8
    [0x6302, 0x8F7D, 0x70B9, 0x521B, 0x5EFA, 0x6210, 0x529F]"

definition txt_mount_updated :: string where
  "txt_mount_updated = utf8
    [0x6302, 0x8F7D, 0x70B9, 0x66F4, 0x65B0, 0x6210, 0x529F]"

definition txt_mount_deleted :: string where
  "txt_mount_deleted = utf8
    [0x6302, 0x8F7D, 0x70B9, 0x5DF2, 0x5220, 0x9664]"

definition txt_mount_admin :: string where
  "txt_mount_admin = utf8
    [0x6302, 0x8F7D, 0x70B9, 0x7BA1, 0x7406]"

definition txt_create_mount :: string where
  "txt_create_mount = utf8
    [0x521B, 0x5EFA, 0x6302, 0x8F7D, 0x70B9]"

definition txt_search_mount :: string where
  "txt_search_mount = utf8
    [0x641C, 0x7D22, 0x6302, 0x8F7D, 0x70B9, 0x540D, 0x79F0]"

definition txt_mname :: string where
  "txt_mname = utf8
    [0x540D, 0x79F0]"

definition txt_mdesc :: string where
  "txt_mdesc = utf8
    [0x63CF, 0x8FF0]"

definition txt_mformat :: string where
  "txt_mformat = utf8
    [0x683C, 0x5F0F]"

definition txt_clients :: string where
  "txt_clients = utf8
    [0x5BA2, 0x6237, 0x7AEF]"

definition txt_no_mounts :: string where
  "txt_no_mounts = utf8
    [0x6682, 0x65E0, 0x6302, 0x8F7D, 0x70B9]"

definition txt_online :: string where
  "txt_online = utf8
    [0x5728, 0x7EBF]"

definition txt_offline :: string where
  "txt_offline = utf8
    [0x79BB, 0x7EBF]"

definition txt_position :: string where
  "txt_position = utf8
    [0x4F4D, 0x7F6E]"

definition txt_desc_placeholder :: string where
  "txt_desc_placeholder = utf8
    [0x57FA, 0x7AD9, 0x63CF, 0x8FF0]"

definition txt_choose_format :: string where
  "txt_choose_format = utf8
    [0x9009, 0x62E9, 0x683C, 0x5F0F]"

definition txt_source_secret :: string where
  "txt_source_secret = utf8
    [0x57FA, 0x7AD9, 0x5BC6, 0x7801, 0xFF08, 0x53EF, 0x9009, 0xFF09]"

definition txt_secret_placeholder :: string where
  "txt_secret_placeholder = utf8
    [0x7528, 0x4E8E, 0x0020, 0x0053, 0x004F, 0x0055, 0x0052, 0x0043, 0x0045, 0x0020,
     0x003C, 0x0070, 0x0061, 0x0073, 0x0073, 0x0077, 0x006F, 0x0072, 0x0064, 0x003E,
     0x0020, 0x8BA4, 0x8BC1]"

definition txt_secret_hint :: string where
  "txt_secret_hint = utf8
    [0x517C, 0x5BB9, 0x53EA, 0x53D1, 0x9001, 0x0020, 0x0053, 0x004F, 0x0055, 0x0052,
     0x0043, 0x0045, 0x0020, 0x0070, 0x0061, 0x0073, 0x0073, 0x0077, 0x006F, 0x0072,
     0x0064, 0x3001, 0x4E0D, 0x53D1, 0x9001, 0x0020, 0x0041, 0x0075, 0x0074, 0x0068,
     0x006F, 0x0072, 0x0069, 0x007A, 0x0061, 0x0074, 0x0069, 0x006F, 0x006E, 0x0020,
     0x7684, 0x65E7, 0x57FA, 0x7AD9, 0x8BBE, 0x5907]"

definition txt_max_clients :: string where
  "txt_max_clients = utf8
    [0x6700, 0x5927, 0x5BA2, 0x6237, 0x7AEF, 0x6570]"

definition txt_zero_unlimited :: string where
  "txt_zero_unlimited = utf8
    [0x0030, 0x0020, 0x8868, 0x793A, 0x65E0, 0x9650, 0x5236]"

definition txt_limit_hint :: string where
  "txt_limit_hint = utf8
    [0x9650, 0x5236, 0x8BE5, 0x6302, 0x8F7D, 0x70B9, 0x5141, 0x8BB8, 0x7684, 0x0020,
     0x0052, 0x006F, 0x0076, 0x0065, 0x0072, 0x0020, 0x8FDE, 0x63A5, 0x6570, 0xFF0C,
     0x0030, 0x0020, 0x8868, 0x793A, 0x65E0, 0x9650, 0x5236]"

definition txt_edit_mount :: string where
  "txt_edit_mount = utf8
    [0x7F16, 0x8F91, 0x6302, 0x8F7D, 0x70B9, 0x003A, 0x0020]"

definition txt_change_secret :: string where
  "txt_change_secret = utf8
    [0x4FEE, 0x6539, 0x57FA, 0x7AD9, 0x5BC6, 0x7801, 0xFF08, 0x7559, 0x7A7A, 0x5219,
     0x4E0D, 0x4FEE, 0x6539, 0xFF09]"

definition txt_enter_password :: string where
  "txt_enter_password = utf8
    [0x8F93, 0x5165, 0x65B0, 0x5BC6, 0x7801]"

definition txt_clear :: string where
  "txt_clear = utf8
    [0x6E05, 0x7A7A]"

definition txt_clear_hint :: string where
  "txt_clear_hint = utf8
    [0x6E05, 0x7A7A, 0x540E, 0xFF0C, 0x4EC5, 0x652F, 0x6301, 0x5E26, 0x0020, 0x0041,
     0x0075, 0x0074, 0x0068, 0x006F, 0x0072, 0x0069, 0x007A, 0x0061, 0x0074, 0x0069,
     0x006F, 0x006E, 0x0020, 0x7684, 0x57FA, 0x7AD9, 0xFF08, 0x6216, 0x5173, 0x95ED,
     0x8BA4, 0x8BC1, 0xFF09]"

definition txt_delete_mount_q :: string where
  "txt_delete_mount_q = utf8
    [0x786E, 0x5B9A, 0x8981, 0x5220, 0x9664, 0x6302, 0x8F7D, 0x70B9, 0x0020]"

definition txt_question :: string where
  "txt_question = utf8
    [0x0020, 0x5417, 0xFF1F]"

definition txt_source_online_warn :: string where
  "txt_source_online_warn = utf8
    [0x0020, 0x5F53, 0x524D, 0x0020, 0x0053, 0x006F, 0x0075, 0x0072, 0x0063, 0x0065,
     0x0020, 0x5728, 0x7EBF, 0xFF0C, 0x5220, 0x9664, 0x540E, 0x8FDE, 0x63A5, 0x5C06,
     0x65AD, 0x5F00, 0x3002]"

definition txt_clients_warn_1 :: string where
  "txt_clients_warn_1 = utf8
    [0x0020, 0x5F53, 0x524D, 0x6709, 0x0020]"

definition txt_clients_warn_2 :: string where
  "txt_clients_warn_2 = utf8
    [0x0020, 0x4E2A, 0x5BA2, 0x6237, 0x7AEF, 0x8FDE, 0x63A5, 0x3002]"

definition txt_login :: string where
  "txt_login = utf8
    [0x767B, 0x5F55]"

definition txt_logging_in :: string where
  "txt_logging_in = utf8
    [0x767B, 0x5F55, 0x4E2D, 0x2026]"

definition txt_login_failed :: string where
  "txt_login_failed = utf8
    [0x767B, 0x5F55, 0x5931, 0x8D25]"

definition txt_console :: string where
  "txt_console = utf8
    [0x7BA1, 0x7406, 0x63A7, 0x5236, 0x53F0]"

definition txt_overview :: string where
  "txt_overview = utf8
    [0x6982, 0x89C8]"

definition txt_connections :: string where
  "txt_connections = utf8
    [0x8FDE, 0x63A5, 0x76D1, 0x63A7]"

definition txt_station_map :: string where
  "txt_station_map = utf8
    [0x57FA, 0x7AD9, 0x5730, 0x56FE]"

definition txt_logout :: string where
  "txt_logout = utf8
    [0x9000, 0x51FA, 0x767B, 0x5F55]"

definition txt_page_not_found :: string where
  "txt_page_not_found = utf8
    [0x9875, 0x9762, 0x672A, 0x627E, 0x5230]"

definition txt_back_home :: string where
  "txt_back_home = utf8
    [0x8FD4, 0x56DE, 0x9996, 0x9875]"

definition txt_online_rover :: string where
  "txt_online_rover = utf8
    [0x5728, 0x7EBF, 0x0020, 0x0052, 0x006F, 0x0076, 0x0065, 0x0072]"

definition txt_online_source :: string where
  "txt_online_source = utf8
    [0x5728, 0x7EBF, 0x0020, 0x0053, 0x006F, 0x0075, 0x0072, 0x0063, 0x0065]"

definition txt_active_mounts :: string where
  "txt_active_mounts = utf8
    [0x6D3B, 0x8DC3, 0x6302, 0x8F7D, 0x70B9]"

definition txt_slow_clients :: string where
  "txt_slow_clients = utf8
    [0x6162, 0x5BA2, 0x6237, 0x7AEF]"

definition txt_mount_status :: string where
  "txt_mount_status = utf8
    [0x6302, 0x8F7D, 0x70B9, 0x72B6, 0x6001]"

definition txt_inflow :: string where
  "txt_inflow = utf8
    [0x6D41, 0x5165]"

definition txt_outflow :: string where
  "txt_outflow = utf8
    [0x6D41, 0x51FA]"

definition txt_kick_count :: string where
  "txt_kick_count = utf8
    [0x8E22, 0x9664, 0x6B21, 0x6570]"

definition txt_username_search :: string where
  "txt_username_search = utf8
    [0x7528, 0x6237, 0x540D, 0x641C, 0x7D22]"

definition txt_none_online :: string where
  "txt_none_online = utf8
    [0x65E0, 0x5728, 0x7EBF, 0x0020]"

definition txt_user :: string where
  "txt_user = utf8
    [0x7528, 0x6237]"

definition txt_inbound :: string where
  "txt_inbound = utf8
    [0x5165, 0x7AD9, 0x6D41, 0x91CF]"

definition txt_outbound :: string where
  "txt_outbound = utf8
    [0x51FA, 0x7AD9, 0x6D41, 0x91CF]"

definition txt_duration :: string where
  "txt_duration = utf8
    [0x65F6, 0x957F]"

definition txt_kick :: string where
  "txt_kick = utf8
    [0x8E22, 0x9664]"

definition txt_kick_failed :: string where
  "txt_kick_failed = utf8
    [0x8E22, 0x9664, 0x5931, 0x8D25]"

definition txt_kicked_1 :: string where
  "txt_kicked_1 = utf8
    [0x0053, 0x006F, 0x0075, 0x0072, 0x0063, 0x0065, 0x0020, 0x5DF2, 0x4ECE, 0x0020]"

definition txt_kicked_2 :: string where
  "txt_kicked_2 = utf8
    [0x0020, 0x8E22, 0x9664]"

definition txt_client_kicked :: string where
  "txt_client_kicked = utf8
    [0x0043, 0x006C, 0x0069, 0x0065, 0x006E, 0x0074, 0x0020, 0x5DF2, 0x8E22, 0x9664]"

definition txt_confirm_kick_source :: string where
  "txt_confirm_kick_source = utf8
    [0x786E, 0x8BA4, 0x8E22, 0x9664, 0x0020, 0x0053, 0x006F, 0x0075, 0x0072, 0x0063,
     0x0065]"

definition txt_confirm_kick_client :: string where
  "txt_confirm_kick_client = utf8
    [0x786E, 0x8BA4, 0x8E22, 0x9664, 0x0020, 0x0043, 0x006C, 0x0069, 0x0065, 0x006E,
     0x0074]"

definition txt_kick_source_q :: string where
  "txt_kick_source_q = utf8
    [0x786E, 0x5B9A, 0x8981, 0x8E22, 0x9664, 0x6302, 0x8F7D, 0x70B9, 0x0020]"

definition txt_kick_source_r :: string where
  "txt_kick_source_r = utf8
    [0x0020, 0x7684, 0x0020, 0x0053, 0x006F, 0x0075, 0x0072, 0x0063, 0x0065, 0x0020,
     0x5417, 0xFF1F, 0x8BE5, 0x6302, 0x8F7D, 0x70B9, 0x5C06, 0x53D8, 0x4E3A, 0x79BB,
     0x7EBF, 0x72B6, 0x6001, 0x3002]"

definition txt_kick_client_r :: string where
  "txt_kick_client_r = utf8
    [0x0020, 0x4E0A, 0x7684, 0x0020, 0x0043, 0x006C, 0x0069, 0x0065, 0x006E, 0x0074,
     0x0020]"

definition txt_with_position :: string where
  "txt_with_position = utf8
    [0x0020, 0x4E2A, 0x6709, 0x4F4D, 0x7F6E, 0x6570, 0x636E]"

definition txt_no_desc :: string where
  "txt_no_desc = utf8
    [0x65E0, 0x63CF, 0x8FF0]"

definition txt_lat :: string where
  "txt_lat = utf8
    [0x7EAC, 0x5EA6, 0xFF1A]"

definition txt_lon :: string where
  "txt_lon = utf8
    [0x7ECF, 0x5EA6, 0xFF1A]"

definition txt_height :: string where
  "txt_height = utf8
    [0x9AD8, 0x5EA6, 0xFF1A]"

definition txt_state_label :: string where
  "txt_state_label = utf8
    [0x72B6, 0x6001, 0xFF1A]"

definition txt_updated :: string where
  "txt_updated = utf8
    [0x66F4, 0x65B0, 0xFF1A]"

definition txt_unknown :: string where
  "txt_unknown = utf8
    [0x672A, 0x77E5]"

end
