(* ===== verification/Ui.thy ===== *)
theory Ui
  imports Api_Hooks Texts
begin

text \<open>
  Rendered trees and page effects. A component's JSX is a tree of elements with the attributes
  that carry state or behaviour; class names, sizes, icons and other attributes that only style
  the page are left out, and so are wrapper elements that only lay their children out. A handler is the event it dispatches to the page's step function, or a
  function from the value the browser passes to it.

  \<open>fires\<close> is the set of events the user can cause on a rendered tree: a disabled control
  dispatches nothing, a closed dialog shows nothing, a \<open>Select\<close> offers the values of its
  items or \<open>null\<close>, a text field any text, a switch or a dialog both booleans.
\<close>

section \<open>Trees\<close>

datatype 'e attr =
    A_str string string
  | A_num string int
  | A_flag string bool
  | On string 'e
  | On_text string "string \<Rightarrow> 'e"
  | On_select string "string option \<Rightarrow> 'e"
  | On_flag string "bool \<Rightarrow> 'e"

datatype 'e node =
    Txt string
  | Elem string "'e attr list" "'e node list"

abbreviation "el0 t ns \<equiv> Elem t [] ns"
abbreviation "button as s \<equiv> Elem ''Button'' as [Txt s]"
abbreviation "option_item v \<equiv> Elem ''SelectItem'' [A_str ''value'' v] [Txt v]"
abbreviation "labelled_item v s \<equiv> Elem ''SelectItem'' [A_str ''value'' v] [Txt s]"

fun flag_is :: "string \<Rightarrow> 'e attr \<Rightarrow> bool" where
  "flag_is n (A_flag m b) = (m = n \<and> b)"
| "flag_is n _ = False"

definition has_flag :: "string \<Rightarrow> 'e attr list \<Rightarrow> bool" where
  "has_flag n as = list_ex (flag_is n) as"

fun attr_values :: "'e attr \<Rightarrow> string list" where
  "attr_values (A_str n v) = (if n = ''value'' then [v] else [])"
| "attr_values _ = []"

primrec item_values :: "'e node \<Rightarrow> string list" where
  "item_values (Txt s) = []"
| "item_values (Elem t as ns) =
     (if t = ''SelectItem'' then concat (map attr_values as) else []) @ concat (map item_values ns)"

fun attr_fires :: "string list \<Rightarrow> 'e attr \<Rightarrow> 'e set" where
  "attr_fires vs (On n e) = {e}"
| "attr_fires vs (On_text n f) = range f"
| "attr_fires vs (On_select n f) = insert (f None) ((\<lambda>v. f (Some v)) ` set vs)"
| "attr_fires vs (On_flag n f) = range f"
| "attr_fires vs _ = {}"

text \<open>
  The browser does not submit a form with an empty required field or a disabled submit button.
\<close>

fun str_attr_is :: "string \<Rightarrow> string \<Rightarrow> 'e attr \<Rightarrow> bool" where
  "str_attr_is n v (A_str m w) = (m = n \<and> w = v)"
| "str_attr_is n v _ = False"

primrec blocks_submit :: "'e node \<Rightarrow> bool" where
  "blocks_submit (Txt s) = False"
| "blocks_submit (Elem t as ns) =
     (has_flag ''required'' as \<and> list_ex (str_attr_is ''value'' []) as
      \<or> has_flag ''disabled'' as \<and> list_ex (str_attr_is ''type'' ''submit'') as
      \<or> list_ex id (map blocks_submit ns))"

primrec fires :: "'e node \<Rightarrow> 'e set" where
  "fires (Txt s) = {}"
| "fires (Elem t as ns) =
     (if t \<in> {''Dialog'', ''AlertDialog''} \<and> \<not> has_flag ''open'' as then {}
      else (if has_flag ''disabled'' as \<or> t = ''form'' \<and> list_ex blocks_submit ns then {}
            else \<Union> (set (map (attr_fires (concat (map item_values ns))) as)))
           \<union> \<Union> (set (map fires ns)))"

definition fires_all :: "'e node list \<Rightarrow> 'e set" where
  "fires_all ns = \<Union> (set (map fires ns))"

text \<open>The texts on a tree, in document order.\<close>

primrec texts :: "'e node \<Rightarrow> string list" where
  "texts (Txt s) = [s]"
| "texts (Elem t as ns) = concat (map texts ns)"

lemma fires_all_simps [simp]:
  "fires_all [] = {}" "fires_all (n # ns) = fires n \<union> fires_all ns"
  "fires_all (ms @ ns) = fires_all ms \<union> fires_all ns"
  by (auto simp: fires_all_def)

lemma fires_all_map: "fires_all (map f xs) = (\<Union>x \<in> set xs. fires (f x))"
  by (simp add: fires_all_def)

lemma fires_Elem [simp]:
  "fires (Elem t as ns) =
     (if t \<in> {''Dialog'', ''AlertDialog''} \<and> \<not> has_flag ''open'' as then {}
      else (if has_flag ''disabled'' as \<or> t = ''form'' \<and> list_ex blocks_submit ns then {}
            else \<Union> (set (map (attr_fires (concat (map item_values ns))) as)))
           \<union> fires_all ns)"
  by (simp add: fires_all_def)

declare fires.simps(2) [simp del]

lemma has_flag_simps [simp]:
  "\<not> has_flag n []" "has_flag n (a # as) \<longleftrightarrow> flag_is n a \<or> has_flag n as"
  by (simp_all add: has_flag_def)

section \<open>Effects\<close>

text \<open>What an event handler does beyond updating the page's state.\<close>

datatype effect =
    Toast_success string
  | Toast_error string
  | Run mutation
  | Submit_login string string
  | Navigate string
  | Set_href string

section \<open>Number fields\<close>

fun parse_prefix :: "nat option \<Rightarrow> string \<Rightarrow> nat option" where
  "parse_prefix acc [] = acc"
| "parse_prefix acc (c # cs) =
     (case digit_val c of None \<Rightarrow> acc
      | Some d \<Rightarrow> parse_prefix (Some (10 * nullish acc 0 + d)) cs)"

text \<open>
  \<open>parseInt(s)\<close> on what a number field holds (a decimal literal or the empty string):
  \<open>None\<close> is \<open>NaN\<close>.
\<close>

definition js_parseInt :: "string \<Rightarrow> int option" where
  "js_parseInt s =
     (case dropWhile (\<lambda>c. c = CHR '' '') s of
        [] \<Rightarrow> None
      | c # cs \<Rightarrow> if c = CHR ''-'' then map_option (\<lambda>n. - int n) (parse_prefix None cs)
                 else if c = CHR ''+'' then map_option int (parse_prefix None cs)
                 else map_option int (parse_prefix None (c # cs)))"

text \<open>\<open>parseInt(e.target.value) || 0\<close>\<close>

definition number_input :: "string \<Rightarrow> int" where
  "number_input s = nullish (js_parseInt s) 0"

end
