(* ===== verification/Pagination.thy ===== *)
theory Pagination
  imports Ui
begin

text \<open>
  \<open>web/src/components/pagination.tsx\<close>: the pager under the user and the mountpoint table.
  \<open>pagination page total limit onPageChange\<close> is the list of rendered nodes, empty where the
  component returns \<open>null\<close>. The limit is positive in every use (the pages pass 50), so
  \<open>Math.ceil(total / limit)\<close> is the ceiling of a quotient of integers.
\<close>

definition total_pages :: "int \<Rightarrow> int \<Rightarrow> int" where
  "total_pages tot limit = - ((- tot) div limit)"

definition start_page :: "int \<Rightarrow> int" where
  "start_page page = max 1 (page - 2)"

definition end_page :: "int \<Rightarrow> int \<Rightarrow> int" where
  "end_page totalPages page = min totalPages (page + 2)"

text \<open>The \<open>for\<close> loop that pushes \<open>startPage .. endPage\<close>.\<close>

function push_pages :: "int \<Rightarrow> int \<Rightarrow> int list" where
  "push_pages i endPage = (if i \<le> endPage then i # push_pages (i + 1) endPage else [])"
  by pat_completeness auto
termination
  by (relation "measure (\<lambda>(i, e). nat (e + 1 - i))") auto

declare push_pages.simps [simp del]

abbreviation page_ellipsis :: "'e node" where
  "page_ellipsis \<equiv> el0 ''span'' [Txt ''...'']"

definition page_button :: "int \<Rightarrow> (int \<Rightarrow> 'e) \<Rightarrow> int \<Rightarrow> 'e node" where
  "page_button page onPageChange p =
     Elem ''Button'' [A_str ''variant'' (if p = page then ''default'' else ''ghost''),
                      On ''onClick'' (onPageChange p)] [Txt (int_str p)]"

definition pagination :: "int \<Rightarrow> int \<Rightarrow> int \<Rightarrow> (int \<Rightarrow> 'e) \<Rightarrow> 'e node list" where
  "pagination page tot limit onPageChange =
     (let totalPages = total_pages tot limit;
          startPage = start_page page;
          endPage = end_page totalPages page
      in if totalPages \<le> 1 then []
         else
           [el0 ''div''
             [el0 ''div'' [Txt txt_total_prefix, Txt (int_str tot), Txt txt_total_suffix],
              el0 ''div''
                ([Elem ''Button'' [A_flag ''disabled'' (page \<le> 1), On ''onClick'' (onPageChange (page - 1))]
                    [Txt txt_prev_page]]
                 @ (if startPage > 1
                    then [Elem ''Button'' [A_str ''variant'' ''ghost'', On ''onClick'' (onPageChange 1)] [Txt ''1'']]
                         @ (if startPage > 2 then [page_ellipsis] else [])
                    else [])
                 @ map (page_button page onPageChange) (push_pages startPage endPage)
                 @ (if endPage < totalPages
                    then (if endPage < totalPages - 1 then [page_ellipsis] else [])
                         @ [Elem ''Button'' [A_str ''variant'' ''ghost'', On ''onClick'' (onPageChange totalPages)]
                              [Txt (int_str totalPages)]]
                    else [])
                 @ [Elem ''Button'' [A_flag ''disabled'' (page \<ge> totalPages),
                                     On ''onClick'' (onPageChange (page + 1))]
                      [Txt txt_next_page]])]])"

section \<open>The number of pages\<close>

lemma total_pages_spec:
  assumes "0 < limit"
  shows "total_pages tot limit \<le> n \<longleftrightarrow> tot \<le> n * limit"
proof -
  have "- n \<le> - tot div limit \<longleftrightarrow> - n * limit \<le> - tot"
    using assms by (simp add: le_div_iff_int)
  then show ?thesis by (auto simp: total_pages_def)
qed

lemma push_pages_upto: "push_pages i e = [i..e]"
proof (induction i e rule: push_pages.induct)
  case (1 i e)
  then show ?case by (simp add: push_pages.simps [of i e] upto.simps [of i e])
qed

section \<open>What the pager can do\<close>

text \<open>The events of the pager, as a set of pages.\<close>

definition pager_targets :: "int \<Rightarrow> int \<Rightarrow> int \<Rightarrow> int set" where
  "pager_targets page tot limit =
     (let totalPages = total_pages tot limit in
      if totalPages \<le> 1 then {}
      else (if page \<le> 1 then {} else {page - 1})
         \<union> (if start_page page > 1 then {1} else {})
         \<union> {start_page page .. end_page totalPages page}
         \<union> (if end_page totalPages page < totalPages then {totalPages} else {})
         \<union> (if page \<ge> totalPages then {} else {page + 1}))"

lemma fires_page_button [simp]: "fires (page_button page f p) = {f p}"
  by (simp add: page_button_def)

lemma fires_pagination: "fires_all (pagination page tot limit f) = f ` pager_targets page tot limit"
  by (auto simp: pagination_def pager_targets_def Let_def fires_all_map push_pages_upto image_Un)

lemma pager_targets_ge_1: "1 \<le> page \<Longrightarrow> p \<in> pager_targets page tot limit \<Longrightarrow> 1 \<le> p"
  by (auto simp: pager_targets_def Let_def start_page_def split: if_splits)

lemma pager_targets_le:
  "1 \<le> page \<Longrightarrow> page \<le> total_pages tot limit \<Longrightarrow> p \<in> pager_targets page tot limit
   \<Longrightarrow> p \<le> total_pages tot limit"
  by (auto simp: pager_targets_def Let_def end_page_def split: if_splits)

lemma pager_targets_next:
  "1 \<le> page \<Longrightarrow> page < total_pages tot limit \<Longrightarrow> page + 1 \<in> pager_targets page tot limit"
  by (auto simp: pager_targets_def Let_def)

lemma pager_targets_prev:
  "1 < page \<Longrightarrow> 1 < total_pages tot limit \<Longrightarrow> page - 1 \<in> pager_targets page tot limit"
  by (auto simp: pager_targets_def Let_def)

text \<open>A sequence of clicks, each on the pager shown for the page before it.\<close>

inductive clicks_to :: "int \<Rightarrow> int \<Rightarrow> int \<Rightarrow> int \<Rightarrow> bool" for tot limit where
  here: "clicks_to tot limit p p"
| click: "clicks_to tot limit p q \<Longrightarrow> r \<in> fires_all (pagination q tot limit (\<lambda>x. x))
          \<Longrightarrow> clicks_to tot limit p r"

lemma clicks_trans: "clicks_to t l q r \<Longrightarrow> clicks_to t l p q \<Longrightarrow> clicks_to t l p r"
  by (induction rule: clicks_to.induct) (auto intro: clicks_to.intros)

lemma clicks_up:
  "1 \<le> p \<Longrightarrow> p + int n \<le> total_pages tot limit \<Longrightarrow> clicks_to tot limit p (p + int n)"
proof (induction n)
  case 0
  show ?case by (simp add: clicks_to.here)
next
  case (Suc n)
  then have "clicks_to tot limit p (p + int n)" by simp
  moreover have "p + int n + 1 \<in> pager_targets (p + int n) tot limit"
    using Suc.prems by (intro pager_targets_next) auto
  ultimately have "clicks_to tot limit p (p + int n + 1)"
    by (auto intro: clicks_to.click simp: fires_pagination)
  then show ?case by (simp add: algebra_simps)
qed

lemma clicks_down:
  "1 \<le> p \<Longrightarrow> 1 < total_pages tot limit \<Longrightarrow> clicks_to tot limit (p + int n) p"
proof (induction n arbitrary: p)
  case 0
  show ?case by (simp add: clicks_to.here)
next
  case (Suc n)
  from Suc.prems have "clicks_to tot limit (p + 1 + int n) (p + 1)" by (intro Suc.IH) auto
  moreover have "p + 1 - 1 \<in> pager_targets (p + 1) tot limit"
    using Suc.prems by (intro pager_targets_prev) auto
  ultimately have "clicks_to tot limit (p + 1 + int n) p"
    by (auto intro: clicks_to.click simp: fires_pagination)
  then show ?case by (simp add: algebra_simps)
qed

section \<open>Properties\<close>

text \<open>
  Every page number that an enabled control of the pager can request lies between 1 and the
  number of pages, when the current page does.
\<close>

theorem pagination_targets_in_range:
  assumes "1 \<le> page" and "page \<le> total_pages tot limit"
    and "e \<in> fires_all (pagination page tot limit f)"
  shows "\<exists>p. e = f p \<and> 1 \<le> p \<and> p \<le> total_pages tot limit"
  using assms by (auto simp: fires_pagination intro: pager_targets_ge_1 pager_targets_le)

theorem pagination_targets_in_range_witness:
  "\<exists>p. (9::int) = p \<and> 1 \<le> p \<and> p \<le> total_pages 420 50"
  by (rule pagination_targets_in_range [of 7 420 50 9 "\<lambda>x. x"])
    (simp_all add: total_pages_def fires_pagination pager_targets_def start_page_def end_page_def)

text \<open>
  With the pager alone every page of the list can be reached from every other page,
  including from a page past the end (as long as the list still has two pages).
\<close>

theorem pagination_reaches_every_page:
  assumes "1 \<le> p" and "1 \<le> q" and "q \<le> total_pages tot limit" and "1 < total_pages tot limit"
  shows "clicks_to tot limit p q"
proof (cases "p \<le> q")
  case True
  then have "clicks_to tot limit p (p + int (nat (q - p)))"
    using assms by (intro clicks_up) auto
  with True show ?thesis by simp
next
  case False
  then have "clicks_to tot limit (q + int (nat (p - q))) q"
    using assms by (intro clicks_down) auto
  with False show ?thesis by simp
qed

theorem pagination_reaches_every_page_witness: "clicks_to 420 50 2 8"
  by (rule pagination_reaches_every_page) (simp_all add: total_pages_def)

text \<open>
  When the list shrinks to a single page the pager disappears whatever the current page is,
  so a user who was on a later page has no control left that leads back to page 1.
\<close>

theorem pagination_strands_late_page:
  assumes "0 < limit" and "tot \<le> limit"
  shows "fires_all (pagination page tot limit f) = {}"
  using assms total_pages_spec [of limit tot 1] by (simp add: pagination_def Let_def)

theorem pagination_strands_late_page_witness:
  "fires_all (pagination 2 50 50 (\<lambda>p. p)) = {}"
  by (rule pagination_strands_late_page) simp_all

end
