(* ===== verification/Page_Patterns.thy ===== *)
theory Page_Patterns
  imports Pagination
begin

text \<open>
  Contracts that the pages share, as locales. \<open>paged_list\<close> is a list page with a current
  page and filters: changing a filter goes back to page 1, turning the page keeps the filters.
  \<open>paged_session\<close> extends it by the events of the rendered page and carries the page number
  through whole sessions.
  \<open>submit_form\<close> is a dialog whose handler awaits a mutation inside \<open>try\<close>/\<open>catch\<close>: on
  success it reports and closes, on an error it reports the error and keeps everything. The
  pages interpret them on their own handlers.
\<close>

section \<open>A list page with filters\<close>

text \<open>The filter controls of a list page: the search button, its own select, the enabled select.\<close>

datatype list_filter = F_search | F_select "string option" | F_enabled "string option"

text \<open>
  One user operation on a list whose length depends on the filters only (\<open>tot\<close>): a page turn
  happens through the pager that is shown for the current page.
\<close>

inductive list_step ::
  "('s \<Rightarrow> int) \<Rightarrow> (int \<Rightarrow> 's \<Rightarrow> 's) \<Rightarrow> ('s \<Rightarrow> 'f) \<Rightarrow> (list_filter \<Rightarrow> 's \<Rightarrow> 's)
   \<Rightarrow> ('f \<Rightarrow> int) \<Rightarrow> int \<Rightarrow> 's \<Rightarrow> 's \<Rightarrow> bool"
  for page set_page filters change tot limit where
  turn: "p \<in> fires_all (pagination (page s) (tot (filters s)) limit (\<lambda>x. x))
         \<Longrightarrow> list_step page set_page filters change tot limit s (set_page p s)"
| filter: "list_step page set_page filters change tot limit s (change c s)"

locale paged_list =
  fixes page :: "'s \<Rightarrow> int"
    and set_page :: "int \<Rightarrow> 's \<Rightarrow> 's"
    and filters :: "'s \<Rightarrow> 'f"
    and change :: "list_filter \<Rightarrow> 's \<Rightarrow> 's"
  assumes page_set_page: "page (set_page p s) = p"
    and filters_set_page: "filters (set_page p s) = filters s"
    and page_change: "page (change c s) = 1"
begin

definition in_range :: "('f \<Rightarrow> int) \<Rightarrow> int \<Rightarrow> 's \<Rightarrow> bool" where
  "in_range tot limit s \<longleftrightarrow> 1 \<le> page s \<and> page s \<le> max 1 (total_pages (tot (filters s)) limit)"

lemma in_range_first: "page s = 1 \<Longrightarrow> in_range tot limit s"
  by (simp add: in_range_def)

lemma in_range_cong: "page t = page s \<Longrightarrow> filters t = filters s \<Longrightarrow> in_range tot limit t = in_range tot limit s"
  by (simp add: in_range_def)

lemma list_step_in_range:
  "list_step page set_page filters change tot limit s t \<Longrightarrow> in_range tot limit s \<Longrightarrow> in_range tot limit t"
proof (induction rule: list_step.induct)
  case (turn p s)
  then have p: "p \<in> pager_targets (page s) (tot (filters s)) limit"
    by (simp add: fires_pagination)
  then have "1 < total_pages (tot (filters s)) limit"
    by (auto simp: pager_targets_def Let_def split: if_splits)
  with turn.prems have "1 \<le> page s" "page s \<le> total_pages (tot (filters s)) limit"
    by (auto simp: in_range_def)
  with p have "1 \<le> p" "p \<le> total_pages (tot (filters s)) limit"
    by (auto intro: pager_targets_ge_1 pager_targets_le)
  then show ?case by (auto simp: in_range_def page_set_page filters_set_page)
next
  case (filter s c)
  show ?case by (simp add: in_range_def page_change)
qed

lemma turn_in_range:
  assumes "p \<in> fires_all (pagination (page s) (tot (filters s)) limit (\<lambda>x. x))"
    and "in_range tot limit s"
  shows "in_range tot limit (set_page p s)"
proof -
  from assms(1) have "list_step page set_page filters change tot limit s (set_page p s)"
    by (rule list_step.turn)
  then show ?thesis using assms(2) by (rule list_step_in_range)
qed

lemma page_positive: "in_range tot limit s \<Longrightarrow> 1 \<le> page s"
  by (simp add: in_range_def)

end

section \<open>Sessions\<close>

text \<open>
  A session on a page: the user acts on the tree rendered for the current data, answers of
  mutations arrive at any time. \<open>ok\<close> restricts the data a render may show.
\<close>

inductive session ::
  "'s \<Rightarrow> ('d \<Rightarrow> 's \<Rightarrow> 'e node) \<Rightarrow> ('d \<Rightarrow> 'e \<Rightarrow> 's \<Rightarrow> 's \<times> effect list) \<Rightarrow> ('e \<Rightarrow> bool)
   \<Rightarrow> ('d \<Rightarrow> 's \<Rightarrow> bool) \<Rightarrow> 's \<Rightarrow> bool"
  for init view step answer ok where
  start: "session init view step answer ok init"
| act: "session init view step answer ok s \<Longrightarrow> ok d s \<Longrightarrow> e \<in> fires (view d s)
        \<Longrightarrow> session init view step answer ok (fst (step d e s))"
| answer: "session init view step answer ok s \<Longrightarrow> answer e
        \<Longrightarrow> session init view step answer ok (fst (step d e s))"

definition any_data :: "'d \<Rightarrow> 's \<Rightarrow> bool" where
  "any_data d s \<longleftrightarrow> True"

text \<open>The server's list does not change during the session: its length depends on the filters.\<close>

definition static_list :: "('d \<Rightarrow> int option) \<Rightarrow> ('s \<Rightarrow> 'f) \<Rightarrow> ('f \<Rightarrow> int) \<Rightarrow> 'd \<Rightarrow> 's \<Rightarrow> bool" where
  "static_list shown filters tot d s \<longleftrightarrow>
     (case shown d of None \<Rightarrow> True | Some n \<Rightarrow> n = tot (filters s))"

text \<open>
  A list page in a session: every event either returns to page 1, or leaves page and filters
  alone, or is a page turn of the pager shown.
\<close>

locale paged_session = paged_list page set_page filters change
  for page :: "'s \<Rightarrow> int" and set_page :: "int \<Rightarrow> 's \<Rightarrow> 's" and filters :: "'s \<Rightarrow> 'f"
    and change :: "list_filter \<Rightarrow> 's \<Rightarrow> 's" +
  fixes init :: 's
    and view :: "'d \<Rightarrow> 's \<Rightarrow> 'e node"
    and step :: "'d \<Rightarrow> 'e \<Rightarrow> 's \<Rightarrow> 's \<times> effect list"
    and answer :: "'e \<Rightarrow> bool"
    and shown :: "'d \<Rightarrow> int option"
    and limit :: int
  assumes init_page: "page init = 1"
    and act_cases: "e \<in> fires (view d s) \<Longrightarrow>
      page (fst (step d e s)) = 1
      \<or> (page (fst (step d e s)) = page s \<and> filters (fst (step d e s)) = filters s)
      \<or> (\<exists>p n. shown d = Some n \<and> p \<in> pager_targets (page s) n limit \<and> fst (step d e s) = set_page p s)"
    and answer_keeps: "answer e \<Longrightarrow>
      page (fst (step d e s)) = page s \<and> filters (fst (step d e s)) = filters s"
begin

lemma session_in_range:
  "session init view step answer (static_list shown filters tot) s \<Longrightarrow> in_range tot limit s"
proof (induction rule: session.induct)
  case start
  show ?case by (rule in_range_first) (rule init_page)
next
  case (act s d e)
  from act_cases [OF act.hyps(3)] show ?case
  proof (elim disjE exE conjE)
    assume "page (fst (step d e s)) = 1"
    then show ?thesis by (rule in_range_first)
  next
    assume "page (fst (step d e s)) = page s" "filters (fst (step d e s)) = filters s"
    from in_range_cong [OF this] act.IH show ?thesis by simp
  next
    fix p n assume n: "shown d = Some n" and p: "p \<in> pager_targets (page s) n limit"
      and t: "fst (step d e s) = set_page p s"
    from act.hyps(2) n have "n = tot (filters s)" by (simp add: static_list_def)
    with p have "p \<in> fires_all (pagination (page s) (tot (filters s)) limit (\<lambda>x. x))"
      by (simp add: fires_pagination)
    from turn_in_range [OF this act.IH] t show ?thesis by simp
  qed
next
  case (answer s e d)
  from answer_keeps [OF answer.hyps(2), of d s] have "in_range tot limit (fst (step d e s)) = in_range tot limit s"
    by (intro in_range_cong) simp_all
  with answer.IH show ?case by simp
qed

end

section \<open>A dialog that submits a mutation\<close>

locale submit_form =
  fixes settle :: "json outcome \<Rightarrow> 's \<Rightarrow> 's \<times> effect list"
    and shown :: "'s \<Rightarrow> bool"
    and done_text :: string
    and fallback :: string
  assumes settle_ok: "\<exists>t. settle (Inr v) s = (t, [Toast_success done_text]) \<and> \<not> shown t"
    and settle_error: "settle (Inl e) s = (s, [Toast_error (error_text fallback e)])"
begin

lemma settle_shown: "shown (fst (settle r s)) \<longleftrightarrow> shown s \<and> isl r"
proof (cases r)
  case (Inl e)
  then show ?thesis by (simp add: settle_error)
next
  case (Inr v)
  then show ?thesis using settle_ok [of v s] by auto
qed

text \<open>A run of answers: the toasts in order and the final state.\<close>

primrec answers :: "json outcome list \<Rightarrow> 's \<Rightarrow> 's \<times> effect list" where
  "answers [] s = (s, [])"
| "answers (r # rs) s =
     (let (t, es) = settle r s; (u, fs) = answers rs t in (u, es @ fs))"

lemma answers_shown: "shown (fst (answers rs s)) \<longleftrightarrow> shown s \<and> list_all isl rs"
  by (induction rs arbitrary: s) (simp_all add: split_beta Let_def settle_shown conj_assoc)

lemma answers_toasts:
  "map (\<lambda>e. \<exists>m. e = Toast_success m) (snd (answers rs s)) = map (\<lambda>r. \<not> isl r) rs"
proof (induction rs arbitrary: s)
  case Nil
  then show ?case by simp
next
  case (Cons r rs)
  have "map (\<lambda>e. \<exists>m. e = Toast_success m) (snd (settle r s)) = [\<not> isl r]"
  proof (cases r)
    case (Inl e)
    then show ?thesis by (simp add: settle_error)
  next
    case (Inr v)
    then show ?thesis using settle_ok [of v s] by auto
  qed
  with Cons show ?case by (simp add: split_beta Let_def)
qed

lemma all_failed_keeps_state: "list_all isl rs \<Longrightarrow> fst (answers rs s) = s"
  by (induction rs arbitrary: s) (auto simp: split_beta Let_def settle_error isl_def)

end

end
