(* ===== verification/User_Bindings.thy ===== *)
theory User_Bindings
  imports Page_Patterns
begin

text \<open>
  \<open>UserBindingsSection\<close> of \<open>web/src/pages/users.tsx\<close>: the part of the edit dialog that
  lists the mountpoints a user is bound to and adds or removes one binding at a time. The query
  results and the pending flag of the mutation are data of the section, \<open>addMpName\<close> is its
  state. The section is polymorphic in the events of the page that holds it.
\<close>

section \<open>State and data\<close>

record bindings_state =
  bs_addMpName :: string

definition bindings_init :: bindings_state where
  "bindings_init = \<lparr>bs_addMpName = []\<rparr>"

record bindings_data =
  bd_bindings :: "binding list option"
  bd_isLoading :: bool
  bd_mountpointsData :: "mountpoint_info paginated_response option"
  bd_createPending :: bool

definition section_mountpoints_query :: "list_mountpoints_params option" where
  "section_mountpoints_query =
     Some \<lparr>lm_page = None, lm_limit = Some 1000, lm_search = None, lm_format = None, lm_enabled = None\<rparr>"

definition section_mountpoints :: "bindings_data \<Rightarrow> mountpoint_info list" where
  "section_mountpoints d =
     nullish (Option.bind (bd_mountpointsData d) pr_data) []"

definition boundMpIds :: "bindings_data \<Rightarrow> int list" where
  "boundMpIds d = nullish (map_option (map b_mountpoint_id) (bd_bindings d)) []"

definition availableMountpoints :: "bindings_data \<Rightarrow> mountpoint_info list" where
  "availableMountpoints d = filter (\<lambda>mp. m_id mp \<notin> set (boundMpIds d)) (section_mountpoints d)"

section \<open>Handlers\<close>

datatype bindings_event =
    B_noop
  | B_addMpName string
  | B_add
  | B_remove int
  | B_added "json outcome"
  | B_removed "json outcome"

definition section_handleAdd :: "int \<Rightarrow> bindings_data \<Rightarrow> bindings_state \<Rightarrow> effect list" where
  "section_handleAdd userId d s =
     (case find (\<lambda>mp. m_name mp = bs_addMpName s) (availableMountpoints d) of
        None \<Rightarrow> []
      | Some mp \<Rightarrow> [Run (Create_binding \<lparr>cb_user_id = userId, cb_mountpoint_id = m_id mp\<rparr>)])"

definition section_added :: "json outcome \<Rightarrow> bindings_state \<Rightarrow> bindings_state \<times> effect list" where
  "section_added r s =
     (case r of Inr v \<Rightarrow> (s\<lparr>bs_addMpName := []\<rparr>, [Toast_success txt_binding_added])
      | Inl e \<Rightarrow> (s, [Toast_error (error_text txt_add_failed e)]))"

definition section_handleRemove :: "int \<Rightarrow> effect list" where
  "section_handleRemove bindingId = [Run (Delete_binding bindingId)]"

definition section_removed :: "json outcome \<Rightarrow> effect list" where
  "section_removed r =
     (case r of Inr v \<Rightarrow> [Toast_success txt_binding_removed]
      | Inl e \<Rightarrow> [Toast_error (error_text txt_remove_failed e)])"

fun bindings_step ::
  "int \<Rightarrow> bindings_data \<Rightarrow> bindings_event \<Rightarrow> bindings_state \<Rightarrow> bindings_state \<times> effect list" where
  "bindings_step userId d B_noop s = (s, [])"
| "bindings_step userId d (B_addMpName v) s = (s\<lparr>bs_addMpName := v\<rparr>, [])"
| "bindings_step userId d B_add s = (s, section_handleAdd userId d s)"
| "bindings_step userId d (B_remove i) s = (s, section_handleRemove i)"
| "bindings_step userId d (B_added r) s = section_added r s"
| "bindings_step userId d (B_removed r) s = (s, section_removed r)"

section \<open>Rendering\<close>

definition binding_row :: "(bindings_event \<Rightarrow> 'e) \<Rightarrow> binding \<Rightarrow> 'e node" where
  "binding_row ev b =
     el0 ''div''
       [el0 ''span'' [Txt (nullish (b_mountpoint_name b) [])],
        Elem ''Button'' [On ''onClick'' (ev (B_remove (b_id b)))] []]"

definition section_list :: "(bindings_event \<Rightarrow> 'e) \<Rightarrow> bindings_data \<Rightarrow> 'e node" where
  "section_list ev d =
     (if bd_isLoading d then el0 ''Skeleton'' []
      else case bd_bindings d of
        None \<Rightarrow> el0 ''p'' [Txt txt_no_bindings]
      | Some bs \<Rightarrow> if bs = [] then el0 ''p'' [Txt txt_no_bindings]
                  else el0 ''div'' (map (binding_row ev) bs))"

definition bindings_section ::
  "(bindings_event \<Rightarrow> 'e) \<Rightarrow> bindings_data \<Rightarrow> bindings_state \<Rightarrow> 'e node" where
  "bindings_section ev d s =
     el0 ''div''
       [el0 ''Label'' [Txt txt_accessible_mounts],
        el0 ''p'' [Txt txt_binding_hint],
        section_list ev d,
        el0 ''div''
          [el0 ''div''
             [Elem ''Select''
                [A_str ''value'' (bs_addMpName s),
                 On_select ''onValueChange''
                   (\<lambda>v. case v of None \<Rightarrow> ev B_noop
                        | Some n \<Rightarrow> if n = [] then ev B_noop else ev (B_addMpName n))]
                [el0 ''SelectTrigger'' [Elem ''SelectValue'' [A_str ''placeholder'' txt_choose_mount] []],
                 el0 ''SelectContent'' (map (\<lambda>mp. option_item (m_name mp)) (availableMountpoints d))]],
           Elem ''Button''
             [On ''onClick'' (ev B_add), A_flag ''disabled'' (bs_addMpName s = [] \<or> bd_createPending d)] []]]"

lemmas section_ui_defs [ui_defs] = binding_row_def section_list_def bindings_section_def

section \<open>Facts\<close>

lemma available_not_bound: "mp \<in> set (availableMountpoints d) \<Longrightarrow> m_id mp \<notin> set (boundMpIds d)"
  by (simp add: availableMountpoints_def)

lemma handleAdd_effects:
  "section_handleAdd userId d s = [Run (Create_binding req)]
   \<Longrightarrow> cb_user_id req = userId \<and> cb_mountpoint_id req \<notin> set (boundMpIds d)
      \<and> (\<exists>mp \<in> set (section_mountpoints d).
            m_id mp = cb_mountpoint_id req \<and> m_name mp = bs_addMpName s)"
  by (auto simp: section_handleAdd_def availableMountpoints_def split: option.splits
      dest!: find_Some_in)

lemma item_values_options: "concat (map (item_values \<circ> (\<lambda>mp. option_item (m_name mp))) mps) = map m_name mps"
  by (induction mps) auto

lemma fires_section_list:
  "fires (section_list ev d) =
     (if bd_isLoading d then {}
      else (\<lambda>b. ev (B_remove (b_id b))) ` set (nullish (bd_bindings d) []))"
  by (auto simp: section_list_def binding_row_def fires_all_map split: option.splits)

lemma fires_bindings_section:
  "fires (bindings_section ev d s) \<subseteq>
     {ev B_noop} \<union> {ev B_add | x :: unit. bs_addMpName s \<noteq> []}
     \<union> (\<lambda>n. ev (B_addMpName n)) ` set (map m_name (availableMountpoints d))
     \<union> (\<lambda>b. ev (B_remove (b_id b))) ` set (nullish (bd_bindings d) [])"
  by (auto simp: bindings_section_def fires_section_list item_values_options fires_all_map split: if_splits)

section \<open>Properties\<close>

text \<open>
  The bindings section adds only new bindings: the request is for the user whose dialog is
  open and for the mountpoint whose name is selected, and that mountpoint is not bound to the
  user yet.
\<close>

theorem bindings_add_is_new:
  assumes "Run (Create_binding req) \<in> set (snd (bindings_step userId d e s))"
  shows "cb_user_id req = userId \<and> cb_mountpoint_id req \<notin> set (boundMpIds d)
    \<and> (\<exists>mp \<in> set (section_mountpoints d). m_id mp = cb_mountpoint_id req \<and> m_name mp = bs_addMpName s)"
proof -
  from assms have "Run (Create_binding req) \<in> set (section_handleAdd userId d s)"
    by (cases e) (auto simp: section_added_def section_handleRemove_def section_removed_def split: sum.splits)
  then have "section_handleAdd userId d s = [Run (Create_binding req)]"
    by (cases "find (\<lambda>mp. m_name mp = bs_addMpName s) (availableMountpoints d)")
      (simp_all add: section_handleAdd_def)
  then show ?thesis by (rule handleAdd_effects)
qed

theorem bindings_add_is_new_witness:
  "(2 :: int) \<notin> set (boundMpIds \<lparr>bd_bindings = Some [\<lparr>b_id = 9, b_user_id = 5, b_mountpoint_id = 1, b_username = None,
     b_mountpoint_name = None\<rparr>], bd_isLoading = False, bd_mountpointsData = Some \<lparr>pr_data = Some [\<lparr>m_id = 2, m_name = ''B'',
     m_description = [], m_enabled = True, m_format = ''RTCM3'', m_source_auth_mode = [], m_write_queue = None,
     m_write_timeout_ms = None, m_max_clients = 0, m_source_online = False, m_client_count = 0, m_antenna_lat = None,
     m_antenna_lon = None, m_antenna_height = None, m_antenna_updated_at = None\<rparr>], pr_total = 1, pr_page = 1, pr_limit = 1000\<rparr>,
     bd_createPending = False\<rparr>)"
proof -
  let ?d = "\<lparr>bd_bindings = Some [\<lparr>b_id = 9, b_user_id = 5, b_mountpoint_id = 1, b_username = None,
     b_mountpoint_name = None\<rparr>], bd_isLoading = False, bd_mountpointsData = Some \<lparr>pr_data = Some [\<lparr>m_id = 2, m_name = ''B'',
     m_description = [], m_enabled = True, m_format = ''RTCM3'', m_source_auth_mode = [], m_write_queue = None,
     m_write_timeout_ms = None, m_max_clients = 0, m_source_online = False, m_client_count = 0, m_antenna_lat = None,
     m_antenna_lon = None, m_antenna_height = None, m_antenna_updated_at = None\<rparr>], pr_total = 1, pr_page = 1, pr_limit = 1000\<rparr>,
     bd_createPending = False\<rparr>"
  have "Run (Create_binding \<lparr>cb_user_id = 5, cb_mountpoint_id = 2\<rparr>)
          \<in> set (snd (bindings_step 5 ?d B_add \<lparr>bs_addMpName = ''B''\<rparr>))"
    by (simp add: section_handleAdd_def availableMountpoints_def section_mountpoints_def boundMpIds_def)
  from bindings_add_is_new [OF this] show ?thesis by simp
qed

end
