(* ===== verification/Users_Page.thy ===== *)
theory Users_Page
  imports User_Bindings
begin

text \<open>
  \<open>UsersPage\<close> of \<open>web/src/pages/users.tsx\<close>: the user list with search, filters and pager,
  and the dialogs that create, edit and delete a user. The page's \<open>useState\<close> variables are a
  record, each handler is a function, \<open>users_step\<close> dispatches the events of the rendered tree
  \<open>users_view\<close>. A handler that awaits a mutation is split at the \<open>await\<close>: the first half
  issues the mutation, the second half is the event that carries its outcome.
\<close>

section \<open>State\<close>

record users_state =
  us_page :: int
  us_searchInput :: string
  us_search :: string
  us_roleFilter :: string
  us_enabledFilter :: string
  us_createOpen :: bool
  us_editUser :: "user option"
  us_deleteTarget :: "user option"
  us_newUsername :: string
  us_newPassword :: string
  us_newRole :: string
  us_editRole :: string
  us_editEnabled :: bool
  us_editPassword :: string
  us_section :: bindings_state

definition users_init :: users_state where
  "users_init =
     \<lparr>us_page = 1, us_searchInput = [], us_search = [], us_roleFilter = [], us_enabledFilter = [],
      us_createOpen = False, us_editUser = None, us_deleteTarget = None,
      us_newUsername = [], us_newPassword = [], us_newRole = ''rover'',
      us_editRole = [], us_editEnabled = True, us_editPassword = [],
      us_section = bindings_init\<rparr>"

text \<open>What the hooks return to a render: query results and pending flags.\<close>

record users_data =
  ud_usersData :: "user paginated_response option"
  ud_isLoading :: bool
  ud_allBindings :: "binding list option"
  ud_createPending :: bool
  ud_updatePending :: bool
  ud_section :: bindings_data

definition users_query :: "users_state \<Rightarrow> list_users_params option" where
  "users_query s =
     Some \<lparr>lu_page = Some (us_page s), lu_limit = Some 50, lu_search = Some (us_search s),
           lu_role = Some (us_roleFilter s), lu_enabled = Some (us_enabledFilter s)\<rparr>"

definition roleBadgeVariant :: params where
  "roleBadgeVariant = [(''admin'', ''default''), (''base'', ''secondary''), (''rover'', ''outline'')]"

definition roleFilterLabels :: params where
  "roleFilterLabels =
     [(''all'', txt_all_roles), (''admin'', ''admin''), (''base'', ''base''), (''rover'', ''rover'')]"

definition users_enabledFilterLabels :: params where
  "users_enabledFilterLabels = [(''all'', txt_all_status), (''true'', txt_enabled), (''false'', txt_disabled)]"

text \<open>\<open>userMountpointMap\<close>: the loop over all bindings.\<close>

definition map_binding :: "binding \<Rightarrow> (int \<rightharpoonup> string list) \<Rightarrow> (int \<rightharpoonup> string list)" where
  "map_binding b m =
     m(b_user_id b \<mapsto> nullish (m (b_user_id b)) []
         @ (if truthy_str (b_mountpoint_name b) then [the (b_mountpoint_name b)] else []))"

definition userMountpointMap :: "binding list option \<Rightarrow> (int \<rightharpoonup> string list)" where
  "userMountpointMap bs = fold map_binding (nullish bs []) Map.empty"

section \<open>Handlers\<close>

definition users_handleSearch :: "users_state \<Rightarrow> users_state" where
  "users_handleSearch s = s\<lparr>us_search := us_searchInput s, us_page := 1\<rparr>"

definition select_filter :: "string option \<Rightarrow> string" where
  "select_filter v = (case v of None \<Rightarrow> [] | Some x \<Rightarrow> if x = ''all'' then [] else x)"

definition users_handleRoleChange :: "string option \<Rightarrow> users_state \<Rightarrow> users_state" where
  "users_handleRoleChange v s = s\<lparr>us_roleFilter := select_filter v, us_page := 1\<rparr>"

definition users_handleEnabledChange :: "string option \<Rightarrow> users_state \<Rightarrow> users_state" where
  "users_handleEnabledChange v s = s\<lparr>us_enabledFilter := select_filter v, us_page := 1\<rparr>"

definition users_handlePageChange :: "int \<Rightarrow> users_state \<Rightarrow> users_state" where
  "users_handlePageChange p s = s\<lparr>us_page := p\<rparr>"

definition users_openCreate :: "users_state \<Rightarrow> users_state" where
  "users_openCreate s =
     s\<lparr>us_newUsername := [], us_newPassword := [], us_newRole := ''rover'', us_createOpen := True\<rparr>"

text \<open>Opening the dialog mounts a fresh bindings section, unless one is mounted already.\<close>

definition users_openEdit :: "user \<Rightarrow> users_state \<Rightarrow> users_state" where
  "users_openEdit u s =
     s\<lparr>us_editUser := Some u, us_editRole := u_role u, us_editEnabled := u_enabled u,
       us_editPassword := [],
       us_section := (if us_editUser s = None then bindings_init else us_section s)\<rparr>"

definition users_handleCreate :: "users_state \<Rightarrow> effect list" where
  "users_handleCreate s =
     [Run (Create_user \<lparr>cu_username = us_newUsername s, cu_password = us_newPassword s,
                        cu_role = us_newRole s\<rparr>)]"

definition users_created :: "json outcome \<Rightarrow> users_state \<Rightarrow> users_state \<times> effect list" where
  "users_created r s =
     (case r of Inr v \<Rightarrow> (s\<lparr>us_createOpen := False\<rparr>, [Toast_success txt_user_created])
      | Inl e \<Rightarrow> (s, [Toast_error (error_text txt_create_failed e)]))"

definition users_handleUpdate :: "users_state \<Rightarrow> effect list" where
  "users_handleUpdate s =
     (case us_editUser s of
        None \<Rightarrow> []
      | Some u \<Rightarrow>
          [Run (Update_user (u_id u)
             \<lparr>uu_role = Some (us_editRole s), uu_enabled = Some (us_editEnabled s),
              uu_password = (if us_editPassword s \<noteq> [] then Some (us_editPassword s) else None)\<rparr>)])"

definition users_updated :: "json outcome \<Rightarrow> users_state \<Rightarrow> users_state \<times> effect list" where
  "users_updated r s =
     (case r of Inr v \<Rightarrow> (s\<lparr>us_editUser := None\<rparr>, [Toast_success txt_user_updated])
      | Inl e \<Rightarrow> (s, [Toast_error (error_text txt_update_failed e)]))"

definition users_handleDelete :: "users_state \<Rightarrow> effect list" where
  "users_handleDelete s =
     (case us_deleteTarget s of None \<Rightarrow> [] | Some u \<Rightarrow> [Run (Delete_user (u_id u))])"

definition users_deleted :: "json outcome \<Rightarrow> users_state \<Rightarrow> users_state \<times> effect list" where
  "users_deleted r s =
     (case r of Inr v \<Rightarrow> (s\<lparr>us_deleteTarget := None\<rparr>, [Toast_success txt_user_deleted])
      | Inl e \<Rightarrow> (s, [Toast_error (error_text txt_delete_failed e)]))"

section \<open>Events\<close>

datatype users_event =
    U_noop
  | U_searchInput string
  | U_search
  | U_role "string option"
  | U_enabled "string option"
  | U_page int
  | U_openCreate
  | U_openEdit user
  | U_deleteTarget "user option"
  | U_closeEdit
  | U_createOpen bool
  | U_newUsername string
  | U_newPassword string
  | U_newRole string
  | U_editRole string
  | U_editEnabled bool
  | U_editPassword string
  | U_create
  | U_update
  | U_delete
  | U_section bindings_event
  | U_created "json outcome"
  | U_updated "json outcome"
  | U_deleted "json outcome"

definition users_section_step ::
  "users_data \<Rightarrow> bindings_event \<Rightarrow> users_state \<Rightarrow> users_state \<times> effect list" where
  "users_section_step d e s =
     (case us_editUser s of
        None \<Rightarrow> (s, [])
      | Some u \<Rightarrow> (let (t, es) = bindings_step (u_id u) (ud_section d) e (us_section s)
                  in (s\<lparr>us_section := t\<rparr>, es)))"

fun users_step :: "users_data \<Rightarrow> users_event \<Rightarrow> users_state \<Rightarrow> users_state \<times> effect list" where
  "users_step d U_noop s = (s, [])"
| "users_step d (U_searchInput v) s = (s\<lparr>us_searchInput := v\<rparr>, [])"
| "users_step d U_search s = (users_handleSearch s, [])"
| "users_step d (U_role v) s = (users_handleRoleChange v s, [])"
| "users_step d (U_enabled v) s = (users_handleEnabledChange v s, [])"
| "users_step d (U_page p) s = (users_handlePageChange p s, [])"
| "users_step d U_openCreate s = (users_openCreate s, [])"
| "users_step d (U_openEdit u) s = (users_openEdit u s, [])"
| "users_step d (U_deleteTarget t) s = (s\<lparr>us_deleteTarget := t\<rparr>, [])"
| "users_step d U_closeEdit s = (s\<lparr>us_editUser := None\<rparr>, [])"
| "users_step d (U_createOpen b) s = (s\<lparr>us_createOpen := b\<rparr>, [])"
| "users_step d (U_newUsername v) s = (s\<lparr>us_newUsername := v\<rparr>, [])"
| "users_step d (U_newPassword v) s = (s\<lparr>us_newPassword := v\<rparr>, [])"
| "users_step d (U_newRole v) s = (s\<lparr>us_newRole := v\<rparr>, [])"
| "users_step d (U_editRole v) s = (s\<lparr>us_editRole := v\<rparr>, [])"
| "users_step d (U_editEnabled b) s = (s\<lparr>us_editEnabled := b\<rparr>, [])"
| "users_step d (U_editPassword v) s = (s\<lparr>us_editPassword := v\<rparr>, [])"
| "users_step d U_create s = (s, users_handleCreate s)"
| "users_step d U_update s = (s, users_handleUpdate s)"
| "users_step d U_delete s = (s, users_handleDelete s)"
| "users_step d (U_section e) s = users_section_step d e s"
| "users_step d (U_created r) s = users_created r s"
| "users_step d (U_updated r) s = users_updated r s"
| "users_step d (U_deleted r) s = users_deleted r s"

lemmas users_handler_defs = users_handleSearch_def users_handleRoleChange_def
  users_handleEnabledChange_def users_handlePageChange_def users_openCreate_def users_openEdit_def
  users_handleCreate_def users_created_def users_handleUpdate_def users_updated_def
  users_handleDelete_def users_deleted_def

section \<open>Rendering\<close>

definition users_toolbar :: "users_state \<Rightarrow> users_event node list" where
  "users_toolbar s =
     [el0 ''div''
        [el0 ''h1'' [Txt txt_user_admin],
         Elem ''Button'' [On ''onClick'' U_openCreate] [Txt txt_create_user]],
      el0 ''div''
        [el0 ''div''
           [Elem ''Input''
              [A_str ''value'' (us_searchInput s), On_text ''onChange'' U_searchInput,
               On_text ''onKeyDown'' (\<lambda>key. if key = ''Enter'' then U_search else U_noop),
               A_str ''placeholder'' txt_search_username] [],
            Elem ''Button'' [On ''onClick'' U_search] []],
         Elem ''Select''
           [A_str ''value'' (str_or (us_roleFilter s) ''all''), On_select ''onValueChange'' U_role]
           [el0 ''SelectTrigger''
              [el0 ''SelectValue''
                 [Txt (nullish (map_of roleFilterLabels (str_or (us_roleFilter s) ''all'')) [])]],
            el0 ''SelectContent''
              [labelled_item ''all'' txt_all_roles, option_item ''admin'', option_item ''base'',
               option_item ''rover'']],
         Elem ''Select''
           [A_str ''value'' (str_or (us_enabledFilter s) ''all''), On_select ''onValueChange'' U_enabled]
           [el0 ''SelectTrigger''
              [el0 ''SelectValue''
                 [Txt (nullish (map_of users_enabledFilterLabels (str_or (us_enabledFilter s) ''all'')) [])]],
            el0 ''SelectContent''
              [labelled_item ''all'' txt_all_status, labelled_item ''true'' txt_enabled,
               labelled_item ''false'' txt_disabled]]]]"

definition user_row :: "(int \<rightharpoonup> string list) \<Rightarrow> user \<Rightarrow> users_event node" where
  "user_row mps u =
     el0 ''TableRow''
       [el0 ''TableCell'' [Txt (int_str (u_id u))],
        el0 ''TableCell'' [Txt (u_username u)],
        el0 ''TableCell''
          [Elem ''Badge'' [A_str ''variant'' (nullish (map_of roleBadgeVariant (u_role u)) ''outline'')]
             [Txt (u_role u)]],
        el0 ''TableCell''
          [el0 ''div''
             (if length (nullish (mps (u_id u)) []) > 0
              then map (\<lambda>name. Elem ''Badge'' [A_str ''variant'' ''outline''] [Txt name])
                     (the (mps (u_id u)))
              else [el0 ''span'' [Txt txt_dash]])],
        el0 ''TableCell''
          [Elem ''Badge'' [A_str ''variant'' (if u_enabled u then ''default'' else ''secondary'')]
             [Txt (if u_enabled u then txt_enabled else txt_disabled)]],
        el0 ''TableCell''
          [Elem ''Button'' [On ''onClick'' (U_openEdit u)] [Txt txt_edit],
           Elem ''Button'' [On ''onClick'' (U_deleteTarget (Some u))] [Txt txt_delete]]]"

definition users_rows :: "users_data \<Rightarrow> user list" where
  "users_rows d = nullish (Option.bind (ud_usersData d) pr_data) []"

definition users_table :: "users_data \<Rightarrow> users_event node" where
  "users_table d =
     (if ud_isLoading d then el0 ''div'' (replicate 3 (el0 ''Skeleton'' []))
      else el0 ''div''
        [el0 ''Table''
           [el0 ''TableHeader''
              [el0 ''TableRow''
                 (map (\<lambda>t. el0 ''TableHead'' [Txt t])
                    [''ID'', txt_username, txt_role, txt_mountpoint, txt_status, txt_actions])],
            el0 ''TableBody''
              (if users_rows d = []
               then [el0 ''TableRow'' [Elem ''TableCell'' [A_num ''colSpan'' 6] [Txt txt_no_users]]]
               else map (user_row (userMountpointMap (ud_allBindings d))) (users_rows d))]])"

definition users_pager :: "users_data \<Rightarrow> users_state \<Rightarrow> users_event node list" where
  "users_pager d s =
     (case ud_usersData d of
        None \<Rightarrow> []
      | Some r \<Rightarrow> pagination (us_page s) (pr_total r) 50 U_page)"

definition role_items :: "users_event node list" where
  "role_items = [option_item ''admin'', option_item ''base'', option_item ''rover'']"

definition users_create_dialog :: "users_data \<Rightarrow> users_state \<Rightarrow> users_event node" where
  "users_create_dialog d s =
     Elem ''Dialog'' [A_flag ''open'' (us_createOpen s), On_flag ''onOpenChange'' U_createOpen]
       [el0 ''DialogTitle'' [Txt txt_create_user],
        el0 ''Label'' [Txt txt_username],
        Elem ''Input'' [A_str ''value'' (us_newUsername s), On_text ''onChange'' U_newUsername,
                        A_str ''placeholder'' ''username''] [],
        el0 ''Label'' [Txt txt_password],
        Elem ''Input'' [A_str ''type'' ''password'', A_str ''value'' (us_newPassword s),
                        On_text ''onChange'' U_newPassword, A_str ''placeholder'' txt_bullets] [],
        el0 ''Label'' [Txt txt_role],
        Elem ''Select''
          [A_str ''value'' (us_newRole s),
           On_select ''onValueChange''
             (\<lambda>v. case v of None \<Rightarrow> U_noop | Some r \<Rightarrow> if r = [] then U_noop else U_newRole r)]
          [el0 ''SelectContent'' role_items],
        Elem ''Button'' [On ''onClick'' (U_createOpen False)] [Txt txt_cancel],
        Elem ''Button''
          [On ''onClick'' U_create,
           A_flag ''disabled'' (ud_createPending d \<or> us_newUsername s = [] \<or> us_newPassword s = [])]
          [Txt (if ud_createPending d then txt_creating else txt_create)]]"

definition users_edit_dialog :: "users_data \<Rightarrow> users_state \<Rightarrow> users_event node" where
  "users_edit_dialog d s =
     Elem ''Dialog''
       [A_flag ''open'' (us_editUser s \<noteq> None),
        On_flag ''onOpenChange'' (\<lambda>open. if \<not> open then U_closeEdit else U_noop)]
       ([el0 ''DialogTitle'' [Txt txt_edit_user, Txt (nullish (map_option u_username (us_editUser s)) [])],
         el0 ''Label'' [Txt txt_role],
         Elem ''Select''
           [A_str ''value'' (us_editRole s),
            On_select ''onValueChange''
              (\<lambda>v. case v of None \<Rightarrow> U_noop | Some r \<Rightarrow> if r = [] then U_noop else U_editRole r)]
           [el0 ''SelectContent'' role_items],
         el0 ''Label'' [Txt txt_enabled],
         Elem ''Switch'' [A_flag ''checked'' (us_editEnabled s), On_flag ''onCheckedChange'' U_editEnabled] [],
         el0 ''Label'' [Txt txt_reset_password],
         Elem ''Input'' [A_str ''type'' ''password'', A_str ''value'' (us_editPassword s),
                         On_text ''onChange'' U_editPassword, A_str ''placeholder'' txt_new_password] []]
        @ (case us_editUser s of None \<Rightarrow> []
           | Some u \<Rightarrow> [bindings_section U_section (ud_section d) (us_section s)])
        @ [Elem ''Button'' [On ''onClick'' U_closeEdit] [Txt txt_cancel],
           Elem ''Button'' [On ''onClick'' U_update, A_flag ''disabled'' (ud_updatePending d)]
             [Txt (if ud_updatePending d then txt_saving else txt_save)]])"

definition users_delete_dialog :: "users_state \<Rightarrow> users_event node" where
  "users_delete_dialog s =
     Elem ''AlertDialog''
       [A_flag ''open'' (us_deleteTarget s \<noteq> None),
        On_flag ''onOpenChange'' (\<lambda>open. if \<not> open then U_deleteTarget None else U_noop)]
       [el0 ''AlertDialogTitle'' [Txt txt_confirm_delete],
        el0 ''AlertDialogDescription''
          [Txt txt_delete_user_q,
           el0 ''strong'' [Txt (nullish (map_option u_username (us_deleteTarget s)) [])],
           Txt txt_irrevocable],
        el0 ''AlertDialogCancel'' [Txt txt_cancel],
        Elem ''AlertDialogAction'' [On ''onClick'' U_delete] [Txt txt_delete]]"

definition users_view :: "users_data \<Rightarrow> users_state \<Rightarrow> users_event node" where
  "users_view d s =
     el0 ''div''
       (users_toolbar s @ [users_table d] @ users_pager d s
        @ [users_create_dialog d s, users_edit_dialog d s, users_delete_dialog s])"

section \<open>The contracts the page fulfils\<close>

definition users_filters :: "users_state \<Rightarrow> string \<times> string \<times> string" where
  "users_filters s = (us_search s, us_roleFilter s, us_enabledFilter s)"

fun users_change :: "list_filter \<Rightarrow> users_state \<Rightarrow> users_state" where
  "users_change F_search s = users_handleSearch s"
| "users_change (F_select v) s = users_handleRoleChange v s"
| "users_change (F_enabled v) s = users_handleEnabledChange v s"

interpretation users_list: paged_list us_page users_handlePageChange users_filters users_change
proof unfold_locales
  show "us_page (users_change c s) = 1" for c s
    by (cases c) (simp_all add: users_handler_defs)
qed (simp_all add: users_handler_defs users_filters_def)

interpretation users_create_form:
  submit_form users_created us_createOpen txt_user_created txt_create_failed
  by unfold_locales (simp_all add: users_created_def)

interpretation users_update_form:
  submit_form users_updated "\<lambda>s. us_editUser s \<noteq> None" txt_user_updated txt_update_failed
  by unfold_locales (simp_all add: users_updated_def)

interpretation users_delete_form:
  submit_form users_deleted "\<lambda>s. us_deleteTarget s \<noteq> None" txt_user_deleted txt_delete_failed
  by unfold_locales (simp_all add: users_deleted_def)

section \<open>The events of the rendered page\<close>

lemma fires_users_toolbar:
  "fires_all (users_toolbar s) =
     {U_openCreate, U_search, U_noop} \<union> range U_searchInput
     \<union> U_role ` {None, Some ''all'', Some ''admin'', Some ''base'', Some ''rover''}
     \<union> U_enabled ` {None, Some ''all'', Some ''true'', Some ''false''}"
proof -
  have "range (\<lambda>key. if key = ''Enter'' then U_search else U_noop) = {U_search, U_noop}"
    by (auto simp: image_iff)
  then show ?thesis by (auto simp: users_toolbar_def)
qed

lemma fires_user_row: "fires (user_row mps u) = {U_openEdit u, U_deleteTarget (Some u)}"
  by (auto simp: user_row_def fires_all_map)

lemma fires_users_table:
  "fires (users_table d) \<subseteq> (\<Union>u \<in> set (users_rows d). {U_openEdit u, U_deleteTarget (Some u)})"
  by (auto simp: users_table_def fires_all_map fires_user_row fires_all_def split: if_splits)

lemma fires_users_pager:
  "fires_all (users_pager d s) =
     (case ud_usersData d of None \<Rightarrow> {} | Some r \<Rightarrow> U_page ` pager_targets (us_page s) (pr_total r) 50)"
  by (simp add: users_pager_def fires_pagination split: option.split)

lemma item_values_role_items [simp]: "concat (map item_values role_items) = [''admin'', ''base'', ''rover'']"
  by (simp add: role_items_def)

lemma fires_role_items [simp]: "fires_all role_items = {}"
  by (simp add: role_items_def)

lemma fires_users_create_dialog:
  "fires (users_create_dialog d s) \<subseteq>
     range U_createOpen \<union> range U_newUsername \<union> range U_newPassword \<union> {U_noop}
     \<union> U_newRole ` {''admin'', ''base'', ''rover''}
     \<union> {U_create | x :: unit. us_createOpen s \<and> us_newUsername s \<noteq> [] \<and> us_newPassword s \<noteq> []}"
  by (auto simp: users_create_dialog_def split: if_splits)

lemma fires_users_edit_dialog:
  "fires (users_edit_dialog d s) \<subseteq>
     {U_noop, U_closeEdit} \<union> range U_editEnabled \<union> range U_editPassword
     \<union> U_editRole ` {''admin'', ''base'', ''rover''}
     \<union> {U_update | x :: unit. us_editUser s \<noteq> None} \<union> range U_section"
  using fires_bindings_section [of U_section "ud_section d" "us_section s"]
  by (auto simp: users_edit_dialog_def split: if_splits option.splits)

lemma fires_users_delete_dialog:
  "fires (users_delete_dialog s) \<subseteq>
     {U_noop, U_deleteTarget None} \<union> {U_delete | x :: unit. us_deleteTarget s \<noteq> None}"
  by (auto simp: users_delete_dialog_def split: if_splits)

lemma fires_users_view:
  "fires (users_view d s) =
     fires_all (users_toolbar s) \<union> fires (users_table d) \<union> fires_all (users_pager d s)
     \<union> fires (users_create_dialog d s) \<union> fires (users_edit_dialog d s) \<union> fires (users_delete_dialog s)"
  by (auto simp: users_view_def)

lemmas fires_users_parts = fires_users_toolbar fires_users_pager

section \<open>Reachable states\<close>

text \<open>The events that carry the outcome of a mutation.\<close>

fun users_answer :: "users_event \<Rightarrow> bool" where
  "users_answer (U_created r) = True"
| "users_answer (U_updated r) = True"
| "users_answer (U_deleted r) = True"
| "users_answer (U_section (B_added r)) = True"
| "users_answer (U_section (B_removed r)) = True"
| "users_answer _ = False"

abbreviation "users_reach \<equiv> session users_init users_view users_step users_answer"

text \<open>The length of the list that the rendered data reports.\<close>

definition users_shown :: "users_data \<Rightarrow> int option" where
  "users_shown d = map_option pr_total (ud_usersData d)"

definition users_inv :: "users_state \<Rightarrow> bool" where
  "users_inv s \<longleftrightarrow>
     1 \<le> us_page s
     \<and> us_roleFilter s \<in> {[], ''admin'', ''base'', ''rover''}
     \<and> us_enabledFilter s \<in> {[], ''true'', ''false''}
     \<and> us_newRole s \<in> {''admin'', ''base'', ''rover''}"

text \<open>The events that leave the page number, the filters and the role of the form alone.\<close>

fun keeps_list :: "users_event \<Rightarrow> bool" where
  "keeps_list U_search = False"
| "keeps_list (U_role v) = False"
| "keeps_list (U_enabled v) = False"
| "keeps_list (U_page p) = False"
| "keeps_list U_openCreate = False"
| "keeps_list (U_newRole r) = False"
| "keeps_list _ = True"

lemma keeps_list_step:
  assumes "keeps_list e"
  shows "us_page (fst (users_step d e s)) = us_page s"
    and "us_search (fst (users_step d e s)) = us_search s"
    and "us_roleFilter (fst (users_step d e s)) = us_roleFilter s"
    and "us_enabledFilter (fst (users_step d e s)) = us_enabledFilter s"
    and "us_newRole (fst (users_step d e s)) = us_newRole s"
  using assms
  by (cases e; simp add: users_handler_defs users_section_step_def split_beta Let_def
      split: sum.split option.split)+

lemma keeps_list_inv: "keeps_list e \<Longrightarrow> users_inv s \<Longrightarrow> users_inv (fst (users_step d e s))"
  by (simp add: users_inv_def keeps_list_step)

lemma fires_users_active:
  assumes "e \<in> fires (users_view d s)" and "\<not> keeps_list e"
  obtains "e = U_search"
  | v where "e = U_role v" "v \<in> {None, Some ''all'', Some ''admin'', Some ''base'', Some ''rover''}"
  | v where "e = U_enabled v" "v \<in> {None, Some ''all'', Some ''true'', Some ''false''}"
  | p r where "e = U_page p" "ud_usersData d = Some r" "p \<in> pager_targets (us_page s) (pr_total r) 50"
  | "e = U_openCreate"
  | v where "e = U_newRole v" "v \<in> {''admin'', ''base'', ''rover''}"
proof -
  from assms(1) consider "e \<in> fires_all (users_toolbar s)" | "e \<in> fires (users_table d)"
    | "e \<in> fires_all (users_pager d s)" | "e \<in> fires (users_create_dialog d s)"
    | "e \<in> fires (users_edit_dialog d s)" | "e \<in> fires (users_delete_dialog s)"
    by (auto simp: fires_users_view)
  then show thesis
  proof cases
    case 1
    with assms(2) that(1,2,3,5) show ?thesis by (auto simp: fires_users_toolbar)
  next
    case 2
    with assms(2) subsetD [OF fires_users_table 2] show ?thesis by auto
  next
    case 3
    with that(4) show ?thesis by (auto simp: fires_users_pager split: option.splits)
  next
    case 4
    with assms(2) subsetD [OF fires_users_create_dialog 4] that(6) show ?thesis by auto
  next
    case 5
    with assms(2) subsetD [OF fires_users_edit_dialog 5] show ?thesis by auto
  next
    case 6
    with assms(2) subsetD [OF fires_users_delete_dialog 6] show ?thesis by auto
  qed
qed

lemma users_act_inv:
  assumes "users_inv s" and "e \<in> fires (users_view d s)"
  shows "users_inv (fst (users_step d e s))"
proof (cases "keeps_list e")
  case True
  with assms(1) show ?thesis by (simp add: keeps_list_inv)
next
  case False
  from assms(2) this show ?thesis
  proof (cases rule: fires_users_active)
    case (4 p r)
    with assms(1) show ?thesis
      by (auto simp: users_inv_def users_handler_defs intro: pager_targets_ge_1)
  qed (use assms(1) in \<open>auto simp: users_inv_def users_handler_defs select_filter_def\<close>)
qed

lemma users_answer_keeps_list: "users_answer e \<Longrightarrow> keeps_list e"
  by (cases e rule: users_answer.cases) simp_all

lemma users_reach_inv: "users_reach ok s \<Longrightarrow> users_inv s"
proof (induction rule: session.induct)
  case start
  show ?case by (simp add: users_inv_def users_init_def)
next
  case (act s d e)
  then show ?case by (simp add: users_act_inv)
next
  case (answer s e d)
  then show ?case by (simp add: keeps_list_inv users_answer_keeps_list)
qed

interpretation users_session:
  paged_session us_page users_handlePageChange users_filters users_change
    users_init users_view users_step users_answer users_shown 50
proof unfold_locales
  fix e d s
  assume e: "e \<in> fires (users_view d s)"
  show "us_page (fst (users_step d e s)) = 1
      \<or> (us_page (fst (users_step d e s)) = us_page s
         \<and> users_filters (fst (users_step d e s)) = users_filters s)
      \<or> (\<exists>p n. users_shown d = Some n \<and> p \<in> pager_targets (us_page s) n 50
               \<and> fst (users_step d e s) = users_handlePageChange p s)"
  proof (cases "keeps_list e")
    case True
    then show ?thesis by (simp add: keeps_list_step users_filters_def)
  next
    case False
    with e show ?thesis
      by (cases rule: fires_users_active) (auto simp: users_handler_defs users_filters_def users_shown_def)
  qed
qed (simp_all add: users_init_def users_filters_def keeps_list_step users_answer_keeps_list)

section \<open>Which event issues which mutation\<close>

lemma section_effects:
  "m \<in> set (snd (bindings_step userId d e s)) \<Longrightarrow> m = Run mu
   \<Longrightarrow> (\<exists>req. mu = Create_binding req) \<or> (\<exists>i. mu = Delete_binding i)"
  by (cases e)
    (auto simp: section_handleAdd_def section_added_def section_handleRemove_def section_removed_def
      split: option.splits sum.splits)

lemma users_section_step_effects:
  "snd (users_section_step d e s) =
     (case us_editUser s of None \<Rightarrow> []
      | Some u \<Rightarrow> snd (bindings_step (u_id u) (ud_section d) e (us_section s)))"
  by (simp add: users_section_step_def split_beta split: option.split)

lemma users_create_source:
  "Run (Create_user req) \<in> set (snd (users_step d e s)) \<Longrightarrow>
     e = U_create \<and> req = \<lparr>cu_username = us_newUsername s, cu_password = us_newPassword s, cu_role = us_newRole s\<rparr>"
  by (cases e)
    (auto simp: users_handler_defs users_section_step_effects split: sum.splits option.splits
      dest: section_effects)

lemma users_delete_source:
  "Run (Delete_user i) \<in> set (snd (users_step d e s)) \<Longrightarrow>
     e = U_delete \<and> (\<exists>u. us_deleteTarget s = Some u \<and> i = u_id u)"
  by (cases e; cases "us_deleteTarget s")
    (auto simp: users_handler_defs users_section_step_effects split: sum.splits option.splits
      dest: section_effects)

lemma userMountpointMap_fold:
  "nullish (fold map_binding bs m u) [] =
     nullish (m u) [] @ map (the \<circ> b_mountpoint_name)
       (filter (\<lambda>b. b_user_id b = u \<and> truthy_str (b_mountpoint_name b)) bs)"
  by (induction bs arbitrary: m) (auto simp: map_binding_def)

lemma U_create_fires:
  "U_create \<in> fires (users_view d s) \<Longrightarrow> us_newUsername s \<noteq> [] \<and> us_newPassword s \<noteq> []"
  using fires_users_create_dialog [of d s] fires_users_edit_dialog [of d s]
    fires_users_delete_dialog [of s] fires_users_table [of d]
  by (auto simp: fires_users_view fires_users_parts split: option.splits)

section \<open>A sample session\<close>

text \<open>An administrator opens the create dialog and types a name and a password.\<close>

definition sample_users_data :: users_data where
  "sample_users_data =
     \<lparr>ud_usersData = Some \<lparr>pr_data = Some [\<lparr>u_id = 7, u_username = ''bob'', u_role = ''base'', u_enabled = True\<rparr>],
                           pr_total = 120, pr_page = 1, pr_limit = 50\<rparr>,
      ud_isLoading = False, ud_allBindings = None, ud_createPending = False, ud_updatePending = False,
      ud_section = \<lparr>bd_bindings = None, bd_isLoading = False, bd_mountpointsData = None, bd_createPending = False\<rparr>\<rparr>"

definition typed_users :: users_state where
  "typed_users =
     users_init\<lparr>us_createOpen := True, us_newUsername := ''ann'', us_newPassword := ''pw''\<rparr>"

lemma typed_users_reach: "users_reach any_data typed_users"
proof -
  let ?d = sample_users_data
  let ?s1 = "fst (users_step ?d U_openCreate users_init)"
  let ?s2 = "fst (users_step ?d (U_newUsername ''ann'') ?s1)"
  let ?s3 = "fst (users_step ?d (U_newPassword ''pw'') ?s2)"
  have 1: "users_reach any_data ?s1"
    by (rule session.act [OF session.start])
      (simp_all add: any_data_def fires_users_view fires_users_toolbar)
  have 2: "users_reach any_data ?s2"
    by (rule session.act [OF 1])
      (simp_all add: any_data_def fires_users_view users_create_dialog_def users_openCreate_def)
  have 3: "users_reach any_data ?s3"
    by (rule session.act [OF 2])
      (simp_all add: any_data_def fires_users_view users_create_dialog_def users_openCreate_def)
  have "?s3 = typed_users" by (simp add: typed_users_def users_init_def users_openCreate_def)
  with 3 show ?thesis by simp
qed

section \<open>Properties\<close>

text \<open>
  Every create-user request that the page issues, in any session and for any data the server
  returns, has a user name, a password and one of the three roles, which is what the server's
  \<open>CreateUser\<close> handler demands.
\<close>

theorem users_create_request_complete:
  assumes "users_reach any_data s" and "e \<in> fires (users_view d s)"
    and "Run (Create_user req) \<in> set (snd (users_step d e s))"
  shows "cu_username req \<noteq> [] \<and> cu_password req \<noteq> []
         \<and> cu_role req \<in> {''admin'', ''base'', ''rover''}"
proof (intro conjI)
  from users_create_source [OF assms(3)] have e: "e = U_create"
    and req: "req = \<lparr>cu_username = us_newUsername s, cu_password = us_newPassword s, cu_role = us_newRole s\<rparr>"
    by auto
  from U_create_fires assms(2) e req show "cu_username req \<noteq> []" "cu_password req \<noteq> []" by auto
  from users_reach_inv [OF assms(1)] req show "cu_role req \<in> {''admin'', ''base'', ''rover''}"
    by (simp add: users_inv_def)
qed

theorem users_create_request_complete_witness:
  "U_create \<in> fires (users_view sample_users_data typed_users)
   \<and> Run (Create_user \<lparr>cu_username = ''ann'', cu_password = ''pw'', cu_role = ''rover''\<rparr>)
       \<in> set (snd (users_step sample_users_data U_create typed_users))
   \<and> ''rover'' \<in> {''admin'', ''base'', ''rover''}"
proof -
  have 1: "U_create \<in> fires (users_view sample_users_data typed_users)"
    by (simp add: fires_users_view users_create_dialog_def typed_users_def sample_users_data_def)
  have 2: "Run (Create_user \<lparr>cu_username = ''ann'', cu_password = ''pw'', cu_role = ''rover''\<rparr>)
             \<in> set (snd (users_step sample_users_data U_create typed_users))"
    by (simp add: users_handleCreate_def typed_users_def users_init_def)
  from 1 2 users_create_request_complete [OF typed_users_reach 1 2] show ?thesis by simp
qed

text \<open>
  A user is deleted only by the confirmation dialog, while it is open and shows the name of
  the user that is deleted.
\<close>

theorem users_delete_is_confirmed:
  assumes "e \<in> fires (users_view d s)" and "Run (Delete_user i) \<in> set (snd (users_step d e s))"
  shows "\<exists>u. us_deleteTarget s = Some u \<and> u_id u = i \<and> e \<in> fires (users_delete_dialog s)
             \<and> u_username u \<in> set (texts (users_delete_dialog s))"
proof -
  from users_delete_source [OF assms(2)] obtain u
    where e: "e = U_delete" and u: "us_deleteTarget s = Some u" "i = u_id u" by auto
  have "e \<in> fires (users_delete_dialog s)" using e u by (simp add: users_delete_dialog_def)
  moreover have "u_username u \<in> set (texts (users_delete_dialog s))"
    using u by (simp add: users_delete_dialog_def)
  ultimately show ?thesis using u by blast
qed

theorem users_delete_is_confirmed_witness:
  "\<exists>u :: user. u_id u = 7 \<and> u_username u \<in> set (texts (users_delete_dialog
     (users_init\<lparr>us_deleteTarget := Some \<lparr>u_id = 7, u_username = ''bob'', u_role = ''base'', u_enabled = True\<rparr>\<rparr>)))"
proof -
  let ?s = "users_init\<lparr>us_deleteTarget := Some \<lparr>u_id = 7, u_username = ''bob'', u_role = ''base'', u_enabled = True\<rparr>\<rparr>"
  have 1: "U_delete \<in> fires (users_view sample_users_data ?s)"
    by (simp add: fires_users_view users_delete_dialog_def)
  have 2: "Run (Delete_user 7) \<in> set (snd (users_step sample_users_data U_delete ?s))"
    by (simp add: users_handleDelete_def)
  from users_delete_is_confirmed [OF 1 2] show ?thesis by blast
qed

text \<open>
  While the server's list does not change, the page number that the user list requests never
  runs past the last page of the current search and filters, whatever the user clicks.
\<close>

theorem users_page_stays_in_range:
  assumes "users_reach (static_list users_shown users_filters tot) s"
  shows "1 \<le> us_page s \<and>
         us_page s \<le> max 1 (total_pages (tot (us_search s, us_roleFilter s, us_enabledFilter s)) 50)"
  using users_session.session_in_range [OF assms]
  by (simp add: users_list.in_range_def users_filters_def)

theorem users_page_stays_in_range_witness:
  "us_page (users_handlePageChange 2 users_init) = 2 \<and>
   us_page (users_handlePageChange 2 users_init) \<le> max 1 (total_pages 120 50)"
proof -
  let ?t = "fst (users_step sample_users_data (U_page 2) users_init)"
  have "users_reach (static_list users_shown users_filters (\<lambda>_. 120)) ?t"
    by (rule session.act [OF session.start])
      (simp_all add: static_list_def users_shown_def sample_users_data_def fires_users_view fires_users_pager
        users_init_def pager_targets_def total_pages_def)
  from users_page_stays_in_range [OF this] show ?thesis by (simp add: users_handlePageChange_def)
qed

text \<open>
  The badges of a user row are exactly the named mountpoints of that user's bindings, in the
  order of the bindings.
\<close>

theorem userMountpointMap_correct:
  "nullish (userMountpointMap bs u) [] =
     map (the \<circ> b_mountpoint_name)
       (filter (\<lambda>b. b_user_id b = u \<and> truthy_str (b_mountpoint_name b)) (nullish bs []))"
  by (simp add: userMountpointMap_def userMountpointMap_fold)

text \<open>
  The answers that arrive for the create dialog: the dialog stays open and its form is kept
  until the first success, and every answer gives exactly one toast, a success toast exactly for
  a success.
\<close>

theorem users_create_answers:
  "(us_createOpen (fst (users_create_form.answers rs s)) \<longleftrightarrow> us_createOpen s \<and> list_all isl rs) \<and>
   map (\<lambda>e. \<exists>m. e = Toast_success m) (snd (users_create_form.answers rs s)) = map (\<lambda>r. \<not> isl r) rs"
  by (simp add: users_create_form.answers_shown users_create_form.answers_toasts)

end
