(* ===== verification/Mountpoints_Page.thy ===== *)
theory Mountpoints_Page
  imports Users_Page
begin

text \<open>
  \<open>MountpointsPage\<close> of \<open>web/src/pages/mountpoints.tsx\<close>: the mountpoint list with search,
  filters and pager, and the dialogs that create, edit and delete a mountpoint. The edit form
  keeps a dirty flag for the source secret, because the server never sends the secret back. The
  layout is that of the users page: a state record, one function per handler, \<open>mounts_step\<close>
  for the events of \<open>mounts_view\<close>, with each handler split at its \<open>await\<close>.
\<close>

section \<open>State\<close>

definition FORMAT_OPTIONS :: "string list" where
  "FORMAT_OPTIONS = [''RTCM3'', ''RTCM 3.2'', ''RTCM 3.3'']"

definition formatFilterLabels :: params where
  "formatFilterLabels =
     [(''all'', txt_all_formats), (''RTCM3'', ''RTCM3''), (''RTCM 3.2'', ''RTCM 3.2''),
      (''RTCM 3.3'', ''RTCM 3.3'')]"

definition mounts_enabledFilterLabels :: params where
  "mounts_enabledFilterLabels =
     [(''all'', txt_all_status), (''true'', txt_enabled), (''false'', txt_disabled)]"

record mounts_state =
  mo_page :: int
  mo_searchInput :: string
  mo_search :: string
  mo_formatFilter :: string
  mo_enabledFilter :: string
  mo_createOpen :: bool
  mo_editMount :: "mountpoint_info option"
  mo_deleteTarget :: "mountpoint_info option"
  mo_newName :: string
  mo_newDesc :: string
  mo_newFormat :: string
  mo_newSourceSecret :: string
  mo_newMaxClients :: int
  mo_editDesc :: string
  mo_editFormat :: string
  mo_editEnabled :: bool
  mo_editSourceSecret :: string
  mo_editSourceSecretDirty :: bool
  mo_editMaxClients :: int

definition mounts_init :: mounts_state where
  "mounts_init =
     \<lparr>mo_page = 1, mo_searchInput = [], mo_search = [], mo_formatFilter = [], mo_enabledFilter = [],
      mo_createOpen = False, mo_editMount = None, mo_deleteTarget = None,
      mo_newName = [], mo_newDesc = [], mo_newFormat = ''RTCM3'', mo_newSourceSecret = [],
      mo_newMaxClients = 0,
      mo_editDesc = [], mo_editFormat = [], mo_editEnabled = True, mo_editSourceSecret = [],
      mo_editSourceSecretDirty = False, mo_editMaxClients = 0\<rparr>"

text \<open>What the hooks return to a render.\<close>

record mounts_data =
  md_mountsData :: "mountpoint_info paginated_response option"
  md_isLoading :: bool
  md_createPending :: bool
  md_updatePending :: bool

definition mounts_query :: "mounts_state \<Rightarrow> list_mountpoints_params option" where
  "mounts_query s =
     Some \<lparr>lm_page = Some (mo_page s), lm_limit = Some 50, lm_search = Some (mo_search s),
           lm_format = Some (mo_formatFilter s), lm_enabled = Some (mo_enabledFilter s)\<rparr>"

section \<open>Handlers\<close>

definition mounts_handleSearch :: "mounts_state \<Rightarrow> mounts_state" where
  "mounts_handleSearch s = s\<lparr>mo_search := mo_searchInput s, mo_page := 1\<rparr>"

definition mounts_handleFormatChange :: "string option \<Rightarrow> mounts_state \<Rightarrow> mounts_state" where
  "mounts_handleFormatChange v s = s\<lparr>mo_formatFilter := select_filter v, mo_page := 1\<rparr>"

definition mounts_handleEnabledChange :: "string option \<Rightarrow> mounts_state \<Rightarrow> mounts_state" where
  "mounts_handleEnabledChange v s = s\<lparr>mo_enabledFilter := select_filter v, mo_page := 1\<rparr>"

definition mounts_handlePageChange :: "int \<Rightarrow> mounts_state \<Rightarrow> mounts_state" where
  "mounts_handlePageChange p s = s\<lparr>mo_page := p\<rparr>"

definition mounts_openCreate :: "mounts_state \<Rightarrow> mounts_state" where
  "mounts_openCreate s =
     s\<lparr>mo_newName := [], mo_newDesc := [], mo_newFormat := ''RTCM3'', mo_newSourceSecret := [],
       mo_newMaxClients := 0, mo_createOpen := True\<rparr>"

definition mounts_openEdit :: "mountpoint_info \<Rightarrow> mounts_state \<Rightarrow> mounts_state" where
  "mounts_openEdit mp s =
     s\<lparr>mo_editMount := Some mp, mo_editDesc := m_description mp, mo_editFormat := m_format mp,
       mo_editEnabled := m_enabled mp, mo_editSourceSecret := [], mo_editSourceSecretDirty := False,
       mo_editMaxClients := m_max_clients mp\<rparr>"

text \<open>\<open>x || undefined\<close> leaves the property out of the body.\<close>

definition mounts_handleCreate :: "mounts_state \<Rightarrow> effect list" where
  "mounts_handleCreate s =
     [Run (Create_mountpoint
        \<lparr>cm_name = mo_newName s, cm_description = mo_newDesc s,
         cm_format = (if mo_newFormat s \<noteq> [] then Some (mo_newFormat s) else None),
         cm_source_secret = (if mo_newSourceSecret s \<noteq> [] then Some (mo_newSourceSecret s) else None),
         cm_max_clients = (if mo_newMaxClients s \<noteq> 0 then Some (mo_newMaxClients s) else None)\<rparr>)]"

definition mounts_created :: "json outcome \<Rightarrow> mounts_state \<Rightarrow> mounts_state \<times> effect list" where
  "mounts_created r s =
     (case r of Inr v \<Rightarrow> (s\<lparr>mo_createOpen := False\<rparr>, [Toast_success txt_mount_created])
      | Inl e \<Rightarrow> (s, [Toast_error (error_text txt_create_failed e)]))"

definition mounts_handleUpdate :: "mounts_state \<Rightarrow> effect list" where
  "mounts_handleUpdate s =
     (case mo_editMount s of
        None \<Rightarrow> []
      | Some mp \<Rightarrow>
          [Run (Update_mountpoint (m_id mp)
             \<lparr>um_description = Some (mo_editDesc s), um_format = Some (mo_editFormat s),
              um_enabled = Some (mo_editEnabled s),
              um_source_secret = (if mo_editSourceSecretDirty s then Some (mo_editSourceSecret s) else None),
              um_max_clients = Some (mo_editMaxClients s)\<rparr>)])"

definition mounts_updated :: "json outcome \<Rightarrow> mounts_state \<Rightarrow> mounts_state \<times> effect list" where
  "mounts_updated r s =
     (case r of Inr v \<Rightarrow> (s\<lparr>mo_editMount := None\<rparr>, [Toast_success txt_mount_updated])
      | Inl e \<Rightarrow> (s, [Toast_error (error_text txt_update_failed e)]))"

definition mounts_handleDelete :: "mounts_state \<Rightarrow> effect list" where
  "mounts_handleDelete s =
     (case mo_deleteTarget s of None \<Rightarrow> [] | Some mp \<Rightarrow> [Run (Delete_mountpoint (m_id mp))])"

definition mounts_deleted :: "json outcome \<Rightarrow> mounts_state \<Rightarrow> mounts_state \<times> effect list" where
  "mounts_deleted r s =
     (case r of Inr v \<Rightarrow> (s\<lparr>mo_deleteTarget := None\<rparr>, [Toast_success txt_mount_deleted])
      | Inl e \<Rightarrow> (s, [Toast_error (error_text txt_delete_failed e)]))"

text \<open>The change handler of the secret field and the button that empties it.\<close>

definition mounts_setSecret :: "string \<Rightarrow> mounts_state \<Rightarrow> mounts_state" where
  "mounts_setSecret v s = s\<lparr>mo_editSourceSecret := v, mo_editSourceSecretDirty := True\<rparr>"

definition mounts_clearSecret :: "mounts_state \<Rightarrow> mounts_state" where
  "mounts_clearSecret s = s\<lparr>mo_editSourceSecret := [], mo_editSourceSecretDirty := True\<rparr>"

text \<open>The link of a row to the map.\<close>

definition map_link :: "mountpoint_info \<Rightarrow> string" where
  "map_link mp = ''/map?mount='' @ m_name mp"

section \<open>Events\<close>

datatype mounts_event =
    M_noop
  | M_searchInput string
  | M_search
  | M_format "string option"
  | M_enabled "string option"
  | M_page int
  | M_openCreate
  | M_openEdit mountpoint_info
  | M_showOnMap mountpoint_info
  | M_deleteTarget "mountpoint_info option"
  | M_closeEdit
  | M_createOpen bool
  | M_newName string
  | M_newDesc string
  | M_newFormat string
  | M_newSourceSecret string
  | M_newMaxClients int
  | M_editDesc string
  | M_editFormat string
  | M_editEnabled bool
  | M_editSecret string
  | M_clearSecret
  | M_editMaxClients int
  | M_create
  | M_update
  | M_delete
  | M_created "json outcome"
  | M_updated "json outcome"
  | M_deleted "json outcome"

fun mounts_step :: "mounts_data \<Rightarrow> mounts_event \<Rightarrow> mounts_state \<Rightarrow> mounts_state \<times> effect list" where
  "mounts_step d M_noop s = (s, [])"
| "mounts_step d (M_searchInput v) s = (s\<lparr>mo_searchInput := v\<rparr>, [])"
| "mounts_step d M_search s = (mounts_handleSearch s, [])"
| "mounts_step d (M_format v) s = (mounts_handleFormatChange v s, [])"
| "mounts_step d (M_enabled v) s = (mounts_handleEnabledChange v s, [])"
| "mounts_step d (M_page p) s = (mounts_handlePageChange p s, [])"
| "mounts_step d M_openCreate s = (mounts_openCreate s, [])"
| "mounts_step d (M_openEdit mp) s = (mounts_openEdit mp s, [])"
| "mounts_step d (M_showOnMap mp) s = (s, [Set_href (map_link mp)])"
| "mounts_step d (M_deleteTarget t) s = (s\<lparr>mo_deleteTarget := t\<rparr>, [])"
| "mounts_step d M_closeEdit s = (s\<lparr>mo_editMount := None\<rparr>, [])"
| "mounts_step d (M_createOpen b) s = (s\<lparr>mo_createOpen := b\<rparr>, [])"
| "mounts_step d (M_newName v) s = (s\<lparr>mo_newName := v\<rparr>, [])"
| "mounts_step d (M_newDesc v) s = (s\<lparr>mo_newDesc := v\<rparr>, [])"
| "mounts_step d (M_newFormat v) s = (s\<lparr>mo_newFormat := v\<rparr>, [])"
| "mounts_step d (M_newSourceSecret v) s = (s\<lparr>mo_newSourceSecret := v\<rparr>, [])"
| "mounts_step d (M_newMaxClients n) s = (s\<lparr>mo_newMaxClients := n\<rparr>, [])"
| "mounts_step d (M_editDesc v) s = (s\<lparr>mo_editDesc := v\<rparr>, [])"
| "mounts_step d (M_editFormat v) s = (s\<lparr>mo_editFormat := v\<rparr>, [])"
| "mounts_step d (M_editEnabled b) s = (s\<lparr>mo_editEnabled := b\<rparr>, [])"
| "mounts_step d (M_editSecret v) s = (mounts_setSecret v s, [])"
| "mounts_step d M_clearSecret s = (mounts_clearSecret s, [])"
| "mounts_step d (M_editMaxClients n) s = (s\<lparr>mo_editMaxClients := n\<rparr>, [])"
| "mounts_step d M_create s = (s, mounts_handleCreate s)"
| "mounts_step d M_update s = (s, mounts_handleUpdate s)"
| "mounts_step d M_delete s = (s, mounts_handleDelete s)"
| "mounts_step d (M_created r) s = mounts_created r s"
| "mounts_step d (M_updated r) s = mounts_updated r s"
| "mounts_step d (M_deleted r) s = mounts_deleted r s"

lemmas mounts_handler_defs = mounts_handleSearch_def mounts_handleFormatChange_def
  mounts_handleEnabledChange_def mounts_handlePageChange_def mounts_openCreate_def mounts_openEdit_def
  mounts_handleCreate_def mounts_created_def mounts_handleUpdate_def mounts_updated_def
  mounts_handleDelete_def mounts_deleted_def mounts_setSecret_def mounts_clearSecret_def

section \<open>Rendering\<close>

definition mounts_toolbar :: "mounts_state \<Rightarrow> mounts_event node list" where
  "mounts_toolbar s =
     [el0 ''div''
        [el0 ''h1'' [Txt txt_mount_admin],
         Elem ''Button'' [On ''onClick'' M_openCreate] [Txt txt_create_mount]],
      el0 ''div''
        [el0 ''div''
           [Elem ''Input''
              [A_str ''value'' (mo_searchInput s), On_text ''onChange'' M_searchInput,
               On_text ''onKeyDown'' (\<lambda>key. if key = ''Enter'' then M_search else M_noop),
               A_str ''placeholder'' txt_search_mount] [],
            Elem ''Button'' [On ''onClick'' M_search] []],
         Elem ''Select''
           [A_str ''value'' (str_or (mo_formatFilter s) ''all''), On_select ''onValueChange'' M_format]
           [el0 ''SelectTrigger''
              [el0 ''SelectValue''
                 [Txt (nullish (map_of formatFilterLabels (str_or (mo_formatFilter s) ''all'')) [])]],
            el0 ''SelectContent''
              (labelled_item ''all'' txt_all_formats # map (\<lambda>fmt. option_item fmt) FORMAT_OPTIONS)],
         Elem ''Select''
           [A_str ''value'' (str_or (mo_enabledFilter s) ''all''), On_select ''onValueChange'' M_enabled]
           [el0 ''SelectTrigger''
              [el0 ''SelectValue''
                 [Txt (nullish (map_of mounts_enabledFilterLabels (str_or (mo_enabledFilter s) ''all'')) [])]],
            el0 ''SelectContent''
              [labelled_item ''all'' txt_all_status, labelled_item ''true'' txt_enabled,
               labelled_item ''false'' txt_disabled]]]]"

text \<open>The cell of the client count.\<close>

definition client_cell :: "mountpoint_info \<Rightarrow> string" where
  "client_cell mp =
     (if m_max_clients mp > 0 then int_str (m_client_count mp) @ '' / '' @ int_str (m_max_clients mp)
      else int_str (m_client_count mp))"

definition mount_row :: "mountpoint_info \<Rightarrow> mounts_event node" where
  "mount_row mp =
     el0 ''TableRow''
       [el0 ''TableCell'' [Txt (int_str (m_id mp))],
        el0 ''TableCell'' [Txt (m_name mp)],
        el0 ''TableCell'' [Txt (str_or (m_description mp) txt_dash)],
        el0 ''TableCell'' [Elem ''Badge'' [A_str ''variant'' ''outline''] [Txt (m_format mp)]],
        el0 ''TableCell''
          [Elem ''Badge'' [A_str ''variant'' (if m_enabled mp then ''default'' else ''secondary'')]
             [Txt (if m_enabled mp then txt_enabled else txt_disabled)]],
        el0 ''TableCell''
          [el0 ''span''
             [Elem ''span'' [A_str ''className'' (if m_source_online mp then ''bg-green-500'' else ''bg-gray-300'')] [],
              Txt (if m_source_online mp then txt_online else txt_offline)]],
        el0 ''TableCell'' [Txt (client_cell mp)],
        el0 ''TableCell''
          ((if m_antenna_lat mp \<noteq> None
            then [Elem ''Button'' [On ''onClick'' (M_showOnMap mp)] [Txt txt_position]] else [])
           @ [Elem ''Button'' [On ''onClick'' (M_openEdit mp)] [Txt txt_edit],
              Elem ''Button'' [On ''onClick'' (M_deleteTarget (Some mp))] [Txt txt_delete]])]"

definition mounts_rows :: "mounts_data \<Rightarrow> mountpoint_info list" where
  "mounts_rows d = nullish (Option.bind (md_mountsData d) pr_data) []"

definition mounts_table :: "mounts_data \<Rightarrow> mounts_event node" where
  "mounts_table d =
     (if md_isLoading d then el0 ''div'' (replicate 3 (el0 ''Skeleton'' []))
      else el0 ''div''
        [el0 ''Table''
           [el0 ''TableHeader''
              [el0 ''TableRow''
                 (map (\<lambda>t. el0 ''TableHead'' [Txt t])
                    [''ID'', txt_mname, txt_mdesc, txt_mformat, txt_status, ''Source'', txt_clients, txt_actions])],
            el0 ''TableBody''
              (if mounts_rows d = []
               then [el0 ''TableRow'' [Elem ''TableCell'' [A_num ''colSpan'' 8] [Txt txt_no_mounts]]]
               else map mount_row (mounts_rows d))]])"

definition mounts_pager :: "mounts_data \<Rightarrow> mounts_state \<Rightarrow> mounts_event node list" where
  "mounts_pager d s =
     (case md_mountsData d of
        None \<Rightarrow> []
      | Some r \<Rightarrow> pagination (mo_page s) (pr_total r) 50 M_page)"

definition format_items :: "mounts_event node list" where
  "format_items = map (\<lambda>fmt. option_item fmt) FORMAT_OPTIONS"

text \<open>\<open>(v) => v && set(v)\<close>\<close>

definition if_value :: "(string \<Rightarrow> mounts_event) \<Rightarrow> string option \<Rightarrow> mounts_event" where
  "if_value f v = (case v of None \<Rightarrow> M_noop | Some x \<Rightarrow> if x = [] then M_noop else f x)"

definition mounts_create_dialog :: "mounts_data \<Rightarrow> mounts_state \<Rightarrow> mounts_event node" where
  "mounts_create_dialog d s =
     Elem ''Dialog'' [A_flag ''open'' (mo_createOpen s), On_flag ''onOpenChange'' M_createOpen]
       [el0 ''DialogTitle'' [Txt txt_create_mount],
        el0 ''Label'' [Txt txt_mname],
        Elem ''Input'' [A_str ''value'' (mo_newName s), On_text ''onChange'' M_newName,
                        A_str ''placeholder'' ''RTCM_01''] [],
        el0 ''Label'' [Txt txt_mdesc],
        Elem ''Input'' [A_str ''value'' (mo_newDesc s), On_text ''onChange'' M_newDesc,
                        A_str ''placeholder'' txt_desc_placeholder] [],
        el0 ''Label'' [Txt txt_mformat],
        Elem ''Select'' [A_str ''value'' (mo_newFormat s), On_select ''onValueChange'' (if_value M_newFormat)]
          [el0 ''SelectTrigger'' [Elem ''SelectValue'' [A_str ''placeholder'' txt_choose_format] []],
           el0 ''SelectContent'' format_items],
        el0 ''Label'' [Txt txt_source_secret],
        Elem ''Input'' [A_str ''type'' ''password'', A_str ''value'' (mo_newSourceSecret s),
                        On_text ''onChange'' M_newSourceSecret, A_str ''placeholder'' txt_secret_placeholder] [],
        el0 ''p'' [Txt txt_secret_hint],
        el0 ''Label'' [Txt txt_max_clients],
        Elem ''Input'' [A_str ''type'' ''number'', A_num ''min'' 0, A_num ''value'' (mo_newMaxClients s),
                        On_text ''onChange'' (\<lambda>v. M_newMaxClients (number_input v)),
                        A_str ''placeholder'' txt_zero_unlimited] [],
        el0 ''p'' [Txt txt_limit_hint],
        Elem ''Button'' [On ''onClick'' (M_createOpen False)] [Txt txt_cancel],
        Elem ''Button''
          [On ''onClick'' M_create, A_flag ''disabled'' (md_createPending d \<or> mo_newName s = [])]
          [Txt (if md_createPending d then txt_creating else txt_create)]]"

definition mounts_edit_dialog :: "mounts_data \<Rightarrow> mounts_state \<Rightarrow> mounts_event node" where
  "mounts_edit_dialog d s =
     Elem ''Dialog''
       [A_flag ''open'' (mo_editMount s \<noteq> None),
        On_flag ''onOpenChange'' (\<lambda>open. if \<not> open then M_closeEdit else M_noop)]
       [el0 ''DialogTitle'' [Txt txt_edit_mount, Txt (nullish (map_option m_name (mo_editMount s)) [])],
        el0 ''Label'' [Txt txt_mdesc],
        Elem ''Input'' [A_str ''value'' (mo_editDesc s), On_text ''onChange'' M_editDesc] [],
        el0 ''Label'' [Txt txt_mformat],
        Elem ''Select'' [A_str ''value'' (mo_editFormat s), On_select ''onValueChange'' (if_value M_editFormat)]
          [el0 ''SelectTrigger'' [Elem ''SelectValue'' [A_str ''placeholder'' txt_choose_format] []],
           el0 ''SelectContent'' format_items],
        el0 ''Label'' [Txt txt_enabled],
        Elem ''Switch'' [A_flag ''checked'' (mo_editEnabled s), On_flag ''onCheckedChange'' M_editEnabled] [],
        el0 ''Label'' [Txt txt_change_secret],
        Elem ''Input'' [A_str ''type'' ''password'', A_str ''value'' (mo_editSourceSecret s),
                        On_text ''onChange'' M_editSecret, A_str ''placeholder'' txt_enter_password] [],
        Elem ''Button'' [A_str ''type'' ''button'', On ''onClick'' M_clearSecret] [Txt txt_clear],
        el0 ''p'' [Txt txt_clear_hint],
        el0 ''Label'' [Txt txt_max_clients],
        Elem ''Input'' [A_str ''type'' ''number'', A_num ''min'' 0, A_num ''value'' (mo_editMaxClients s),
                        On_text ''onChange'' (\<lambda>v. M_editMaxClients (number_input v)),
                        A_str ''placeholder'' txt_zero_unlimited] [],
        el0 ''p'' [Txt txt_limit_hint],
        Elem ''Button'' [On ''onClick'' M_closeEdit] [Txt txt_cancel],
        Elem ''Button'' [On ''onClick'' M_update, A_flag ''disabled'' (md_updatePending d)]
          [Txt (if md_updatePending d then txt_saving else txt_save)]]"

definition mounts_delete_dialog :: "mounts_state \<Rightarrow> mounts_event node" where
  "mounts_delete_dialog s =
     Elem ''AlertDialog''
       [A_flag ''open'' (mo_deleteTarget s \<noteq> None),
        On_flag ''onOpenChange'' (\<lambda>open. if \<not> open then M_deleteTarget None else M_noop)]
       [el0 ''AlertDialogTitle'' [Txt txt_confirm_delete],
        el0 ''AlertDialogDescription''
          ([Txt txt_delete_mount_q,
            el0 ''strong'' [Txt (nullish (map_option m_name (mo_deleteTarget s)) [])],
            Txt txt_question]
           @ (if nullish (map_option m_source_online (mo_deleteTarget s)) False
              then [Txt txt_source_online_warn] else [])
           @ (if nullish (map_option m_client_count (mo_deleteTarget s)) 0 > 0
              then [Txt (txt_clients_warn_1 @ int_str (nullish (map_option m_client_count (mo_deleteTarget s)) 0)
                         @ txt_clients_warn_2)] else [])),
        el0 ''AlertDialogCancel'' [Txt txt_cancel],
        Elem ''AlertDialogAction'' [On ''onClick'' M_delete] [Txt txt_delete]]"

definition mounts_view :: "mounts_data \<Rightarrow> mounts_state \<Rightarrow> mounts_event node" where
  "mounts_view d s =
     el0 ''div''
       (mounts_toolbar s @ [mounts_table d] @ mounts_pager d s
        @ [mounts_create_dialog d s, mounts_edit_dialog d s, mounts_delete_dialog s])"

section \<open>The contracts the page fulfils\<close>

definition mounts_filters :: "mounts_state \<Rightarrow> string \<times> string \<times> string" where
  "mounts_filters s = (mo_search s, mo_formatFilter s, mo_enabledFilter s)"

fun mounts_change :: "list_filter \<Rightarrow> mounts_state \<Rightarrow> mounts_state" where
  "mounts_change F_search s = mounts_handleSearch s"
| "mounts_change (F_select v) s = mounts_handleFormatChange v s"
| "mounts_change (F_enabled v) s = mounts_handleEnabledChange v s"

interpretation mounts_list: paged_list mo_page mounts_handlePageChange mounts_filters mounts_change
proof unfold_locales
  show "mo_page (mounts_change c s) = 1" for c s
    by (cases c) (simp_all add: mounts_handler_defs)
qed (simp_all add: mounts_handler_defs mounts_filters_def)

interpretation mounts_create_form:
  submit_form mounts_created mo_createOpen txt_mount_created txt_create_failed
  by unfold_locales (simp_all add: mounts_created_def)

interpretation mounts_update_form:
  submit_form mounts_updated "\<lambda>s. mo_editMount s \<noteq> None" txt_mount_updated txt_update_failed
  by unfold_locales (simp_all add: mounts_updated_def)

interpretation mounts_delete_form:
  submit_form mounts_deleted "\<lambda>s. mo_deleteTarget s \<noteq> None" txt_mount_deleted txt_delete_failed
  by unfold_locales (simp_all add: mounts_deleted_def)

section \<open>The events of the rendered page\<close>

lemma FORMAT_OPTIONS_values [simp]: "concat (map item_values (map (\<lambda>fmt. option_item fmt) FORMAT_OPTIONS)) = FORMAT_OPTIONS"
  by (simp add: FORMAT_OPTIONS_def)

lemma item_values_format_items [simp]: "concat (map item_values format_items) = FORMAT_OPTIONS"
  by (simp add: format_items_def FORMAT_OPTIONS_def)

lemma fires_format_items [simp]: "fires_all format_items = {}"
  by (simp add: format_items_def FORMAT_OPTIONS_def)

lemma if_value_range:
  "insert (if_value f None) ((\<lambda>v. if_value f (Some v)) ` set FORMAT_OPTIONS) = insert M_noop (f ` set FORMAT_OPTIONS)"
  by (simp add: if_value_def FORMAT_OPTIONS_def)

lemma fires_mounts_toolbar:
  "fires_all (mounts_toolbar s) =
     {M_openCreate, M_search, M_noop} \<union> range M_searchInput
     \<union> M_format ` ({None, Some ''all''} \<union> Some ` set FORMAT_OPTIONS)
     \<union> M_enabled ` {None, Some ''all'', Some ''true'', Some ''false''}"
proof -
  have "range (\<lambda>key. if key = ''Enter'' then M_search else M_noop) = {M_search, M_noop}"
    by (auto simp: image_iff)
  then show ?thesis by (auto simp: mounts_toolbar_def FORMAT_OPTIONS_def)
qed

lemma fires_mount_row:
  "fires (mount_row mp) =
     {M_openEdit mp, M_deleteTarget (Some mp)} \<union> (if m_antenna_lat mp \<noteq> None then {M_showOnMap mp} else {})"
  by (auto simp: mount_row_def)

lemma fires_mounts_table:
  "fires (mounts_table d) \<subseteq>
     (\<Union>mp \<in> set (mounts_rows d). {M_openEdit mp, M_deleteTarget (Some mp), M_showOnMap mp})"
  by (auto simp: mounts_table_def fires_all_map fires_mount_row fires_all_def split: if_splits)

lemma fires_mounts_pager:
  "fires_all (mounts_pager d s) =
     (case md_mountsData d of None \<Rightarrow> {} | Some r \<Rightarrow> M_page ` pager_targets (mo_page s) (pr_total r) 50)"
  by (simp add: mounts_pager_def fires_pagination split: option.split)

lemma fires_mounts_create_dialog:
  "fires (mounts_create_dialog d s) \<subseteq>
     range M_createOpen \<union> range M_newName \<union> range M_newDesc \<union> range M_newSourceSecret
     \<union> range M_newMaxClients \<union> {M_noop} \<union> M_newFormat ` set FORMAT_OPTIONS
     \<union> {M_create | x :: unit. mo_createOpen s \<and> mo_newName s \<noteq> []}"
  using if_value_range [of M_newFormat] by (auto simp: mounts_create_dialog_def split: if_splits)

lemma fires_mounts_edit_dialog:
  "fires (mounts_edit_dialog d s) \<subseteq>
     {M_noop, M_closeEdit, M_clearSecret} \<union> range M_editEnabled \<union> range M_editDesc \<union> range M_editSecret
     \<union> range M_editMaxClients \<union> M_editFormat ` set FORMAT_OPTIONS
     \<union> {M_update | x :: unit. mo_editMount s \<noteq> None}"
  using if_value_range [of M_editFormat] by (auto simp: mounts_edit_dialog_def split: if_splits)

lemma fires_mounts_delete_dialog:
  "fires (mounts_delete_dialog s) \<subseteq>
     {M_noop, M_deleteTarget None} \<union> {M_delete | x :: unit. mo_deleteTarget s \<noteq> None}"
  by (auto simp: mounts_delete_dialog_def split: if_splits)

lemma fires_mounts_view:
  "fires (mounts_view d s) =
     fires_all (mounts_toolbar s) \<union> fires (mounts_table d) \<union> fires_all (mounts_pager d s)
     \<union> fires (mounts_create_dialog d s) \<union> fires (mounts_edit_dialog d s) \<union> fires (mounts_delete_dialog s)"
  by (auto simp: mounts_view_def)

section \<open>Sessions\<close>

fun mounts_answer :: "mounts_event \<Rightarrow> bool" where
  "mounts_answer (M_created r) = True"
| "mounts_answer (M_updated r) = True"
| "mounts_answer (M_deleted r) = True"
| "mounts_answer _ = False"

abbreviation "mounts_reach \<equiv> session mounts_init mounts_view mounts_step mounts_answer"

definition mounts_shown :: "mounts_data \<Rightarrow> int option" where
  "mounts_shown d = map_option pr_total (md_mountsData d)"

text \<open>The events that change the page number, the filters or the format of the create form.\<close>

fun mounts_listed :: "mounts_event \<Rightarrow> bool" where
  "mounts_listed M_search = True"
| "mounts_listed (M_format v) = True"
| "mounts_listed (M_enabled v) = True"
| "mounts_listed (M_page p) = True"
| "mounts_listed M_openCreate = True"
| "mounts_listed (M_newFormat v) = True"
| "mounts_listed _ = False"

lemma mounts_unlisted:
  assumes "\<not> mounts_listed e"
  shows "mo_page (fst (mounts_step d e s)) = mo_page s"
    and "mounts_filters (fst (mounts_step d e s)) = mounts_filters s"
    and "mo_newFormat (fst (mounts_step d e s)) = mo_newFormat s"
  using assms
  by (cases e; simp add: mounts_handler_defs mounts_filters_def split: sum.split)+

lemma mounts_answer_unlisted: "mounts_answer e \<Longrightarrow> \<not> mounts_listed e"
  by (cases e) simp_all

lemma fires_mounts_listed:
  assumes "e \<in> fires (mounts_view d s)" and "mounts_listed e"
  obtains "e = M_search"
  | v where "e = M_format v" "v \<in> {None, Some ''all''} \<union> Some ` set FORMAT_OPTIONS"
  | v where "e = M_enabled v" "v \<in> {None, Some ''all'', Some ''true'', Some ''false''}"
  | p r where "e = M_page p" "md_mountsData d = Some r" "p \<in> pager_targets (mo_page s) (pr_total r) 50"
  | "e = M_openCreate"
  | v where "e = M_newFormat v" "v \<in> set FORMAT_OPTIONS"
proof -
  from assms(1) consider "e \<in> fires_all (mounts_toolbar s)" | "e \<in> fires (mounts_table d)"
    | "e \<in> fires_all (mounts_pager d s)" | "e \<in> fires (mounts_create_dialog d s)"
    | "e \<in> fires (mounts_edit_dialog d s)" | "e \<in> fires (mounts_delete_dialog s)"
    by (auto simp: fires_mounts_view)
  then show thesis
  proof cases
    case 1
    with assms(2) that(1,2,3,5) show ?thesis by (auto simp: fires_mounts_toolbar)
  next
    case 2
    with assms(2) subsetD [OF fires_mounts_table 2] show ?thesis by auto
  next
    case 3
    with that(4) show ?thesis by (auto simp: fires_mounts_pager split: option.splits)
  next
    case 4
    with assms(2) subsetD [OF fires_mounts_create_dialog 4] that(6) show ?thesis by auto
  next
    case 5
    with assms(2) subsetD [OF fires_mounts_edit_dialog 5] show ?thesis by auto
  next
    case 6
    with assms(2) subsetD [OF fires_mounts_delete_dialog 6] show ?thesis by auto
  qed
qed

interpretation mounts_session:
  paged_session mo_page mounts_handlePageChange mounts_filters mounts_change
    mounts_init mounts_view mounts_step mounts_answer mounts_shown 50
proof unfold_locales
  fix e d s
  assume e: "e \<in> fires (mounts_view d s)"
  show "mo_page (fst (mounts_step d e s)) = 1
      \<or> (mo_page (fst (mounts_step d e s)) = mo_page s
         \<and> mounts_filters (fst (mounts_step d e s)) = mounts_filters s)
      \<or> (\<exists>p n. mounts_shown d = Some n \<and> p \<in> pager_targets (mo_page s) n 50
               \<and> fst (mounts_step d e s) = mounts_handlePageChange p s)"
  proof (cases "mounts_listed e")
    case False
    then show ?thesis by (simp add: mounts_unlisted)
  next
    case True
    with e show ?thesis
      by (cases rule: fires_mounts_listed) (auto simp: mounts_handler_defs mounts_filters_def mounts_shown_def)
  qed
qed (simp_all add: mounts_init_def mounts_unlisted mounts_answer_unlisted)

lemma mounts_reach_newFormat: "mounts_reach ok s \<Longrightarrow> mo_newFormat s \<in> set FORMAT_OPTIONS"
proof (induction rule: session.induct)
  case start
  show ?case by (simp add: mounts_init_def FORMAT_OPTIONS_def)
next
  case (act s d e)
  show ?case
  proof (cases "mounts_listed e")
    case False
    with act.IH show ?thesis by (simp add: mounts_unlisted)
  next
    case True
    with act.hyps(3) show ?thesis
      by (cases rule: fires_mounts_listed)
        (use act.IH in \<open>simp_all add: mounts_handler_defs FORMAT_OPTIONS_def\<close>)
  qed
next
  case (answer s e d)
  then show ?case by (simp add: mounts_unlisted mounts_answer_unlisted)
qed

section \<open>What a form submits\<close>

text \<open>
  A run of events from a state, each with the data its render had, and the last value that the
  events of a run enter into a field.
\<close>

definition mounts_run :: "(mounts_data \<times> mounts_event) list \<Rightarrow> mounts_state \<Rightarrow> mounts_state" where
  "mounts_run es s = fold (\<lambda>(d, e) t. fst (mounts_step d e t)) es s"

definition entered :: "(mounts_event \<Rightarrow> 'v option) \<Rightarrow> (mounts_data \<times> mounts_event) list \<Rightarrow> 'v \<Rightarrow> 'v" where
  "entered f es v = fold (\<lambda>(d, e) w. nullish (f e) w) es v"

fun is_openEdit :: "mounts_event \<Rightarrow> bool" where
  "is_openEdit (M_openEdit mp) = True"
| "is_openEdit _ = False"

fun desc_entry :: "mounts_event \<Rightarrow> string option" where
  "desc_entry (M_editDesc v) = Some v"
| "desc_entry _ = None"

fun format_entry :: "mounts_event \<Rightarrow> string option" where
  "format_entry (M_editFormat v) = Some v"
| "format_entry _ = None"

fun enabled_entry :: "mounts_event \<Rightarrow> bool option" where
  "enabled_entry (M_editEnabled b) = Some b"
| "enabled_entry _ = None"

fun secret_entry :: "mounts_event \<Rightarrow> string option option" where
  "secret_entry (M_editSecret v) = Some (Some v)"
| "secret_entry M_clearSecret = Some (Some [])"
| "secret_entry _ = None"

fun max_clients_entry :: "mounts_event \<Rightarrow> int option" where
  "max_clients_entry (M_editMaxClients n) = Some n"
| "max_clients_entry _ = None"

text \<open>The secret that the form would send: none while the field is untouched.\<close>

definition edit_secret :: "mounts_state \<Rightarrow> string option" where
  "edit_secret s = (if mo_editSourceSecretDirty s then Some (mo_editSourceSecret s) else None)"

lemma edit_step:
  assumes "\<not> is_openEdit e"
  shows "mo_editDesc (fst (mounts_step d e s)) = nullish (desc_entry e) (mo_editDesc s)"
    and "mo_editFormat (fst (mounts_step d e s)) = nullish (format_entry e) (mo_editFormat s)"
    and "mo_editEnabled (fst (mounts_step d e s)) = nullish (enabled_entry e) (mo_editEnabled s)"
    and "edit_secret (fst (mounts_step d e s)) = nullish (secret_entry e) (edit_secret s)"
    and "mo_editMaxClients (fst (mounts_step d e s)) = nullish (max_clients_entry e) (mo_editMaxClients s)"
    and "mo_editMount (fst (mounts_step d e s)) \<in> {None, mo_editMount s}"
  using assms
  by (cases e; simp add: mounts_handler_defs edit_secret_def split: sum.split)+

lemma edit_run:
  assumes "\<forall>(d, e) \<in> set es. \<not> is_openEdit e"
  shows "mo_editDesc (mounts_run es s) = entered desc_entry es (mo_editDesc s)
    \<and> mo_editFormat (mounts_run es s) = entered format_entry es (mo_editFormat s)
    \<and> mo_editEnabled (mounts_run es s) = entered enabled_entry es (mo_editEnabled s)
    \<and> edit_secret (mounts_run es s) = entered secret_entry es (edit_secret s)
    \<and> mo_editMaxClients (mounts_run es s) = entered max_clients_entry es (mo_editMaxClients s)
    \<and> mo_editMount (mounts_run es s) \<in> {None, mo_editMount s}"
  using assms
proof (induction es arbitrary: s)
  case Nil
  then show ?case by (simp add: mounts_run_def entered_def)
next
  case (Cons x es)
  obtain d e where x: "x = (d, e)" by (cases x)
  with Cons.prems have "\<not> is_openEdit e" by simp
  note step = edit_step [OF this, of d s]
  from Cons.IH [of "fst (mounts_step d e s)"] Cons.prems step show ?case
    by (auto simp: x mounts_run_def entered_def)
qed

lemma handleUpdate_edit_secret:
  "mo_editMount s = Some mp \<Longrightarrow>
     mounts_handleUpdate s =
       [Run (Update_mountpoint (m_id mp)
          \<lparr>um_description = Some (mo_editDesc s), um_format = Some (mo_editFormat s),
           um_enabled = Some (mo_editEnabled s), um_source_secret = edit_secret s,
           um_max_clients = Some (mo_editMaxClients s)\<rparr>)]"
  by (simp add: mounts_handleUpdate_def edit_secret_def)

lemma openEdit_fields:
  "mo_editMount (mounts_openEdit mp s) = Some mp" "mo_editDesc (mounts_openEdit mp s) = m_description mp"
  "mo_editFormat (mounts_openEdit mp s) = m_format mp" "mo_editEnabled (mounts_openEdit mp s) = m_enabled mp"
  "edit_secret (mounts_openEdit mp s) = None" "mo_editMaxClients (mounts_openEdit mp s) = m_max_clients mp"
  by (simp_all add: mounts_openEdit_def edit_secret_def)

lemma mounts_create_source:
  "Run (Create_mountpoint req) \<in> set (snd (mounts_step d e s)) \<Longrightarrow>
     e = M_create \<and> cm_name req = mo_newName s
     \<and> cm_format req = (if mo_newFormat s \<noteq> [] then Some (mo_newFormat s) else None)"
  by (cases e) (auto simp: mounts_handler_defs split: sum.splits option.splits)

lemma mounts_delete_source:
  "Run (Delete_mountpoint i) \<in> set (snd (mounts_step d e s)) \<Longrightarrow>
     e = M_delete \<and> (\<exists>mp. mo_deleteTarget s = Some mp \<and> i = m_id mp)"
  by (cases e; cases "mo_deleteTarget s") (auto simp: mounts_handler_defs split: sum.splits option.splits)

lemma M_create_fires: "M_create \<in> fires (mounts_view d s) \<Longrightarrow> mo_newName s \<noteq> []"
  using fires_mounts_create_dialog [of d s] fires_mounts_edit_dialog [of d s]
    fires_mounts_delete_dialog [of s] fires_mounts_table [of d]
  by (auto simp: fires_mounts_view fires_mounts_toolbar fires_mounts_pager split: option.splits)

section \<open>A sample mountpoint\<close>

definition sample_mount :: mountpoint_info where
  "sample_mount =
     \<lparr>m_id = 3, m_name = ''RTCM_01'', m_description = ''roof'', m_enabled = True, m_format = ''RTCM3'',
      m_source_auth_mode = ''user_binding'', m_write_queue = None, m_write_timeout_ms = None,
      m_max_clients = 10, m_source_online = True, m_client_count = 4, m_antenna_lat = None,
      m_antenna_lon = None, m_antenna_height = None, m_antenna_updated_at = None\<rparr>"

definition sample_mounts_data :: mounts_data where
  "sample_mounts_data =
     \<lparr>md_mountsData = Some \<lparr>pr_data = Some [sample_mount], pr_total = 120, pr_page = 1, pr_limit = 50\<rparr>,
      md_isLoading = False, md_createPending = False, md_updatePending = False\<rparr>"

lemma named_mount_reach:
  "mounts_reach any_data (mounts_init\<lparr>mo_createOpen := True, mo_newName := ''RTCM_02''\<rparr>)"
proof -
  let ?d = sample_mounts_data
  let ?s1 = "fst (mounts_step ?d M_openCreate mounts_init)"
  let ?s2 = "fst (mounts_step ?d (M_newName ''RTCM_02'') ?s1)"
  have 1: "mounts_reach any_data ?s1"
    by (rule session.act [OF session.start]) (simp_all add: any_data_def fires_mounts_view fires_mounts_toolbar)
  have 2: "mounts_reach any_data ?s2"
    by (rule session.act [OF 1])
      (simp_all add: any_data_def fires_mounts_view mounts_create_dialog_def mounts_openCreate_def)
  have "?s2 = mounts_init\<lparr>mo_createOpen := True, mo_newName := ''RTCM_02''\<rparr>"
    by (simp add: mounts_init_def mounts_openCreate_def)
  with 2 show ?thesis by simp
qed

section \<open>Properties\<close>

text \<open>
  Saving the edit dialog sends, for every field, the last value entered since the dialog was
  opened, or the value of the row when nothing was entered; the source secret is sent exactly
  when its field was touched. This holds for every run of events, answers of other requests
  included, as long as no other row is opened and the dialog is still open.
\<close>

theorem mounts_update_sends_entries:
  assumes "\<forall>(d, e) \<in> set es. \<not> is_openEdit e"
    and "mo_editMount (mounts_run es (mounts_openEdit mp s)) \<noteq> None"
  shows "mounts_handleUpdate (mounts_run es (mounts_openEdit mp s)) =
     [Run (Update_mountpoint (m_id mp)
        \<lparr>um_description = Some (entered desc_entry es (m_description mp)),
         um_format = Some (entered format_entry es (m_format mp)),
         um_enabled = Some (entered enabled_entry es (m_enabled mp)),
         um_source_secret = entered secret_entry es None,
         um_max_clients = Some (entered max_clients_entry es (m_max_clients mp))\<rparr>)]"
proof -
  let ?s = "mounts_openEdit mp s" let ?t = "mounts_run es ?s"
  note run = edit_run [OF assms(1), of ?s, unfolded openEdit_fields]
  from run assms(2) have "mo_editMount ?t = Some mp" by auto
  from handleUpdate_edit_secret [OF this] run show ?thesis by simp
qed

theorem mounts_update_sends_entries_witness:
  "mounts_handleUpdate
     (mounts_run [(sample_mounts_data, M_editDesc ''mast''), (sample_mounts_data, M_searchInput ''x'')]
       (mounts_openEdit sample_mount mounts_init)) =
     [Run (Update_mountpoint 3
        \<lparr>um_description = Some ''mast'', um_format = Some ''RTCM3'', um_enabled = Some True,
         um_source_secret = None, um_max_clients = Some 10\<rparr>)]"
proof -
  let ?es = "[(sample_mounts_data, M_editDesc ''mast''), (sample_mounts_data, M_searchInput ''x'')]"
  have "mo_editMount (mounts_run ?es (mounts_openEdit sample_mount mounts_init)) \<noteq> None"
    by (simp add: mounts_run_def mounts_openEdit_def)
  from mounts_update_sends_entries [OF _ this] show ?thesis
    by (simp add: entered_def sample_mount_def)
qed

text \<open>
  The label of the secret field says that an empty field leaves the secret unchanged, but a
  secret that is typed and erased again is sent as the empty string.
\<close>

theorem mounts_erased_secret_is_sent:
  "txt_change_secret \<in> set (texts (mounts_edit_dialog d (mounts_openEdit mp s))) \<and>
   mounts_handleUpdate (mounts_run [(d, M_editSecret v), (d, M_editSecret [])] (mounts_openEdit mp s)) =
     [Run (Update_mountpoint (m_id mp)
        \<lparr>um_description = Some (m_description mp), um_format = Some (m_format mp),
         um_enabled = Some (m_enabled mp), um_source_secret = Some [],
         um_max_clients = Some (m_max_clients mp)\<rparr>)]"
  by (simp add: mounts_edit_dialog_def mounts_run_def mounts_handler_defs)

text \<open>
  Every create-mountpoint request that the page issues has a name and one of the offered
  formats, in any session and for any data the server returns.
\<close>

theorem mounts_create_request_complete:
  assumes "mounts_reach any_data s" and "e \<in> fires (mounts_view d s)"
    and "Run (Create_mountpoint req) \<in> set (snd (mounts_step d e s))"
  shows "cm_name req \<noteq> [] \<and> (\<exists>f \<in> set FORMAT_OPTIONS. cm_format req = Some f)"
proof -
  from mounts_create_source [OF assms(3)] have e: "e = M_create" and name: "cm_name req = mo_newName s"
    and fmt: "cm_format req = (if mo_newFormat s \<noteq> [] then Some (mo_newFormat s) else None)" by auto
  from mounts_reach_newFormat [OF assms(1)] fmt have "\<exists>f \<in> set FORMAT_OPTIONS. cm_format req = Some f"
    by (auto simp: FORMAT_OPTIONS_def)
  with M_create_fires assms(2) e name show ?thesis by auto
qed

theorem mounts_create_request_complete_witness:
  "\<exists>f \<in> set FORMAT_OPTIONS.
     cm_format \<lparr>cm_name = ''RTCM_02'', cm_description = [], cm_format = Some ''RTCM3'',
                cm_source_secret = None, cm_max_clients = None\<rparr> = Some f"
proof -
  let ?s = "mounts_init\<lparr>mo_createOpen := True, mo_newName := ''RTCM_02''\<rparr>"
  let ?r = "\<lparr>cm_name = ''RTCM_02'', cm_description = [], cm_format = Some ''RTCM3'',
             cm_source_secret = None, cm_max_clients = None\<rparr>"
  have 1: "M_create \<in> fires (mounts_view sample_mounts_data ?s)"
    by (simp add: fires_mounts_view mounts_create_dialog_def sample_mounts_data_def)
  have 2: "Run (Create_mountpoint ?r) \<in> set (snd (mounts_step sample_mounts_data M_create ?s))"
    by (simp add: mounts_handleCreate_def mounts_init_def)
  from mounts_create_request_complete [OF named_mount_reach 1 2] show ?thesis by blast
qed

text \<open>
  A mountpoint is deleted only by the confirmation dialog, while it shows the mountpoint's
  name, a warning when its source is online and a warning when clients are connected.
\<close>

theorem mounts_delete_is_confirmed:
  assumes "e \<in> fires (mounts_view d s)" and "Run (Delete_mountpoint i) \<in> set (snd (mounts_step d e s))"
  shows "\<exists>mp. mo_deleteTarget s = Some mp \<and> m_id mp = i \<and> e \<in> fires (mounts_delete_dialog s)
           \<and> m_name mp \<in> set (texts (mounts_delete_dialog s))
           \<and> (m_source_online mp \<longrightarrow> txt_source_online_warn \<in> set (texts (mounts_delete_dialog s)))
           \<and> (m_client_count mp > 0 \<longrightarrow>
                txt_clients_warn_1 @ int_str (m_client_count mp) @ txt_clients_warn_2
                  \<in> set (texts (mounts_delete_dialog s)))"
proof -
  from mounts_delete_source [OF assms(2)] obtain mp
    where "e = M_delete" "mo_deleteTarget s = Some mp" "i = m_id mp" by auto
  then show ?thesis by (intro exI [of _ mp]) (simp add: mounts_delete_dialog_def)
qed

theorem mounts_delete_is_confirmed_witness:
  "\<exists>mp :: mountpoint_info. m_id mp = 3
     \<and> m_name mp \<in> set (texts (mounts_delete_dialog (mounts_init\<lparr>mo_deleteTarget := Some sample_mount\<rparr>)))"
proof -
  let ?s = "mounts_init\<lparr>mo_deleteTarget := Some sample_mount\<rparr>"
  have 1: "M_delete \<in> fires (mounts_view sample_mounts_data ?s)"
    by (simp add: fires_mounts_view mounts_delete_dialog_def)
  have 2: "Run (Delete_mountpoint 3) \<in> set (snd (mounts_step sample_mounts_data M_delete ?s))"
    by (simp add: mounts_handleDelete_def sample_mount_def)
  from mounts_delete_is_confirmed [OF 1 2] show ?thesis by blast
qed

text \<open>
  While the server's list does not change, the page number that the mountpoint list requests
  stays between 1 and the last page of the current search and filters.
\<close>

theorem mounts_page_stays_in_range:
  assumes "mounts_reach (static_list mounts_shown mounts_filters tot) s"
  shows "1 \<le> mo_page s \<and>
         mo_page s \<le> max 1 (total_pages (tot (mo_search s, mo_formatFilter s, mo_enabledFilter s)) 50)"
  using mounts_session.session_in_range [OF assms]
  by (simp add: mounts_list.in_range_def mounts_filters_def)

theorem mounts_page_stays_in_range_witness:
  "mo_page (mounts_handlePageChange 2 mounts_init) = 2 \<and>
   mo_page (mounts_handlePageChange 2 mounts_init) \<le> max 1 (total_pages 120 50)"
proof -
  let ?t = "fst (mounts_step sample_mounts_data (M_page 2) mounts_init)"
  have "mounts_reach (static_list mounts_shown mounts_filters (\<lambda>_. 120)) ?t"
    by (rule session.act [OF session.start])
      (simp_all add: static_list_def mounts_shown_def sample_mounts_data_def fires_mounts_view
        fires_mounts_pager mounts_init_def pager_targets_def total_pages_def)
  from mounts_page_stays_in_range [OF this] show ?thesis by (simp add: mounts_handlePageChange_def)
qed

end
