(* ===== verification/Format.thy ===== *)
theory Format
  imports Json
begin

text \<open>
  The number formatting of the pages: \<open>formatBytes\<close> of \<open>pages/dashboard.tsx\<close> and
  \<open>pages/connections.tsx\<close> (two different functions) and \<open>formatDuration\<close>. The divisions
  are by powers of 1024, exact on doubles below \<open>2 ^ 53\<close>, so they are exact rational
  divisions here. \<open>Math.floor(Math.log(n) / Math.log(1024))\<close> is the exact logarithm
  \<open>floor_log1024\<close>; double arithmetic gives the same value up to \<open>1024 ^ 5 - 4\<close>.
\<close>

section \<open>toFixed\<close>

definition pad_zero :: "nat \<Rightarrow> string \<Rightarrow> string" where
  "pad_zero k s = replicate (k - length s) (CHR ''0'') @ s"

text \<open>
  \<open>x.toFixed(k)\<close> below \<open>10 ^ 21\<close>: the nearest multiple of \<open>10 ^ - k\<close>, the larger one on
  a tie, computed on the absolute value.
\<close>

definition fixed_units :: "nat \<Rightarrow> rat \<Rightarrow> nat" where
  "fixed_units k r = nat \<lfloor>\<bar>r\<bar> * 10 ^ k + 1 / 2\<rfloor>"

definition to_fixed :: "nat \<Rightarrow> rat \<Rightarrow> string" where
  "to_fixed k r =
     (let m = fixed_units k r
      in (if r < 0 then ''-'' else []) @ nat_str (m div 10 ^ k)
         @ (if k = 0 then [] else ''.'' @ pad_zero k (nat_str (m mod 10 ^ k))))"

lemma fixed_units_close: "\<bar>of_nat (fixed_units k r) / 10 ^ k - \<bar>r\<bar>\<bar> \<le> 1 / (2 * 10 ^ k)"
proof -
  let ?x = "\<bar>r\<bar> * 10 ^ k"
  have "0 \<le> \<lfloor>?x + 1 / 2\<rfloor>" by simp
  then have n: "of_nat (fixed_units k r) = (of_int \<lfloor>?x + 1 / 2\<rfloor> :: rat)"
    by (simp add: fixed_units_def)
  have "\<bar>of_int \<lfloor>?x + 1 / 2\<rfloor> - ?x\<bar> \<le> 1 / 2"
    using of_int_floor_le [of "?x + 1 / 2"] floor_correct [of "?x + 1 / 2"] by linarith
  then have "\<bar>of_nat (fixed_units k r) - ?x\<bar> / 10 ^ k \<le> (1 / 2) / 10 ^ k"
    unfolding n by (rule divide_right_mono) simp
  moreover have "of_nat (fixed_units k r) / 10 ^ k - \<bar>r\<bar> = (of_nat (fixed_units k r) - ?x) / 10 ^ k"
    by (simp add: diff_divide_distrib)
  ultimately show ?thesis by (simp add: abs_divide power_abs)
qed

section \<open>Bytes\<close>

fun floor_log1024 :: "nat \<Rightarrow> nat" where
  "floor_log1024 n = (if n < 1024 then 0 else Suc (floor_log1024 (n div 1024)))"

declare floor_log1024.simps [simp del]

lemma floor_log1024_bounds:
  "0 < n \<Longrightarrow> 1024 ^ floor_log1024 n \<le> n \<and> n < 1024 ^ Suc (floor_log1024 n)"
proof (induction n rule: floor_log1024.induct)
  case (1 n)
  show ?case
  proof (cases "n < 1024")
    case True
    with 1 show ?thesis by (subst (1 2) floor_log1024.simps) simp
  next
    case False
    then have "0 < n div 1024" by (simp add: div_greater_zero_iff)
    with 1 False have IH: "1024 ^ floor_log1024 (n div 1024) \<le> n div 1024"
      "n div 1024 < 1024 ^ Suc (floor_log1024 (n div 1024))" by auto
    from IH(1) have "1024 * 1024 ^ floor_log1024 (n div 1024) \<le> n" by simp
    moreover from IH(2) have "n < 1024 * 1024 ^ Suc (floor_log1024 (n div 1024))"
      using less_mult_imp_div_less div_less_iff_less_mult [of 1024 n] by (simp add: mult.commute)
    ultimately show ?thesis using False by (subst (1 2) floor_log1024.simps) simp
  qed
qed

lemma floor_log1024_unique:
  assumes "1024 ^ i \<le> n" and "n < 1024 ^ Suc i"
  shows "floor_log1024 n = i"
proof -
  have "0 < n" using assms(1) zero_less_power [of "1024 :: nat" i] by linarith
  note b = floor_log1024_bounds [OF this]
  from b assms(2) have "1024 ^ floor_log1024 n < (1024 :: nat) ^ Suc i" by linarith
  moreover from b assms(1) have "1024 ^ i < (1024 :: nat) ^ Suc (floor_log1024 n)" by linarith
  ultimately show ?thesis using power_less_imp_less_exp [of "1024 :: nat"] by (metis less_Suc_eq not_less_eq one_less_numeral_iff semiring_norm(76))
qed

definition byte_units :: "string list" where
  "byte_units = [''B'', ''KB'', ''MB'', ''GB'']"

text \<open>\<open>units[i]\<close> in a template: past the end of the array it is \<open>undefined\<close>.\<close>

definition unit_text :: "nat \<Rightarrow> string" where
  "unit_text i = (if i < length byte_units then byte_units ! i else ''undefined'')"

definition dashboard_formatBytes :: "int \<Rightarrow> string" where
  "dashboard_formatBytes bytes =
     (if bytes = 0 then ''0 B''
      else if bytes < 0 then ''NaN undefined''
      else let i = floor_log1024 (nat bytes)
           in to_fixed 1 (of_int bytes / 1024 ^ i) @ '' '' @ unit_text i)"

definition connections_formatBytes :: "int \<Rightarrow> string" where
  "connections_formatBytes n =
     (if n < 1024 then int_str n @ '' B''
      else if n < 1024 * 1024 then to_fixed 1 (of_int n / 1024) @ '' KB''
      else if n < 1024 * 1024 * 1024 then to_fixed 1 (of_int n / 1024 / 1024) @ '' MB''
      else to_fixed 2 (of_int n / 1024 / 1024 / 1024) @ '' GB'')"

section \<open>Durations\<close>

definition formatDuration :: "int \<Rightarrow> string" where
  "formatDuration seconds =
     (if seconds < 60 then int_str seconds @ ''s''
      else if seconds < 3600 then int_str (seconds div 60) @ ''m '' @ int_str (seconds mod 60) @ ''s''
      else let h = seconds div 3600; m = (seconds mod 3600) div 60; s = seconds mod 60
           in int_str h @ ''h '' @ int_str m @ ''m '' @ int_str s @ ''s'')"

text \<open>The number of seconds a duration text stands for: its words, each a number with a unit.\<close>

definition unit_seconds :: "char \<Rightarrow> int" where
  "unit_seconds c = (if c = CHR ''h'' then 3600 else if c = CHR ''m'' then 60 else 1)"

definition word_seconds :: "string \<Rightarrow> int" where
  "word_seconds w = int (nullish (parse_digits 0 (butlast w)) 0) * unit_seconds (last w)"

definition read_duration :: "string \<Rightarrow> int" where
  "read_duration s = sum_list (map word_seconds (split_on CHR '' '' s))"

lemma split_on_no_sep: "c \<notin> set xs \<Longrightarrow> split_on c xs = [xs]"
  by (induction xs) auto

lemma split_on_append_sep: "c \<notin> set xs \<Longrightarrow> split_on c (xs @ c # ys) = xs # split_on c ys"
  by (induction xs) auto

lemma word_seconds_nat [simp]: "word_seconds (nat_str n @ [u]) = int n * unit_seconds u"
  by (simp add: word_seconds_def)

lemma split_duration:
  "split_on CHR '' '' (nat_str n @ ''s'') = [nat_str n @ ''s'']"
  "u \<noteq> CHR '' '' \<Longrightarrow> split_on CHR '' '' (nat_str n @ u # CHR '' '' # r) = (nat_str n @ [u]) # split_on CHR '' '' r"
proof -
  have n: "CHR '' '' \<notin> set (nat_str n @ [u])" if "u \<noteq> CHR '' ''" for u
    using that nat_str_no_char [of "CHR '' ''" n] by simp
  show "split_on CHR '' '' (nat_str n @ ''s'') = [nat_str n @ ''s'']"
    by (intro split_on_no_sep n) simp
  show "split_on CHR '' '' (nat_str n @ u # CHR '' '' # r) = (nat_str n @ [u]) # split_on CHR '' '' r"
    if "u \<noteq> CHR '' ''"
    using split_on_append_sep [OF n [OF that], of r] by simp
qed

lemma int_str_nonneg: "0 \<le> i \<Longrightarrow> int_str i = nat_str (nat i)"
  by (simp add: int_str_def)

lemma read_duration_words:
  "0 \<le> s \<Longrightarrow> read_duration (int_str s @ ''s'') = s"
  "0 \<le> m \<Longrightarrow> read_duration (int_str m @ CHR ''m'' # CHR '' '' # r) = m * 60 + read_duration r"
  "0 \<le> h \<Longrightarrow> read_duration (int_str h @ CHR ''h'' # CHR '' '' # r) = h * 3600 + read_duration r"
  by (simp_all add: read_duration_def int_str_nonneg split_duration unit_seconds_def)

section \<open>Properties\<close>

text \<open>
  The duration column loses nothing: reading a formatted duration back gives the number of
  seconds, so two different durations never look the same.
\<close>

theorem formatDuration_round_trip:
  assumes "0 \<le> n"
  shows "read_duration (formatDuration n) = n"
proof -
  have hms: "n div 3600 * 3600 + (n mod 3600) div 60 * 60 + n mod 60 = n"
  proof -
    have "(n mod 3600) mod 60 = n mod 60" by (rule mod_mod_cancel) simp
    with div_mult_mod_eq [of "n mod 3600" 60] div_mult_mod_eq [of n 3600] show ?thesis by linarith
  qed
  from assms hms div_mult_mod_eq [of n 60] show ?thesis
    by (simp add: formatDuration_def Let_def read_duration_words pos_imp_zdiv_nonneg_iff)
qed

theorem formatDuration_round_trip_witness: "read_duration (formatDuration 7384) = 7384"
  by (rule formatDuration_round_trip) simp

text \<open>
  Below 1024 GB the dashboard scales a positive byte count by the power of 1024 that makes it
  at least 1 and less than 1024, prints it with the unit of that power, and the printed number is
  within 0.05 of the scaled one.
\<close>

theorem dashboard_formatBytes_scales:
  assumes "0 < n" and "n < 1024 ^ 4"
  shows "\<exists>i < 4. dashboard_formatBytes n = to_fixed 1 (of_int n / 1024 ^ i) @ '' '' @ [''B'', ''KB'', ''MB'', ''GB''] ! i
           \<and> 1 \<le> (of_int n / 1024 ^ i :: rat) \<and> (of_int n / 1024 ^ i :: rat) < 1024
           \<and> \<bar>of_nat (fixed_units 1 (of_int n / 1024 ^ i)) / 10 - (of_int n / 1024 ^ i :: rat)\<bar> \<le> 1 / 20"
proof -
  let ?i = "floor_log1024 (nat n)"
  from assms(1) have "0 < nat n" by simp
  note b = floor_log1024_bounds [OF this]
  from b have n: "(1024 :: int) ^ ?i \<le> n" "n < 1024 ^ Suc ?i"
    using assms(1) by (auto simp: le_nat_iff nat_less_iff of_nat_power)
  with assms(2) have "(1024 :: int) ^ ?i < 1024 ^ 4" by linarith
  then have i: "?i < 4" by (rule power_less_imp_less_exp [rotated]) simp
  have r: "(1024 :: rat) ^ ?i \<le> of_int n" "(of_int n :: rat) < 1024 ^ Suc ?i"
    using n by (metis of_int_le_iff of_int_numeral of_int_power, metis of_int_less_iff of_int_numeral of_int_power)
  then have "1 \<le> (of_int n / 1024 ^ ?i :: rat)" "(of_int n / 1024 ^ ?i :: rat) < 1024"
    by (simp_all add: le_divide_eq divide_less_eq mult.commute)
  moreover have "dashboard_formatBytes n = to_fixed 1 (of_int n / 1024 ^ ?i) @ '' '' @ [''B'', ''KB'', ''MB'', ''GB''] ! ?i"
    using assms(1) i by (simp add: dashboard_formatBytes_def unit_text_def byte_units_def Let_def)
  moreover have "\<bar>of_nat (fixed_units 1 (of_int n / 1024 ^ ?i)) / 10 - (of_int n / 1024 ^ ?i :: rat)\<bar> \<le> 1 / 20"
    using fixed_units_close [of 1 "of_int n / 1024 ^ ?i"] assms(1) by (simp add: abs_of_pos)
  ultimately show ?thesis using i by blast
qed

theorem dashboard_formatBytes_scales_witness:
  "\<exists>i < 4. dashboard_formatBytes 1536 = to_fixed 1 (1536 / 1024 ^ i) @ '' '' @ [''B'', ''KB'', ''MB'', ''GB''] ! i"
  using dashboard_formatBytes_scales [of 1536] by auto

text \<open>
  From 1024 GB on the dashboard has no unit to show: the text ends in "undefined".
\<close>

theorem dashboard_formatBytes_no_unit:
  assumes "1024 ^ 4 \<le> n"
  shows "\<exists>v. dashboard_formatBytes n = v @ '' undefined''"
proof -
  from assms have n: "0 < n" by simp
  then have "0 < nat n" by simp
  note b = floor_log1024_bounds [OF this]
  from assms have "(1024 :: nat) ^ 4 \<le> nat n" by simp
  with b have "(1024 :: nat) ^ 4 < 1024 ^ Suc (floor_log1024 (nat n))" by linarith
  then have "4 \<le> floor_log1024 (nat n)" using power_less_imp_less_exp [of "1024 :: nat" 4] by fastforce
  with n show ?thesis by (simp add: dashboard_formatBytes_def unit_text_def byte_units_def Let_def)
qed

theorem dashboard_formatBytes_no_unit_witness: "\<exists>v. dashboard_formatBytes (1024 ^ 4) = v @ '' undefined''"
  by (rule dashboard_formatBytes_no_unit) simp

text \<open>
  The two byte formatters of the dashboard and of the connections page agree on all counts
  from 1 KB up to 1 GB.
\<close>

theorem formatBytes_agree:
  assumes "1024 \<le> n" and "n < 1024 ^ 3"
  shows "dashboard_formatBytes n = connections_formatBytes n"
proof (cases "n < 1024 ^ 2")
  case True
  then have "floor_log1024 (nat n) = 1" using assms by (intro floor_log1024_unique) simp_all
  with True assms show ?thesis
    by (simp add: dashboard_formatBytes_def connections_formatBytes_def unit_text_def byte_units_def)
next
  case False
  then have "floor_log1024 (nat n) = 2" using assms by (intro floor_log1024_unique) simp_all
  with False assms show ?thesis
    by (simp add: dashboard_formatBytes_def connections_formatBytes_def unit_text_def byte_units_def)
qed

theorem formatBytes_agree_witness: "dashboard_formatBytes 5000000 = connections_formatBytes 5000000"
  by (rule formatBytes_agree) simp_all

end
