(* ===== verification/Connections_Page.thy ===== *)
theory Connections_Page
  imports Page_Patterns Format
begin

text \<open>
  \<open>pages/connections.tsx\<close>: the online sources and clients with their filters, and the dialogs
  that kick one of them. The virtualizer of @tanstack/react-virtual decides which rows are in the
  document: its index list and its total size are part of the render's data. An error thrown
  while rendering unmounts the page.
\<close>

section \<open>State\<close>

record connections_state =
  co_tab :: string
  co_mountFilter :: string
  co_usernameFilter :: string
  co_kickSourceTarget :: "string option"
  co_kickClientTarget :: "(string \<times> string) option"

text \<open>\<open>co_tab\<close> is the state of the uncontrolled \<open>Tabs\<close>; a client target is its id and mount.\<close>

definition connections_init :: connections_state where
  "connections_init =
     \<lparr>co_tab = ''sources'', co_mountFilter = [], co_usernameFilter = [],
      co_kickSourceTarget = None, co_kickClientTarget = None\<rparr>"

record connections_data =
  cd_sources :: "source_info list option"
  cd_sourcesLoading :: bool
  cd_clients :: "client_info list option"
  cd_clientsLoading :: bool
  cd_mountpointsData :: "mountpoint_info paginated_response option"
  cd_visible :: "nat \<Rightarrow> nat list"
  cd_totalSize :: "nat \<Rightarrow> int"

definition connections_mountpoints_query :: "list_mountpoints_params option" where
  "connections_mountpoints_query =
     Some \<lparr>lm_page = None, lm_limit = Some 1000, lm_search = None, lm_format = None, lm_enabled = None\<rparr>"

definition connections_mountpoints :: "connections_data \<Rightarrow> string list" where
  "connections_mountpoints d =
     nullish (map_option (map m_name) (Option.bind (cd_mountpointsData d) pr_data)) []"

text \<open>The two filter callbacks; an empty filter keeps everything.\<close>

definition keeps_row :: "string \<Rightarrow> string \<Rightarrow> string \<Rightarrow> string \<Rightarrow> bool" where
  "keeps_row mountFilter usernameFilter mount username =
     (if mountFilter \<noteq> [] \<and> mount \<noteq> mountFilter then False
      else if usernameFilter \<noteq> [] \<and> username \<noteq> usernameFilter then False
      else True)"

definition filteredSources :: "connections_data \<Rightarrow> connections_state \<Rightarrow> source_info list" where
  "filteredSources d s =
     (case cd_sources d of None \<Rightarrow> []
      | Some xs \<Rightarrow> filter (\<lambda>x. keeps_row (co_mountFilter s) (co_usernameFilter s) (si_mountpoint x) (si_username x)) xs)"

definition filteredClients :: "connections_data \<Rightarrow> connections_state \<Rightarrow> client_info list" where
  "filteredClients d s =
     (case cd_clients d of None \<Rightarrow> []
      | Some xs \<Rightarrow> filter (\<lambda>x. keeps_row (co_mountFilter s) (co_usernameFilter s) (ci_mountpoint x) (ci_username x)) xs)"

section \<open>Handlers\<close>

text \<open>A handler that awaits keeps the target it read before: the answer carries it.\<close>

definition connections_handleKickSource :: "connections_state \<Rightarrow> effect list" where
  "connections_handleKickSource s =
     (if \<not> truthy_str (co_kickSourceTarget s) then [] else [Run (Kick_source (the (co_kickSourceTarget s)))])"

definition connections_sourceKicked ::
  "string \<Rightarrow> json outcome \<Rightarrow> connections_state \<Rightarrow> connections_state \<times> effect list" where
  "connections_sourceKicked target r s =
     (case r of Inr v \<Rightarrow> (s\<lparr>co_kickSourceTarget := None\<rparr>, [Toast_success (txt_kicked_1 @ target @ txt_kicked_2)])
      | Inl e \<Rightarrow> (s, [Toast_error (error_text txt_kick_failed e)]))"

definition connections_handleKickClient :: "connections_state \<Rightarrow> effect list" where
  "connections_handleKickClient s =
     (case co_kickClientTarget s of None \<Rightarrow> [] | Some t \<Rightarrow> [Run (Kick_client (fst t))])"

definition connections_clientKicked :: "json outcome \<Rightarrow> connections_state \<Rightarrow> connections_state \<times> effect list" where
  "connections_clientKicked r s =
     (case r of Inr v \<Rightarrow> (s\<lparr>co_kickClientTarget := None\<rparr>, [Toast_success txt_client_kicked])
      | Inl e \<Rightarrow> (s, [Toast_error (error_text txt_kick_failed e)]))"

definition connections_handleKickSourceItem :: "source_info \<Rightarrow> connections_state \<Rightarrow> connections_state" where
  "connections_handleKickSourceItem item s = s\<lparr>co_kickSourceTarget := Some (si_mountpoint item)\<rparr>"

definition connections_handleKickClientItem :: "client_info \<Rightarrow> connections_state \<Rightarrow> connections_state" where
  "connections_handleKickClientItem item s =
     s\<lparr>co_kickClientTarget := Some (ci_client_id item, ci_mountpoint item)\<rparr>"

section \<open>Events\<close>

datatype connections_event =
    C_noop
  | C_tab string
  | C_mount string
  | C_username string
  | C_kickSourceItem source_info
  | C_kickClientItem client_info
  | C_closeSource
  | C_closeClient
  | C_kickSource
  | C_kickClient
  | C_sourceKicked string "json outcome"
  | C_clientKicked "json outcome"

fun connections_step ::
  "connections_data \<Rightarrow> connections_event \<Rightarrow> connections_state \<Rightarrow> connections_state \<times> effect list" where
  "connections_step d C_noop s = (s, [])"
| "connections_step d (C_tab v) s = (s\<lparr>co_tab := v\<rparr>, [])"
| "connections_step d (C_mount v) s = (s\<lparr>co_mountFilter := v\<rparr>, [])"
| "connections_step d (C_username v) s = (s\<lparr>co_usernameFilter := v\<rparr>, [])"
| "connections_step d (C_kickSourceItem x) s = (connections_handleKickSourceItem x s, [])"
| "connections_step d (C_kickClientItem x) s = (connections_handleKickClientItem x s, [])"
| "connections_step d C_closeSource s = (s\<lparr>co_kickSourceTarget := None\<rparr>, [])"
| "connections_step d C_closeClient s = (s\<lparr>co_kickClientTarget := None\<rparr>, [])"
| "connections_step d C_kickSource s = (s, connections_handleKickSource s)"
| "connections_step d C_kickClient s = (s, connections_handleKickClient s)"
| "connections_step d (C_sourceKicked t r) s = connections_sourceKicked t r s"
| "connections_step d (C_clientKicked r) s = connections_clientKicked r s"

fun connections_answer :: "connections_event \<Rightarrow> bool" where
  "connections_answer (C_sourceKicked t r) = True"
| "connections_answer (C_clientKicked r) = True"
| "connections_answer _ = False"

lemmas connections_handler_defs = connections_handleKickSource_def connections_sourceKicked_def
  connections_handleKickClient_def connections_clientKicked_def connections_handleKickSourceItem_def
  connections_handleKickClientItem_def

section \<open>Rendering\<close>

definition FilterBar :: "string \<Rightarrow> string \<Rightarrow> string list \<Rightarrow> connections_event node" where
  "FilterBar mountFilter usernameFilter mountpoints =
     el0 ''div''
       [Elem ''Select''
          [A_str ''value'' (str_or mountFilter ''__all__''),
           On_select ''onValueChange''
             (\<lambda>v. C_mount (if v = Some ''__all__'' then [] else nullish v []))]
          [el0 ''SelectTrigger'' [el0 ''SelectValue'' [Txt (str_or mountFilter txt_all_mounts)]],
           el0 ''SelectContent''
             (labelled_item ''__all__'' txt_all_mounts # map (\<lambda>m. option_item m) mountpoints)],
        Elem ''Input'' [A_str ''placeholder'' txt_username_search, A_str ''value'' usernameFilter,
                        On_text ''onChange'' C_username] []]"

text \<open>What the table reads of a row, for both types of rows.\<close>

record 'a row_type =
  rt_mountpoint :: "'a \<Rightarrow> string"
  rt_id :: "'a \<Rightarrow> string"
  rt_username :: "'a \<Rightarrow> string"
  rt_bytes :: "'a \<Rightarrow> int"
  rt_duration :: "'a \<Rightarrow> int"
  rt_name :: string
  rt_id_title :: string
  rt_bytes_title :: string

definition source_type :: "source_info row_type" where
  "source_type =
     \<lparr>rt_mountpoint = si_mountpoint, rt_id = si_source_id, rt_username = si_username,
      rt_bytes = si_bytes_in, rt_duration = si_duration_seconds, rt_name = ''Source'',
      rt_id_title = ''Source ID'', rt_bytes_title = txt_inbound\<rparr>"

definition client_type :: "client_info row_type" where
  "client_type =
     \<lparr>rt_mountpoint = ci_mountpoint, rt_id = ci_client_id, rt_username = ci_username,
      rt_bytes = ci_bytes_out, rt_duration = ci_duration_seconds, rt_name = ''Client'',
      rt_id_title = ''Client ID'', rt_bytes_title = txt_outbound\<rparr>"

definition virtual_row :: "'a row_type \<Rightarrow> ('a \<Rightarrow> connections_event) \<Rightarrow> 'a \<Rightarrow> connections_event node" where
  "virtual_row t onKick item =
     el0 ''div''
       [el0 ''div'' [Txt (rt_mountpoint t item)],
        el0 ''div'' [Txt (rt_id t item)],
        el0 ''div'' [if rt_username t item \<noteq> [] then Txt (rt_username t item) else el0 ''span'' [Txt txt_dash]],
        el0 ''div'' [Txt (connections_formatBytes (rt_bytes t item))],
        el0 ''div'' [Txt (formatDuration (rt_duration t item))],
        el0 ''div'' [Elem ''Button'' [On ''onClick'' (onKick item)] [Txt txt_kick]]]"

text \<open>\<open>data[virtualRow.index]\<close> past the end is \<open>undefined\<close>, and reading its mountpoint throws.\<close>

definition VirtualTable ::
  "(nat \<Rightarrow> nat list) \<Rightarrow> (nat \<Rightarrow> int) \<Rightarrow> 'a list \<Rightarrow> 'a row_type \<Rightarrow> ('a \<Rightarrow> connections_event)
   \<Rightarrow> (connections_event node) outcome" where
  "VirtualTable visible totalSize data t onKick =
     (if data = [] then Inr (el0 ''div'' [Txt txt_none_online, Txt (rt_name t)])
      else if \<exists>i \<in> set (visible (length data)). length data \<le> i
      then Inl (JsError (''Cannot read properties of undefined (reading '' @ [CHR 0x27] @ ''mountpoint'' @ [CHR 0x27] @ '')''))
      else
        let headerHeight = 45; contentHeight = headerHeight + totalSize (length data);
            totalHeight = max 300 contentHeight
        in Inr (Elem ''div'' [A_num ''height'' totalHeight]
             [Elem ''div'' [A_num ''height'' (totalHeight - headerHeight)]
                (el0 ''div''
                   (map (\<lambda>h. el0 ''div'' [Txt h])
                      [txt_mountpoint, rt_id_title t, txt_user, rt_bytes_title t, txt_duration, txt_actions])
                 # map (\<lambda>i. virtual_row t onKick (data ! i)) (visible (length data)))]))"

definition kick_source_dialog :: "connections_state \<Rightarrow> connections_event node" where
  "kick_source_dialog s =
     Elem ''AlertDialog''
       [A_flag ''open'' (truthy_str (co_kickSourceTarget s)),
        On_flag ''onOpenChange'' (\<lambda>open. if \<not> open then C_closeSource else C_noop)]
       [el0 ''AlertDialogTitle'' [Txt txt_confirm_kick_source],
        el0 ''AlertDialogDescription''
          [Txt txt_kick_source_q, el0 ''strong'' [Txt (nullish (co_kickSourceTarget s) [])], Txt txt_kick_source_r],
        el0 ''AlertDialogCancel'' [Txt txt_cancel],
        Elem ''AlertDialogAction'' [On ''onClick'' C_kickSource] [Txt txt_kick]]"

definition kick_client_dialog :: "connections_state \<Rightarrow> connections_event node" where
  "kick_client_dialog s =
     Elem ''AlertDialog''
       [A_flag ''open'' (co_kickClientTarget s \<noteq> None),
        On_flag ''onOpenChange'' (\<lambda>open. if \<not> open then C_closeClient else C_noop)]
       [el0 ''AlertDialogTitle'' [Txt txt_confirm_kick_client],
        el0 ''AlertDialogDescription''
          [Txt txt_kick_source_q,
           el0 ''strong'' [Txt (nullish (map_option snd (co_kickClientTarget s)) [])],
           Txt txt_kick_client_r,
           el0 ''strong'' [Txt (nullish (map_option fst (co_kickClientTarget s)) [])],
           Txt txt_question],
        el0 ''AlertDialogCancel'' [Txt txt_cancel],
        Elem ''AlertDialogAction'' [On ''onClick'' C_kickClient] [Txt txt_kick]]"

definition skeletons :: "connections_event node" where
  "skeletons = el0 ''div'' (replicate 3 (el0 ''Skeleton'' []))"

text \<open>The tab that is open.\<close>

definition connections_content ::
  "connections_data \<Rightarrow> connections_state \<Rightarrow> (connections_event node list) outcome" where
  "connections_content d s =
     (let bar = FilterBar (co_mountFilter s) (co_usernameFilter s) (connections_mountpoints d);
          table = (if co_tab s = ''sources''
                   then (if cd_sourcesLoading d then Inr skeletons
                         else VirtualTable (cd_visible d) (cd_totalSize d) (filteredSources d s) source_type C_kickSourceItem)
                   else (if cd_clientsLoading d then Inr skeletons
                         else VirtualTable (cd_visible d) (cd_totalSize d) (filteredClients d s) client_type C_kickClientItem))
      in map_sum id (\<lambda>t. [bar, t]) table)"

definition connections_view :: "connections_data \<Rightarrow> connections_state \<Rightarrow> connections_event node" where
  "connections_view d s =
     (case connections_content d s of
        Inl e \<Rightarrow> el0 ''unmounted'' []
      | Inr content \<Rightarrow>
          el0 ''div''
            [el0 ''h1'' [Txt txt_connections],
             el0 ''Tabs''
               (el0 ''TabsList''
                  [Elem ''TabsTrigger'' [On ''onClick'' (C_tab ''sources'')]
                     [Txt (''Source ('' @ nat_str (length (filteredSources d s)) @ '')'')],
                   Elem ''TabsTrigger'' [On ''onClick'' (C_tab ''clients'')]
                     [Txt (''Client ('' @ nat_str (length (filteredClients d s)) @ '')'')]]
                # content),
             kick_source_dialog s, kick_client_dialog s])"

section \<open>The contracts the page fulfils\<close>

interpretation kick_source_form:
  submit_form "connections_sourceKicked target" "\<lambda>s. truthy_str (co_kickSourceTarget s)"
    "txt_kicked_1 @ target @ txt_kicked_2" txt_kick_failed for target
  by unfold_locales (simp_all add: connections_sourceKicked_def)

interpretation kick_client_form:
  submit_form connections_clientKicked "\<lambda>s. co_kickClientTarget s \<noteq> None" txt_client_kicked txt_kick_failed
  by unfold_locales (simp_all add: connections_clientKicked_def)

abbreviation "connections_reach \<equiv>
  session connections_init connections_view connections_step connections_answer"

section \<open>The events of the rendered page\<close>

lemma fires_FilterBar: "fires (FilterBar mf uf ms) \<subseteq> range C_mount \<union> range C_username"
  by (auto simp: FilterBar_def fires_all_map)

lemma fires_VirtualTable:
  "VirtualTable visible totalSize data t onKick = Inr n \<Longrightarrow> fires n \<subseteq> onKick ` set data"
  by (auto simp: VirtualTable_def virtual_row_def fires_all_map Let_def not_le fires_all_def split: if_splits)

lemma fires_connections_content:
  "connections_content d s = Inr ns \<Longrightarrow>
     fires_all ns \<subseteq> range C_mount \<union> range C_username
       \<union> C_kickSourceItem ` set (filteredSources d s) \<union> C_kickClientItem ` set (filteredClients d s)"
proof -
  assume "connections_content d s = Inr ns"
  then obtain t where ns: "ns = [FilterBar (co_mountFilter s) (co_usernameFilter s) (connections_mountpoints d), t]"
    and t: "t = skeletons
      \<or> VirtualTable (cd_visible d) (cd_totalSize d) (filteredSources d s) source_type C_kickSourceItem = Inr t
      \<or> VirtualTable (cd_visible d) (cd_totalSize d) (filteredClients d s) client_type C_kickClientItem = Inr t"
    by (auto simp: connections_content_def Let_def map_sum_def split: if_splits sum.splits)
  from t have "fires t \<subseteq> C_kickSourceItem ` set (filteredSources d s) \<union> C_kickClientItem ` set (filteredClients d s)"
  proof (elim disjE)
    assume "t = skeletons"
    then show ?thesis by (simp add: skeletons_def fires_all_def)
  qed (blast dest!: fires_VirtualTable)+
  with fires_FilterBar [of "co_mountFilter s" "co_usernameFilter s" "connections_mountpoints d"]
  show ?thesis by (auto simp: ns)
qed

lemma fires_connections_view:
  "fires (connections_view d s) \<subseteq>
     {C_noop, C_tab ''sources'', C_tab ''clients''} \<union> range C_mount \<union> range C_username
     \<union> C_kickSourceItem ` set (filteredSources d s) \<union> C_kickClientItem ` set (filteredClients d s)
     \<union> fires (kick_source_dialog s) \<union> fires (kick_client_dialog s)"
proof (cases "connections_content d s")
  case (Inl e)
  then show ?thesis by (simp add: connections_view_def)
next
  case (Inr ns)
  from fires_connections_content [OF this] Inr show ?thesis
    by (auto simp: connections_view_def)
qed

lemma fires_kick_dialogs:
  "fires (kick_source_dialog s) \<subseteq> {C_noop, C_closeSource, C_kickSource}"
  "fires (kick_client_dialog s) \<subseteq> {C_noop, C_closeClient, C_kickClient}"
  by (auto simp: kick_source_dialog_def kick_client_dialog_def)

lemma kick_source_issued:
  "Run (Kick_source m) \<in> set (snd (connections_step d e s)) \<Longrightarrow>
     e = C_kickSource \<and> co_kickSourceTarget s = Some m \<and> m \<noteq> []"
  by (cases e; cases "co_kickSourceTarget s")
    (auto simp: connections_handler_defs split: sum.splits option.splits if_splits)

lemma kick_client_issued:
  "Run (Kick_client i) \<in> set (snd (connections_step d e s)) \<Longrightarrow>
     e = C_kickClient \<and> (\<exists>m. co_kickClientTarget s = Some (i, m))"
  by (cases e; cases "co_kickClientTarget s")
    (auto simp: connections_handler_defs split: sum.splits option.splits if_splits)

section \<open>Where the targets come from\<close>

text \<open>The clients and mountpoints that renders with the data \<open>P\<close> may have shown.\<close>

definition target_seen :: "(connections_data \<Rightarrow> bool) \<Rightarrow> connections_state \<Rightarrow> bool" where
  "target_seen P s \<longleftrightarrow>
     (\<forall>i m. co_kickClientTarget s = Some (i, m) \<longrightarrow>
        (\<exists>d xs c. P d \<and> cd_clients d = Some xs \<and> c \<in> set xs \<and> ci_client_id c = i \<and> ci_mountpoint c = m))
     \<and> (\<forall>m. co_kickSourceTarget s = Some m \<longrightarrow>
        (\<exists>d xs x. P d \<and> cd_sources d = Some xs \<and> x \<in> set xs \<and> si_mountpoint x = m))"

lemma filtered_rows:
  "x \<in> set (filteredSources d s) \<Longrightarrow> \<exists>xs. cd_sources d = Some xs \<and> x \<in> set xs"
  "c \<in> set (filteredClients d s) \<Longrightarrow> \<exists>xs. cd_clients d = Some xs \<and> c \<in> set xs"
  by (cases "cd_sources d"; simp add: filteredSources_def)
    (cases "cd_clients d"; simp add: filteredClients_def)

lemma target_seen_keep:
  "co_kickClientTarget t \<in> {None, co_kickClientTarget s} \<Longrightarrow> co_kickSourceTarget t \<in> {None, co_kickSourceTarget s}
   \<Longrightarrow> target_seen P s \<Longrightarrow> target_seen P t"
  by (auto simp: target_seen_def)

lemma target_seen_step:
  assumes "target_seen P s" and "P d" and "e \<in> fires (connections_view d s)"
  shows "target_seen P (fst (connections_step d e s))"
proof (cases e)
  case (C_kickSourceItem x)
  with assms(3) fires_connections_view [of d s] fires_kick_dialogs [of s]
  have "x \<in> set (filteredSources d s)" by auto
  with filtered_rows(1) [OF this] assms(1,2) C_kickSourceItem show ?thesis
    by (auto simp: target_seen_def connections_handleKickSourceItem_def)
next
  case (C_kickClientItem c)
  with assms(3) fires_connections_view [of d s] fires_kick_dialogs [of s]
  have "c \<in> set (filteredClients d s)" by auto
  with filtered_rows(2) [OF this] assms(1,2) C_kickClientItem show ?thesis
    by (auto simp: target_seen_def connections_handleKickClientItem_def)
qed (auto intro: target_seen_keep [OF _ _ assms(1)] simp: connections_handler_defs split: sum.split)

lemma connections_reach_seen:
  "connections_reach (\<lambda>d s. P d) s \<Longrightarrow> target_seen P s"
proof (induction rule: session.induct)
  case start
  show ?case by (simp add: target_seen_def connections_init_def)
next
  case (act s d e)
  then show ?case by (intro target_seen_step)
next
  case (answer s e d)
  from answer.hyps(2) show ?case
    by (cases e) (auto intro: target_seen_keep [OF _ _ answer.IH] simp: connections_handler_defs split: sum.split)
qed

section \<open>A sample session\<close>

definition sample_client :: client_info where
  "sample_client =
     \<lparr>ci_mountpoint = ''RTCM_01'', ci_client_id = ''c-17'', ci_user_id = 5, ci_username = ''rover1'',
      ci_bytes_out = 2048, ci_connected_at = ''2026-01-01T00:00:00Z'', ci_duration_seconds = 75\<rparr>"

definition sample_connections :: connections_data where
  "sample_connections =
     \<lparr>cd_sources = Some [], cd_sourcesLoading = False, cd_clients = Some [sample_client],
      cd_clientsLoading = False, cd_mountpointsData = None,
      cd_visible = (\<lambda>n. [0..<n]), cd_totalSize = (\<lambda>n. 53 * int n)\<rparr>"

definition sample_kick :: connections_state where
  "sample_kick = connections_init\<lparr>co_tab := ''clients'', co_kickClientTarget := Some (''c-17'', ''RTCM_01'')\<rparr>"

lemma sample_kick_reach: "connections_reach (\<lambda>d s. d = sample_connections) sample_kick"
proof -
  let ?d = sample_connections
  let ?s1 = "fst (connections_step ?d (C_tab ''clients'') connections_init)"
  let ?s2 = "fst (connections_step ?d (C_kickClientItem sample_client) ?s1)"
  have rows: "filteredClients ?d (connections_init\<lparr>co_tab := ''clients''\<rparr>) = [sample_client]"
    "filteredSources ?d t = []" for t
    by (simp_all add: filteredClients_def filteredSources_def sample_connections_def keeps_row_def connections_init_def)
  have 1: "connections_reach (\<lambda>d s. d = ?d) ?s1"
    by (rule session.act [OF session.start])
      (simp_all add: connections_view_def connections_content_def connections_init_def Let_def rows
        VirtualTable_def sample_connections_def map_sum_def)
  have 2: "connections_reach (\<lambda>d s. d = ?d) ?s2"
  proof (rule session.act [OF 1])
    have "connections_content ?d (connections_init\<lparr>co_tab := ''clients''\<rparr>) =
      map_sum id (\<lambda>t. [FilterBar [] [] [], t]) (VirtualTable (\<lambda>n. [0..<n]) (\<lambda>n. 53 * int n) [sample_client] client_type C_kickClientItem)"
      by (simp add: connections_content_def Let_def rows)
        (simp add: connections_init_def sample_connections_def connections_mountpoints_def)
    then show "C_kickClientItem sample_client \<in> fires (connections_view ?d ?s1)"
      by (simp add: connections_view_def VirtualTable_def virtual_row_def)
  qed simp
  have "?s2 = sample_kick"
    by (simp add: sample_kick_def connections_init_def connections_handleKickClientItem_def sample_client_def)
  with 2 show ?thesis by simp
qed

section \<open>Properties\<close>

text \<open>
  A client is kicked only by the confirmation dialog, which then shows its id and its
  mountpoint, and the two belong together: they are those of one client in data the page was
  rendered with. \<open>P\<close> stands for the answers the server gave during the session.
\<close>

theorem kick_client_is_confirmed:
  assumes "connections_reach (\<lambda>d s. P d) s" and "e \<in> fires (connections_view d s)"
    and "Run (Kick_client i) \<in> set (snd (connections_step d e s))"
  shows "\<exists>d' xs c. P d' \<and> cd_clients d' = Some xs \<and> c \<in> set xs \<and> ci_client_id c = i
           \<and> {i, ci_mountpoint c} \<subseteq> set (texts (kick_client_dialog s)) \<and> e \<in> fires (kick_client_dialog s)"
proof -
  from kick_client_issued [OF assms(3)] obtain m where e: "e = C_kickClient"
    and t: "co_kickClientTarget s = Some (i, m)" by auto
  from connections_reach_seen [OF assms(1)] t obtain d' xs c where "P d'" "cd_clients d' = Some xs"
    "c \<in> set xs" "ci_client_id c = i" "ci_mountpoint c = m" unfolding target_seen_def by blast
  moreover have "{i, m} \<subseteq> set (texts (kick_client_dialog s))" "e \<in> fires (kick_client_dialog s)"
    using e t by (simp_all add: kick_client_dialog_def)
  ultimately show ?thesis by blast
qed

theorem kick_client_is_confirmed_witness:
  "\<exists>c :: client_info. ci_client_id c = ''c-17'' \<and> {''c-17'', ci_mountpoint c} \<subseteq> set (texts (kick_client_dialog sample_kick))"
proof -
  have 1: "C_kickClient \<in> fires (connections_view sample_connections sample_kick)"
    by (simp add: connections_view_def connections_content_def sample_kick_def connections_init_def
        sample_connections_def filteredClients_def keeps_row_def sample_client_def VirtualTable_def
        Let_def kick_client_dialog_def)
  have 2: "Run (Kick_client ''c-17'') \<in> set (snd (connections_step sample_connections C_kickClient sample_kick))"
    by (simp add: connections_handleKickClient_def sample_kick_def)
  from kick_client_is_confirmed [OF sample_kick_reach 1 2] show ?thesis by blast
qed

end
