(* ===== verification/Dashboard_Page.thy ===== *)
theory Dashboard_Page
  imports Ui Format
begin

text \<open>
  \<open>pages/dashboard.tsx\<close>: the totals and the table of mountpoints computed from the answer of
  \<open>/api/stats\<close>. The page has no state and no handlers. \<open>toLocaleString\<close> depends on the
  browser's locale and is an argument.
\<close>

definition activeMountpoints :: "system_stats option \<Rightarrow> int" where
  "activeMountpoints stats =
     nullish (map_option (\<lambda>ms. int (length (filter ms_source_online ms))) (Option.bind stats ss_mountpoints)) 0"

definition totalSlowClients :: "system_stats option \<Rightarrow> int" where
  "totalSlowClients stats =
     nullish (map_option (\<lambda>ms. foldl (\<lambda>sum m. sum + ms_slow_clients m) 0 ms) (Option.bind stats ss_mountpoints)) 0"

definition StatCard :: "(int \<Rightarrow> string) \<Rightarrow> string \<Rightarrow> int \<Rightarrow> bool \<Rightarrow> 'e node" where
  "StatCard toLocaleString title value alert =
     el0 ''Card''
       [el0 ''CardHeader'' [el0 ''CardTitle'' [Txt title]],
        el0 ''CardContent''
          [Elem ''div'' [A_str ''className'' (if alert then ''text-destructive'' else [])]
             [Txt (toLocaleString value)]]]"

definition stats_row :: "mountpoint_stats \<Rightarrow> 'e node" where
  "stats_row mp =
     el0 ''TableRow''
       [el0 ''TableCell'' [Txt (ms_name mp)],
        el0 ''TableCell''
          [Elem ''Badge'' [A_str ''variant'' (if ms_source_online mp then ''default'' else ''secondary'')]
             [Txt (if ms_source_online mp then txt_online else txt_offline)]],
        el0 ''TableCell'' [Txt (int_str (ms_client_count mp))],
        el0 ''TableCell'' [Txt (dashboard_formatBytes (ms_bytes_in mp))],
        el0 ''TableCell'' [Txt (dashboard_formatBytes (ms_bytes_out mp))],
        el0 ''TableCell''
          [if ms_slow_clients mp > 0 then el0 ''span'' [Txt (int_str (ms_slow_clients mp))]
           else Txt (int_str (ms_slow_clients mp))],
        el0 ''TableCell'' [Txt (int_str (ms_kick_count mp))]]"

definition stats_rows :: "system_stats option \<Rightarrow> mountpoint_stats list" where
  "stats_rows stats = nullish (Option.bind stats ss_mountpoints) []"

definition DashboardPage :: "(int \<Rightarrow> string) \<Rightarrow> system_stats option \<Rightarrow> bool \<Rightarrow> 'e node" where
  "DashboardPage toLocaleString stats isLoading =
     (if isLoading
      then el0 ''div'' [el0 ''h1'' [Txt txt_dashboard_title], el0 ''div'' (replicate 4 (el0 ''Skeleton'' [])),
                        el0 ''Skeleton'' []]
      else el0 ''div''
        [el0 ''h1'' [Txt txt_dashboard_title],
         el0 ''div''
           [StatCard toLocaleString txt_online_rover (nullish (map_option ss_total_clients stats) 0) False,
            StatCard toLocaleString txt_online_source (nullish (map_option ss_total_sources stats) 0) False,
            StatCard toLocaleString txt_active_mounts (activeMountpoints stats) False,
            StatCard toLocaleString txt_slow_clients (totalSlowClients stats) (totalSlowClients stats > 0)],
         el0 ''Card''
           [el0 ''CardHeader'' [el0 ''CardTitle'' [Txt txt_mount_status]],
            el0 ''CardContent''
              [if stats_rows stats = [] then el0 ''p'' [Txt txt_no_mounts]
               else el0 ''Table''
                 [el0 ''TableHeader''
                    [el0 ''TableRow''
                       (map (\<lambda>h. el0 ''TableHead'' [Txt h])
                          [txt_mname, ''Source'', txt_clients, txt_inflow, txt_outflow, txt_slow_clients, txt_kick_count])],
                  el0 ''TableBody'' (map stats_row (stats_rows stats))]]]])"

lemma foldl_sum: "foldl (\<lambda>sum m. sum + f m) (a :: int) xs = a + sum_list (map f xs)"
  by (induction xs arbitrary: a) simp_all

lemma totalSlowClients_sum: "totalSlowClients stats = sum_list (map ms_slow_clients (stats_rows stats))"
  by (cases "Option.bind stats ss_mountpoints") (simp_all add: totalSlowClients_def stats_rows_def foldl_sum)

lemma activeMountpoints_count: "activeMountpoints stats = int (length (filter ms_source_online (stats_rows stats)))"
  by (cases "Option.bind stats ss_mountpoints") (simp_all add: activeMountpoints_def stats_rows_def)

end
