(* ===== verification/Map_Page.thy ===== *)
theory Map_Page
  imports Mountpoints_Page Format
begin

text \<open>
  \<open>pages/map.tsx\<close>: the markers of the mountpoints with a position, the card of the selected
  or highlighted mountpoint and the initial view. OpenLayers draws the map: the projection
  \<open>fromLonLat\<close> and the features under a click are arguments, and so is the browser's
  \<open>Date\<close> parser (milliseconds, \<open>None\<close> for \<open>NaN\<close>).
\<close>

section \<open>Markers\<close>

record marker =
  mk_lonlat :: "rat \<times> rat"
  mk_mountName :: string
  mk_color :: string
  mk_textColor :: string

definition createMarkerStyle :: "bool \<Rightarrow> string \<times> string" where
  "createMarkerStyle isStale =
     (if isStale then ''#999'' else ''#3b82f6'', if isStale then ''#666'' else ''#000'')"

text \<open>A missing time is stale, and so is one more than an hour old; \<open>NaN\<close> compares as false.\<close>

definition marker_isStale :: "(string \<Rightarrow> rat option) \<Rightarrow> rat \<Rightarrow> mountpoint_info \<Rightarrow> bool" where
  "marker_isStale getTime now mp =
     (if truthy_str (m_antenna_updated_at mp)
      then (case getTime (the (m_antenna_updated_at mp)) of
              None \<Rightarrow> False | Some t \<Rightarrow> now - t / 1000 > 3600)
      else True)"

text \<open>The body of the \<open>forEach\<close> that fills the layer.\<close>

definition marker_of :: "(string \<Rightarrow> rat option) \<Rightarrow> rat \<Rightarrow> mountpoint_info \<Rightarrow> marker list" where
  "marker_of getTime now mp =
     (case (m_antenna_lat mp, m_antenna_lon mp) of
        (Some lat, Some lon) \<Rightarrow>
          [\<lparr>mk_lonlat = (lon, lat), mk_mountName = m_name mp,
            mk_color = fst (createMarkerStyle (marker_isStale getTime now mp)),
            mk_textColor = snd (createMarkerStyle (marker_isStale getTime now mp))\<rparr>]
      | _ \<Rightarrow> [])"

definition MarkerLayer :: "(string \<Rightarrow> rat option) \<Rightarrow> rat \<Rightarrow> mountpoint_info list \<Rightarrow> marker list" where
  "MarkerLayer getTime now mounts = concat (map (marker_of getTime now) mounts)"

text \<open>A click: the mountpoint of the topmost feature, if the list still has it.\<close>

definition marker_click :: "mountpoint_info list \<Rightarrow> marker list \<Rightarrow> mountpoint_info option" where
  "marker_click mounts features =
     (case features of [] \<Rightarrow> None | f # fs \<Rightarrow> find (\<lambda>m. m_name m = mk_mountName f) mounts)"

section \<open>The page\<close>

record map_state =
  mp_selectedMount :: "mountpoint_info option"

definition map_init :: map_state where
  "map_init = \<lparr>mp_selectedMount = None\<rparr>"

definition map_handleSelect :: "mountpoint_info \<Rightarrow> map_state \<Rightarrow> map_state" where
  "map_handleSelect mp s = s\<lparr>mp_selectedMount := Some mp\<rparr>"

record map_data =
  pd_mountsData :: "mountpoint_info paginated_response option"
  pd_isLoading :: bool
  pd_search :: string

text \<open>\<open>pd_search\<close> is the query part of the location, without its question mark.\<close>

definition map_mounts :: "map_data \<Rightarrow> mountpoint_info list option" where
  "map_mounts d = Option.bind (pd_mountsData d) pr_data"

definition highlightMount :: "map_data \<Rightarrow> string option" where
  "highlightMount d = search_param (pd_search d) ''mount''"

definition mountsWithLocation :: "map_data \<Rightarrow> mountpoint_info list" where
  "mountsWithLocation d =
     nullish (map_option (filter (\<lambda>m. m_antenna_lat m \<noteq> None \<and> m_antenna_lon m \<noteq> None)) (map_mounts d)) []"

definition find_highlight :: "map_data \<Rightarrow> mountpoint_info option" where
  "find_highlight d =
     (case map_mounts d of
        None \<Rightarrow> None
      | Some ms \<Rightarrow> if truthy_str (highlightMount d)
                   then find (\<lambda>m. Some (m_name m) = highlightMount d) ms else None)"

definition displayMount :: "map_data \<Rightarrow> map_state \<Rightarrow> mountpoint_info option" where
  "displayMount d s =
     (case mp_selectedMount s of Some mp \<Rightarrow> Some mp | None \<Rightarrow> find_highlight d)"

text \<open>\<open>mp?.antenna_lon && mp?.antenna_lat\<close> is a truth test of two numbers.\<close>

definition truthy_rat :: "rat option \<Rightarrow> bool" where
  "truthy_rat x \<longleftrightarrow> x \<noteq> None \<and> x \<noteq> Some 0"

definition initialCenter :: "(rat \<times> rat \<Rightarrow> 'p) \<Rightarrow> map_data \<Rightarrow> 'p" where
  "initialCenter fromLonLat d =
     (case find_highlight d of
        Some mp \<Rightarrow> if truthy_rat (m_antenna_lon mp) \<and> truthy_rat (m_antenna_lat mp)
                   then fromLonLat (the (m_antenna_lon mp), the (m_antenna_lat mp))
                   else fromLonLat (1164 / 10, 399 / 10)
      | None \<Rightarrow> fromLonLat (1164 / 10, 399 / 10))"

definition initialZoom :: "map_data \<Rightarrow> int" where
  "initialZoom d = (if truthy_str (highlightMount d) then 15 else 5)"

definition fixed_text :: "nat \<Rightarrow> rat option \<Rightarrow> 'e node list" where
  "fixed_text k x = (case x of None \<Rightarrow> [] | Some r \<Rightarrow> [Txt (to_fixed k r)])"

definition display_card :: "mountpoint_info \<Rightarrow> 'e node" where
  "display_card mp =
     el0 ''Card''
       [el0 ''CardTitle'' [Txt (m_name mp)],
        el0 ''div'' [Txt (str_or (m_description mp) txt_no_desc)],
        el0 ''div'' (el0 ''span'' [Txt txt_lat] # fixed_text 6 (m_antenna_lat mp)),
        el0 ''div'' (el0 ''span'' [Txt txt_lon] # fixed_text 6 (m_antenna_lon mp)),
        el0 ''div'' (el0 ''span'' [Txt txt_height] # fixed_text 1 (m_antenna_height mp) @ [Txt '' m'']),
        el0 ''div''
          [el0 ''span'' [Txt txt_state_label],
           Elem ''Badge'' [A_str ''variant'' (if m_source_online mp then ''default'' else ''secondary'')]
             [Txt (if m_source_online mp then txt_online else txt_offline)]],
        el0 ''div''
          [Txt txt_updated,
           Txt (if truthy_str (m_antenna_updated_at mp) then the (m_antenna_updated_at mp) else txt_unknown)]]"

definition MapPage :: "map_data \<Rightarrow> map_state \<Rightarrow> 'e node" where
  "MapPage d s =
     (if pd_isLoading d then el0 ''div'' [el0 ''Skeleton'' [], el0 ''Skeleton'' []]
      else el0 ''div''
        (el0 ''div''
           [el0 ''h1'' [Txt txt_station_map],
            Elem ''Badge'' [A_str ''variant'' ''outline'']
              [Txt (nat_str (length (mountsWithLocation d))), Txt txt_with_position]]
         # el0 ''Map'' [el0 ''TileLayer'' [], Elem ''View'' [A_num ''zoom'' (initialZoom d)] []]
         # (case displayMount d s of None \<Rightarrow> [] | Some mp \<Rightarrow> [display_card mp])))"

section \<open>Facts\<close>

lemma marker_of_located:
  "m_antenna_lat m \<noteq> None \<and> m_antenna_lon m \<noteq> None \<Longrightarrow> map mk_mountName (marker_of getTime now m) = [m_name m]"
  by (auto simp: marker_of_def)

lemma MarkerLayer_names:
  "\<forall>m \<in> set ms. m_antenna_lat m \<noteq> None \<and> m_antenna_lon m \<noteq> None
   \<Longrightarrow> map mk_mountName (MarkerLayer getTime now ms) = map m_name ms"
  by (induction ms) (simp_all add: MarkerLayer_def marker_of_located)

lemma find_distinct: "distinct (map f xs) \<Longrightarrow> x \<in> set xs \<Longrightarrow> find (\<lambda>y. f y = f x) xs = Some x"
  by (induction xs) (auto simp: image_iff)

text \<open>The query part of the link of a mountpoint row.\<close>

definition link_query :: "mountpoint_info \<Rightarrow> string" where
  "link_query mp = snd (cut CHR ''?'' (map_link mp))"

text \<open>
  The characters that mean themselves in the value of a query; the browser strips control
  characters and outer spaces from an address and ends its query at a hash sign.
\<close>

definition plain_char :: "char \<Rightarrow> bool" where
  "plain_char c \<longleftrightarrow> c \<notin> {CHR ''%'', CHR ''+'', CHR ''&'', CHR ''#''} \<and> (of_char c :: nat) > 32"

lemma form_decode_plain: "list_all plain_char s \<Longrightarrow> form_decode s = s"
  by (induction s) (auto simp: plain_char_def)

lemma split_on_plain: "list_all plain_char s \<Longrightarrow> split_on CHR ''&'' s = [s]"
  by (rule split_on_no_sep) (auto simp: list_all_iff plain_char_def)

lemma link_query_eq: "link_query mp = ''mount='' @ m_name mp"
  by (simp add: link_query_def map_link_def cut_def)

lemma highlight_of_link:
  "list_all plain_char (m_name mp) \<Longrightarrow> search_param (link_query mp) ''mount'' = Some (m_name mp)"
proof -
  assume a: "list_all plain_char (m_name mp)"
  then have "split_on CHR ''&'' (''mount='' @ m_name mp) = [''mount='' @ m_name mp]"
    by (intro split_on_plain) (simp add: plain_char_def)
  with a show ?thesis
    by (simp add: search_param_def form_parse_def link_query_eq cut_def form_decode_plain)
qed

section \<open>Properties\<close>

text \<open>
  The map shows one marker per mountpoint with a position, in the order of the list, the
  badge counts them, and a click on a marker selects its own mountpoint as long as names are
  unique.
\<close>

theorem map_markers_complete:
  assumes "distinct (map m_name (mountsWithLocation d))"
  shows "map mk_mountName (MarkerLayer getTime now (mountsWithLocation d)) = map m_name (mountsWithLocation d)
    \<and> length (MarkerLayer getTime now (mountsWithLocation d)) = length (mountsWithLocation d)
    \<and> (\<forall>i < length (mountsWithLocation d).
         marker_click (mountsWithLocation d) (MarkerLayer getTime now (mountsWithLocation d) ! i # fs)
           = Some (mountsWithLocation d ! i))"
proof (intro conjI allI impI)
  let ?ms = "mountsWithLocation d" and ?ks = "MarkerLayer getTime now (mountsWithLocation d)"
  have "\<forall>m \<in> set ?ms. m_antenna_lat m \<noteq> None \<and> m_antenna_lon m \<noteq> None"
    by (cases "map_mounts d") (simp_all add: mountsWithLocation_def)
  from MarkerLayer_names [OF this] show names: "map mk_mountName ?ks = map m_name ?ms" .
  then show len: "length ?ks = length ?ms" by (metis length_map)
  fix i assume i: "i < length ?ms"
  from names i len have "mk_mountName (?ks ! i) = m_name (?ms ! i)" by (metis nth_map)
  with i assms find_distinct [of m_name ?ms "?ms ! i"] show "marker_click ?ms (?ks ! i # fs) = Some (?ms ! i)"
    by (simp add: marker_click_def)
qed

definition sample_map :: map_data where
  "sample_map =
     \<lparr>pd_mountsData = Some \<lparr>pr_data = Some [sample_mount\<lparr>m_antenna_lat := Some 31, m_antenna_lon := Some 121\<rparr>],
        pr_total = 1, pr_page = 1, pr_limit = 1000\<rparr>, pd_isLoading = False, pd_search = ''mount=RTCM_01''\<rparr>"

theorem map_markers_complete_witness:
  "map mk_mountName (MarkerLayer (\<lambda>s. None) 0 (mountsWithLocation sample_map)) = map m_name (mountsWithLocation sample_map)
   \<and> length (mountsWithLocation sample_map) = 1"
proof -
  have "distinct (map m_name (mountsWithLocation sample_map))" "length (mountsWithLocation sample_map) = 1"
    by (simp_all add: mountsWithLocation_def map_mounts_def sample_map_def)
  with map_markers_complete [OF this(1)] show ?thesis by blast
qed

text \<open>
  The position button of a mountpoint row opens the map on that mountpoint: the page shows
  its card and zooms in, for every name without characters that are special in a query.
\<close>

theorem map_link_shows_mount:
  assumes "list_all plain_char (m_name mp)" and "m_name mp \<noteq> []" and "map_mounts d = Some ms"
    and "mp \<in> set ms" and "distinct (map m_name ms)" and "pd_search d = link_query mp"
  shows "displayMount d map_init = Some mp \<and> initialZoom d = 15"
proof -
  from highlight_of_link [OF assms(1)] assms(6) have h: "highlightMount d = Some (m_name mp)"
    by (simp add: highlightMount_def)
  with assms(2,3) find_distinct [OF assms(5,4)] show ?thesis
    by (simp add: displayMount_def map_init_def find_highlight_def initialZoom_def)
qed

theorem map_link_shows_mount_witness:
  "displayMount sample_map map_init = Some (sample_mount\<lparr>m_antenna_lat := Some 31, m_antenna_lon := Some 121\<rparr>)"
proof -
  let ?mp = "sample_mount\<lparr>m_antenna_lat := Some 31, m_antenna_lon := Some 121\<rparr>"
  have "list_all plain_char (m_name ?mp)" "m_name ?mp \<noteq> []"
    by (simp_all add: sample_mount_def plain_char_def)
  moreover have "map_mounts sample_map = Some [?mp]" by (simp add: map_mounts_def sample_map_def)
  moreover have "pd_search sample_map = link_query ?mp"
    by (simp add: sample_map_def link_query_eq sample_mount_def)
  ultimately show ?thesis using map_link_shows_mount [of ?mp sample_map "[?mp]"] by simp
qed

text \<open>
  The link does not encode the name: for a mountpoint called \<open>A+B\<close> the map page looks for
  another name and shows no card, although it has the mountpoint.
\<close>

theorem map_link_plus_not_found:
  assumes "m_name mp = ''A+B''" and "map_mounts d = Some [mp]" and "pd_search d = link_query mp"
  shows "displayMount d map_init = None"
proof -
  have "search_param (link_query mp) ''mount'' = Some ''A B''"
    by (simp add: link_query_eq assms(1) search_param_def form_parse_def cut_def)
  with assms show ?thesis
    by (simp add: displayMount_def map_init_def find_highlight_def highlightMount_def)
qed

theorem map_link_plus_not_found_witness:
  "displayMount (sample_map\<lparr>pd_mountsData := Some \<lparr>pr_data = Some [sample_mount\<lparr>m_name := ''A+B''\<rparr>],
     pr_total = 1, pr_page = 1, pr_limit = 1000\<rparr>, pd_search := link_query (sample_mount\<lparr>m_name := ''A+B''\<rparr>)\<rparr>) map_init = None"
  by (rule map_link_plus_not_found [of "sample_mount\<lparr>m_name := ''A+B''\<rparr>"])
    (simp_all add: map_mounts_def)

text \<open>
  A highlighted mountpoint on the equator or on the Greenwich meridian is not centred: the
  truth test takes its coordinate 0 for a missing one and the view opens on the default centre,
  although the marker layer draws the mountpoint.
\<close>

theorem map_center_ignores_zero:
  assumes "find_highlight d = Some mp" and "m_antenna_lat mp = Some lat" and "m_antenna_lon mp = Some lon"
    and "lat = 0 \<or> lon = 0"
  shows "initialCenter fromLonLat d = fromLonLat (1164 / 10, 399 / 10)
    \<and> map mk_lonlat (marker_of getTime now mp) = [(lon, lat)]"
  using assms by (auto simp: initialCenter_def truthy_rat_def marker_of_def)

theorem map_center_ignores_zero_witness:
  "initialCenter (\<lambda>x. x) (sample_map\<lparr>pd_mountsData := Some \<lparr>pr_data =
     Some [sample_mount\<lparr>m_antenna_lat := Some 51, m_antenna_lon := Some 0\<rparr>],
     pr_total = 1, pr_page = 1, pr_limit = 1000\<rparr>\<rparr>) = (1164 / 10, 399 / 10)"
proof -
  let ?mp = "sample_mount\<lparr>m_antenna_lat := Some 51, m_antenna_lon := Some 0\<rparr>"
  let ?d = "sample_map\<lparr>pd_mountsData := Some \<lparr>pr_data = Some [?mp], pr_total = 1, pr_page = 1, pr_limit = 1000\<rparr>\<rparr>"
  have "highlightMount ?d = Some ''RTCM_01''"
    by (simp add: highlightMount_def sample_map_def search_param_def form_parse_def cut_def)
  then have "find_highlight ?d = Some ?mp"
    by (simp add: find_highlight_def map_mounts_def sample_mount_def)
  from map_center_ignores_zero [OF this, of 51 0 "\<lambda>x. x" "\<lambda>s. None" 0] show ?thesis by simp
qed

end
