(* ===== verification/Map_Layer.thy ===== *)
theory Map_Layer
  imports Map_Page
begin

text \<open>
  The life of \<open>MarkerLayer\<close> (\<open>pages/map.tsx\<close>): its three effects, their dependencies and the clean-up, as
  React runs them when it commits a rendering, unmounts the component, or, in strict mode, unmounts and
  remounts its effects. OpenLayers maps are numbers; of each the state has how often the component's layer
  is on it and which of its click handlers are registered. The list of mountpoints is a reference that
  stands for the page's data at the time it was computed, so that, as in React, a dependency has changed
  when the reference has.
\<close>

section \<open>State and effects\<close>

record layer =
  ly_mounted :: bool
  ly_map :: "nat option"
  ly_mounts :: nat
  ly_cleanup :: "(nat \<times> nat) option"
  ly_mountsRef :: nat
  ly_features :: "marker list"
  ly_on :: "nat \<Rightarrow> nat"
  ly_keys :: "nat \<Rightarrow> nat list"
  ly_nextKey :: nat

definition layer_init :: layer where
  "layer_init =
     \<lparr>ly_mounted = False, ly_map = None, ly_mounts = 0, ly_cleanup = None, ly_mountsRef = 0, ly_features = [],
      ly_on = (\<lambda>k. 0), ly_keys = (\<lambda>k. []), ly_nextKey = 0\<rparr>"

definition mountsRef_effect :: "nat \<Rightarrow> layer \<Rightarrow> layer" where
  "mountsRef_effect mounts s = s\<lparr>ly_mountsRef := mounts\<rparr>"

text \<open>\<open>addLayer\<close> and \<open>on("click")\<close>; the clean-up function remembers the map and the key.\<close>

definition layer_effect :: "nat option \<Rightarrow> layer \<Rightarrow> layer" where
  "layer_effect m s =
     (case m of
        None \<Rightarrow> s\<lparr>ly_cleanup := None\<rparr>
      | Some k \<Rightarrow> s\<lparr>ly_on := (ly_on s)(k := ly_on s k + 1), ly_keys := (ly_keys s)(k := ly_keys s k @ [ly_nextKey s]),
                    ly_nextKey := ly_nextKey s + 1, ly_cleanup := Some (k, ly_nextKey s)\<rparr>)"

definition layer_cleanup :: "layer \<Rightarrow> layer" where
  "layer_cleanup s =
     (case ly_cleanup s of
        None \<Rightarrow> s
      | Some (k, key) \<Rightarrow> s\<lparr>ly_on := (ly_on s)(k := ly_on s k - 1), ly_keys := (ly_keys s)(k := filter (\<lambda>x. x \<noteq> key) (ly_keys s k)),
                           ly_cleanup := None\<rparr>)"

definition features_effect :: "(nat \<Rightarrow> map_data) \<Rightarrow> (string \<Rightarrow> rat option) \<Rightarrow> rat \<Rightarrow> nat \<Rightarrow> layer \<Rightarrow> layer" where
  "features_effect data getTime now mounts s =
     s\<lparr>ly_features := MarkerLayer getTime now (mountsWithLocation (data mounts))\<rparr>"

text \<open>
  A commit cleans up the effects whose dependencies changed, then runs them in their order. The layer
  depends on the map, the other two effects on the list.
\<close>

definition layer_commit ::
  "(nat \<Rightarrow> map_data) \<Rightarrow> (string \<Rightarrow> rat option) \<Rightarrow> rat \<Rightarrow> nat option \<Rightarrow> nat \<Rightarrow> layer \<Rightarrow> layer" where
  "layer_commit data getTime now m mounts s =
     (let first = (\<not> ly_mounted s); newMap = (first \<or> m \<noteq> ly_map s); newList = (first \<or> mounts \<noteq> ly_mounts s);
          s1 = (if newMap \<and> \<not> first then layer_cleanup s else s);
          s2 = (if newList then mountsRef_effect mounts s1 else s1);
          s3 = (if newMap then layer_effect m s2 else s2);
          s4 = (if newList then features_effect data getTime now mounts s3 else s3)
      in s4\<lparr>ly_mounted := True, ly_map := m, ly_mounts := mounts\<rparr>)"

definition layer_unmount :: "layer \<Rightarrow> layer" where
  "layer_unmount s = (if ly_mounted s then (layer_cleanup s)\<lparr>ly_mounted := False\<rparr> else s)"

definition layer_remount :: "(nat \<Rightarrow> map_data) \<Rightarrow> (string \<Rightarrow> rat option) \<Rightarrow> rat \<Rightarrow> layer \<Rightarrow> layer" where
  "layer_remount data getTime now s =
     (if ly_mounted s
      then features_effect data getTime now (ly_mounts s)
             (layer_effect (ly_map s) (mountsRef_effect (ly_mounts s) (layer_cleanup s)))
      else s)"

datatype layer_event = L_commit rat "nat option" nat | L_unmount | L_remount rat

fun layer_step :: "(nat \<Rightarrow> map_data) \<Rightarrow> (string \<Rightarrow> rat option) \<Rightarrow> layer_event \<Rightarrow> layer \<Rightarrow> layer" where
  "layer_step data getTime (L_commit now m mounts) s = layer_commit data getTime now m mounts s"
| "layer_step data getTime L_unmount s = layer_unmount s"
| "layer_step data getTime (L_remount now) s = layer_remount data getTime now s"

text \<open>A click on a map where OpenLayers finds the given features: every registered handler runs.\<close>

definition layer_click :: "(nat \<Rightarrow> map_data) \<Rightarrow> nat \<Rightarrow> marker list \<Rightarrow> layer \<Rightarrow> mountpoint_info list" where
  "layer_click data k features s =
     List.map_filter (\<lambda>key. marker_click (mountsWithLocation (data (ly_mountsRef s))) features) (ly_keys s k)"

section \<open>The invariant\<close>

text \<open>
  The component is on its map exactly once, with one handler, and on no other; the clean-up undoes just
  that; the markers and the list the handler reads are those of the committed list.
\<close>

definition layer_ok :: "(nat \<Rightarrow> map_data) \<Rightarrow> (string \<Rightarrow> rat option) \<Rightarrow> layer \<Rightarrow> bool" where
  "layer_ok data getTime s \<longleftrightarrow>
     (\<forall>k. ly_on s k = (if ly_mounted s \<and> ly_map s = Some k then 1 else 0))
     \<and> (case ly_cleanup s of
          None \<Rightarrow> (\<forall>k. ly_keys s k = []) \<and> (ly_mounted s \<longrightarrow> ly_map s = None)
        | Some (k, key) \<Rightarrow> ly_mounted s \<and> ly_map s = Some k \<and> (\<forall>j. ly_keys s j = (if j = k then [key] else [])))
     \<and> (ly_mounted s \<longrightarrow> ly_mountsRef s = ly_mounts s
          \<and> (\<exists>now. ly_features s = MarkerLayer getTime now (mountsWithLocation (data (ly_mounts s)))))"

lemmas layer_defs = layer_ok_def layer_effect_def layer_cleanup_def mountsRef_effect_def features_effect_def

lemma cleanup_ok:
  assumes "layer_ok data getTime s"
  shows "ly_on (layer_cleanup s) = (\<lambda>k. 0)" "ly_keys (layer_cleanup s) = (\<lambda>k. [])" "ly_cleanup (layer_cleanup s) = None"
    "ly_mounted (layer_cleanup s) = ly_mounted s" "ly_map (layer_cleanup s) = ly_map s" "ly_mounts (layer_cleanup s) = ly_mounts s"
    "ly_mountsRef (layer_cleanup s) = ly_mountsRef s" "ly_features (layer_cleanup s) = ly_features s"
  using assms by (auto simp: layer_defs fun_eq_iff split: option.splits if_splits)

lemma unmounted_clean:
  assumes "layer_ok data getTime s" "\<not> ly_mounted s"
  shows "ly_on s = (\<lambda>k. 0)" "ly_keys s = (\<lambda>k. [])"
  using assms by (auto simp: layer_ok_def fun_eq_iff split: option.splits)

lemma layer_step_ok: "layer_ok data getTime s \<Longrightarrow> layer_ok data getTime (layer_step data getTime e s)"
proof (cases e)
  case (L_commit now m mounts)
  assume ok: "layer_ok data getTime s"
  show ?thesis
  proof (cases "\<not> ly_mounted s \<or> m \<noteq> ly_map s")
    case True
    with L_commit ok cleanup_ok [OF ok] unmounted_clean [OF ok] show ?thesis
      by (cases m)
        (auto simp: layer_commit_def layer_ok_def layer_effect_def mountsRef_effect_def features_effect_def Let_def)
  next
    case False
    with L_commit ok show ?thesis
      by (auto simp: layer_commit_def layer_ok_def mountsRef_effect_def features_effect_def Let_def split: option.splits)
  qed
next
  case L_unmount
  assume ok: "layer_ok data getTime s"
  with L_unmount cleanup_ok [OF ok] show ?thesis by (simp add: layer_unmount_def layer_ok_def)
next
  case (L_remount now)
  assume ok: "layer_ok data getTime s"
  with L_remount cleanup_ok [OF ok] show ?thesis
    by (cases "ly_map s")
      (auto simp: layer_remount_def layer_ok_def layer_effect_def mountsRef_effect_def features_effect_def)
qed

interpretation layer_run: kept "layer_step data getTime" "layer_ok data getTime" for data getTime
  by unfold_locales (rule layer_step_ok)

lemma layer_init_ok: "layer_ok data getTime layer_init"
  by (simp add: layer_ok_def layer_init_def)

lemma located: "m \<in> set (mountsWithLocation d) \<Longrightarrow> m_antenna_lat m \<noteq> None \<and> m_antenna_lon m \<noteq> None"
  by (cases "map_mounts d") (simp_all add: mountsWithLocation_def)

section \<open>Properties\<close>

text \<open>
  C32. Whatever React does to the component (rendering with new data, a map that comes, goes or is replaced,
  unmounting, the double effects of strict mode), a mounted layer is on its own map exactly once and on no
  other map, its markers are those of the mountpoints with a position in the list last committed, and a
  click on one of them selects that mountpoint once, from that list; an unmounted one leaves nothing behind.
\<close>

theorem marker_layer_lifecycle:
  assumes "s = fold (layer_step data getTime) es layer_init"
  shows "(\<forall>k. ly_on s k = (if ly_mounted s \<and> ly_map s = Some k then 1 else 0))
    \<and> (\<forall>k. \<not> (ly_mounted s \<and> ly_map s = Some k) \<longrightarrow> layer_click data k fs s = [])
    \<and> (ly_mounted s \<longrightarrow> map mk_mountName (ly_features s) = map m_name (mountsWithLocation (data (ly_mounts s))))
    \<and> (\<forall>k i. ly_mounted s \<and> ly_map s = Some k \<and> i < length (ly_features s)
          \<and> distinct (map m_name (mountsWithLocation (data (ly_mounts s))))
        \<longrightarrow> layer_click data k (ly_features s ! i # fs) s = [mountsWithLocation (data (ly_mounts s)) ! i])"
proof (intro conjI allI impI)
  have ok: "layer_ok data getTime s" unfolding assms by (rule layer_run.run_keeps [OF layer_init_ok])
  then show "ly_on s k = (if ly_mounted s \<and> ly_map s = Some k then 1 else 0)" for k by (simp add: layer_ok_def)
  show "layer_click data k fs s = []" if "\<not> (ly_mounted s \<and> ly_map s = Some k)" for k
    using ok that by (auto simp: layer_ok_def layer_click_def map_filter_simps split: option.splits)
  show names: "map mk_mountName (ly_features s) = map m_name (mountsWithLocation (data (ly_mounts s)))" if "ly_mounted s"
    using ok that located MarkerLayer_names by (fastforce simp: layer_ok_def)
  show "layer_click data k (ly_features s ! i # fs) s = [mountsWithLocation (data (ly_mounts s)) ! i]"
    if a: "ly_mounted s \<and> ly_map s = Some k \<and> i < length (ly_features s)
      \<and> distinct (map m_name (mountsWithLocation (data (ly_mounts s))))" for k i
  proof -
    let ?ms = "mountsWithLocation (data (ly_mounts s))"
    from names a have n: "map mk_mountName (ly_features s) = map m_name ?ms" by blast
    then have "length (ly_features s) = length ?ms" by (metis length_map)
    with a n have "mk_mountName (ly_features s ! i) = m_name (?ms ! i)" "?ms ! i \<in> set ?ms" by (metis nth_map, simp)
    with a find_distinct [of m_name ?ms "?ms ! i"] have "marker_click ?ms (ly_features s ! i # fs) = Some (?ms ! i)"
      by (simp add: marker_click_def)
    moreover from ok a obtain key where "ly_keys s k = [key]" "ly_mountsRef s = ly_mounts s"
      by (auto simp: layer_ok_def split: option.splits)
    ultimately show ?thesis by (simp add: layer_click_def map_filter_simps)
  qed
qed

definition sample_life :: "layer_event list" where
  "sample_life = [L_commit 0 None 0, L_remount 0, L_commit 0 (Some 7) 0, L_commit 1 (Some 7) 1, L_remount 1, L_commit 2 (Some 8) 1]"

theorem marker_layer_lifecycle_witness:
  "layer_click (\<lambda>r. sample_map) 8 [ly_features (fold (layer_step (\<lambda>r. sample_map) (\<lambda>t. None)) sample_life layer_init) ! 0]
     (fold (layer_step (\<lambda>r. sample_map) (\<lambda>t. None)) sample_life layer_init) = [mountsWithLocation sample_map ! 0]"
proof -
  let ?s = "fold (layer_step (\<lambda>r. sample_map) (\<lambda>t. None)) sample_life layer_init"
  have "ly_mounted ?s" "ly_map ?s = Some 8"
    by (simp_all add: sample_life_def layer_commit_def layer_remount_def Let_def features_effect_def layer_effect_def
        mountsRef_effect_def layer_cleanup_def layer_init_def)
  moreover have one: "length (mountsWithLocation sample_map) = 1" "distinct (map m_name (mountsWithLocation sample_map))"
    by (simp_all add: mountsWithLocation_def map_mounts_def sample_map_def)
  note life = marker_layer_lifecycle [OF refl, of "\<lambda>r. sample_map" "\<lambda>t. None" sample_life "[]"]
  moreover from life have "map mk_mountName (ly_features ?s) = map m_name (mountsWithLocation sample_map)"
    using calculation(1) by blast
  then have "length (ly_features ?s) = 1" using one(1) by (metis length_map)
  ultimately show ?thesis using one(2) by simp
qed

end
