(* ===== verification/Auth.thy ===== *)
theory Auth
  imports Page_Patterns
begin

text \<open>
  The login state of the client: \<open>hooks/auth-provider.tsx\<close>, \<open>hooks/use-auth.ts\<close>,
  \<open>pages/login.tsx\<close>, \<open>components/layout\<close>, \<open>pages/not-found.tsx\<close> and the route
  table of \<open>App.tsx\<close>. A JavaScript value that comes from JSON is a \<open>json option\<close>, with
  \<open>None\<close> for \<open>undefined\<close>. The route matcher of react-router is an argument; what the
  client relies on is stated where it is used.
\<close>

section \<open>The provider\<close>

record auth_state =
  au_username :: "json option"
  au_loading :: bool

definition auth_init :: auth_state where
  "auth_init = \<lparr>au_username = Some JNull, au_loading = True\<rparr>"

text \<open>\<open>username !== null\<close>; an \<open>undefined\<close> user name counts as logged in.\<close>

definition isAuthenticated :: "auth_state \<Rightarrow> bool" where
  "isAuthenticated a \<longleftrightarrow> au_username a \<noteq> Some JNull"

text \<open>\<open>prev ?? "admin"\<close>\<close>

definition keep_or_admin :: "json option \<Rightarrow> json option" where
  "keep_or_admin u = (if u = None \<or> u = Some JNull then Some (JStr ''admin'') else u)"

text \<open>The continuation of \<open>checkAuth\<close> on the outcome of \<open>api.getStats()\<close>.\<close>

definition checkAuth :: "json outcome \<Rightarrow> auth_state \<Rightarrow> auth_state" where
  "checkAuth r a =
     (case r of Inr v \<Rightarrow> a\<lparr>au_username := keep_or_admin (au_username a), au_loading := False\<rparr>
      | Inl e \<Rightarrow> a\<lparr>au_username := Some JNull, au_loading := False\<rparr>)"

text \<open>\<open>login\<close> and \<open>logout\<close> on the outcome of their request, with what they throw.\<close>

definition auth_login :: "json outcome \<Rightarrow> auth_state \<Rightarrow> auth_state \<times> unit outcome" where
  "auth_login r a =
     (case r of Inl e \<Rightarrow> (a, Inl e)
      | Inr res \<Rightarrow> (case property res ''username'' of
          Inl e \<Rightarrow> (a, Inl e)
        | Inr v \<Rightarrow> (a\<lparr>au_username := v\<rparr>, Inr ())))"

definition auth_logout :: "json outcome \<Rightarrow> auth_state \<Rightarrow> auth_state \<times> unit outcome" where
  "auth_logout r a =
     (case r of Inl e \<Rightarrow> (a, Inl e) | Inr v \<Rightarrow> (a\<lparr>au_username := Some JNull\<rparr>, Inr ()))"

text \<open>The context is \<open>null\<close> outside the provider, and while the provider shows its spinner.\<close>

definition auth_context :: "auth_state \<Rightarrow> auth_state option" where
  "auth_context a = (if au_loading a then None else Some a)"

definition useAuth :: "auth_state option \<Rightarrow> auth_state outcome" where
  "useAuth ctx =
     (case ctx of None \<Rightarrow> Inl (JsError ''useAuth must be used within an AuthProvider'') | Some a \<Rightarrow> Inr a)"

section \<open>The life of a session\<close>

datatype auth_event = Checked "json outcome" | Logged_in "json outcome" | Logged_out "json outcome"

fun auth_step :: "auth_event \<Rightarrow> auth_state \<Rightarrow> auth_state" where
  "auth_step (Checked r) a = checkAuth r a"
| "auth_step (Logged_in r) a = fst (auth_login r a)"
| "auth_step (Logged_out r) a = fst (auth_logout r a)"

text \<open>The user name a login answer carries; \<open>None\<close> when reading it throws or the login failed.\<close>

fun answered_name :: "json outcome \<Rightarrow> (json option) option" where
  "answered_name (Inl e) = None"
| "answered_name (Inr res) = (case property res ''username'' of Inl e \<Rightarrow> None | Inr v \<Rightarrow> Some v)"

text \<open>The events that log the client in, and those that log it out.\<close>

fun grants :: "auth_event \<Rightarrow> bool" where
  "grants (Checked r) = (\<not> isl r)"
| "grants (Logged_in r) = (answered_name r \<noteq> None \<and> answered_name r \<noteq> Some (Some JNull))"
| "grants (Logged_out r) = False"

fun revokes :: "auth_event \<Rightarrow> bool" where
  "revokes (Checked r) = isl r"
| "revokes (Logged_in r) = (answered_name r = Some (Some JNull))"
| "revokes (Logged_out r) = (\<not> isl r)"

lemma isAuthenticated_step:
  "isAuthenticated (auth_step e a) \<longleftrightarrow> grants e \<or> isAuthenticated a \<and> \<not> revokes e"
proof (cases e)
  case (Checked r)
  then show ?thesis
    by (cases r) (simp_all add: checkAuth_def isAuthenticated_def keep_or_admin_def)
next
  case (Logged_in r)
  then show ?thesis
    by (cases r) (auto simp: auth_login_def isAuthenticated_def split: sum.split)
next
  case (Logged_out r)
  then show ?thesis
    by (cases r) (simp_all add: auth_logout_def isAuthenticated_def)
qed

lemma isAuthenticated_run:
  "isAuthenticated (fold auth_step es a) \<longleftrightarrow>
     (\<exists>pre e post. es = pre @ e # post \<and> grants e \<and> \<not> list_ex revokes post)
     \<or> isAuthenticated a \<and> \<not> list_ex revokes es"
proof (induction es rule: rev_induct)
  case Nil
  show ?case by simp
next
  case (snoc x es)
  have *: "(\<exists>pre e post. es @ [x] = pre @ e # post \<and> grants e \<and> \<not> list_ex revokes post) \<longleftrightarrow>
      grants x \<or> \<not> revokes x \<and> (\<exists>pre e post. es = pre @ e # post \<and> grants e \<and> \<not> list_ex revokes post)"
    (is "?L \<longleftrightarrow> ?R")
  proof
    assume ?L
    then obtain pre e post where 1: "es @ [x] = pre @ e # post" "grants e" "\<not> list_ex revokes post"
      by blast
    then show ?R by (cases post rule: rev_cases) auto
  next
    assume ?R
    then show ?L
    proof (elim disjE conjE exE)
      assume "grants x"
      then show ?L by (intro exI [of _ es] exI [of _ x] exI [of _ "[]"]) simp
    next
      fix pre e post assume "\<not> revokes x" "es = pre @ e # post" "grants e" "\<not> list_ex revokes post"
      then show ?L by (intro exI [of _ pre] exI [of _ e] exI [of _ "post @ [x]"]) simp
    qed
  qed
  show ?case using snoc by (auto simp: isAuthenticated_step *)
qed

section \<open>The login page\<close>

record login_state =
  lg_username :: string
  lg_password :: string
  lg_loading :: bool

definition login_init :: login_state where
  "login_init = \<lparr>lg_username = [], lg_password = [], lg_loading = False\<rparr>"

datatype login_event = L_username string | L_password string | L_submit

text \<open>The part of \<open>handleSubmit\<close> before its \<open>await\<close>, and the part after it.\<close>

definition login_handleSubmit :: "login_state \<Rightarrow> login_state \<times> effect list" where
  "login_handleSubmit s = (s\<lparr>lg_loading := True\<rparr>, [Submit_login (lg_username s) (lg_password s)])"

definition login_settled :: "unit outcome \<Rightarrow> login_state \<Rightarrow> login_state \<times> effect list" where
  "login_settled r s =
     (s\<lparr>lg_loading := False\<rparr>,
      case r of Inr u \<Rightarrow> [Navigate ''/''] | Inl e \<Rightarrow> [Toast_error (error_text txt_login_failed e)])"

fun login_step :: "login_event \<Rightarrow> login_state \<Rightarrow> login_state \<times> effect list" where
  "login_step (L_username v) s = (s\<lparr>lg_username := v\<rparr>, [])"
| "login_step (L_password v) s = (s\<lparr>lg_password := v\<rparr>, [])"
| "login_step L_submit s = login_handleSubmit s"

definition login_view :: "login_state \<Rightarrow> login_event node" where
  "login_view s =
     el0 ''Card''
       [el0 ''CardTitle'' [Txt ''NTRIP Caster''],
        el0 ''p'' [Txt txt_console],
        Elem ''form''
          [On ''onSubmit'' L_submit]
          [el0 ''Label'' [Txt txt_username],
           Elem ''Input'' [A_str ''value'' (lg_username s), On_text ''onChange'' L_username,
                           A_str ''placeholder'' ''admin'', A_flag ''required'' True] [],
           el0 ''Label'' [Txt txt_password],
           Elem ''Input'' [A_str ''type'' ''password'', A_str ''value'' (lg_password s),
                           On_text ''onChange'' L_password, A_str ''placeholder'' txt_bullets,
                           A_flag ''required'' True] [],
           Elem ''Button'' [A_str ''type'' ''submit'', A_flag ''disabled'' (lg_loading s)]
             [Txt (if lg_loading s then txt_logging_in else txt_login)]]]"

text \<open>An answer of the server to a submitted login, through client, provider and page.\<close>

definition login_answer ::
  "string \<Rightarrow> fetch_outcome \<Rightarrow> auth_state \<Rightarrow> login_state \<Rightarrow> auth_state \<times> login_state \<times> effect list" where
  "login_answer pathname res a s =
     (let (b, r) = auth_login (rr_result (handle_response pathname ''/api/login'' res)) a;
          (t, es) = login_settled r s
      in (b, t, es))"

lemma fires_login_view:
  "fires (login_view s) =
     range L_username \<union> range L_password
     \<union> (if lg_username s \<noteq> [] \<and> lg_password s \<noteq> [] \<and> \<not> lg_loading s then {L_submit} else {})"
  by (auto simp: login_view_def)

section \<open>Routes\<close>

datatype element =
    E_LoginPage | E_ProtectedRoute | E_AppLayout | E_DashboardPage | E_UsersPage
  | E_MountpointsPage | E_ConnectionsPage | E_MapPage | E_NotFoundPage

datatype route = Route (route_path: "string option") (route_index: bool) (route_element: element)
  (route_children: "route list")

abbreviation "leaf p e \<equiv> Route (Some p) False e []"
abbreviation "index e \<equiv> Route None True e []"
abbreviation "layout e rs \<equiv> Route None False e rs"

definition App_routes :: "route list" where
  "App_routes =
     [leaf ''/login'' E_LoginPage,
      layout E_ProtectedRoute
        [layout E_AppLayout
           [index E_DashboardPage,
            leaf ''users'' E_UsersPage,
            leaf ''mountpoints'' E_MountpointsPage,
            leaf ''connections'' E_ConnectionsPage,
            leaf ''map'' E_MapPage]],
      leaf ''*'' E_NotFoundPage]"

text \<open>
  The branches of a route table: the pattern of the leaf, as an absolute path, and the elements
  from the outermost to the leaf.
\<close>

definition path_join :: "string \<Rightarrow> string option \<Rightarrow> string" where
  "path_join base p =
     (case p of None \<Rightarrow> base
      | Some x \<Rightarrow> if take 1 x = ''/'' then x else if base = ''/'' then ''/'' @ x else base @ ''/'' @ x)"

fun branches :: "string \<Rightarrow> route \<Rightarrow> (string \<times> element list) list" where
  "branches base (Route p i e rs) =
     (if rs = [] then [(path_join base p, [e])]
      else map (\<lambda>(q, es). (q, e # es)) (concat (map (branches (path_join base p)) rs)))"

definition all_branches :: "route list \<Rightarrow> (string \<times> element list) list" where
  "all_branches rs = concat (map (branches ''/'') rs)"

text \<open>
  What \<open>Routes\<close> promises of its matcher: it renders one branch of the table, and a location
  that is literally the path of a branch (no parameter or splat in it) selects that branch.
\<close>

type_synonym matcher = "route list \<Rightarrow> string \<Rightarrow> element list option"

definition matches_branch :: "matcher \<Rightarrow> bool" where
  "matches_branch m \<longleftrightarrow> (\<forall>rs p es. m rs p = Some es \<longrightarrow> es \<in> snd ` set (all_branches rs))"

definition matches_static :: "matcher \<Rightarrow> bool" where
  "matches_static m \<longleftrightarrow>
     (\<forall>rs p. CHR ''*'' \<notin> set p \<and> CHR '':'' \<notin> set p \<longrightarrow>
        (case map_of (all_branches rs) p of None \<Rightarrow> True | Some es \<Rightarrow> m rs p = Some es))"

text \<open>A matcher with both: the first literal match, else the branch of the splat.\<close>

definition literal_matcher :: matcher where
  "literal_matcher rs p =
     (case map_of (all_branches rs) p of Some es \<Rightarrow> Some es
      | None \<Rightarrow> map_of (all_branches rs) ''/*'')"

lemma map_of_snd: "map_of xs k = Some v \<Longrightarrow> v \<in> snd ` set xs"
  by (force dest: map_of_SomeD)

lemma literal_matcher_ok: "matches_branch literal_matcher" "matches_static literal_matcher"
  by (auto simp: matches_branch_def matches_static_def literal_matcher_def map_of_snd
      split: option.splits dest: map_of_snd)

lemma App_branches:
  "all_branches App_routes =
     [(''/login'', [E_LoginPage]),
      (''/'', [E_ProtectedRoute, E_AppLayout, E_DashboardPage]),
      (''/users'', [E_ProtectedRoute, E_AppLayout, E_UsersPage]),
      (''/mountpoints'', [E_ProtectedRoute, E_AppLayout, E_MountpointsPage]),
      (''/connections'', [E_ProtectedRoute, E_AppLayout, E_ConnectionsPage]),
      (''/map'', [E_ProtectedRoute, E_AppLayout, E_MapPage]),
      (''/*'', [E_NotFoundPage])]"
  by (simp add: all_branches_def App_routes_def path_join_def)

section \<open>Rendering the application\<close>

datatype rendered = R_loading | R_navigate string | R_sidebar | R_page element

definition ProtectedRoute :: "auth_state \<Rightarrow> rendered list \<Rightarrow> rendered list" where
  "ProtectedRoute a outlet = (if \<not> isAuthenticated a then [R_navigate ''/login''] else outlet)"

definition AppLayout :: "rendered list \<Rightarrow> rendered list" where
  "AppLayout outlet = R_sidebar # outlet"

fun render_branch :: "auth_state \<Rightarrow> element list \<Rightarrow> rendered list" where
  "render_branch a [] = []"
| "render_branch a (e # es) =
     (if e = E_ProtectedRoute then ProtectedRoute a (render_branch a es)
      else if e = E_AppLayout then AppLayout (render_branch a es)
      else [R_page e])"

definition App :: "matcher \<Rightarrow> string \<Rightarrow> auth_state \<Rightarrow> rendered list" where
  "App m pathname a =
     (if au_loading a then [R_loading]
      else case m App_routes pathname of None \<Rightarrow> [] | Some es \<Rightarrow> render_branch a es)"

text \<open>The \<open>Navigate\<close> element replaces the location; the second argument is the location shown.\<close>

definition App_location :: "matcher \<Rightarrow> string \<Rightarrow> auth_state \<Rightarrow> string" where
  "App_location m pathname a =
     (case App m pathname a of R_navigate p # rs \<Rightarrow> p | _ \<Rightarrow> pathname)"

definition protected_elements :: "element set" where
  "protected_elements = {E_DashboardPage, E_UsersPage, E_MountpointsPage, E_ConnectionsPage, E_MapPage}"

section \<open>The sidebar and the 404 page\<close>

definition navItems :: "(string \<times> string) list" where
  "navItems =
     [(''/'', txt_overview), (''/users'', txt_user_admin), (''/mountpoints'', txt_mountpoint),
      (''/connections'', txt_connections), (''/map'', txt_station_map)]"

datatype sidebar_event = S_navigate string | S_logout

definition AppSidebar :: "auth_state \<Rightarrow> sidebar_event node" where
  "AppSidebar a =
     el0 ''aside''
       [el0 ''span'' [Txt ''NTRIP Caster''],
        el0 ''nav'' (map (\<lambda>(to, label). Elem ''NavLink'' [A_str ''to'' to, On ''onClick'' (S_navigate to)] [Txt label]) navItems),
        el0 ''span'' (case au_username a of Some (JStr u) \<Rightarrow> [Txt u] | Some (JNum n) \<Rightarrow> [Txt (num_str n)] | _ \<Rightarrow> []),
        Elem ''Button'' [A_str ''title'' txt_logout, On ''onClick'' S_logout] []]"

definition NotFoundPage :: "effect node" where
  "NotFoundPage =
     el0 ''div''
       [el0 ''h1'' [Txt ''404''], el0 ''p'' [Txt txt_page_not_found],
        Elem ''Button'' [On ''onClick'' (Navigate ''/'')] [Txt txt_back_home]]"

lemma fires_AppSidebar: "fires (AppSidebar a) = S_navigate ` set (map fst navItems) \<union> {S_logout}"
  by (auto simp: AppSidebar_def navItems_def split: option.splits json.splits)

section \<open>Properties\<close>

text \<open>
  C11. Without a login the application shows no administration page and no sidebar, at any
  location and for any matcher that renders branches of the route table; and once the initial
  check has ended, a location of a protected page is replaced by the login page.
\<close>

theorem unauthenticated_sees_no_admin_page:
  assumes "matches_branch m" and "\<not> isAuthenticated a"
  shows "R_sidebar \<notin> set (App m pathname a) \<and> (\<forall>e. R_page e \<in> set (App m pathname a) \<longrightarrow> e \<notin> protected_elements)
    \<and> (\<not> au_loading a \<longrightarrow> (\<exists>es. m App_routes pathname = Some es \<and> set es \<inter> protected_elements \<noteq> {})
         \<longrightarrow> App m pathname a = [R_navigate ''/login''] \<and> App_location m pathname a = ''/login'')"
proof (cases "m App_routes pathname")
  case None
  then show ?thesis by (simp add: App_def)
next
  case (Some es)
  with assms(1) have "es \<in> snd ` set (all_branches App_routes)" by (auto simp: matches_branch_def)
  with Some assms(2) show ?thesis
    by (auto simp: App_branches App_def App_location_def protected_elements_def ProtectedRoute_def AppLayout_def)
qed

theorem unauthenticated_sees_no_admin_page_witness:
  "App literal_matcher ''/users'' (checkAuth (Inl (ApiError ''Unauthorized'' 401)) auth_init) = [R_navigate ''/login'']"
proof -
  let ?a = "checkAuth (Inl (ApiError ''Unauthorized'' 401)) auth_init"
  have a: "\<not> isAuthenticated ?a" "\<not> au_loading ?a" by (simp_all add: checkAuth_def isAuthenticated_def)
  have "literal_matcher App_routes ''/users'' = Some [E_ProtectedRoute, E_AppLayout, E_UsersPage]"
    by (simp add: literal_matcher_def App_branches)
  with unauthenticated_sees_no_admin_page [OF literal_matcher_ok(1) a(1), of "''/users''"] a(2)
  show ?thesis by (simp add: protected_elements_def)
qed

text \<open>
  C27. The client counts as logged in exactly when some answer granted the login (a successful
  session check, or a login answer whose user name is not null) and no later event revoked it (a
  failed check, a completed logout, a null user name). A failed login and a failed logout change
  nothing.
\<close>

theorem authenticated_iff_granted:
  "isAuthenticated (fold auth_step es auth_init) \<longleftrightarrow>
     (\<exists>pre e post. es = pre @ e # post \<and> grants e \<and> \<not> list_ex revokes post)"
  unfolding isAuthenticated_run by (simp add: isAuthenticated_def auth_init_def)

text \<open>
  Every entry of the sidebar leads a logged-in user to an administration page inside the
  layout, and every administration page has an entry.
\<close>

theorem navItems_reach_pages:
  assumes "matches_static m" and "isAuthenticated a" and "\<not> au_loading a"
  shows "map (\<lambda>(to, label). App m to a) navItems =
           map (\<lambda>e. [R_sidebar, R_page e])
             [E_DashboardPage, E_UsersPage, E_MountpointsPage, E_ConnectionsPage, E_MapPage]
         \<and> (\<forall>e \<in> protected_elements. \<exists>(to, label) \<in> set navItems. R_page e \<in> set (App m to a))"
proof -
  have m: "m App_routes p = Some es"
    if "map_of (all_branches App_routes) p = Some es" "CHR ''*'' \<notin> set p" "CHR '':'' \<notin> set p" for p es
    using assms(1) [unfolded matches_static_def, rule_format, of p App_routes] that by simp
  have "m App_routes ''/'' = Some [E_ProtectedRoute, E_AppLayout, E_DashboardPage]"
    "m App_routes ''/users'' = Some [E_ProtectedRoute, E_AppLayout, E_UsersPage]"
    "m App_routes ''/mountpoints'' = Some [E_ProtectedRoute, E_AppLayout, E_MountpointsPage]"
    "m App_routes ''/connections'' = Some [E_ProtectedRoute, E_AppLayout, E_ConnectionsPage]"
    "m App_routes ''/map'' = Some [E_ProtectedRoute, E_AppLayout, E_MapPage]"
    by (intro m; simp add: App_branches)+
  with assms(2,3) show ?thesis
    by (simp add: navItems_def App_def ProtectedRoute_def AppLayout_def protected_elements_def)
qed

theorem navItems_reach_pages_witness:
  "App literal_matcher ''/users'' (checkAuth (Inr JNull) auth_init) = [R_sidebar, R_page E_UsersPage]"
proof -
  let ?a = "checkAuth (Inr JNull) auth_init"
  have a: "isAuthenticated ?a" "\<not> au_loading ?a"
    by (simp_all add: checkAuth_def isAuthenticated_def keep_or_admin_def)
  from navItems_reach_pages [OF literal_matcher_ok(2) a] show ?thesis by (simp add: navItems_def)
qed

text \<open>
  What the login page does with the server's answer. On a success with a user name the
  client is logged in and goes to the start page; a 401 leaves the login state as it is and shows
  the text "Unauthorized", whatever message the server sent; in every case the form can be
  submitted again.
\<close>

theorem login_answer_outcomes:
  "login_answer pn (Response 200 (Inr (JObj [(''status'', JStr ''ok''), (''username'', JStr u)]))) a s
     = (a\<lparr>au_username := Some (JStr u)\<rparr>, s\<lparr>lg_loading := False\<rparr>, [Navigate ''/'']) \<and>
   login_answer pn (Response 401 body) a s
     = (a, s\<lparr>lg_loading := False\<rparr>, [Toast_error ''Unauthorized'']) \<and>
   \<not> lg_loading (fst (snd (login_answer pn res a s)))"
  by (simp add: login_answer_def handle_response_def auth_login_def login_settled_def split_beta Let_def)

end
