(* ===== verification/Rtcm.thy ===== *)
theory Rtcm
  imports Prelude "HOL-Library.Word"
begin

unbundle bit_operations_syntax

text \<open>
  \<open>internal/rtcm\<close>: \<open>framer.go\<close> cuts a byte stream into RTCM3 frames, \<open>msgtype.go\<close>
  reads the message type, \<open>decode1005.go\<close> reads the antenna position. A byte is an 8-bit word.
  The conversion of earth-centred coordinates to latitude and longitude (\<open>ecefToLatLng\<close>,
  floating-point trigonometry) is an argument of the decoder.
\<close>

type_synonym byte = "8 word"

section \<open>The framer\<close>

definition preamble :: byte where "preamble = 0xD3"
definition headerLen :: nat where "headerLen = 3"
definition crcLen :: nat where "crcLen = 3"
definition maxPayload :: nat where "maxPayload = 1023"
definition maxFrame :: nat where "maxFrame = headerLen + maxPayload + crcLen"

lemmas frame_consts = preamble_def headerLen_def crcLen_def maxPayload_def maxFrame_def

text \<open>\<open>int(b1&0x03)<<8 | int(b2)\<close>\<close>

definition payload_len :: "byte \<Rightarrow> byte \<Rightarrow> nat" where
  "payload_len b1 b2 = unat (push_bit 8 (ucast (b1 AND 3) :: 64 word) OR ucast b2)"

definition frame_len :: "byte list \<Rightarrow> nat" where
  "frame_len buf = headerLen + payload_len (buf ! 1) (buf ! 2) + crcLen"

text \<open>The first index of a preamble, \<open>None\<close> for -1.\<close>

fun findPreamble :: "byte list \<Rightarrow> nat option" where
  "findPreamble [] = None"
| "findPreamble (b # bs) = (if b = preamble then Some 0 else map_option Suc (findPreamble bs))"

lemma findPreamble_eq:
  "findPreamble bs = (if preamble \<in> set bs then Some (length (takeWhile (\<lambda>b. b \<noteq> preamble) bs)) else None)"
  by (induction bs) auto

lemma drop_findPreamble: "findPreamble bs = Some i \<Longrightarrow> drop i bs = dropWhile (\<lambda>b. b \<noteq> preamble) bs"
  by (auto simp: findPreamble_eq dropWhile_eq_drop split: if_splits)

text \<open>The loop of \<open>Push\<close>: the packets it appends and the buffer it leaves.\<close>

function drain :: "byte list \<Rightarrow> byte list list \<times> byte list" where
  "drain buf =
     (if length buf < headerLen then ([], buf)
      else if buf ! 0 \<noteq> preamble
      then (case findPreamble buf of None \<Rightarrow> ([], []) | Some idx \<Rightarrow> drain (drop idx buf))
      else if length buf < frame_len buf then ([], buf)
      else (let (ps, r) = drain (drop (frame_len buf) buf) in (take (frame_len buf) buf # ps, r)))"
  by pat_completeness auto

lemma findPreamble_less: "findPreamble bs = Some i \<Longrightarrow> i < length bs"
  by (induction bs arbitrary: i) (auto split: if_splits)

lemma findPreamble_pos: "findPreamble bs = Some i \<Longrightarrow> bs ! 0 \<noteq> preamble \<Longrightarrow> 0 < i \<and> i < length bs"
  by (cases bs) (auto dest: findPreamble_less split: if_splits)

termination drain
  by (relation "measure length")
    (auto simp: frame_len_def headerLen_def dest: findPreamble_pos)

declare drain.simps [simp del]

record framer =
  fr_buf :: "byte list"

definition framer_Push :: "byte list \<Rightarrow> framer \<Rightarrow> framer \<times> byte list list" where
  "framer_Push data f = (let (ps, r) = drain (fr_buf f @ data) in (f\<lparr>fr_buf := r\<rparr>, ps))"

definition framer_Reset :: "framer \<Rightarrow> framer" where
  "framer_Reset f = f\<lparr>fr_buf := []\<rparr>"

text \<open>A run of reads: the packets of each in order.\<close>

primrec push_all :: "byte list list \<Rightarrow> framer \<Rightarrow> framer \<times> byte list list" where
  "push_all [] f = (f, [])"
| "push_all (c # cs) f = (let (g, ps) = framer_Push c f; (h, qs) = push_all cs g in (h, ps @ qs))"

section \<open>What the framer computes\<close>

definition resync :: "byte list \<Rightarrow> byte list" where
  "resync s = dropWhile (\<lambda>b. b \<noteq> preamble) s"

lemma or_shift_nat:
  assumes "m < 2 ^ k"
  shows "push_bit k n OR m = n * 2 ^ k + (m :: nat)"
proof -
  have "\<not> bit m i" if "k \<le> i" for i
    using assms that by (metis bit_take_bit_iff leD take_bit_nat_eq_self)
  then have "push_bit k n AND m = 0"
    by (intro bit_eqI) (auto simp: bit_simps not_le)
  then have "push_bit k n + m = push_bit k n OR m" by (rule disjunctive_add_eq_or)
  then show ?thesis by (simp add: push_bit_eq_mult)
qed

lemma byte_lt: "unat (b :: byte) < 256"
  using unsigned_less [of b] by simp

lemma payload_len_eq: "payload_len b1 b2 = unat b1 mod 4 * 256 + unat b2"
proof -
  have low: "unat (b1 AND 3) = unat b1 mod 4"
  proof -
    have "b1 AND 3 = take_bit 2 b1" by (simp add: take_bit_eq_mask mask_eq_exp_minus_1)
    then show ?thesis by (simp only: unsigned_take_bit_eq) (simp add: take_bit_eq_mod)
  qed
  have up: "unat (ucast b :: 64 word) = unat b" for b :: byte
    by (simp add: unsigned_ucast_eq take_bit_nat_eq_self_iff order.strict_trans [OF byte_lt])
  have sh: "unat (push_bit 8 (ucast (b1 AND 3) :: 64 word)) = push_bit 8 (unat b1 mod 4)"
    unfolding unsigned_push_bit_eq up low by (simp add: take_bit_nat_eq_self_iff push_bit_eq_mult)
  have "payload_len b1 b2 = push_bit 8 (unat b1 mod 4) OR unat b2"
    by (simp add: payload_len_def unsigned_or_eq up sh)
  then show ?thesis using or_shift_nat [of "unat b2" 8 "unat b1 mod 4"] byte_lt [of b2] by simp
qed

lemma payload_len_le: "payload_len b1 b2 \<le> maxPayload"
  using byte_lt [of b2] mod_less_divisor [of 4 "unat b1"] by (simp add: payload_len_eq maxPayload_def)

text \<open>
  The reference: skip to the next preamble, take a frame when it is complete, go on. What is left
  starts with a preamble or is empty.
\<close>

function frames :: "byte list \<Rightarrow> byte list list \<times> byte list" where
  "frames s =
     (let t = resync s in
      if length t < headerLen \<or> length t < frame_len t then ([], t)
      else (let (ps, r) = frames (drop (frame_len t) t) in (take (frame_len t) t # ps, r)))"
  by pat_completeness auto

lemma length_resync: "length (resync s) \<le> length s"
  by (simp add: resync_def length_dropWhile_le)

termination frames
proof (relation "measure length", simp)
  fix s t assume "t = resync s" "\<not> (length t < headerLen \<or> length t < frame_len t)"
  moreover have "length (resync s) \<le> length s" by (rule length_resync)
  moreover have "0 < frame_len t" by (simp add: frame_len_def headerLen_def)
  ultimately show "(drop (frame_len t) t, s) \<in> measure length" by (auto simp: headerLen_def)
qed

declare frames.simps [simp del]

lemma resync_idem [simp]: "resync (resync s) = resync s"
  unfolding resync_def by (induction s) auto

lemma resync_id: "s \<noteq> [] \<Longrightarrow> s ! 0 = preamble \<Longrightarrow> resync s = s"
  by (cases s) (auto simp: resync_def)

lemma resync_append: "resync (a @ b) = (if resync a = [] then resync b else resync a @ b)"
  unfolding resync_def by (induction a) auto

lemma resync_none: "preamble \<notin> set s \<Longrightarrow> resync s = []"
  by (auto simp: resync_def)

lemma resync_Nil [simp]: "resync [] = []"
  by (simp add: resync_def)

lemma frames_resync: "frames (resync s) = frames s"
  by (subst (1 2) frames.simps) simp

lemma frames_short: "length (resync s) < headerLen \<Longrightarrow> frames s = ([], resync s)"
  by (subst frames.simps) (simp add: Let_def)

lemma frames_Nil [simp]: "frames [] = ([], [])"
  by (simp add: frames_short headerLen_def)

text \<open>The loop agrees with the reference, up to bytes before the first preamble of the rest.\<close>

lemma drain_frames: "fst (drain buf) = fst (frames buf) \<and> resync (snd (drain buf)) = snd (frames buf)"
proof (induction buf rule: drain.induct)
  case (1 buf)
  show ?case
  proof (cases "length buf < headerLen")
    case True
    then have "length (resync buf) < headerLen" using length_resync [of buf] by linarith
    with True show ?thesis by (subst (1 2) drain.simps) (simp add: frames_short)
  next
    case long: False
    show ?thesis
    proof (cases "buf ! 0 = preamble")
      case False
      show ?thesis
      proof (cases "findPreamble buf")
        case None
        then have "resync buf = []" by (intro resync_none) (auto simp: findPreamble_eq split: if_splits)
        then have "frames buf = ([], [])" using frames_short [of buf] by (simp add: headerLen_def)
        with None long False show ?thesis by (subst (1 2) drain.simps) simp
      next
        case (Some i)
        with 1(1) [OF long False Some] long False show ?thesis
          by (subst (1 2) drain.simps) (simp add: drop_findPreamble [OF Some, folded resync_def] frames_resync)
      qed
    next
      case True
      with long have t: "resync buf = buf" by (intro resync_id) (auto simp: headerLen_def)
      show ?thesis
      proof (cases "length buf < frame_len buf")
        case True
        with long \<open>buf ! 0 = preamble\<close> t show ?thesis
          by (subst (1 2) drain.simps, subst (1 2) frames.simps) simp
      next
        case False
        with 1(2) [OF long _ False] long True t show ?thesis
          by (subst (1 2) drain.simps, subst (1 2) frames.simps) (simp add: split_beta Let_def)
      qed
    qed
  qed
qed

lemma frames_take:
  assumes "resync s = t" "headerLen \<le> length t" "frame_len t \<le> length t"
  shows "frames s = (take (frame_len t) t # fst (frames (drop (frame_len t) t)), snd (frames (drop (frame_len t) t)))"
  using assms by (subst frames.simps) (simp add: split_beta Let_def)

lemma frame_len_append: "headerLen \<le> length t \<Longrightarrow> frame_len (t @ b) = frame_len t"
  by (simp add: frame_len_def headerLen_def nth_append)

text \<open>Cutting a stream anywhere gives the same frames.\<close>

lemma frames_append:
  "frames (a @ b) = (fst (frames a) @ fst (frames (snd (frames a) @ b)), snd (frames (snd (frames a) @ b)))"
proof (induction a rule: frames.induct)
  case (1 a)
  let ?t = "resync a"
  show ?case
  proof (cases "length ?t < headerLen \<or> length ?t < frame_len ?t")
    case True
    then have "frames a = ([], ?t)" by (subst frames.simps) (simp add: Let_def)
    moreover have "frames (?t @ b) = frames (a @ b)"
      by (metis frames_resync resync_append resync_idem)
    ultimately show ?thesis by simp
  next
    case False
    then have ne: "headerLen \<le> length ?t" "frame_len ?t \<le> length ?t" by auto
    from ne(1) have "?t \<noteq> []" by (auto simp: headerLen_def)
    note ne = this ne
    from ne(1) have ab: "resync (a @ b) = ?t @ b" by (simp add: resync_append)
    let ?r = "drop (frame_len ?t) ?t"
    from ne have fa: "frames a = (take (frame_len ?t) ?t # fst (frames ?r), snd (frames ?r))"
      by (intro frames_take) auto
    from ab ne frame_len_append [OF ne(2), of b]
    have fab: "frames (a @ b) = (take (frame_len ?t) ?t # fst (frames (?r @ b)), snd (frames (?r @ b)))"
      by (subst frames_take [of _ "?t @ b"]) auto
    from 1 [OF refl False] fa fab show ?thesis by simp
  qed
qed

lemma frames_rest: "frames (snd (frames s)) = ([], snd (frames s))"
  using frames_append [of s "[]"] by (metis append_Nil2 append_self_conv fst_conv prod.collapse snd_conv)

lemma frames_none: "fst (frames s) = [] \<Longrightarrow> snd (frames s) = resync s"
  by (subst (asm) frames.simps, subst frames.simps) (auto simp: Let_def split_beta split: if_splits)

lemma frames_resync_append: "frames (resync a @ b) = frames (a @ b)"
  by (metis frames_resync resync_append resync_idem)

text \<open>However the stream is cut into reads, the packets are the frames of the whole stream.\<close>

lemma push_all_frames:
  assumes "fst (frames (fr_buf f)) = []"
  shows "snd (push_all cs f) = fst (frames (fr_buf f @ concat cs))
    \<and> resync (fr_buf (fst (push_all cs f))) = snd (frames (fr_buf f @ concat cs))"
  using assms
proof (induction cs arbitrary: f)
  case Nil
  then show ?case by (simp add: frames_none)
next
  case (Cons c cs)
  let ?b = "fr_buf f @ c" and ?g = "fst (framer_Push c f)"
  have g: "fr_buf ?g = snd (drain ?b)" "snd (framer_Push c f) = fst (drain ?b)"
    by (simp_all add: framer_Push_def split_beta Let_def)
  note d = drain_frames [of ?b]
  have "frames (fr_buf ?g) = frames (snd (frames ?b))"
    using frames_resync [of "snd (drain ?b)"] d by (simp add: g(1))
  then have "fst (frames (fr_buf ?g)) = []" by (simp add: frames_rest)
  from Cons.IH [OF this] have IH: "snd (push_all cs ?g) = fst (frames (fr_buf ?g @ concat cs))"
    "resync (fr_buf (fst (push_all cs ?g))) = snd (frames (fr_buf ?g @ concat cs))" by auto
  have "frames (fr_buf ?g @ concat cs) = frames (snd (frames ?b) @ concat cs)"
    using frames_resync_append [of "snd (drain ?b)" "concat cs"] d by (simp add: g(1))
  with IH g(2) d frames_append [of ?b "concat cs"] show ?case
    by (simp add: split_beta Let_def)
qed

section \<open>Frames\<close>

text \<open>A frame as the header describes it.\<close>

definition wf_frame :: "byte list \<Rightarrow> bool" where
  "wf_frame p \<longleftrightarrow> headerLen \<le> length p \<and> p ! 0 = preamble \<and> length p = frame_len p"

lemma frame_len_bounds: "headerLen < frame_len t" "frame_len t \<le> maxFrame"
  using payload_len_le [of "t ! 1" "t ! 2"] by (simp_all add: frame_len_def maxFrame_def crcLen_def)

lemma frame_len_take: "headerLen \<le> n \<Longrightarrow> headerLen \<le> length t \<Longrightarrow> frame_len (take n t) = frame_len t"
  by (simp add: frame_len_def headerLen_def)

lemma hd_resync: "resync s \<noteq> [] \<Longrightarrow> resync s ! 0 = preamble"
  unfolding resync_def by (metis (full_types) hd_conv_nth hd_dropWhile)

lemma frames_wf: "p \<in> set (fst (frames s)) \<Longrightarrow> wf_frame p"
proof (induction s rule: frames.induct)
  case (1 s)
  let ?t = "resync s"
  show ?case
  proof (cases "length ?t < headerLen \<or> length ?t < frame_len ?t")
    case True
    with 1 show ?thesis by (subst (asm) (2) frames.simps) (simp add: Let_def)
  next
    case False
    then have l: "headerLen \<le> length ?t" "frame_len ?t \<le> length ?t" by auto
    then have "?t \<noteq> []" by (auto simp: headerLen_def)
    then have "wf_frame (take (frame_len ?t) ?t)"
      using l frame_len_bounds(1) [of ?t] hd_resync [of s]
      by (simp add: wf_frame_def frame_len_take min_absorb2 headerLen_def)
    with 1 False frames_take [OF refl l] show ?thesis by auto
  qed
qed

lemma frames_frame:
  assumes "preamble \<notin> set junk" "wf_frame p"
  shows "frames (junk @ p @ s) = (p # fst (frames s), snd (frames s))"
proof -
  have p: "headerLen \<le> length p" "p ! 0 = preamble" "length p = frame_len p"
    using assms(2) by (simp_all add: wf_frame_def)
  have j: "resync junk = []" using assms(1) by (rule resync_none)
  have "resync (p @ s) = p @ s" using p by (intro resync_id) (auto simp: headerLen_def nth_append)
  then have t: "resync (junk @ p @ s) = p @ s" using j by (simp add: resync_append)
  have "frame_len (p @ s) = length p" using frame_len_append [OF p(1)] p(3) by simp
  with t p(1) frames_take [OF t] show ?thesis by simp
qed

lemma frames_stream:
  "\<forall>(junk, p) \<in> set js. preamble \<notin> set junk \<and> wf_frame p \<Longrightarrow>
     frames (concat (map (\<lambda>(junk, p). junk @ p) js)) = (map snd js, [])"
proof (induction js)
  case Nil
  show ?case by (simp add: frames_short headerLen_def)
next
  case (Cons j js)
  then show ?case by (auto simp: frames_frame split: prod.splits)
qed

lemma drain_buffer: "length (snd (drain buf)) < maxFrame"
proof (induction buf rule: drain.induct)
  case (1 buf)
  have m: "headerLen < maxFrame" by (simp add: frame_consts)
  show ?case
    using 1 m frame_len_bounds(2) [of buf]
    by (subst drain.simps) (auto simp: split_beta Let_def split: option.split)
qed

section \<open>Properties of the framer\<close>

text \<open>
  The framer does not depend on how the network cuts the stream: for any sequence of reads
  into a fresh framer the packets, in order, are the frames of the concatenated stream.
\<close>

theorem framer_chunk_invariant:
  assumes "fr_buf f = []" and "concat cs = concat ds"
  shows "snd (push_all cs f) = snd (push_all ds f)"
proof -
  have "fst (frames (fr_buf f)) = []" by (simp add: assms(1) frames_short headerLen_def)
  from push_all_frames [OF this] assms show ?thesis by simp
qed

theorem framer_chunk_invariant_witness:
  "snd (push_all [[0xD3], [0, 1, 7], [1, 2, 3]] \<lparr>fr_buf = []\<rparr>) = snd (push_all [[0xD3, 0, 1, 7, 1, 2, 3]] \<lparr>fr_buf = []\<rparr>)"
  by (rule framer_chunk_invariant) simp_all

text \<open>
  A stream of well-formed frames with bytes other than the preamble between them is cut into
  exactly these frames, however it arrives.
\<close>

theorem framer_recovers_frames:
  assumes "fr_buf f = []" and "\<forall>(junk, p) \<in> set js. preamble \<notin> set junk \<and> wf_frame p"
    and "concat cs = concat (map (\<lambda>(junk, p). junk @ p) js)"
  shows "snd (push_all cs f) = map snd js"
proof -
  have "fst (frames (fr_buf f)) = []" by (simp add: assms(1) frames_short headerLen_def)
  from push_all_frames [OF this, of cs] frames_stream [OF assms(2)] assms(1,3) show ?thesis by simp
qed

lemma sample_frame_wf: "wf_frame [0xD3, 0, 1, 7, 1, 2, 3]"
  by (simp add: wf_frame_def frame_len_def payload_len_eq frame_consts)

theorem framer_recovers_frames_witness:
  "snd (push_all [[9, 0xD3, 0], [1, 7, 1, 2, 3]] \<lparr>fr_buf = []\<rparr>) = [[0xD3, 0, 1, 7, 1, 2, 3]]"
proof -
  have "snd (push_all [[9, 0xD3, 0], [1, 7, 1, 2, 3]] \<lparr>fr_buf = []\<rparr>) = map snd [([9 :: byte], [0xD3, 0, 1, 7, 1, 2, 3])]"
    by (rule framer_recovers_frames) (simp_all add: sample_frame_wf preamble_def)
  then show ?thesis by simp
qed

text \<open>
  After every read the framer holds less than one maximal frame, and every packet it returns
  is a well-formed frame of at most that size, for any input.
\<close>

theorem framer_bounded:
  "length (fr_buf (fst (framer_Push data f))) < maxFrame
   \<and> (\<forall>p \<in> set (snd (framer_Push data f)). wf_frame p \<and> length p \<le> maxFrame)"
proof -
  have "snd (framer_Push data f) = fst (frames (fr_buf f @ data))"
    using drain_frames [of "fr_buf f @ data"] by (simp add: framer_Push_def split_beta Let_def)
  then have "\<forall>p \<in> set (snd (framer_Push data f)). wf_frame p" by (auto dest: frames_wf)
  then have "\<forall>p \<in> set (snd (framer_Push data f)). wf_frame p \<and> length p \<le> maxFrame"
    using frame_len_bounds(2) by (auto simp: wf_frame_def)
  then show ?thesis using drain_buffer [of "fr_buf f @ data"] by (simp add: framer_Push_def split_beta Let_def)
qed

theorem framer_bounded_witness:
  "wf_frame [0xD3, 0, 1, 7, 1, 2, 3]
   \<and> length (fr_buf (fst (framer_Push [0xD3, 0, 1, 7, 1, 2, 3] \<lparr>fr_buf = []\<rparr>))) < maxFrame"
  using framer_bounded [of "[0xD3, 0, 1, 7, 1, 2, 3]" "\<lparr>fr_buf = []\<rparr>"] sample_frame_wf by blast

end
