(* ===== verification/Antenna.thy ===== *)
theory Antenna
  imports Rtcm
begin

text \<open>
  \<open>internal/rtcm/msgtype.go\<close> and \<open>decode1005.go\<close>: the message type of a frame, the bit
  reader and the decoder of message 1005. The reader keeps an offset and the first error. The
  step from the three raw coordinates to a position is floating-point arithmetic and an argument
  of the decoder. A slice expression out of range panics in Go; that is a result of its own.
\<close>

section \<open>Message type\<close>

definition ExtractMsgType :: "byte list \<Rightarrow> 16 word" where
  "ExtractMsgType data =
     (if length data < 5 then 0
      else push_bit 4 (ucast (data ! 3)) OR drop_bit 4 (ucast (data ! 4)))"

section \<open>The bit reader\<close>

record bit_reader =
  br_data :: "byte list"
  br_offset :: nat
  br_err :: "nat option"

definition br_skip :: "nat \<Rightarrow> bit_reader \<Rightarrow> bit_reader" where
  "br_skip n br = br\<lparr>br_offset := br_offset br + n\<rparr>"

fun readUint_loop :: "nat \<Rightarrow> 64 word \<Rightarrow> bit_reader \<Rightarrow> 64 word \<times> bit_reader" where
  "readUint_loop 0 result br = (result, br)"
| "readUint_loop (Suc n) result br =
     (let byteIndex = br_offset br div 8; bitIndex = 7 - br_offset br mod 8 in
      if length (br_data br) \<le> byteIndex then (0, br\<lparr>br_err := Some (br_offset br)\<rparr>)
      else (let b = drop_bit bitIndex (br_data br ! byteIndex) AND 1
            in readUint_loop n (push_bit 1 result OR ucast b) (br\<lparr>br_offset := br_offset br + 1\<rparr>)))"

definition readUint :: "nat \<Rightarrow> bit_reader \<Rightarrow> 64 word \<times> bit_reader" where
  "readUint n br = (if br_err br \<noteq> None then (0, br) else readUint_loop n 0 br)"

definition readSigned38 :: "bit_reader \<Rightarrow> int \<times> bit_reader" where
  "readSigned38 br =
     (let (u, br') = readUint 38 br in
      if br_err br' \<noteq> None then (0, br')
      else if u \<ge> push_bit 37 1 then (sint u - 2 ^ 38, br')
      else (sint u, br'))"

section \<open>Decoding message 1005\<close>

datatype decode_error = Frame_too_short nat | Not_1005 nat | Payload_too_short nat | Bit_error nat | Conversion string

datatype 'p decoded = Position 'p | Failed decode_error | Panicked

text \<open>The fields up to the z coordinate; the reader after the last one.\<close>

definition read_ecef :: "byte list \<Rightarrow> (int \<times> int \<times> int) \<times> bit_reader" where
  "read_ecef payload =
     (let br = \<lparr>br_data = payload, br_offset = 0, br_err = None\<rparr>;
          br = br_skip 4 (br_skip 6 (br_skip 12 (br_skip 12 br)));
          (x, br) = readSigned38 br; br = br_skip 2 br;
          (y, br) = readSigned38 br; br = br_skip 2 br;
          (z, br) = readSigned38 br
      in ((x, y, z), br))"

definition Decode1005 :: "(int \<Rightarrow> int \<Rightarrow> int \<Rightarrow> string + 'p) \<Rightarrow> byte list \<Rightarrow> 'p decoded" where
  "Decode1005 convert data =
     (if length data < 22 then Failed (Frame_too_short (length data))
      else if ExtractMsgType data \<noteq> 1005 then Failed (Not_1005 (unat (ExtractMsgType data)))
      else let payloadLen = payload_len (data ! 1) (data ! 2) in
        if payloadLen < 19 then Failed (Payload_too_short payloadLen)
        else if length data < 3 + payloadLen then Panicked
        else let ((x, y, z), br) = read_ecef (take payloadLen (drop 3 data)) in
          (case br_err br of
             Some off \<Rightarrow> Failed (Bit_error off)
           | None \<Rightarrow> (case convert x y z of Inl e \<Rightarrow> Failed (Conversion e) | Inr p \<Rightarrow> Position p)))"

section \<open>Bit fields\<close>

text \<open>The bits of a byte string, most significant bit of each byte first, and fields of them.\<close>

definition stream_bit :: "byte list \<Rightarrow> nat \<Rightarrow> bool" where
  "stream_bit data i \<longleftrightarrow> bit (data ! (i div 8)) (7 - i mod 8)"

fun field :: "byte list \<Rightarrow> nat \<Rightarrow> nat \<Rightarrow> nat" where
  "field data off 0 = 0"
| "field data off (Suc n) = of_bool (stream_bit data off) * 2 ^ n + field data (Suc off) n"

definition signed_field :: "byte list \<Rightarrow> nat \<Rightarrow> nat \<Rightarrow> int" where
  "signed_field data off n =
     (let u = int (field data off n) in if u \<ge> 2 ^ (n - 1) then u - 2 ^ n else u)"

lemma field_numeral:
  "field data off (numeral n) =
     of_bool (stream_bit data off) * 2 ^ pred_numeral n + field data (Suc off) (pred_numeral n)"
  by (simp add: numeral_eq_Suc)

lemma field_less: "field data off n < 2 ^ n"
proof (induction n arbitrary: off)
  case (Suc n)
  show ?case using Suc [of "Suc off"] by (cases "stream_bit data off") simp_all
qed simp

lemma signed_field_range:
  "0 < n \<Longrightarrow> - (2 ^ (n - 1)) \<le> signed_field data off n \<and> signed_field data off n < 2 ^ (n - 1)"
proof -
  assume "0 < n"
  then have "(2 :: int) ^ n = 2 * 2 ^ (n - 1)" by (cases n) simp_all
  moreover have "int (field data off n) < 2 ^ n" using field_less [of data off n] by (simp add: of_nat_less_iff flip: of_nat_power)
  ultimately show ?thesis by (auto simp: signed_field_def Let_def)
qed

lemma push_bit_or_bit:
  fixes r :: "64 word"
  shows "push_bit 1 r OR of_bool b = 2 * r + of_bool b"
proof -
  have "push_bit 1 r AND of_bool b = 0"
    by (rule bit_word_eqI) (auto simp: bit_simps bit_0)
  then have "push_bit 1 r + of_bool b = push_bit 1 r OR of_bool b" by (rule disjunctive_add_eq_or)
  then show ?thesis by (simp add: push_bit_eq_mult mult.commute)
qed

lemma ucast_drop_bit: "ucast (drop_bit k (b :: byte) AND 1) = (of_bool (bit b k) :: 64 word)"
  by (cases "bit b k") (simp_all add: bit_iff_and_drop_bit_eq_1 and_one_eq bit_iff_odd_drop_bit mod_2_eq_odd)

lemma readUint_loop_field:
  assumes "br_offset br + n \<le> 8 * length (br_data br)"
  shows "readUint_loop n (of_nat a) br =
     (of_nat (a * 2 ^ n + field (br_data br) (br_offset br) n), br\<lparr>br_offset := br_offset br + n\<rparr>)"
  using assms
proof (induction n arbitrary: a br)
  case 0
  then show ?case by simp
next
  case (Suc n)
  let ?b = "stream_bit (br_data br) (br_offset br)"
  from Suc.prems have i: "\<not> length (br_data br) \<le> br_offset br div 8" by simp
  have "push_bit 1 (of_nat a) OR ucast (drop_bit (7 - br_offset br mod 8) (br_data br ! (br_offset br div 8)) AND 1)
      = (of_nat (2 * a + of_bool ?b) :: 64 word)"
    unfolding ucast_drop_bit push_bit_or_bit by (simp add: stream_bit_def)
  then have "readUint_loop (Suc n) (of_nat a) br =
      readUint_loop n (of_nat (2 * a + of_bool ?b)) (br\<lparr>br_offset := br_offset br + 1\<rparr>)"
    using i by (simp add: Let_def)
  also have "\<dots> = (of_nat ((2 * a + of_bool ?b) * 2 ^ n + field (br_data br) (Suc (br_offset br)) n),
      br\<lparr>br_offset := br_offset br + 1 + n\<rparr>)"
    using Suc.IH [of "br\<lparr>br_offset := br_offset br + 1\<rparr>" "2 * a + of_bool ?b"] Suc.prems by simp
  finally show ?case by (simp add: algebra_simps)
qed

lemma readSigned38_field:
  assumes "br_err br = None" "br_offset br + 38 \<le> 8 * length (br_data br)"
  shows "readSigned38 br = (signed_field (br_data br) (br_offset br) 38, br\<lparr>br_offset := br_offset br + 38\<rparr>)"
proof -
  let ?f = "field (br_data br) (br_offset br) 38"
  have f: "?f < 2 ^ 38" by (rule field_less)
  have u: "readUint 38 br = (of_nat ?f, br\<lparr>br_offset := br_offset br + 38\<rparr>)"
    using readUint_loop_field [OF assms(2), of 0] assms(1) by (simp add: readUint_def)
  have un: "unat (of_nat ?f :: 64 word) = ?f"
    using f by (simp add: unat_of_nat)
  have si: "sint (of_nat ?f :: 64 word) = int ?f"
    using f un by (simp add: sint_uint uint_nat signed_take_bit_int_eq_self)
  have ge: "(137438953472 :: 64 word) \<le> of_nat ?f \<longleftrightarrow> 137438953472 \<le> ?f"
    by (simp add: word_le_nat_alt un)
  show ?thesis using assms(1) by (simp add: readSigned38_def u si ge signed_field_def Let_def)
qed

lemma read_ecef_fields:
  assumes "19 \<le> length payload"
  shows "read_ecef payload =
     ((signed_field payload 34 38, signed_field payload 74 38, signed_field payload 114 38),
      \<lparr>br_data = payload, br_offset = 152, br_err = None\<rparr>)"
  using assms by (simp add: read_ecef_def br_skip_def readSigned38_field Let_def)

lemma ExtractMsgType_field:
  assumes "5 \<le> length data"
  shows "unat (ExtractMsgType data) = unat (data ! 3) * 16 + unat (data ! 4) div 16"
proof -
  have up: "unat (ucast b :: 16 word) = unat b" for b :: byte
    by (simp add: unsigned_ucast_eq take_bit_nat_eq_self_iff order.strict_trans [OF byte_lt])
  have hi: "unat (push_bit 4 (ucast (data ! 3) :: 16 word)) = push_bit 4 (unat (data ! 3))"
    unfolding unsigned_push_bit_eq up using byte_lt [of "data ! 3"]
    by (simp add: take_bit_nat_eq_self_iff push_bit_eq_mult)
  have lo: "unat (drop_bit 4 (ucast (data ! 4) :: 16 word)) = unat (data ! 4) div 16"
  proof -
    have "take_bit 16 (unat (data ! 4)) = unat (data ! 4)"
      using byte_lt [of "data ! 4"] by (intro take_bit_nat_eq_self) simp
    then show ?thesis unfolding unsigned_drop_bit_eq up by (simp add: drop_bit_eq_div)
  qed
  have "unat (data ! 4) div 16 < 2 ^ 4"
    using byte_lt [of "data ! 4"] by (simp add: div_less_iff_less_mult)
  from or_shift_nat [OF this, of "unat (data ! 3)"] assms show ?thesis
    by (simp add: ExtractMsgType_def unsigned_or_eq hi lo)
qed

section \<open>Properties of the decoder\<close>

text \<open>
  On a frame that the framer produced the decoder of message 1005 never panics and never runs
  out of bits: it rejects other messages and short payloads, and otherwise passes on the three
  38-bit signed coordinates at bits 34, 74 and 114 of the payload, each in the range of its width.
\<close>

theorem Decode1005_on_frames:
  assumes "wf_frame p" and "5 \<le> length p"
  shows "Decode1005 convert p =
    (let n = length p - 6; payload = take n (drop 3 p);
         t = unat (p ! 3) * 16 + unat (p ! 4) div 16 in
     if n < 16 then Failed (Frame_too_short (length p))
     else if t \<noteq> 1005 then Failed (Not_1005 t)
     else if n < 19 then Failed (Payload_too_short n)
     else case convert (signed_field payload 34 38) (signed_field payload 74 38) (signed_field payload 114 38) of
            Inl e \<Rightarrow> Failed (Conversion e) | Inr q \<Rightarrow> Position q)"
proof -
  from assms(1) have len: "length p = payload_len (p ! 1) (p ! 2) + 6"
    by (simp add: wf_frame_def frame_len_def headerLen_def crcLen_def)
  have t: "ExtractMsgType p = 1005 \<longleftrightarrow> unat (ExtractMsgType p) = 1005"
    by (simp add: word_unat_eq_iff)
  show ?thesis
    using ExtractMsgType_field [OF assms(2)] t len
    by (auto simp: Decode1005_def Let_def read_ecef_fields split_beta)
qed

text \<open>A frame with the coordinates 1, -1 and 2.\<close>

definition sample_1005 :: "byte list" where
  "sample_1005 =
     [0xD3, 0x00, 0x13, 0x3E, 0xD0, 0x00, 0x00, 0x00, 0x00, 0x00, 0x00, 0x01, 0x3F, 0xFF, 0xFF,
      0xFF, 0xFF, 0x00, 0x00, 0x00, 0x00, 0x02, 0x00, 0x00, 0x00]"

theorem Decode1005_on_frames_witness:
  "Decode1005 (\<lambda>x y z. Inr (x, y, z)) sample_1005 = Position (1, - 1, 2)"
proof -
  have "wf_frame sample_1005"
    by (simp add: wf_frame_def frame_len_def payload_len_eq frame_consts sample_1005_def)
  from Decode1005_on_frames [OF this, of "\<lambda>x y z. Inr (x, y, z)"]
  have "Decode1005 (\<lambda>x y z. Inr (x, y, z)) sample_1005 =
      Position (signed_field (take 19 (drop 3 sample_1005)) 34 38, signed_field (take 19 (drop 3 sample_1005)) 74 38,
        signed_field (take 19 (drop 3 sample_1005)) 114 38)"
    by (simp add: sample_1005_def Let_def)
  also have "\<dots> = Position (1, - 1, 2)"
    by (simp add: sample_1005_def signed_field_def field_numeral stream_bit_def)
  finally show ?thesis .
qed

end
