(* ===== verification/Account.thy ===== *)
theory Account
  imports Api_Types "HOL-Library.Char_ord" "HOL-Library.List_Lexorder" "HOL-Library.Product_Lexorder"
begin

text \<open>
  \<open>internal/account/service.go\<close> over the schema of \<open>internal/database/database.go\<close>. A table
  is the list of its rows with the sequence number of its \<open>AUTOINCREMENT\<close> key; an SQL statement
  is what it does to these lists. SQLite's \<open>LIKE\<close> and the bcrypt functions are arguments:
  \<open>like pattern text\<close>, \<open>hash password\<close> (\<open>None\<close> when bcrypt refuses the password) and
  \<open>verify stored password\<close>. The statements fail on a violated \<open>UNIQUE\<close> or \<open>REFERENCES\<close>
  constraint; \<open>Svc_Faults\<close> adds the failures of the database file itself.
\<close>

section \<open>Rows and store\<close>

record db_user = user +
  du_password_hash :: string

record antenna_position =
  ap_latitude :: rat
  ap_longitude :: rat
  ap_height :: rat
  ap_updated_at :: int

record db_mount = mountpoint_row +
  dm_secret_hash :: "string option"
  dm_antenna :: "antenna_position option"

record db_binding =
  db_id :: int
  db_user_id :: int
  db_mountpoint_id :: int

record store =
  st_users :: "db_user list"
  st_users_seq :: int
  st_mounts :: "db_mount list"
  st_mounts_seq :: int
  st_bindings :: "db_binding list"
  st_bindings_seq :: int
  st_authCache :: "string \<rightharpoonup> db_user \<times> int"

definition NewService :: store where
  "NewService =
     \<lparr>st_users = [], st_users_seq = 0, st_mounts = [], st_mounts_seq = 0, st_bindings = [],
      st_bindings_seq = 0, st_authCache = Map.empty\<rparr>"

datatype svc_error = Hash_password | Insert_user | Hash_secret | Insert_mountpoint | Add_binding

type_synonym 'a svc = "svc_error + 'a"

abbreviation RoleAdmin :: string where "RoleAdmin \<equiv> ''admin''"

section \<open>Users\<close>

definition CreateUser ::
  "(string \<Rightarrow> string option) \<Rightarrow> string \<Rightarrow> string \<Rightarrow> string \<Rightarrow> store \<Rightarrow> (user \<times> store) svc" where
  "CreateUser hash username password role s =
     (case hash password of
        None \<Rightarrow> Inl Hash_password
      | Some h \<Rightarrow>
          if username \<in> set (map u_username (st_users s)) then Inl Insert_user
          else let i = st_users_seq s + 1 in
            Inr (\<lparr>u_id = i, u_username = username, u_role = role, u_enabled = True\<rparr>,
                 s\<lparr>st_users := st_users s @ [\<lparr>u_id = i, u_username = username, u_role = role,
                                              u_enabled = True, du_password_hash = h\<rparr>],
                   st_users_seq := i\<rparr>))"

definition GetUserByName :: "string \<Rightarrow> store \<Rightarrow> db_user option" where
  "GetUserByName username s = find (\<lambda>u. u_username u = username) (st_users s)"

definition GetUser :: "int \<Rightarrow> store \<Rightarrow> db_user option" where
  "GetUser i s = find (\<lambda>u. u_id u = i) (st_users s)"

text \<open>
  \<open>Authenticate\<close> up to and including the password check, and the insertion of a success into
  the cache; the lock is not held between the two. Times are in seconds.
\<close>

definition authCacheTTL :: int where
  "authCacheTTL = 300"

definition cache_key :: "string \<Rightarrow> string \<Rightarrow> string" where
  "cache_key username password = username @ '':'' @ password"

definition auth_check :: "(string \<Rightarrow> string \<Rightarrow> bool) \<Rightarrow> string \<Rightarrow> string \<Rightarrow> store \<Rightarrow> db_user option" where
  "auth_check verify username password s =
     (case GetUserByName username s of
        None \<Rightarrow> None
      | Some u \<Rightarrow> if \<not> u_enabled u then None
                  else if \<not> verify (du_password_hash u) password then None
                  else Some u)"

definition auth_store :: "int \<Rightarrow> string \<Rightarrow> string \<Rightarrow> db_user \<Rightarrow> store \<Rightarrow> store" where
  "auth_store now username password u s =
     s\<lparr>st_authCache := (st_authCache s)(cache_key username password \<mapsto> (u, now + authCacheTTL))\<rparr>"

definition auth_cached :: "int \<Rightarrow> string \<Rightarrow> string \<Rightarrow> store \<Rightarrow> db_user option" where
  "auth_cached now username password s =
     (case st_authCache s (cache_key username password) of
        None \<Rightarrow> None
      | Some (u, expiresAt) \<Rightarrow> if now < expiresAt then Some u else None)"

definition Authenticate ::
  "(string \<Rightarrow> string \<Rightarrow> bool) \<Rightarrow> int \<Rightarrow> string \<Rightarrow> string \<Rightarrow> store \<Rightarrow> db_user option \<times> store" where
  "Authenticate verify now username password s =
     (case auth_cached now username password s of
        Some u \<Rightarrow> (Some u, s)
      | None \<Rightarrow> (case auth_check verify username password s of
            None \<Rightarrow> (None, s)
          | Some u \<Rightarrow> (Some u, auth_store now username password u s)))"

definition ListUsers :: "store \<Rightarrow> db_user list" where
  "ListUsers s = sort_key u_id (st_users s)"

text \<open>A Go \<open>int\<close> is 64 bits wide; SQLite takes a negative offset as 0 and a negative limit as none.\<close>

definition wrap64 :: "int \<Rightarrow> int" where
  "wrap64 i = (i + 2 ^ 63) mod 2 ^ 64 - 2 ^ 63"

definition sql_limit_offset :: "int \<Rightarrow> int \<Rightarrow> 'a list \<Rightarrow> 'a list" where
  "sql_limit_offset limit offset rows =
     (let rest = drop (nat offset) rows in if limit < 0 then rest else take (nat limit) rest)"

definition paginate :: "('a \<Rightarrow> int) \<Rightarrow> ('a \<Rightarrow> bool) \<Rightarrow> int \<Rightarrow> int \<Rightarrow> 'a list \<Rightarrow> 'a list \<times> int" where
  "paginate key sel page limit rows =
     (sql_limit_offset limit (wrap64 ((page - 1) * limit)) (sort_key key (filter sel rows)),
      int (length (filter sel rows)))"

definition users_where :: "(string \<Rightarrow> string \<Rightarrow> bool) \<Rightarrow> string \<Rightarrow> string \<Rightarrow> bool option \<Rightarrow> db_user \<Rightarrow> bool" where
  "users_where like search role enabled u \<longleftrightarrow>
     (search \<noteq> [] \<longrightarrow> like (''%'' @ search @ ''%'') (u_username u))
     \<and> (role \<noteq> [] \<longrightarrow> u_role u = role)
     \<and> (case enabled of None \<Rightarrow> True | Some b \<Rightarrow> u_enabled u = b)"

definition ListUsersPaginated ::
  "(string \<Rightarrow> string \<Rightarrow> bool) \<Rightarrow> int \<Rightarrow> int \<Rightarrow> string \<Rightarrow> string \<Rightarrow> bool option \<Rightarrow> store \<Rightarrow> db_user list \<times> int" where
  "ListUsersPaginated like page limit search role enabled s =
     paginate u_id (users_where like search role enabled) page limit (st_users s)"

definition clear_cache :: "store \<Rightarrow> store" where
  "clear_cache s = s\<lparr>st_authCache := Map.empty\<rparr>"

definition UpdateUser :: "int \<Rightarrow> string \<Rightarrow> bool \<Rightarrow> store \<Rightarrow> store" where
  "UpdateUser i role enabled s =
     clear_cache (s\<lparr>st_users := map (\<lambda>u. if u_id u = i then u\<lparr>u_role := role, u_enabled := enabled\<rparr> else u) (st_users s)\<rparr>)"

definition UpdatePassword :: "(string \<Rightarrow> string option) \<Rightarrow> int \<Rightarrow> string \<Rightarrow> store \<Rightarrow> store svc" where
  "UpdatePassword hash i password s =
     (case hash password of
        None \<Rightarrow> Inl Hash_password
      | Some h \<Rightarrow> Inr (clear_cache (s\<lparr>st_users :=
            map (\<lambda>u. if u_id u = i then u\<lparr>du_password_hash := h\<rparr> else u) (st_users s)\<rparr>)))"

text \<open>Deleting a user cascades to its bindings.\<close>

definition DeleteUser :: "int \<Rightarrow> store \<Rightarrow> store" where
  "DeleteUser i s =
     clear_cache (s\<lparr>st_users := filter (\<lambda>u. u_id u \<noteq> i) (st_users s),
                    st_bindings := filter (\<lambda>b. db_user_id b \<noteq> i) (st_bindings s)\<rparr>)"

definition EnsureAdmin :: "(string \<Rightarrow> string option) \<Rightarrow> string \<Rightarrow> string \<Rightarrow> store \<Rightarrow> store svc" where
  "EnsureAdmin hash username password s =
     (if \<exists>u \<in> set (st_users s). u_role u = RoleAdmin then Inr s
      else map_sum id snd (CreateUser hash username password RoleAdmin s))"

section \<open>Mountpoints\<close>

definition CreateMountPointRow :: "string \<Rightarrow> string \<Rightarrow> string \<Rightarrow> store \<Rightarrow> (mountpoint_row \<times> store) svc" where
  "CreateMountPointRow name description format s =
     (if name \<in> set (map m_name (st_mounts s)) then Inl Insert_mountpoint
      else let i = st_mounts_seq s + 1;
               row = \<lparr>m_id = i, m_name = name, m_description = description, m_enabled = True, m_format = format,
                      m_source_auth_mode = ''user_binding'', m_write_queue = None, m_write_timeout_ms = None,
                      m_max_clients = 0\<rparr>
           in Inr (row, s\<lparr>st_mounts := st_mounts s @ [mountpoint_row.extend row \<lparr>dm_secret_hash = None, dm_antenna = None\<rparr>],
                          st_mounts_seq := i\<rparr>))"

definition GetMountPointRow :: "string \<Rightarrow> store \<Rightarrow> db_mount option" where
  "GetMountPointRow name s = find (\<lambda>m. m_name m = name) (st_mounts s)"

definition GetMountPointRowByID :: "int \<Rightarrow> store \<Rightarrow> db_mount option" where
  "GetMountPointRowByID i s = find (\<lambda>m. m_id m = i) (st_mounts s)"

definition set_mount :: "int \<Rightarrow> (db_mount \<Rightarrow> db_mount) \<Rightarrow> store \<Rightarrow> store" where
  "set_mount i f s = s\<lparr>st_mounts := map (\<lambda>m. if m_id m = i then f m else m) (st_mounts s)\<rparr>"

definition VerifyMountPointSourceSecret :: "(string \<Rightarrow> string \<Rightarrow> bool) \<Rightarrow> string \<Rightarrow> string \<Rightarrow> store \<Rightarrow> bool" where
  "VerifyMountPointSourceSecret verify name secret s =
     (if name = [] \<or> secret = [] then False
      else case GetMountPointRow name s of
             None \<Rightarrow> False
           | Some m \<Rightarrow> (case dm_secret_hash m of None \<Rightarrow> False
                        | Some h \<Rightarrow> if h = [] then False else verify h secret))"

definition SetMountPointSourceSecret :: "(string \<Rightarrow> string option) \<Rightarrow> int \<Rightarrow> string \<Rightarrow> store \<Rightarrow> store svc" where
  "SetMountPointSourceSecret hash i secret s =
     (if secret = [] then Inr (set_mount i (\<lambda>m. m\<lparr>dm_secret_hash := None\<rparr>) s)
      else case hash secret of
             None \<Rightarrow> Inl Hash_secret
           | Some h \<Rightarrow> Inr (set_mount i (\<lambda>m. m\<lparr>dm_secret_hash := Some h\<rparr>) s))"

definition UpdateMountPointRow :: "int \<Rightarrow> string \<Rightarrow> string \<Rightarrow> bool \<Rightarrow> store \<Rightarrow> store" where
  "UpdateMountPointRow i description format enabled =
     set_mount i (\<lambda>m. m\<lparr>m_description := description, m_format := format, m_enabled := enabled\<rparr>)"

definition SetMountPointMaxClients :: "int \<Rightarrow> int \<Rightarrow> store \<Rightarrow> store" where
  "SetMountPointMaxClients i n = set_mount i (\<lambda>m. m\<lparr>m_max_clients := n\<rparr>)"

definition DeleteMountPointRow :: "int \<Rightarrow> store \<Rightarrow> store" where
  "DeleteMountPointRow i s =
     s\<lparr>st_mounts := filter (\<lambda>m. m_id m \<noteq> i) (st_mounts s),
       st_bindings := filter (\<lambda>b. db_mountpoint_id b \<noteq> i) (st_bindings s)\<rparr>"

definition ListMountPointRows :: "store \<Rightarrow> db_mount list" where
  "ListMountPointRows s = sort_key m_id (st_mounts s)"

definition mounts_where :: "(string \<Rightarrow> string \<Rightarrow> bool) \<Rightarrow> string \<Rightarrow> string \<Rightarrow> bool option \<Rightarrow> db_mount \<Rightarrow> bool" where
  "mounts_where like search format enabled m \<longleftrightarrow>
     (search \<noteq> [] \<longrightarrow> like (''%'' @ search @ ''%'') (m_name m))
     \<and> (format \<noteq> [] \<longrightarrow> m_format m = format)
     \<and> (case enabled of None \<Rightarrow> True | Some b \<Rightarrow> m_enabled m = b)"

definition ListMountPointRowsPaginated ::
  "(string \<Rightarrow> string \<Rightarrow> bool) \<Rightarrow> int \<Rightarrow> int \<Rightarrow> string \<Rightarrow> string \<Rightarrow> bool option \<Rightarrow> store \<Rightarrow> db_mount list \<times> int" where
  "ListMountPointRowsPaginated like page limit search format enabled s =
     paginate m_id (mounts_where like search format enabled) page limit (st_mounts s)"

definition UpdateMountPointAntennaPosition :: "string \<Rightarrow> antenna_position option \<Rightarrow> store \<Rightarrow> store" where
  "UpdateMountPointAntennaPosition name pos s =
     (case pos of None \<Rightarrow> s
      | Some p \<Rightarrow> s\<lparr>st_mounts := map (\<lambda>m. if m_name m = name then m\<lparr>dm_antenna := Some p\<rparr> else m) (st_mounts s)\<rparr>)"

definition GetMountPointAntennaPosition :: "string \<Rightarrow> store \<Rightarrow> antenna_position option" where
  "GetMountPointAntennaPosition name s = Option.bind (GetMountPointRow name s) dm_antenna"

section \<open>Bindings\<close>

text \<open>\<open>INSERT OR IGNORE\<close> keeps an existing pair; the foreign keys must exist.\<close>

definition AddBinding :: "int \<Rightarrow> int \<Rightarrow> store \<Rightarrow> store svc" where
  "AddBinding userID mountpointID s =
     (if \<exists>b \<in> set (st_bindings s). db_user_id b = userID \<and> db_mountpoint_id b = mountpointID then Inr s
      else if GetUser userID s = None \<or> GetMountPointRowByID mountpointID s = None then Inl Add_binding
      else let i = st_bindings_seq s + 1 in
        Inr (s\<lparr>st_bindings := st_bindings s @ [\<lparr>db_id = i, db_user_id = userID, db_mountpoint_id = mountpointID\<rparr>],
               st_bindings_seq := i\<rparr>))"

definition join_binding :: "store \<Rightarrow> db_binding \<Rightarrow> binding list" where
  "join_binding s b =
     (case (GetUser (db_user_id b) s, GetMountPointRowByID (db_mountpoint_id b) s) of
        (Some u, Some m) \<Rightarrow> [\<lparr>b_id = db_id b, b_user_id = db_user_id b, b_mountpoint_id = db_mountpoint_id b,
                              b_username = Some (u_username u), b_mountpoint_name = Some (m_name m)\<rparr>]
      | _ \<Rightarrow> [])"

text \<open>Texts are ordered bytewise, SQLite's default collation.\<close>

definition ListBindings :: "store \<Rightarrow> binding list" where
  "ListBindings s =
     sort_key (\<lambda>b. (nullish (b_username b) [], nullish (b_mountpoint_name b) []))
       (concat (map (join_binding s) (st_bindings s)))"

definition ListBindingsByUser :: "int \<Rightarrow> store \<Rightarrow> binding list" where
  "ListBindingsByUser userID s =
     sort_key (\<lambda>b. nullish (b_mountpoint_name b) [])
       (concat (map (join_binding s) (filter (\<lambda>b. db_user_id b = userID) (st_bindings s))))"

definition HasBinding :: "int \<Rightarrow> string \<Rightarrow> store \<Rightarrow> bool" where
  "HasBinding userID name s \<longleftrightarrow>
     (\<exists>b \<in> set (st_bindings s). \<exists>m \<in> set (st_mounts s).
        db_mountpoint_id b = m_id m \<and> db_user_id b = userID \<and> m_name m = name)"

definition RemoveBinding :: "int \<Rightarrow> store \<Rightarrow> store" where
  "RemoveBinding i s = s\<lparr>st_bindings := filter (\<lambda>b. db_id b \<noteq> i) (st_bindings s)\<rparr>"

lemmas svc_defs = CreateUser_def UpdateUser_def UpdatePassword_def DeleteUser_def CreateMountPointRow_def
  set_mount_def SetMountPointSourceSecret_def UpdateMountPointRow_def SetMountPointMaxClients_def
  DeleteMountPointRow_def UpdateMountPointAntennaPosition_def AddBinding_def RemoveBinding_def clear_cache_def

section \<open>The operations as steps\<close>

datatype svc_op =
    Op_CreateUser string string string
  | Op_Authenticate int string string
  | Op_UpdateUser int string bool
  | Op_UpdatePassword int string
  | Op_DeleteUser int
  | Op_CreateMount string string string
  | Op_SetSecret int string
  | Op_UpdateMount int string string bool
  | Op_SetMaxClients int int
  | Op_DeleteMount int
  | Op_Antenna string "antenna_position option"
  | Op_AddBinding int int
  | Op_RemoveBinding int

text \<open>A failed operation leaves the store as it is.\<close>

definition or_same :: "store svc \<Rightarrow> store \<Rightarrow> store" where
  "or_same r s = (case r of Inl e \<Rightarrow> s | Inr t \<Rightarrow> t)"

fun svc_step :: "(string \<Rightarrow> string option) \<Rightarrow> (string \<Rightarrow> string \<Rightarrow> bool) \<Rightarrow> svc_op \<Rightarrow> store \<Rightarrow> store" where
  "svc_step hash verify (Op_CreateUser n p r) s = or_same (map_sum id snd (CreateUser hash n p r s)) s"
| "svc_step hash verify (Op_Authenticate now n p) s = snd (Authenticate verify now n p s)"
| "svc_step hash verify (Op_UpdateUser i r b) s = UpdateUser i r b s"
| "svc_step hash verify (Op_UpdatePassword i p) s = or_same (UpdatePassword hash i p s) s"
| "svc_step hash verify (Op_DeleteUser i) s = DeleteUser i s"
| "svc_step hash verify (Op_CreateMount n d f) s = or_same (map_sum id snd (CreateMountPointRow n d f s)) s"
| "svc_step hash verify (Op_SetSecret i p) s = or_same (SetMountPointSourceSecret hash i p s) s"
| "svc_step hash verify (Op_UpdateMount i d f b) s = UpdateMountPointRow i d f b s"
| "svc_step hash verify (Op_SetMaxClients i n) s = SetMountPointMaxClients i n s"
| "svc_step hash verify (Op_DeleteMount i) s = DeleteMountPointRow i s"
| "svc_step hash verify (Op_Antenna n p) s = UpdateMountPointAntennaPosition n p s"
| "svc_step hash verify (Op_AddBinding u m) s = or_same (AddBinding u m s) s"
| "svc_step hash verify (Op_RemoveBinding i) s = RemoveBinding i s"

section \<open>The invariant of the tables\<close>

definition users_ok :: "store \<Rightarrow> bool" where
  "users_ok s \<longleftrightarrow> distinct (map u_id (st_users s)) \<and> distinct (map u_username (st_users s))
     \<and> (\<forall>i \<in> set (map u_id (st_users s)). 0 < i \<and> i \<le> st_users_seq s) \<and> 0 \<le> st_users_seq s"

definition mounts_ok :: "store \<Rightarrow> bool" where
  "mounts_ok s \<longleftrightarrow> distinct (map m_id (st_mounts s)) \<and> distinct (map m_name (st_mounts s))
     \<and> (\<forall>i \<in> set (map m_id (st_mounts s)). 0 < i \<and> i \<le> st_mounts_seq s) \<and> 0 \<le> st_mounts_seq s"

definition bindings_ok :: "store \<Rightarrow> bool" where
  "bindings_ok s \<longleftrightarrow> distinct (map db_id (st_bindings s))
     \<and> distinct (map (\<lambda>b. (db_user_id b, db_mountpoint_id b)) (st_bindings s))
     \<and> (\<forall>b \<in> set (st_bindings s). db_id b \<le> st_bindings_seq s \<and> db_user_id b \<in> set (map u_id (st_users s))
          \<and> db_mountpoint_id b \<in> set (map m_id (st_mounts s)))"

definition store_ok :: "store \<Rightarrow> bool" where
  "store_ok s \<longleftrightarrow> users_ok s \<and> mounts_ok s \<and> bindings_ok s"

lemmas store_ok_defs = store_ok_def users_ok_def mounts_ok_def bindings_ok_def

lemma find_None_ids: "find (\<lambda>u. k u = i) xs = None \<longleftrightarrow> i \<notin> set (map k xs)"
  by (auto simp: find_None_iff)

lemma map_update_keep:
  assumes "\<And>u. k (f u) = k u"
  shows "map k (map (\<lambda>u. if P u then f u else u) xs) = map k xs"
  using assms by (induction xs) auto

lemma find_update:
  assumes "\<And>v. k (f v) = k v"
  shows "find (\<lambda>v. k v = n) (map (\<lambda>v. if P v then f v else v) xs) =
     map_option (\<lambda>v. if P v then f v else v) (find (\<lambda>v. k v = n) xs)"
  using assms by (induction xs) auto

text \<open>The invariant depends on the keys and names of the tables only.\<close>

lemma store_ok_cong:
  assumes "map u_id (st_users t) = map u_id (st_users s)" "map u_username (st_users t) = map u_username (st_users s)"
    "map m_id (st_mounts t) = map m_id (st_mounts s)" "map m_name (st_mounts t) = map m_name (st_mounts s)"
    "st_users_seq t = st_users_seq s" "st_mounts_seq t = st_mounts_seq s"
    "st_bindings t = st_bindings s" "st_bindings_seq t = st_bindings_seq s"
  shows "store_ok t = store_ok s"
  unfolding store_ok_defs assms ..

lemma set_mount_ok:
  "(\<And>m. m_id (f m) = m_id m) \<Longrightarrow> (\<And>m. m_name (f m) = m_name m) \<Longrightarrow> store_ok (set_mount i f s) = store_ok s"
  by (rule store_ok_cong) (simp_all add: set_mount_def map_update_keep del: map_map)

lemma CreateUser_ok:
  assumes "store_ok s" and "CreateUser hash n p r s = Inr (u, t)"
  shows "store_ok t"
proof -
  from assms(2) obtain h where n: "n \<notin> set (map u_username (st_users s))"
    and t: "t = s\<lparr>st_users := st_users s @ [\<lparr>u_id = st_users_seq s + 1, u_username = n, u_role = r,
                    u_enabled = True, du_password_hash = h\<rparr>], st_users_seq := st_users_seq s + 1\<rparr>"
    by (auto simp: CreateUser_def Let_def split: option.splits if_splits)
  from assms(1) n show ?thesis unfolding t store_ok_defs by fastforce
qed

lemma CreateMountPointRow_ok:
  assumes "store_ok s" and "CreateMountPointRow n d f s = Inr (m, t)"
  shows "store_ok t"
proof -
  define x where "x = \<lparr>m_id = st_mounts_seq s + 1, m_name = n, m_description = d, m_enabled = True, m_format = f,
    m_source_auth_mode = ''user_binding'', m_write_queue = None, m_write_timeout_ms = None, m_max_clients = 0,
    dm_secret_hash = None, dm_antenna = None\<rparr>"
  from assms(2) have n: "n \<notin> set (map m_name (st_mounts s))"
    and t: "t = s\<lparr>st_mounts := st_mounts s @ [x], st_mounts_seq := st_mounts_seq s + 1\<rparr>"
    by (auto simp: CreateMountPointRow_def Let_def mountpoint_row.defs x_def split: if_splits)
  have "m_id x = st_mounts_seq s + 1" "m_name x = n" by (simp_all add: x_def)
  with assms(1) n show ?thesis unfolding t store_ok_defs by fastforce
qed

lemma AddBinding_ok:
  assumes "store_ok s" and "AddBinding u m s = Inr t"
  shows "store_ok t"
proof (cases "\<exists>b \<in> set (st_bindings s). db_user_id b = u \<and> db_mountpoint_id b = m")
  case True
  with assms show ?thesis by (simp add: AddBinding_def)
next
  case False
  with assms(2) have k: "u \<in> set (map u_id (st_users s))" "m \<in> set (map m_id (st_mounts s))"
    and t: "t = s\<lparr>st_bindings := st_bindings s @ [\<lparr>db_id = st_bindings_seq s + 1, db_user_id = u, db_mountpoint_id = m\<rparr>],
                  st_bindings_seq := st_bindings_seq s + 1\<rparr>"
    by (auto simp: AddBinding_def Let_def GetUser_def GetMountPointRowByID_def find_None_ids split: if_splits)
  from assms(1) False k show ?thesis unfolding t store_ok_defs by fastforce
qed

lemma filter_keys: "distinct (map k xs) \<Longrightarrow> distinct (map k (filter P xs))"
  by (rule distinct_map_filter)

lemma delete_ok:
  assumes "store_ok s"
  shows "store_ok (DeleteUser i s)" and "store_ok (DeleteMountPointRow i s)" and "store_ok (RemoveBinding i s)"
  using assms
  by (auto simp: DeleteUser_def DeleteMountPointRow_def RemoveBinding_def clear_cache_def store_ok_defs
      distinct_map_filter)

lemma update_ok:
  "store_ok (UpdateUser i r b s) = store_ok s"
  "UpdatePassword hash i p s = Inr t \<Longrightarrow> store_ok t = store_ok s"
  "store_ok (UpdateMountPointAntennaPosition n q s) = store_ok s"
  "store_ok (snd (Authenticate verify now n p s)) = store_ok s"
proof -
  show "store_ok (UpdateUser i r b s) = store_ok s"
    by (rule store_ok_cong) (simp_all add: UpdateUser_def clear_cache_def map_update_keep del: map_map)
  show "store_ok t = store_ok s" if "UpdatePassword hash i p s = Inr t"
    using that by (intro store_ok_cong)
      (auto simp: UpdatePassword_def clear_cache_def map_update_keep simp del: map_map split: option.splits)
  show "store_ok (UpdateMountPointAntennaPosition n q s) = store_ok s"
    by (rule store_ok_cong)
      (simp_all add: UpdateMountPointAntennaPosition_def map_update_keep del: map_map split: option.split)
  show "store_ok (snd (Authenticate verify now n p s)) = store_ok s"
    by (rule store_ok_cong) (simp_all add: Authenticate_def auth_store_def split: option.split)
qed

lemma secret_ok: "SetMountPointSourceSecret hash i p s = Inr t \<Longrightarrow> store_ok t = store_ok s"
  by (auto simp: SetMountPointSourceSecret_def set_mount_ok split: if_splits option.splits)

lemma or_same_ok: "store_ok s \<Longrightarrow> (\<And>t. r = Inr t \<Longrightarrow> store_ok t) \<Longrightarrow> store_ok (or_same r s)"
  by (cases r) (simp_all add: or_same_def)

lemma store_ok_step: "store_ok s \<Longrightarrow> store_ok (svc_step hash verify op s)"
  by (cases op)
    (auto intro!: or_same_ok simp: update_ok secret_ok delete_ok UpdateMountPointRow_def
      SetMountPointMaxClients_def set_mount_ok map_sum_def
      intro: CreateUser_ok CreateMountPointRow_ok AddBinding_ok split: sum.splits)

interpretation svc_run: kept "svc_step hash verify" store_ok for hash verify
  by unfold_locales (rule store_ok_step)

section \<open>The cache of logins\<close>

text \<open>Every entry is what a fresh check of some user name and password would give now.\<close>

definition cache_ok :: "(string \<Rightarrow> string \<Rightarrow> bool) \<Rightarrow> store \<Rightarrow> bool" where
  "cache_ok verify s \<longleftrightarrow>
     (\<forall>k u e. st_authCache s k = Some (u, e) \<longrightarrow>
        (\<exists>n p. k = cache_key n p \<and> auth_check verify n p s = Some u))"

definition plain_name :: "string \<Rightarrow> bool" where
  "plain_name n \<longleftrightarrow> CHR '':'' \<notin> set n"

definition plain_users :: "store \<Rightarrow> bool" where
  "plain_users s \<longleftrightarrow> (\<forall>n \<in> set (map u_username (st_users s)). plain_name n)"

lemma cache_key_inject:
  "plain_name n \<Longrightarrow> plain_name n' \<Longrightarrow> cache_key n p = cache_key n' p' \<longleftrightarrow> n = n' \<and> p = p'"
proof (induction n arbitrary: n')
  case Nil
  then show ?case by (cases n') (auto simp: cache_key_def plain_name_def)
next
  case (Cons c n)
  then show ?case by (cases n') (auto simp: cache_key_def plain_name_def)
qed

lemma auth_check_name: "auth_check verify n p s = Some u \<Longrightarrow> n \<in> set (map u_username (st_users s))"
  using find_None_ids [of u_username n "st_users s"]
  by (cases "GetUserByName n s") (auto simp: auth_check_def GetUserByName_def)

lemma auth_check_cong: "st_users t = st_users s \<Longrightarrow> auth_check verify n p t = auth_check verify n p s"
  by (simp add: auth_check_def GetUserByName_def)

lemma find_append: "find P (xs @ ys) = (case find P xs of None \<Rightarrow> find P ys | Some x \<Rightarrow> Some x)"
  by (induction xs) auto

lemma auth_check_append:
  "st_users t = st_users s @ [v] \<Longrightarrow> auth_check verify n p s = Some u \<Longrightarrow> auth_check verify n p t = Some u"
  by (auto simp: auth_check_def GetUserByName_def find_append split: option.splits)

lemma cache_ok_empty: "st_authCache s = Map.empty \<Longrightarrow> cache_ok verify s"
  by (simp add: cache_ok_def)

lemma cache_ok_cong: "st_users t = st_users s \<Longrightarrow> st_authCache t = st_authCache s \<Longrightarrow> cache_ok verify t = cache_ok verify s"
  using auth_check_cong [of t s] by (simp add: cache_ok_def)

lemma CreateUser_cache_ok:
  assumes "cache_ok verify s" and "CreateUser hash n p r s = Inr (u, t)"
  shows "cache_ok verify t"
proof -
  from assms(2) obtain v where "st_users t = st_users s @ [v]" "st_authCache t = st_authCache s"
    by (auto simp: CreateUser_def Let_def split: option.splits if_splits)
  with assms(1) auth_check_append [of t s v] show ?thesis unfolding cache_ok_def by metis
qed

lemma Authenticate_cache_ok:
  assumes "cache_ok verify s"
  shows "cache_ok verify (snd (Authenticate verify now n p s))"
proof (cases "auth_cached now n p s = None \<and> (\<exists>u. auth_check verify n p s = Some u)")
  case True
  then obtain u where u: "auth_cached now n p s = None" "auth_check verify n p s = Some u" by blast
  let ?t = "auth_store now n p u s"
  have c: "auth_check verify n' p' ?t = auth_check verify n' p' s" for n' p'
    by (rule auth_check_cong) (simp add: auth_store_def)
  have "cache_ok verify ?t"
    unfolding cache_ok_def c
  proof (intro allI impI)
    fix k v e assume "st_authCache ?t k = Some (v, e)"
    then consider "k = cache_key n p" "v = u" | "st_authCache s k = Some (v, e)"
      by (auto simp: auth_store_def split: if_splits)
    then show "\<exists>n p. k = cache_key n p \<and> auth_check verify n p s = Some v"
      using assms u(2) unfolding cache_ok_def by cases blast+
  qed
  with u show ?thesis by (simp add: Authenticate_def)
next
  case False
  then have "snd (Authenticate verify now n p s) = s"
    by (auto simp: Authenticate_def split: option.splits)
  with assms show ?thesis by simp
qed

text \<open>The operations on users; all others leave users and cache alone.\<close>

fun user_op :: "svc_op \<Rightarrow> bool" where
  "user_op (Op_CreateUser n p r) = True"
| "user_op (Op_Authenticate now n p) = True"
| "user_op (Op_UpdateUser i r b) = True"
| "user_op (Op_UpdatePassword i p) = True"
| "user_op (Op_DeleteUser i) = True"
| "user_op _ = False"

lemma svc_step_other:
  "\<not> user_op op \<Longrightarrow> st_users (svc_step hash verify op s) = st_users s
     \<and> st_authCache (svc_step hash verify op s) = st_authCache s"
  by (cases op) (auto simp: svc_defs or_same_def map_sum_def Let_def split: sum.splits option.splits if_splits)

lemma cache_ok_step: "cache_ok verify s \<Longrightarrow> cache_ok verify (svc_step hash verify op s)"
proof (cases "user_op op")
  case False
  assume "cache_ok verify s"
  with svc_step_other [OF False, of hash verify s] cache_ok_cong [of "svc_step hash verify op s" s verify]
  show ?thesis by simp
next
  case True
  assume "cache_ok verify s"
  with True show ?thesis
    by (cases op)
      (auto simp: or_same_def map_sum_def UpdateUser_def UpdatePassword_def DeleteUser_def clear_cache_def
        cache_ok_empty Authenticate_cache_ok intro: CreateUser_cache_ok split: sum.splits option.splits)
qed

text \<open>The stores that the service can reach when user names have no colon.\<close>

inductive svc_reach :: "(string \<Rightarrow> string option) \<Rightarrow> (string \<Rightarrow> string \<Rightarrow> bool) \<Rightarrow> store \<Rightarrow> bool"
  for hash verify where
  init: "svc_reach hash verify NewService"
| step: "svc_reach hash verify s \<Longrightarrow> (\<And>n p r. op = Op_CreateUser n p r \<Longrightarrow> plain_name n)
         \<Longrightarrow> svc_reach hash verify (svc_step hash verify op s)"

lemma plain_users_cong: "map u_username (st_users t) = map u_username (st_users s) \<Longrightarrow> plain_users t = plain_users s"
  by (simp only: plain_users_def)

lemma plain_users_step:
  assumes "plain_users s" and "\<And>n p r. op = Op_CreateUser n p r \<Longrightarrow> plain_name n"
  shows "plain_users (svc_step hash verify op s)"
proof (cases "user_op op")
  case False
  with svc_step_other [OF False, of hash verify s] assms(1) show ?thesis by (simp add: plain_users_def)
next
  case True
  with assms show ?thesis
    by (cases op)
      (auto simp: plain_users_def or_same_def map_sum_def CreateUser_def UpdateUser_def UpdatePassword_def
        DeleteUser_def clear_cache_def Authenticate_def auth_store_def Let_def split: sum.splits option.splits if_splits)
qed

lemma svc_reach_ok: "svc_reach hash verify s \<Longrightarrow> store_ok s \<and> cache_ok verify s \<and> plain_users s"
proof (induction rule: svc_reach.induct)
  case init
  show ?case by (simp add: NewService_def store_ok_defs cache_ok_def plain_users_def)
next
  case (step s op)
  then show ?case by (simp add: store_ok_step cache_ok_step plain_users_step)
qed

section \<open>Pages\<close>

lemma concat_pages: "concat (map (\<lambda>i. take l (drop (i * l) xs)) [0..<n]) = take (n * l) xs"
proof (induction n)
  case (Suc n)
  have "take (n * l) xs @ take l (drop (n * l) xs) = take (n * l + l) xs" by (simp add: take_add)
  with Suc show ?case by (simp add: add.commute)
qed simp

lemma wrap64_id: "0 \<le> i \<Longrightarrow> i < 2 ^ 63 \<Longrightarrow> wrap64 i = i"
  by (simp add: wrap64_def)

lemma paginate_rows:
  assumes "0 < limit" and "int k * limit < 2 ^ 63"
  shows "fst (paginate key sel (int k + 1) limit rows) =
     take (nat limit) (drop (k * nat limit) (sort_key key (filter sel rows)))"
proof -
  have "nat (int k * limit) = k * nat limit" by (simp add: nat_mult_distrib)
  with assms show ?thesis by (simp add: paginate_def sql_limit_offset_def wrap64_id Let_def)
qed

section \<open>Properties\<close>

text \<open>
  Every sequence of service operations keeps the tables consistent: keys and names are unique,
  keys are positive and at most the sequence number, and every binding joins an existing user and
  an existing mountpoint, once.
\<close>

theorem service_keeps_tables:
  assumes "svc_reach hash verify s"
  shows "distinct (map u_id (st_users s)) \<and> distinct (map u_username (st_users s))
    \<and> distinct (map m_id (st_mounts s)) \<and> distinct (map m_name (st_mounts s))
    \<and> distinct (map (\<lambda>b. (db_user_id b, db_mountpoint_id b)) (st_bindings s))
    \<and> (\<forall>b \<in> set (st_bindings s). db_user_id b \<in> set (map u_id (st_users s))
          \<and> db_mountpoint_id b \<in> set (map m_id (st_mounts s)))"
proof -
  from svc_reach_ok [OF assms] have "store_ok s" by simp
  then show ?thesis by (simp add: store_ok_defs)
qed


definition sample_hash :: "string \<Rightarrow> string option" where
  "sample_hash p = Some (''h'' @ p)"

definition sample_verify :: "string \<Rightarrow> string \<Rightarrow> bool" where
  "sample_verify h p \<longleftrightarrow> h = ''h'' @ p"

definition sample_store :: store where
  "sample_store = svc_step sample_hash sample_verify (Op_CreateUser ''ann'' ''pw'' ''rover'') NewService"

lemma sample_store_reach: "svc_reach sample_hash sample_verify sample_store"
  unfolding sample_store_def by (rule svc_reach.step [OF svc_reach.init]) (simp add: plain_name_def)

theorem service_keeps_tables_witness: "distinct (map u_id (st_users sample_store))"
  using service_keeps_tables [OF sample_store_reach] by blast


text \<open>
  C36. The check and the insertion into the cache are two steps without a lock. When the user is
  disabled between them, the cache keeps the enabled user: the next logins with that password
  succeed for up to five minutes although the stored user is disabled.
\<close>

theorem authenticate_race:
  assumes "auth_check verify n p s = Some u" and "later < now + authCacheTTL"
    and "s' = auth_store now n p u (UpdateUser (u_id u) (u_role u) False s)"
  shows "fst (Authenticate verify later n p s') = Some u \<and> auth_check verify n p s' = None"
proof -
  have c: "st_authCache s' (cache_key n p) = Some (u, now + authCacheTTL)"
    by (simp add: assms(3) auth_store_def)
  from assms(1) have g: "GetUserByName n s = Some u"
    by (cases "GetUserByName n s") (auto simp: auth_check_def split: if_splits)
  from g have "GetUserByName n s' = Some (u\<lparr>u_role := u_role u, u_enabled := False\<rparr>)"
    by (simp add: assms(3) GetUserByName_def auth_store_def UpdateUser_def clear_cache_def find_update)
  with c assms(2) show ?thesis by (simp add: Authenticate_def auth_cached_def auth_check_def)
qed

theorem authenticate_race_witness:
  "\<exists>u. fst (Authenticate sample_verify 10 ''ann'' ''pw''
     (auth_store 0 ''ann'' ''pw'' u (UpdateUser (u_id u) (u_role u) False sample_store))) = Some u"
proof -
  let ?u = "\<lparr>u_id = 1, u_username = ''ann'', u_role = ''rover'', u_enabled = True, du_password_hash = ''hpw''\<rparr>"
  have "auth_check sample_verify ''ann'' ''pw'' sample_store = Some ?u"
    by (simp add: auth_check_def GetUserByName_def sample_store_def CreateUser_def sample_hash_def NewService_def
        or_same_def sample_verify_def)
  from authenticate_race [OF this _ refl, of 10 0] show ?thesis
    by (intro exI [of _ ?u]) (simp add: authCacheTTL_def)
qed

text \<open>
  A password change takes effect: after \<open>UpdatePassword\<close> the user logs in with the new
  password and not with another one, whatever the cache held before. bcrypt is relied on to accept
  exactly the password that was hashed.
\<close>

theorem password_change_effective:
  assumes "\<And>q h r. hash q = Some h \<Longrightarrow> verify h r \<longleftrightarrow> r = q"
    and "GetUserByName n s = Some u" and "u_enabled u" and "UpdatePassword hash (u_id u) q s = Inr t"
  shows "(fst (Authenticate verify now n r t) \<noteq> None) \<longleftrightarrow> r = q"
proof -
  from assms(4) obtain h where h: "hash q = Some h"
    and t: "t = clear_cache (s\<lparr>st_users := map (\<lambda>v. if u_id v = u_id u then v\<lparr>du_password_hash := h\<rparr> else v) (st_users s)\<rparr>)"
    by (auto simp: UpdatePassword_def split: option.splits)
  from assms(2) have "GetUserByName n t = Some (u\<lparr>du_password_hash := h\<rparr>)"
    by (simp add: t GetUserByName_def clear_cache_def find_update)
  with assms(3) assms(1) [OF h] have "auth_check verify n r t \<noteq> None \<longleftrightarrow> r = q"
    by (simp add: auth_check_def)
  moreover have "auth_cached now n r t = None" by (simp add: t auth_cached_def clear_cache_def)
  ultimately show ?thesis by (auto simp: Authenticate_def split: option.split)
qed

theorem password_change_effective_witness:
  "\<exists>t. UpdatePassword sample_hash 1 ''new'' sample_store = Inr t
     \<and> fst (Authenticate sample_verify 0 ''ann'' ''new'' t) \<noteq> None"
proof -
  let ?u = "\<lparr>u_id = 1, u_username = ''ann'', u_role = ''rover'', u_enabled = True, du_password_hash = ''hpw''\<rparr>"
  have u: "GetUserByName ''ann'' sample_store = Some ?u"
    by (simp add: GetUserByName_def sample_store_def CreateUser_def sample_hash_def NewService_def or_same_def)
  obtain t where t: "UpdatePassword sample_hash (u_id ?u) ''new'' sample_store = Inr t"
    by (simp add: UpdatePassword_def sample_hash_def)
  have "\<And>q h r. sample_hash q = Some h \<Longrightarrow> sample_verify h r \<longleftrightarrow> r = q"
    by (auto simp: sample_hash_def sample_verify_def)
  from password_change_effective [OF this u _ t, where now = 0 and r = "''new''"] t show ?thesis by auto
qed

end
