(* ===== verification/Mount_Runtime.thy ===== *)
theory Mount_Runtime
  imports Account Rtcm
begin

text \<open>
  The mountpoints at run time: \<open>internal/client/client.go\<close>,
  \<open>internal/mountpoint/mountpoint.go\<close> and \<open>manager.go\<close>, with the counters of
  \<open>internal/metrics/stats.go\<close>. Each function under a lock is one step. A client object is
  known by its connection id, which the caster makes unique; the heap maps ids to objects, the
  registry and the broadcast snapshot hold ids. Logging is left out.
\<close>

section \<open>Clients\<close>

record rover =
  rv_UserID :: int
  rv_queue :: "byte list list"
  rv_queueSize :: nat
  rv_done :: bool
  rv_slow :: bool
  rv_BytesOut :: int
  rv_ConnectedAt :: int

definition KickSlowConsumer :: "rover \<Rightarrow> rover" where
  "KickSlowConsumer c = c\<lparr>rv_done := True\<rparr>"

definition MarkSlowAndKick :: "rover \<Rightarrow> rover" where
  "MarkSlowAndKick c = (if rv_slow c then c else KickSlowConsumer (c\<lparr>rv_slow := True\<rparr>))"

section \<open>A mountpoint\<close>

record source_conn =
  so_ID :: string
  so_UserID :: int
  so_BytesIn :: int
  so_StartTime :: int

record mount_stats =
  sn_ClientCount :: int
  sn_SourceOnline :: bool
  sn_BytesIn :: int
  sn_BytesOut :: int
  sn_SlowClients :: int
  sn_KickCount :: int

record mount_point =
  mp_Name :: string
  mp_Description :: string
  mp_Format :: string
  mp_enabled :: bool
  mp_WriteQueue :: int
  mp_WriteTimeout :: int
  mp_MaxClients :: int
  mp_source :: "source_conn option"
  mp_clients :: "string list"
  mp_snapshot :: "string list"
  mp_heap :: "string \<Rightarrow> rover"
  mp_Stats :: mount_stats
  mp_antennaPos :: "antenna_position option"
  mp_antennaPosLastUpdate :: int

definition NewMountPoint :: "(string \<Rightarrow> rover) \<Rightarrow> string \<Rightarrow> string \<Rightarrow> string \<Rightarrow> int \<Rightarrow> int \<Rightarrow> int \<Rightarrow> mount_point" where
  "NewMountPoint heap name description format wq wt maxClients =
     \<lparr>mp_Name = name, mp_Description = description, mp_Format = format, mp_enabled = True, mp_WriteQueue = wq,
      mp_WriteTimeout = wt, mp_MaxClients = maxClients, mp_source = None, mp_clients = [], mp_snapshot = [],
      mp_heap = heap,
      mp_Stats = \<lparr>sn_ClientCount = 0, sn_SourceOnline = False, sn_BytesIn = 0, sn_BytesOut = 0, sn_SlowClients = 0,
                  sn_KickCount = 0\<rparr>,
      mp_antennaPos = None, mp_antennaPosLastUpdate = 0\<rparr>"

text \<open>Closing a set of clients; the kicked objects stay in the heap.\<close>

definition kick_all :: "string list \<Rightarrow> mount_point \<Rightarrow> mount_point" where
  "kick_all ids m = m\<lparr>mp_heap := (\<lambda>i. if i \<in> set ids then KickSlowConsumer (mp_heap m i) else mp_heap m i)\<rparr>"

definition rebuildSnapshotLocked :: "mount_point \<Rightarrow> mount_point" where
  "rebuildSnapshotLocked m = m\<lparr>mp_snapshot := mp_clients m\<rparr>"

definition count_clients :: "mount_point \<Rightarrow> mount_point" where
  "count_clients m = m\<lparr>mp_Stats := (mp_Stats m)\<lparr>sn_ClientCount := int (length (mp_clients m))\<rparr>\<rparr>"

definition set_online :: "bool \<Rightarrow> mount_point \<Rightarrow> mount_point" where
  "set_online b m = m\<lparr>mp_Stats := (mp_Stats m)\<lparr>sn_SourceOnline := b\<rparr>\<rparr>"

definition SetSource :: "source_conn \<Rightarrow> mount_point \<Rightarrow> mount_point \<times> bool" where
  "SetSource info m =
     (if mp_source m \<noteq> None then (m, False) else (set_online True (m\<lparr>mp_source := Some info\<rparr>), True))"

definition ClearSource :: "string \<Rightarrow> mount_point \<Rightarrow> mount_point" where
  "ClearSource srcID m =
     (case mp_source m of
        None \<Rightarrow> m
      | Some src \<Rightarrow> if so_ID src \<noteq> srcID then m
                    else kick_all (mp_clients m) (set_online False (m\<lparr>mp_source := None\<rparr>)))"

definition SourceID :: "mount_point \<Rightarrow> string" where
  "SourceID m = (case mp_source m of None \<Rightarrow> [] | Some src \<Rightarrow> so_ID src)"

definition AddClient :: "string \<Rightarrow> rover \<Rightarrow> mount_point \<Rightarrow> mount_point option" where
  "AddClient cid c m =
     (if 0 < mp_MaxClients m \<and> mp_MaxClients m \<le> int (length (mp_clients m)) then None
      else Some (count_clients (rebuildSnapshotLocked
        (m\<lparr>mp_clients := (if cid \<in> set (mp_clients m) then mp_clients m else mp_clients m @ [cid]),
           mp_heap := (mp_heap m)(cid := c)\<rparr>))))"

definition unregister :: "string list \<Rightarrow> mount_point \<Rightarrow> mount_point" where
  "unregister ids m =
     count_clients (rebuildSnapshotLocked (m\<lparr>mp_clients := filter (\<lambda>i. i \<notin> set ids) (mp_clients m)\<rparr>))"

definition RemoveClient :: "string \<Rightarrow> mount_point \<Rightarrow> mount_point" where
  "RemoveClient cid m = (if cid \<notin> set (mp_clients m) then m else unregister [cid] m)"

definition KickClient :: "string \<Rightarrow> mount_point \<Rightarrow> mount_point" where
  "KickClient cid m = (if cid \<notin> set (mp_clients m) then m else kick_all [cid] (unregister [cid] m))"

definition clients_of_user :: "int \<Rightarrow> mount_point \<Rightarrow> string list" where
  "clients_of_user userID m = filter (\<lambda>i. rv_UserID (mp_heap m i) = userID) (mp_clients m)"

definition KickClientsByUser :: "int \<Rightarrow> mount_point \<Rightarrow> mount_point" where
  "KickClientsByUser userID m =
     (let toKick = clients_of_user userID m in
      if toKick = [] then m else kick_all toKick (unregister toKick m))"

definition KickSourceByUser :: "int \<Rightarrow> mount_point \<Rightarrow> mount_point" where
  "KickSourceByUser userID m =
     (case mp_source m of
        None \<Rightarrow> m
      | Some src \<Rightarrow> if so_UserID src \<noteq> userID then m
                    else kick_all (mp_clients m) (unregister (mp_clients m) (set_online False (m\<lparr>mp_source := None\<rparr>))))"

definition mp_DisconnectAll :: "mount_point \<Rightarrow> mount_point" where
  "mp_DisconnectAll m = kick_all (mp_clients m) (set_online False (m\<lparr>mp_source := None\<rparr>))"

text \<open>
  One iteration of the broadcast loop: a closed client is skipped, a full queue kicks the client
  and counts it.
\<close>

definition broadcast_one :: "byte list \<Rightarrow> string \<Rightarrow> mount_point \<Rightarrow> mount_point" where
  "broadcast_one pkt cid m =
     (let c = mp_heap m cid in
      if rv_done c then m
      else if length (rv_queue c) < rv_queueSize c
      then m\<lparr>mp_heap := (mp_heap m)(cid := c\<lparr>rv_queue := rv_queue c @ [pkt]\<rparr>)\<rparr>
      else m\<lparr>mp_heap := (mp_heap m)(cid := MarkSlowAndKick c),
             mp_Stats := (mp_Stats m)\<lparr>sn_SlowClients := sn_SlowClients (mp_Stats m) + 1,
                                      sn_KickCount := sn_KickCount (mp_Stats m) + 1\<rparr>\<rparr>)"

definition Broadcast :: "byte list \<Rightarrow> mount_point \<Rightarrow> mount_point" where
  "Broadcast pkt m = fold (broadcast_one pkt) (mp_snapshot m) m"

text \<open>\<open>UpdateAntennaPosition\<close> with its five-second debounce; \<open>now\<close> in nanoseconds.\<close>

definition UpdateAntennaPosition :: "int \<Rightarrow> antenna_position option \<Rightarrow> mount_point \<Rightarrow> mount_point" where
  "UpdateAntennaPosition now pos m =
     (if 0 < mp_antennaPosLastUpdate m \<and> now - mp_antennaPosLastUpdate m < 5000000000 then m
      else m\<lparr>mp_antennaPos := pos, mp_antennaPosLastUpdate := now\<rparr>)"

lemmas mount_op_defs = SetSource_def ClearSource_def AddClient_def RemoveClient_def KickClient_def
  KickClientsByUser_def KickSourceByUser_def mp_DisconnectAll_def UpdateAntennaPosition_def
  kick_all_def unregister_def rebuildSnapshotLocked_def count_clients_def set_online_def

section \<open>The manager\<close>

type_synonym manager = "string \<rightharpoonup> mount_point"

definition mgr_Create ::
  "(string \<Rightarrow> rover) \<Rightarrow> string \<Rightarrow> string \<Rightarrow> string \<Rightarrow> int \<Rightarrow> int \<Rightarrow> int \<Rightarrow> manager \<Rightarrow> manager option" where
  "mgr_Create heap name description format wq wt maxClients g =
     (if g name \<noteq> None then None
      else Some (g(name \<mapsto> NewMountPoint heap name description format wq wt maxClients)))"

text \<open>\<open>Delete\<close> also closes the connections of the removed mountpoint.\<close>

definition mgr_Delete :: "string \<Rightarrow> manager \<Rightarrow> (manager \<times> mount_point) option" where
  "mgr_Delete name g =
     (case g name of None \<Rightarrow> None | Some mp \<Rightarrow> Some (g(name := None), mp_DisconnectAll mp))"

definition mgr_UpdateMountPoint ::
  "string \<Rightarrow> string \<Rightarrow> string \<Rightarrow> bool \<Rightarrow> int \<Rightarrow> int \<Rightarrow> int \<Rightarrow> manager \<Rightarrow> manager option" where
  "mgr_UpdateMountPoint name description format enabled wq wt maxClients g =
     (case g name of
        None \<Rightarrow> None
      | Some mp \<Rightarrow>
          let mp' = mp\<lparr>mp_Description := description, mp_Format := format, mp_enabled := enabled,
                       mp_WriteQueue := wq, mp_WriteTimeout := wt, mp_MaxClients := maxClients\<rparr>
          in Some (g(name \<mapsto> if mp_enabled mp \<and> \<not> enabled then mp_DisconnectAll mp' else mp')))"

definition mgr_DisconnectUser :: "int \<Rightarrow> manager \<Rightarrow> manager" where
  "mgr_DisconnectUser userID g = (\<lambda>n. map_option (\<lambda>m. KickClientsByUser userID (KickSourceByUser userID m)) (g n))"

definition mgr_DisconnectAll :: "manager \<Rightarrow> manager" where
  "mgr_DisconnectAll g = (\<lambda>n. map_option mp_DisconnectAll (g n))"

section \<open>The invariant of a mountpoint\<close>

definition mount_ok :: "mount_point \<Rightarrow> bool" where
  "mount_ok m \<longleftrightarrow> distinct (mp_clients m) \<and> mp_snapshot m = mp_clients m
     \<and> sn_ClientCount (mp_Stats m) = int (length (mp_clients m))
     \<and> (sn_SourceOnline (mp_Stats m) \<longleftrightarrow> mp_source m \<noteq> None)"

datatype mount_op =
    O_SetSource source_conn
  | O_ClearSource string
  | O_AddClient string rover
  | O_RemoveClient string
  | O_KickClient string
  | O_KickClientsByUser int
  | O_KickSourceByUser int
  | O_DisconnectAll
  | O_Broadcast "byte list"
  | O_Antenna int "antenna_position option"

fun mount_step :: "mount_op \<Rightarrow> mount_point \<Rightarrow> mount_point" where
  "mount_step (O_SetSource i) m = fst (SetSource i m)"
| "mount_step (O_ClearSource i) m = ClearSource i m"
| "mount_step (O_AddClient i c) m = nullish (AddClient i c m) m"
| "mount_step (O_RemoveClient i) m = RemoveClient i m"
| "mount_step (O_KickClient i) m = KickClient i m"
| "mount_step (O_KickClientsByUser u) m = KickClientsByUser u m"
| "mount_step (O_KickSourceByUser u) m = KickSourceByUser u m"
| "mount_step O_DisconnectAll m = mp_DisconnectAll m"
| "mount_step (O_Broadcast p) m = Broadcast p m"
| "mount_step (O_Antenna t p) m = UpdateAntennaPosition t p m"

lemma broadcast_one_fields:
  "mp_clients (broadcast_one p i m) = mp_clients m" "mp_snapshot (broadcast_one p i m) = mp_snapshot m"
  "mp_source (broadcast_one p i m) = mp_source m" "mp_MaxClients (broadcast_one p i m) = mp_MaxClients m"
  "sn_ClientCount (mp_Stats (broadcast_one p i m)) = sn_ClientCount (mp_Stats m)"
  "sn_SourceOnline (mp_Stats (broadcast_one p i m)) = sn_SourceOnline (mp_Stats m)"
  by (simp_all add: broadcast_one_def Let_def)

lemma broadcast_fold_ok: "mount_ok m \<Longrightarrow> mount_ok (fold (broadcast_one p) ids m)"
  by (induction ids arbitrary: m) (simp_all add: mount_ok_def broadcast_one_fields)

lemma mount_ok_step: "mount_ok m \<Longrightarrow> mount_ok (mount_step op m)"
  by (cases op)
    (auto simp: mount_op_defs mount_ok_def Let_def broadcast_fold_ok [unfolded mount_ok_def] Broadcast_def
      split: option.splits)

lemma mount_ok_new: "mount_ok (NewMountPoint heap n d f wq wt mc)"
  by (simp add: mount_ok_def NewMountPoint_def)

definition limit_ok :: "int \<Rightarrow> mount_point \<Rightarrow> bool" where
  "limit_ok mc m \<longleftrightarrow> mp_MaxClients m = mc \<and> (mc \<le> 0 \<or> int (length (mp_clients m)) \<le> mc)"

lemma broadcast_fold_limit: "limit_ok mc (fold (broadcast_one p) ids m) = limit_ok mc m"
  by (induction ids arbitrary: m) (simp_all add: limit_ok_def broadcast_one_fields)

lemma limit_ok_shrink:
  "limit_ok mc m \<Longrightarrow> mp_MaxClients m' = mp_MaxClients m \<Longrightarrow> length (mp_clients m') \<le> length (mp_clients m)
   \<Longrightarrow> limit_ok mc m'"
  by (auto simp: limit_ok_def)

lemma limit_ok_step: "limit_ok mc m \<Longrightarrow> limit_ok mc (mount_step op m)"
proof (cases op)
  case (O_AddClient i c)
  assume "limit_ok mc m"
  with O_AddClient show ?thesis by (auto simp: AddClient_def limit_ok_def count_clients_def rebuildSnapshotLocked_def)
next
  case (O_Broadcast p)
  assume "limit_ok mc m"
  with O_Broadcast show ?thesis by (simp add: Broadcast_def broadcast_fold_limit)
qed (auto elim!: limit_ok_shrink simp: mount_op_defs Let_def length_filter_le split: option.split)

interpretation mount_run: kept mount_step "\<lambda>m. mount_ok m \<and> limit_ok mc m" for mc
  by unfold_locales (simp add: mount_ok_step limit_ok_step)

section \<open>What a broadcast does\<close>

text \<open>The client after a packet was offered to it.\<close>

definition offered :: "byte list \<Rightarrow> rover \<Rightarrow> rover" where
  "offered pkt c =
     (if rv_done c then c
      else if length (rv_queue c) < rv_queueSize c then c\<lparr>rv_queue := rv_queue c @ [pkt]\<rparr>
      else MarkSlowAndKick c)"

definition is_full :: "rover \<Rightarrow> bool" where
  "is_full c \<longleftrightarrow> \<not> rv_done c \<and> \<not> length (rv_queue c) < rv_queueSize c"

lemma broadcast_one_heap:
  "mp_heap (broadcast_one pkt i m) = (mp_heap m)(i := offered pkt (mp_heap m i))"
  "sn_KickCount (mp_Stats (broadcast_one pkt i m)) = sn_KickCount (mp_Stats m) + (if is_full (mp_heap m i) then 1 else 0)"
  by (auto simp: broadcast_one_def offered_def is_full_def Let_def)

lemma broadcast_fold_heap:
  "distinct ids \<Longrightarrow>
     mp_heap (fold (broadcast_one pkt) ids m) = (\<lambda>i. if i \<in> set ids then offered pkt (mp_heap m i) else mp_heap m i)
     \<and> sn_KickCount (mp_Stats (fold (broadcast_one pkt) ids m))
         = sn_KickCount (mp_Stats m) + int (length (filter (\<lambda>i. is_full (mp_heap m i)) ids))"
proof (induction ids arbitrary: m)
  case Nil
  then show ?case by simp
next
  case (Cons j ids)
  let ?m = "broadcast_one pkt j m"
  from Cons.prems have IH: "mp_heap (fold (broadcast_one pkt) ids ?m) = (\<lambda>i. if i \<in> set ids then offered pkt (mp_heap ?m i) else mp_heap ?m i)"
    "sn_KickCount (mp_Stats (fold (broadcast_one pkt) ids ?m)) = sn_KickCount (mp_Stats ?m) + int (length (filter (\<lambda>i. is_full (mp_heap ?m i)) ids))"
    using Cons.IH [of ?m] by auto
  from Cons.prems have "filter (\<lambda>i. is_full (mp_heap ?m i)) ids = filter (\<lambda>i. is_full (mp_heap m i)) ids"
    by (intro filter_cong) (auto simp: broadcast_one_heap)
  with IH Cons.prems show ?case by (auto simp: broadcast_one_heap fun_eq_iff)
qed

lemma disconnected_mount:
  defines "k \<equiv> \<lambda>uid m. KickClientsByUser uid (KickSourceByUser uid m)"
  shows "\<forall>i \<in> set (mp_clients (k uid m)). rv_UserID (mp_heap (k uid m) i) \<noteq> uid"
    and "\<forall>src. mp_source (k uid m) = Some src \<longrightarrow> so_UserID src \<noteq> uid"
  by (auto simp: k_def mount_op_defs clients_of_user_def KickSlowConsumer_def Let_def filter_empty_conv
      split: option.splits if_splits)

section \<open>Properties\<close>

text \<open>
  A broadcast offers the packet once to every registered client: an open client with room in
  its queue gets it at the end, an open client with a full queue is closed and counted, closed
  clients and everything outside the registry stay as they are.
\<close>

theorem broadcast_delivers:
  assumes "mount_ok m"
  shows "mp_heap (Broadcast pkt m) = (\<lambda>i. if i \<in> set (mp_clients m) then offered pkt (mp_heap m i) else mp_heap m i)
    \<and> sn_KickCount (mp_Stats (Broadcast pkt m))
        = sn_KickCount (mp_Stats m) + int (length (filter (\<lambda>i. is_full (mp_heap m i)) (mp_clients m)))
    \<and> mp_clients (Broadcast pkt m) = mp_clients m"
proof -
  have "mp_clients (fold (broadcast_one pkt) ids m) = mp_clients m" for ids
    by (induction ids arbitrary: m) (simp_all add: broadcast_one_fields)
  with assms broadcast_fold_heap [of "mp_clients m" pkt m] show ?thesis
    by (simp add: Broadcast_def mount_ok_def)
qed

definition sample_rover :: rover where
  "sample_rover = \<lparr>rv_UserID = 5, rv_queue = [], rv_queueSize = 64, rv_done = False, rv_slow = False,
     rv_BytesOut = 0, rv_ConnectedAt = 0\<rparr>"

definition sample_point :: mount_point where
  "sample_point = nullish (AddClient ''c1'' sample_rover
     (NewMountPoint (\<lambda>i. sample_rover\<lparr>rv_done := True\<rparr>) ''A'' [] ''RTCM3'' 64 3 1)) undefined"

lemma sample_point_eq:
  "AddClient ''c1'' sample_rover (NewMountPoint (\<lambda>i. sample_rover\<lparr>rv_done := True\<rparr>) ''A'' [] ''RTCM3'' 64 3 1) = Some sample_point"
  by (simp add: sample_point_def AddClient_def NewMountPoint_def)

lemma sample_point_ok: "mount_ok sample_point" "mp_clients sample_point = [''c1'']"
  "mp_heap sample_point ''c1'' = sample_rover"
  by (simp_all add: sample_point_def mount_ok_def AddClient_def NewMountPoint_def count_clients_def rebuildSnapshotLocked_def)

theorem broadcast_delivers_witness:
  "rv_queue (mp_heap (Broadcast [1, 2] sample_point) ''c1'') = [[1, 2]]"
  using broadcast_delivers [OF sample_point_ok(1), of "[1, 2]"]
  by (simp add: sample_point_ok offered_def sample_rover_def)

text \<open>
  In every state of a mountpoint the reported client count is the number of registered clients,
  the broadcast snapshot is the registry, and the source counts as online exactly while there is
  one; a client is admitted only below the limit.
\<close>

theorem mountpoint_stats_exact:
  assumes "m = fold mount_step ops (NewMountPoint heap n d f wq wt mc)"
  shows "sn_ClientCount (mp_Stats m) = int (length (mp_clients m)) \<and> mp_snapshot m = mp_clients m
    \<and> (sn_SourceOnline (mp_Stats m) \<longleftrightarrow> mp_source m \<noteq> None)
    \<and> (mc \<le> 0 \<or> int (length (mp_clients m)) \<le> mc)"
proof -
  have "mount_ok m \<and> limit_ok mc m" unfolding assms
  proof (rule mount_run.run_keeps)
    show "mount_ok (NewMountPoint heap n d f wq wt mc) \<and> limit_ok mc (NewMountPoint heap n d f wq wt mc)"
      by (auto simp: mount_ok_def limit_ok_def NewMountPoint_def)
  qed
  then show ?thesis by (simp add: mount_ok_def limit_ok_def)
qed

theorem mountpoint_stats_exact_witness:
  "sn_ClientCount (mp_Stats sample_point) = 1"
proof -
  have "sample_point = fold mount_step [O_AddClient ''c1'' sample_rover]
      (NewMountPoint (\<lambda>i. sample_rover\<lparr>rv_done := True\<rparr>) ''A'' [] ''RTCM3'' 64 3 1)"
    using sample_point_eq by simp
  from mountpoint_stats_exact [OF this] show ?thesis by (simp add: sample_point_ok)
qed

text \<open>
  Disconnecting a user leaves no trace of it: afterwards no mountpoint has a registered client
  or a source of that user, every client of the user that was registered is closed, and the other
  clients of mountpoints without a source of the user stay registered.
\<close>

theorem disconnect_user_complete:
  assumes "g n = Some m"
  shows "\<exists>m'. mgr_DisconnectUser uid g n = Some m'
    \<and> (\<forall>i \<in> set (mp_clients m'). rv_UserID (mp_heap m' i) \<noteq> uid)
    \<and> (\<forall>src. mp_source m' = Some src \<longrightarrow> so_UserID src \<noteq> uid)
    \<and> (\<forall>i \<in> set (mp_clients m). rv_UserID (mp_heap m i) = uid \<longrightarrow> rv_done (mp_heap m' i))
    \<and> ((\<forall>src. mp_source m = Some src \<longrightarrow> so_UserID src \<noteq> uid) \<longrightarrow>
         set (mp_clients m') = {i \<in> set (mp_clients m). rv_UserID (mp_heap m i) \<noteq> uid})"
proof -
  let ?m = "KickClientsByUser uid (KickSourceByUser uid m)"
  have "(\<forall>i \<in> set (mp_clients m). rv_UserID (mp_heap m i) = uid \<longrightarrow> rv_done (mp_heap ?m i))"
    and "(\<forall>src. mp_source m = Some src \<longrightarrow> so_UserID src \<noteq> uid) \<longrightarrow>
         set (mp_clients ?m) = {i \<in> set (mp_clients m). rv_UserID (mp_heap m i) \<noteq> uid}"
    by (auto simp: mount_op_defs clients_of_user_def KickSlowConsumer_def Let_def filter_empty_conv
        split: option.splits if_splits)
  with assms disconnected_mount [of uid m] show ?thesis by (simp add: mgr_DisconnectUser_def)
qed

theorem disconnect_user_complete_witness:
  "\<exists>m'. mgr_DisconnectUser 5 [''A'' \<mapsto> sample_point] ''A'' = Some m' \<and> rv_done (mp_heap m' ''c1'')"
proof -
  from disconnect_user_complete [of "[''A'' \<mapsto> sample_point]" "''A''" sample_point 5] show ?thesis
    by (auto simp: sample_point_ok sample_rover_def)
qed

end
