(* ===== verification/Caster_Limits.thy ===== *)
theory Caster_Limits
  imports Mount_Runtime
begin

text \<open>
  \<open>internal/limiter\<close> (the counters of connections per address and of rovers) and
  \<open>internal/sourcetable/generator.go\<close>. The manager's list comes in an order the runtime chooses; it is
  given by the list of names it visits.
\<close>

section \<open>Connections per address\<close>

record ip_limiter =
  il_counts :: "string \<Rightarrow> int"
  il_limit :: int

definition NewIPLimiter :: "int \<Rightarrow> ip_limiter" where
  "NewIPLimiter limit = \<lparr>il_counts = (\<lambda>ip. 0), il_limit = limit\<rparr>"

text \<open>A missing key of a Go map reads as 0, so deleting a key is setting it to 0.\<close>

definition Allow :: "string \<Rightarrow> ip_limiter \<Rightarrow> ip_limiter \<times> bool" where
  "Allow ip l =
     (if il_limit l \<le> il_counts l ip then (l, False)
      else (l\<lparr>il_counts := (il_counts l)(ip := il_counts l ip + 1)\<rparr>, True))"

definition il_Release :: "string \<Rightarrow> ip_limiter \<Rightarrow> ip_limiter" where
  "il_Release ip l =
     (let n = il_counts l ip - 1 in l\<lparr>il_counts := (il_counts l)(ip := if n \<le> 0 then 0 else n)\<rparr>)"

section \<open>Rovers in all\<close>

record global_limiter =
  gl_count :: int
  gl_maxCount :: int

definition NewGlobalLimiter :: "int \<Rightarrow> global_limiter" where
  "NewGlobalLimiter maxClients = \<lparr>gl_count = 0, gl_maxCount = maxClients\<rparr>"

definition gl_Add :: "global_limiter \<Rightarrow> global_limiter" where
  "gl_Add l = l\<lparr>gl_count := gl_count l + 1\<rparr>"

definition gl_Release :: "global_limiter \<Rightarrow> global_limiter" where
  "gl_Release l = l\<lparr>gl_count := gl_count l - 1\<rparr>"

definition AtCapacity :: "global_limiter \<Rightarrow> bool" where
  "AtCapacity l \<longleftrightarrow> gl_maxCount l \<le> gl_count l"

section \<open>The accept loop\<close>

text \<open>
  \<open>ListenAndServe\<close>: an accepted connection counts for its address until its handler returns. The
  handler of a rover or a source returns as soon as it has started the goroutine that serves it.
\<close>

datatype accept_event = Accepted string | Handler_returned string

definition accept_step :: "accept_event \<Rightarrow> ip_limiter \<times> string list \<Rightarrow> ip_limiter \<times> string list" where
  "accept_step e s =
     (case s of (l, handling) \<Rightarrow>
        (case e of
           Accepted ip \<Rightarrow> (let (l', ok) = Allow ip l in (l', if ok then handling @ [ip] else handling))
         | Handler_returned ip \<Rightarrow> if ip \<in> set handling then (il_Release ip l, remove1 ip handling) else s))"

definition accept_ok :: "int \<Rightarrow> ip_limiter \<times> string list \<Rightarrow> bool" where
  "accept_ok limit s =
     (case s of (l, handling) \<Rightarrow> il_limit l = limit
        \<and> (\<forall>ip. il_counts l ip = int (count_list handling ip)) \<and> (\<forall>ip. il_counts l ip \<le> max 0 limit))"

lemma count_list_remove1: "count_list (remove1 x xs) y = count_list xs y - (if x = y then 1 else 0)"
  by (induction xs) (auto simp: count_list_0_iff)

lemma count_list_pos: "x \<in> set xs \<Longrightarrow> 0 < count_list xs x"
  by (metis count_list_0_iff gr0I)

lemma accept_step_ok: "accept_ok limit s \<Longrightarrow> accept_ok limit (accept_step e s)"
proof (cases s; cases e)
  fix l hs ip
  assume s: "s = (l, hs)" and e: "e = Accepted ip" and ok: "accept_ok limit s"
  then show ?thesis by (auto simp: accept_ok_def accept_step_def Allow_def)
next
  fix l hs ip
  assume s: "s = (l, hs)" and e: "e = Handler_returned ip" and ok: "accept_ok limit s"
  show ?thesis
  proof (cases "ip \<in> set hs")
    case True
    then have "0 < count_list hs ip" by (rule count_list_pos)
    moreover from ok s have "il_counts l ip = int (count_list hs ip)" "il_counts l ip \<le> max 0 limit"
      by (auto simp: accept_ok_def)
    ultimately show ?thesis
      using ok s e True by (auto simp: accept_ok_def accept_step_def il_Release_def Let_def count_list_remove1)
  next
    case False
    with ok s e show ?thesis by (simp add: accept_step_def)
  qed
qed

interpretation accepting: kept accept_step "accept_ok limit" for limit
  by unfold_locales (rule accept_step_ok)

section \<open>The source table\<close>

definition str_record :: "mount_point \<Rightarrow> string" where
  "str_record mp = ''STR;'' @ mp_Name mp @ '';'' @ mp_Description mp @ '';'' @ mp_Format mp @ '';;;;;;;;;0;;;;;''"

definition Generate :: "mount_point list \<Rightarrow> string" where
  "Generate list =
     ''SOURCETABLE 200 OK'' @ [CHR 0x0D, CHR 0x0A]
     @ concat (map (\<lambda>mp. if \<not> mp_enabled mp then [] else str_record mp @ [CHR 0x0D, CHR 0x0A]) list)
     @ ''ENDSOURCETABLE'' @ [CHR 0x0D, CHR 0x0A]"

text \<open>How a rover reads the table: lines up to \<open>ENDSOURCETABLE\<close>, the fields of the \<open>STR\<close> lines.\<close>

fun table_lines :: "string \<Rightarrow> string list" where
  "table_lines (c # d # s) =
     (if c = CHR 0x0D \<and> d = CHR 0x0A then [] # table_lines s
      else case table_lines (d # s) of [] \<Rightarrow> [[c]] | l # ls \<Rightarrow> (c # l) # ls)"
| "table_lines [c] = [[c]]"
| "table_lines [] = []"

definition table_rows :: "string \<Rightarrow> string list list" where
  "table_rows s = filter (\<lambda>r. hd r = ''STR'') (map (split_on CHR '';'') (table_lines s))"

definition plain_mount :: "mount_point \<Rightarrow> bool" where
  "plain_mount mp \<longleftrightarrow> (\<forall>s \<in> {mp_Name mp, mp_Description mp, mp_Format mp}. set s \<inter> {CHR '';'', CHR 0x0D, CHR 0x0A} = {})"

lemma table_lines_line: "CHR 0x0D \<notin> set l \<Longrightarrow> table_lines (l @ CHR 0x0D # CHR 0x0A # s) = l # table_lines s"
proof (induction l)
  case (Cons c l)
  then have "table_lines (l @ CHR 0x0D # CHR 0x0A # s) = l # table_lines s" by simp
  with Cons.prems show ?case by (cases l) auto
qed simp

lemma str_record_fields:
  assumes "plain_mount mp"
  shows "split_on CHR '';'' (str_record mp)
    = [''STR'', mp_Name mp, mp_Description mp, mp_Format mp] @ replicate 8 [] @ [''0''] @ replicate 5 []"
proof -
  have s: "split_on CHR '';'' (x @ CHR '';'' # y) = x # split_on CHR '';'' y"
    if "x \<in> {mp_Name mp, mp_Description mp, mp_Format mp}" for x y
    using assms that by (intro split_on_append) (auto simp: plain_mount_def)
  have "str_record mp = ''STR'' @ CHR '';'' # (mp_Name mp @ CHR '';'' # (mp_Description mp @ CHR '';'' # (mp_Format mp @ CHR '';'' # '';;;;;;;;0;;;;;'')))"
    by (simp add: str_record_def)
  then show ?thesis by (simp add: s numeral_eq_Suc)
qed

lemma str_record_line:
  assumes "plain_mount mp"
  shows "CHR 0x0D \<notin> set (str_record mp)"
  using assms by (auto simp: plain_mount_def str_record_def)

lemma table_lines_crlf: "table_lines (CHR 0x0D # CHR 0x0A # s) = [] # table_lines s"
  by simp

lemma table_rows_line:
  assumes "CHR 0x0D \<notin> set l"
  shows "table_rows (l @ CHR 0x0D # CHR 0x0A # s)
    = (if hd (split_on CHR '';'' l) = ''STR'' then [split_on CHR '';'' l] else []) @ table_rows s"
  using assms by (simp add: table_rows_def table_lines_line)

lemma table_rows_Generate:
  assumes "\<forall>mp \<in> set list. plain_mount mp"
  shows "table_rows (Generate list) = map (\<lambda>mp. split_on CHR '';'' (str_record mp)) (filter mp_enabled list)"
proof -
  let ?body = "\<lambda>list. concat (map (\<lambda>mp. if \<not> mp_enabled mp then [] else str_record mp @ [CHR 0x0D, CHR 0x0A]) list)"
  have body: "table_rows (?body list @ s) = map (\<lambda>mp. split_on CHR '';'' (str_record mp)) (filter mp_enabled list) @ table_rows s" for s
    using assms
  proof (induction list)
    case (Cons mp list)
    then have mp: "plain_mount mp" by simp
    from Cons table_rows_line [OF str_record_line [OF mp]] str_record_fields [OF mp] show ?case by simp
  qed simp
  have ends: "table_rows (''ENDSOURCETABLE'' @ [CHR 0x0D, CHR 0x0A]) = []"
    using table_rows_line [of "''ENDSOURCETABLE''" "[]"] by (simp add: table_rows_def)
  have "table_rows (Generate list) = table_rows (?body list @ (''ENDSOURCETABLE'' @ [CHR 0x0D, CHR 0x0A]))"
    unfolding Generate_def
    using table_rows_line [of "''SOURCETABLE 200 OK''" "?body list @ (''ENDSOURCETABLE'' @ [CHR 0x0D, CHR 0x0A])"]
    by simp
  with body ends show ?thesis by simp
qed

section \<open>Properties\<close>

text \<open>
  A rover that reads the source table finds one record per enabled mountpoint, in the manager's order,
  and none of a disabled one; the record has the mountpoint's name, description and format in its fields.
  It has 18 fields, where the format named in the source has 19.
\<close>

theorem source_table_lists_enabled:
  assumes "\<forall>mp \<in> set list. plain_mount mp"
  shows "table_rows (Generate list)
      = map (\<lambda>mp. [''STR'', mp_Name mp, mp_Description mp, mp_Format mp] @ replicate 8 [] @ [''0''] @ replicate 5 [])
          (filter mp_enabled list)
    \<and> (\<forall>row \<in> set (table_rows (Generate list)). length row = 18)"
proof -
  have "table_rows (Generate list)
      = map (\<lambda>mp. [''STR'', mp_Name mp, mp_Description mp, mp_Format mp] @ replicate 8 [] @ [''0''] @ replicate 5 [])
          (filter mp_enabled list)"
    unfolding table_rows_Generate [OF assms]
    using assms str_record_fields by (intro map_cong refl) auto
  then show ?thesis by (simp add: numeral_eq_Suc)
qed

theorem source_table_lists_enabled_witness:
  "map (\<lambda>row. row ! 1) (table_rows (Generate [sample_point\<lparr>mp_enabled := False\<rparr>, sample_point])) = [''A'']"
proof -
  have "mp_Name sample_point = ''A''" "mp_Description sample_point = []" "mp_Format sample_point = ''RTCM3''"
    "mp_enabled sample_point"
    by (simp_all add: sample_point_def AddClient_def NewMountPoint_def count_clients_def rebuildSnapshotLocked_def)
  with source_table_lists_enabled [of "[sample_point\<lparr>mp_enabled := False\<rparr>, sample_point]"]
  show ?thesis by (simp add: plain_mount_def)
qed

text \<open>
  C40. The limit of connections per address is kept and exact for connections in their handshake: the counter
  of an address is the number of its handlers that run, and never above the limit. It says nothing of the
  connections that are served: an address none of whose handlers runs is admitted, however many rovers and
  sources it has.
\<close>

theorem ip_limit_covers_handshakes:
  assumes "0 < limit" and "(l, handling) = fold accept_step es (NewIPLimiter limit, [])"
  shows "il_counts l ip = int (count_list handling ip) \<and> il_counts l ip \<le> limit
    \<and> (ip \<notin> set handling \<longrightarrow> snd (Allow ip l))"
proof -
  have "accept_ok limit (fold accept_step es (NewIPLimiter limit, []))"
    by (rule accepting.run_keeps) (simp add: accept_ok_def NewIPLimiter_def)
  then have "accept_ok limit (l, handling)" by (simp only: assms(2) [symmetric])
  with assms(1) show ?thesis by (auto simp: accept_ok_def Allow_def)
qed

theorem ip_limit_covers_handshakes_witness:
  "\<exists>l. fold accept_step (concat (replicate 3 [Accepted ''a'', Handler_returned ''a''])) (NewIPLimiter 1, []) = (l, [])
    \<and> snd (Allow ''a'' l)"
proof -
  have "fold accept_step (concat (replicate 3 [Accepted ''a'', Handler_returned ''a''])) (NewIPLimiter 1, [])
      = (NewIPLimiter 1, [])"
    by (simp add: numeral_eq_Suc accept_step_def Allow_def NewIPLimiter_def il_Release_def fun_eq_iff)
  moreover from ip_limit_covers_handshakes [OF _ this [symmetric], of "''a''"] have "snd (Allow ''a'' (NewIPLimiter 1))"
    by simp
  ultimately show ?thesis by blast
qed

end
