(* ===== verification/Relay.thy ===== *)
theory Relay
  imports Mount_Runtime Antenna "HOL-Library.Sublist"
begin

text \<open>
  One mountpoint at work: the goroutine of its source (\<open>internal/source/source.go\<close>), the write loops of
  its rovers (\<open>internal/client/client.go\<close>) and the calls of the other components, as a step relation.
  A step is what a goroutine does between two accesses to shared state: one read, the start of one
  broadcast (it loads the snapshot), one iteration of the broadcast loop, one write. Between them
  anything else may happen.

  A mountpoint has one source goroutine at a time here; \<open>Source_Overlap\<close> has any number of them. A rover's queue
  has at least the size one, and a packet leaves it with its write; \<open>Write_Loop\<close> has the channel with its \<open>select\<close>s. Deadlines
  show as writes that fail.

  The fields \<open>rl_joined\<close>, \<open>rl_sent\<close>, \<open>rl_streams\<close> and \<open>rl_written\<close> record history and do not influence
  the steps (but for the uniqueness of connection ids).
\<close>

section \<open>The loops\<close>

record source_thread =
  th_ID :: string
  th_framer :: framer
  th_pending :: "byte list list"
  th_pkt :: "byte list option"
  th_todo :: "string list"

record relay =
  rl_mount :: mount_point
  rl_live :: "source_thread option"
  rl_running :: "string \<Rightarrow> bool"
  rl_wire :: "string \<Rightarrow> byte list"
  rl_joined :: "string list"
  rl_sent :: "byte list list"
  rl_streams :: "byte list list"
  rl_written :: "string \<Rightarrow> byte list list"

text \<open>\<open>client.New\<close>\<close>

definition client_New :: "int \<Rightarrow> nat \<Rightarrow> int \<Rightarrow> rover" where
  "client_New userID queueSize now =
     \<lparr>rv_UserID = userID, rv_queue = [], rv_queueSize = queueSize, rv_done = False, rv_slow = False,
      rv_BytesOut = 0, rv_ConnectedAt = now\<rparr>"

text \<open>\<open>source.New\<close>: \<open>None\<close> when the mountpoint already has a source.\<close>

definition source_New :: "string \<Rightarrow> int \<Rightarrow> int \<Rightarrow> mount_point \<Rightarrow> mount_point option" where
  "source_New sid userID now m =
     (let (m', ok) = SetSource \<lparr>so_ID = sid, so_UserID = userID, so_BytesIn = 0, so_StartTime = now\<rparr> m
      in if ok then Some m' else None)"

definition addBytesOut :: "byte list \<Rightarrow> mount_point \<Rightarrow> mount_point" where
  "addBytesOut pkt m =
     (if 0 < sn_ClientCount (mp_Stats m)
      then m\<lparr>mp_Stats := (mp_Stats m)\<lparr>sn_BytesOut := sn_BytesOut (mp_Stats m) + int (length pkt) * sn_ClientCount (mp_Stats m)\<rparr>\<rparr>
      else m)"

definition count_bytes_in :: "string \<Rightarrow> nat \<Rightarrow> mount_point \<Rightarrow> mount_point" where
  "count_bytes_in sid n m =
     m\<lparr>mp_source := map_option (\<lambda>src. if so_ID src = sid then src\<lparr>so_BytesIn := so_BytesIn src + int n\<rparr> else src) (mp_source m),
       mp_Stats := (mp_Stats m)\<lparr>sn_BytesIn := sn_BytesIn (mp_Stats m) + int n\<rparr>\<rparr>"

type_synonym conversion = "int \<Rightarrow> int \<Rightarrow> int \<Rightarrow> string + antenna_position"

definition on_1005 :: "conversion \<Rightarrow> int \<Rightarrow> byte list \<Rightarrow> mount_point \<Rightarrow> mount_point" where
  "on_1005 convert now pkt m =
     (if ExtractMsgType pkt = 1005
      then (case Decode1005 convert pkt of Position p \<Rightarrow> UpdateAntennaPosition now (Some p) m | _ \<Rightarrow> m)
      else m)"

text \<open>The steps of the source goroutine.\<close>

definition src_start :: "string \<Rightarrow> int \<Rightarrow> int \<Rightarrow> relay \<Rightarrow> relay option" where
  "src_start sid userID now s =
     (if rl_live s \<noteq> None then None
      else map_option (\<lambda>m. s\<lparr>rl_mount := m,
             rl_live := Some \<lparr>th_ID = sid, th_framer = \<lparr>fr_buf = []\<rparr>, th_pending = [], th_pkt = None, th_todo = []\<rparr>,
             rl_streams := rl_streams s @ [[]]\<rparr>)
           (source_New sid userID now (rl_mount s)))"

definition src_read :: "byte list \<Rightarrow> relay \<Rightarrow> relay option" where
  "src_read buf s =
     (case rl_live s of None \<Rightarrow> None
      | Some th \<Rightarrow>
          if th_pending th \<noteq> [] \<or> th_pkt th \<noteq> None \<or> 4096 < length buf then None
          else let (framer, packets) = framer_Push buf (th_framer th)
            in Some (s\<lparr>rl_mount := count_bytes_in (th_ID th) (length buf) (rl_mount s),
                       rl_live := Some (th\<lparr>th_framer := framer, th_pending := packets\<rparr>),
                       rl_streams := butlast (rl_streams s) @ [last (rl_streams s) @ buf]\<rparr>))"

definition src_packet :: "conversion \<Rightarrow> int \<Rightarrow> relay \<Rightarrow> relay option" where
  "src_packet convert now s =
     (case rl_live s of None \<Rightarrow> None
      | Some th \<Rightarrow>
          (case (th_pkt th, th_pending th) of
             (None, p # ps) \<Rightarrow>
               let m = on_1005 convert now p (rl_mount s)
               in Some (s\<lparr>rl_mount := m,
                          rl_live := Some (th\<lparr>th_pending := ps, th_pkt := Some p, th_todo := mp_snapshot m\<rparr>),
                          rl_sent := rl_sent s @ [p]\<rparr>)
           | _ \<Rightarrow> None))"

definition src_send :: "relay \<Rightarrow> relay option" where
  "src_send s =
     (case rl_live s of None \<Rightarrow> None
      | Some th \<Rightarrow>
          (case (th_pkt th, th_todo th) of
             (Some p, i # is) \<Rightarrow> Some (s\<lparr>rl_mount := broadcast_one p i (rl_mount s), rl_live := Some (th\<lparr>th_todo := is\<rparr>)\<rparr>)
           | (Some p, []) \<Rightarrow> Some (s\<lparr>rl_mount := addBytesOut p (rl_mount s), rl_live := Some (th\<lparr>th_pkt := None\<rparr>)\<rparr>)
           | _ \<Rightarrow> None))"

definition src_end :: "relay \<Rightarrow> relay option" where
  "src_end s =
     (case rl_live s of None \<Rightarrow> None
      | Some th \<Rightarrow>
          if th_pending th \<noteq> [] \<or> th_pkt th \<noteq> None then None
          else Some (s\<lparr>rl_mount := ClearSource (th_ID th) (rl_mount s), rl_live := None\<rparr>))"

text \<open>The steps of a rover's goroutines: registration, one write, a failed write, the end of the loop, the reader.\<close>

definition upd_client :: "string \<Rightarrow> (rover \<Rightarrow> rover) \<Rightarrow> mount_point \<Rightarrow> mount_point" where
  "upd_client cid f m = m\<lparr>mp_heap := (mp_heap m)(cid := f (mp_heap m cid))\<rparr>"

definition cl_join :: "string \<Rightarrow> rover \<Rightarrow> relay \<Rightarrow> relay option" where
  "cl_join cid c s =
     (if cid \<in> set (rl_joined s) then None
      else map_option (\<lambda>m. s\<lparr>rl_mount := m, rl_running := (rl_running s)(cid := True), rl_wire := (rl_wire s)(cid := []),
             rl_written := (rl_written s)(cid := []), rl_joined := rl_joined s @ [cid]\<rparr>)
           (AddClient cid c (rl_mount s)))"

definition cl_write :: "string \<Rightarrow> relay \<Rightarrow> relay option" where
  "cl_write cid s =
     (case rv_queue (mp_heap (rl_mount s) cid) of
        [] \<Rightarrow> None
      | p # ps \<Rightarrow>
          if \<not> rl_running s cid then None
          else Some (s\<lparr>rl_mount := upd_client cid (\<lambda>c. c\<lparr>rv_queue := ps, rv_BytesOut := rv_BytesOut c + int (length p)\<rparr>) (rl_mount s),
                       rl_wire := (rl_wire s)(cid := rl_wire s cid @ p),
                       rl_written := (rl_written s)(cid := rl_written s cid @ [p])\<rparr>))"

definition cl_write_error :: "string \<Rightarrow> nat \<Rightarrow> relay \<Rightarrow> relay option" where
  "cl_write_error cid n s =
     (case rv_queue (mp_heap (rl_mount s) cid) of
        [] \<Rightarrow> None
      | p # ps \<Rightarrow>
          if \<not> rl_running s cid \<or> length p < n then None
          else Some (s\<lparr>rl_mount := RemoveClient cid (upd_client cid (\<lambda>c. KickSlowConsumer (c\<lparr>rv_queue := ps\<rparr>)) (rl_mount s)),
                       rl_running := (rl_running s)(cid := False),
                       rl_wire := (rl_wire s)(cid := rl_wire s cid @ take n p)\<rparr>))"

definition cl_leave :: "string \<Rightarrow> relay \<Rightarrow> relay option" where
  "cl_leave cid s =
     (if rl_running s cid \<and> rv_done (mp_heap (rl_mount s) cid)
      then Some (s\<lparr>rl_mount := RemoveClient cid (rl_mount s), rl_running := (rl_running s)(cid := False)\<rparr>)
      else None)"

definition cl_hangup :: "string \<Rightarrow> relay \<Rightarrow> relay option" where
  "cl_hangup cid s =
     (if cid \<in> set (rl_joined s) then Some (s\<lparr>rl_mount := upd_client cid KickSlowConsumer (rl_mount s)\<rparr>) else None)"

text \<open>The calls of the administration API and of the shutdown.\<close>

fun from_outside :: "mount_op \<Rightarrow> bool" where
  "from_outside (O_ClearSource i) = True"
| "from_outside (O_KickClient i) = True"
| "from_outside (O_KickClientsByUser u) = True"
| "from_outside (O_KickSourceByUser u) = True"
| "from_outside O_DisconnectAll = True"
| "from_outside _ = False"

datatype relay_event =
    E_source string int int
  | E_read "byte list"
  | E_packet int
  | E_send
  | E_source_end
  | E_join string int nat int
  | E_write string
  | E_write_error string nat
  | E_leave string
  | E_hangup string
  | E_outside mount_op

fun relay_step :: "conversion \<Rightarrow> relay_event \<Rightarrow> relay \<Rightarrow> relay option" where
  "relay_step cv (E_source sid uid now) s = src_start sid uid now s"
| "relay_step cv (E_read buf) s = src_read buf s"
| "relay_step cv (E_packet now) s = src_packet cv now s"
| "relay_step cv E_send s = src_send s"
| "relay_step cv E_source_end s = src_end s"
| "relay_step cv (E_join cid uid q now) s = cl_join cid (client_New uid q now) s"
| "relay_step cv (E_write cid) s = cl_write cid s"
| "relay_step cv (E_write_error cid n) s = cl_write_error cid n s"
| "relay_step cv (E_leave cid) s = cl_leave cid s"
| "relay_step cv (E_hangup cid) s = cl_hangup cid s"
| "relay_step cv (E_outside op) s = (if from_outside op then Some (s\<lparr>rl_mount := mount_step op (rl_mount s)\<rparr>) else None)"

definition relay_start :: "mount_point \<Rightarrow> relay" where
  "relay_start m =
     \<lparr>rl_mount = m, rl_live = None, rl_running = (\<lambda>i. False), rl_wire = (\<lambda>i. []), rl_joined = [],
      rl_sent = [], rl_streams = [], rl_written = (\<lambda>i. [])\<rparr>"

inductive relay_run :: "conversion \<Rightarrow> relay \<Rightarrow> relay_event list \<Rightarrow> relay \<Rightarrow> bool" for cv where
  run_Nil: "relay_run cv s [] s"
| run_Cons: "relay_step cv e s = Some t \<Longrightarrow> relay_run cv t es u \<Longrightarrow> relay_run cv s (e # es) u"

inductive_cases relay_run_NilE: "relay_run cv s [] u"
inductive_cases relay_run_ConsE: "relay_run cv s (e # es) u"
inductive_simps relay_run_simps [simp]: "relay_run cv s [] u" "relay_run cv s (e # es) u"

section \<open>A rover and the frames sent to its mountpoint\<close>

text \<open>
  The rover joined when \<open>j\<close> frames had been sent. Its connection carries a prefix of the frames since
  then; while its loop runs, what is written and what is queued are whole frames, and as long as it is
  open nothing is missing, but for the frame of the broadcast in which its turn is still to come.
\<close>

definition lag :: "byte list list \<Rightarrow> bool \<Rightarrow> byte list list" where
  "lag sent behind = (if behind then butlast sent else sent)"

definition rover_ok :: "byte list list \<Rightarrow> bool \<Rightarrow> byte list \<Rightarrow> byte list list \<Rightarrow> bool \<Rightarrow> rover \<Rightarrow> bool" where
  "rover_ok sent behind wire written running c \<longleftrightarrow>
     (rv_slow c \<longrightarrow> rv_done c) \<and>
     (\<exists>j \<le> length (lag sent behind). prefix wire (concat (drop j sent))
        \<and> (running \<longrightarrow> wire = concat written \<and> prefix (written @ rv_queue c) (drop j sent)
                      \<and> rv_BytesOut c = int (length wire)
                      \<and> (\<not> rv_done c \<longrightarrow> written @ rv_queue c = drop j (lag sent behind))))"

lemma prefix_concat: "prefix xs ys \<Longrightarrow> prefix (concat xs) (concat ys)"
  by (auto simp: prefix_def)

lemma rover_ok_kick:
  "rover_ok sent b wire w r c \<Longrightarrow> rover_ok sent b wire w r (KickSlowConsumer c)"
  by (auto simp: rover_ok_def KickSlowConsumer_def)

lemma rover_ok_stop: "rover_ok sent b wire w r c \<Longrightarrow> rv_done c' \<Longrightarrow> rover_ok sent b wire w False c'"
  by (auto simp: rover_ok_def)

lemma rover_ok_new: "rover_ok sent False [] [] True (client_New uid q now)"
  by (auto simp: rover_ok_def client_New_def lag_def)

lemma rover_ok_packet:
  assumes "rover_ok sent False wire w r c" "r \<Longrightarrow> \<not> rv_done c \<Longrightarrow> b"
  shows "rover_ok (sent @ [p]) b wire w r c"
proof -
  from assms(1) obtain j where j: "rv_slow c \<longrightarrow> rv_done c" "j \<le> length sent" "prefix wire (concat (drop j sent))"
    "r \<longrightarrow> wire = concat w \<and> prefix (w @ rv_queue c) (drop j sent) \<and> rv_BytesOut c = int (length wire)
      \<and> (\<not> rv_done c \<longrightarrow> w @ rv_queue c = drop j sent)"
    by (auto simp: rover_ok_def lag_def)
  then have "prefix wire (concat (drop j (sent @ [p])))"
    by (auto simp: prefix_def)
  moreover have "r \<longrightarrow> prefix (w @ rv_queue c) (drop j (sent @ [p]))"
    using j by (auto simp: prefix_def)
  ultimately show ?thesis
    using j assms(2) by (auto simp: rover_ok_def lag_def intro!: exI [of _ j])
qed

lemma rover_ok_offered:
  assumes "rover_ok sent True wire w r c" "sent \<noteq> []"
  shows "rover_ok sent False wire w r (offered (last sent) c)"
proof -
  from assms(1) obtain j where slow: "rv_slow c \<longrightarrow> rv_done c"
    and j: "j \<le> length (butlast sent)" "prefix wire (concat (drop j sent))"
    "r \<longrightarrow> wire = concat w \<and> prefix (w @ rv_queue c) (drop j sent) \<and> rv_BytesOut c = int (length wire)
      \<and> (\<not> rv_done c \<longrightarrow> w @ rv_queue c = drop j (butlast sent))"
    by (auto simp: rover_ok_def lag_def)
  have "drop j (butlast sent) @ [last sent] = drop j sent"
    using j(1) assms(2) by (metis append_butlast_last_id drop_append diff_is_0_eq' drop_0)
  then have full: "w @ rv_queue c = drop j (butlast sent) \<Longrightarrow> w @ rv_queue c @ [last sent] = drop j sent"
    by (metis append_assoc)
  have "j \<le> length sent" using j(1) by simp
  then show ?thesis
    using slow j full
    by (auto simp: rover_ok_def lag_def offered_def MarkSlowAndKick_def KickSlowConsumer_def intro!: exI [of _ j])
qed

lemma rover_ok_write:
  assumes "rover_ok sent b wire w True c" "rv_queue c = p # ps"
  shows "rover_ok sent b (wire @ p) (w @ [p]) True (c\<lparr>rv_queue := ps, rv_BytesOut := rv_BytesOut c + int (length p)\<rparr>)"
proof -
  from assms obtain j where slow: "rv_slow c \<longrightarrow> rv_done c"
    and j: "j \<le> length (lag sent b)" "wire = concat w" "prefix (w @ p # ps) (drop j sent)"
    "rv_BytesOut c = int (length wire)" "\<not> rv_done c \<longrightarrow> w @ p # ps = drop j (lag sent b)"
    by (auto simp: rover_ok_def)
  have "prefix (w @ [p]) (drop j sent)" using j(3) by (auto simp: prefix_def)
  from prefix_concat [OF this] j(2) have "prefix (wire @ p) (concat (drop j sent))" by simp
  with slow j show ?thesis by (auto simp: rover_ok_def intro!: exI [of _ j])
qed

lemma rover_ok_error:
  assumes "rover_ok sent b wire w True c" "rv_queue c = p # ps" "rv_done c'"
  shows "rover_ok sent b (wire @ take n p) w False c'"
proof -
  from assms obtain j where j: "j \<le> length (lag sent b)" "wire = concat w" "prefix (w @ p # ps) (drop j sent)"
    by (auto simp: rover_ok_def)
  have "prefix (w @ [p]) (drop j sent)" using j(3) by (auto simp: prefix_def)
  from prefix_concat [OF this] j(2) have "prefix (wire @ p) (concat (drop j sent))" by simp
  moreover have "prefix (wire @ take n p) (wire @ p)" by (simp add: take_is_prefix)
  ultimately have "prefix (wire @ take n p) (concat (drop j sent))"
    by (meson prefix_order.trans)
  with j(1) assms(3) show ?thesis by (auto simp: rover_ok_def)
qed

section \<open>The invariant\<close>

definition relay_todo :: "relay \<Rightarrow> string list" where
  "relay_todo s = (case rl_live s of None \<Rightarrow> [] | Some th \<Rightarrow> th_todo th)"

definition relay_pending :: "relay \<Rightarrow> byte list list" where
  "relay_pending s = (case rl_live s of None \<Rightarrow> [] | Some th \<Rightarrow> th_pending th)"

definition clients_ok :: "relay \<Rightarrow> bool" where
  "clients_ok s \<longleftrightarrow> (\<forall>cid \<in> set (rl_joined s).
      rover_ok (rl_sent s) (cid \<in> set (relay_todo s)) (rl_wire s cid) (rl_written s cid) (rl_running s cid)
        (mp_heap (rl_mount s) cid)
      \<and> (\<not> rv_done (mp_heap (rl_mount s) cid) \<longrightarrow> cid \<in> set (mp_clients (rl_mount s)) \<and> rl_running s cid))"

definition registry_ok :: "relay \<Rightarrow> bool" where
  "registry_ok s \<longleftrightarrow> mount_ok (rl_mount s) \<and> set (mp_clients (rl_mount s)) \<subseteq> set (rl_joined s)
     \<and> (\<forall>cid \<in> set (mp_clients (rl_mount s)). rl_running s cid)"

definition thread_ok :: "relay \<Rightarrow> bool" where
  "thread_ok s \<longleftrightarrow> distinct (relay_todo s) \<and> set (relay_todo s) \<subseteq> set (rl_joined s)
     \<and> (case rl_live s of None \<Rightarrow> True
        | Some th \<Rightarrow> (th_pkt th = None \<longrightarrow> th_todo th = [])
            \<and> (\<forall>p. th_pkt th = Some p \<longrightarrow> rl_sent s \<noteq> [] \<and> last (rl_sent s) = p))"

definition stream_frames :: "byte list list \<Rightarrow> byte list list" where
  "stream_frames ss = concat (map (\<lambda>s. fst (frames s)) ss)"

definition frames_ok :: "relay \<Rightarrow> bool" where
  "frames_ok s \<longleftrightarrow> rl_sent s @ relay_pending s = stream_frames (rl_streams s)
     \<and> (case rl_live s of None \<Rightarrow> True
        | Some th \<Rightarrow> rl_streams s \<noteq> [] \<and> resync (fr_buf (th_framer th)) = snd (frames (last (rl_streams s))))"

definition relay_ok :: "relay \<Rightarrow> bool" where
  "relay_ok s \<longleftrightarrow> registry_ok s \<and> thread_ok s \<and> frames_ok s \<and> clients_ok s"

lemma relay_start_ok:
  assumes "mount_ok m" "mp_clients m = []"
  shows "relay_ok (relay_start m)"
  using assms
  by (simp add: relay_ok_def registry_ok_def thread_ok_def frames_ok_def clients_ok_def relay_start_def
      relay_todo_def relay_pending_def stream_frames_def)

section \<open>Every step keeps it\<close>

text \<open>What the other components do to a mountpoint: they close clients, and unregister only closed ones.\<close>

definition kicks_only :: "string set \<Rightarrow> mount_point \<Rightarrow> mount_point \<Rightarrow> bool" where
  "kicks_only K m m' \<longleftrightarrow> mp_heap m' = (\<lambda>i. if i \<in> K then KickSlowConsumer (mp_heap m i) else mp_heap m i)
     \<and> set (mp_clients m') \<subseteq> set (mp_clients m) \<and> set (mp_clients m) - set (mp_clients m') \<subseteq> K"

lemma kicks_only_refl: "kicks_only {} m m"
  by (simp add: kicks_only_def)

lemma kick_all_kicks:
  assumes "mp_heap m' = mp_heap m" "set (mp_clients m') \<subseteq> set (mp_clients m)"
    "set (mp_clients m) - set (mp_clients m') \<subseteq> set ids"
  shows "kicks_only (set ids) m (kick_all ids m')"
  using assms(2,3) unfolding kicks_only_def kick_all_def mount_point.simps assms(1) by simp

lemma unregister_fields [simp]:
  "mp_heap (unregister ids m) = mp_heap m" "set (mp_clients (unregister ids m)) = set (mp_clients m) - set ids"
  "mp_heap (set_online b m) = mp_heap m" "mp_clients (set_online b m) = mp_clients m"
  by (auto simp: unregister_def count_clients_def rebuildSnapshotLocked_def set_online_def)

lemma ClearSource_kicks: "\<exists>K. kicks_only K m (ClearSource sid m)"
proof -
  have "kicks_only (set (mp_clients m)) m (kick_all (mp_clients m) (set_online False (m\<lparr>mp_source := None\<rparr>)))"
    by (rule kick_all_kicks) simp_all
  then show ?thesis using kicks_only_refl [of m] by (auto simp: ClearSource_def split: option.split)
qed

lemma outside_kicks:
  assumes "from_outside op"
  shows "\<exists>K. kicks_only K m (mount_step op m)"
proof (cases op)
  case (O_ClearSource i)
  then show ?thesis using ClearSource_kicks by simp
next
  case (O_KickClient i)
  have "kicks_only (set [i]) m (kick_all [i] (unregister [i] m))" by (rule kick_all_kicks) auto
  with O_KickClient kicks_only_refl [of m] show ?thesis by (auto simp: KickClient_def)
next
  case (O_KickClientsByUser u)
  have "kicks_only (set (clients_of_user u m)) m (kick_all (clients_of_user u m) (unregister (clients_of_user u m) m))"
    by (rule kick_all_kicks) auto
  with O_KickClientsByUser kicks_only_refl [of m] show ?thesis by (auto simp: KickClientsByUser_def Let_def)
next
  case (O_KickSourceByUser u)
  have "kicks_only (set (mp_clients m)) m
      (kick_all (mp_clients m) (unregister (mp_clients m) (set_online False (m\<lparr>mp_source := None\<rparr>))))"
    by (rule kick_all_kicks) auto
  with O_KickSourceByUser kicks_only_refl [of m] show ?thesis
    by (auto simp: KickSourceByUser_def split: option.split)
next
  case O_DisconnectAll
  have "kicks_only (set (mp_clients m)) m (kick_all (mp_clients m) (set_online False (m\<lparr>mp_source := None\<rparr>)))"
    by (rule kick_all_kicks) simp_all
  with O_DisconnectAll show ?thesis by (auto simp: mp_DisconnectAll_def)
qed (use assms in auto)

lemma upd_client_fields [simp]:
  "mp_clients (upd_client i f m) = mp_clients m" "mp_snapshot (upd_client i f m) = mp_snapshot m"
  "mp_source (upd_client i f m) = mp_source m" "mp_Stats (upd_client i f m) = mp_Stats m"
  "mp_heap (upd_client i f m) = (mp_heap m)(i := f (mp_heap m i))"
  by (simp_all add: upd_client_def)

lemma mount_ok_upd [simp]: "mount_ok (upd_client i f m) = mount_ok m"
  by (simp add: mount_ok_def)

lemma RemoveClient_fields:
  assumes "mount_ok m"
  shows "mount_ok (RemoveClient i m)" "set (mp_clients (RemoveClient i m)) = set (mp_clients m) - {i}"
    "mp_heap (RemoveClient i m) = mp_heap m"
proof -
  show "mount_ok (RemoveClient i m)" using mount_ok_step [OF assms, of "O_RemoveClient i"] by simp
qed (auto simp: RemoveClient_def unregister_def count_clients_def rebuildSnapshotLocked_def)

lemma kicked_ok:
  assumes "relay_ok s" "mount_ok m'" "kicks_only K (rl_mount s) m'"
    and "rl_live t = rl_live s \<or> (rl_live t = None \<and> relay_todo s = [] \<and> relay_pending s = [])"
    and "t = s\<lparr>rl_mount := m', rl_live := rl_live t\<rparr>"
  shows "relay_ok t"
proof -
  from assms(5) have t: "rl_mount t = m'" "rl_sent t = rl_sent s" "rl_streams t = rl_streams s" "rl_joined t = rl_joined s"
    "rl_wire t = rl_wire s" "rl_written t = rl_written s" "rl_running t = rl_running s"
    by (metis relay.ext_inject relay.surjective relay.update_convs)+
  have todo: "relay_todo t = relay_todo s" "relay_pending t = relay_pending s"
    using assms(4) by (auto simp: relay_todo_def relay_pending_def)
  have "registry_ok t"
    using assms(1-3) by (auto simp: relay_ok_def registry_ok_def t kicks_only_def)
  moreover have "thread_ok t" "frames_ok t"
    using assms(1,4) todo by (auto simp: relay_ok_def thread_ok_def frames_ok_def t split: option.splits)
  moreover have "clients_ok t"
    using assms(1,3) rover_ok_kick
    by (auto simp: relay_ok_def clients_ok_def t todo kicks_only_def KickSlowConsumer_def split: if_splits)
  ultimately show ?thesis by (simp add: relay_ok_def)
qed

lemmas relay_ok_defs = relay_ok_def registry_ok_def thread_ok_def frames_ok_def clients_ok_def
  relay_todo_def relay_pending_def

lemma mount_ok_stats:
  "mount_ok m \<Longrightarrow> mount_ok (count_bytes_in sid n m)" "mount_ok m \<Longrightarrow> mount_ok (addBytesOut p m)"
  "mount_ok m \<Longrightarrow> mount_ok (on_1005 cv now p m)"
  by (auto simp: mount_ok_def count_bytes_in_def addBytesOut_def on_1005_def UpdateAntennaPosition_def split: decoded.split)

lemma stats_fields [simp]:
  "mp_heap (count_bytes_in sid n m) = mp_heap m" "mp_clients (count_bytes_in sid n m) = mp_clients m"
  "mp_heap (addBytesOut p m) = mp_heap m" "mp_clients (addBytesOut p m) = mp_clients m"
  "mp_heap (on_1005 cv now p m) = mp_heap m" "mp_clients (on_1005 cv now p m) = mp_clients m"
  by (auto simp: count_bytes_in_def addBytesOut_def on_1005_def UpdateAntennaPosition_def split: decoded.split)

lemma stream_frames_snoc: "stream_frames (ss @ [s]) = stream_frames ss @ fst (frames s)"
  by (simp add: stream_frames_def)

lemma src_start_ok:
  assumes ok: "relay_ok s" and step: "src_start sid uid now s = Some t"
  shows "relay_ok t"
proof -
  from step obtain m where m: "source_New sid uid now (rl_mount s) = Some m" and live: "rl_live s = None"
    and t: "t = s\<lparr>rl_mount := m,
             rl_live := Some \<lparr>th_ID = sid, th_framer = \<lparr>fr_buf = []\<rparr>, th_pending = [], th_pkt = None, th_todo = []\<rparr>,
             rl_streams := rl_streams s @ [[]]\<rparr>"
    by (auto simp: src_start_def split: if_splits)
  have "mount_ok m" "mp_heap m = mp_heap (rl_mount s)" "mp_clients m = mp_clients (rl_mount s)"
    using m mount_ok_step [of "rl_mount s" "O_SetSource \<lparr>so_ID = sid, so_UserID = uid, so_BytesIn = 0, so_StartTime = now\<rparr>"] ok
    by (auto simp: source_New_def SetSource_def set_online_def relay_ok_defs split: if_splits prod.splits)
  with ok live show ?thesis
    by (auto simp: relay_ok_defs t stream_frames_snoc)
qed

text \<open>The framer's buffer and the frames found so far follow the bytes read, whatever the reads.\<close>

lemma src_read_frames:
  assumes ok: "frames_ok s" and step: "src_read buf s = Some t"
  shows "frames_ok t"
proof -
  from step obtain th where th: "rl_live s = Some th" "th_pending th = []" "th_pkt th = None"
    by (auto simp: src_read_def split: option.splits if_splits)
  let ?b = "fr_buf (th_framer th) @ buf" and ?f = "fst (framer_Push buf (th_framer th))"
  have push: "fr_buf ?f = snd (drain ?b)" "snd (framer_Push buf (th_framer th)) = fst (frames ?b)"
    using drain_frames [of ?b] by (simp_all add: framer_Push_def split_beta Let_def)
  have t: "rl_sent t = rl_sent s" "rl_live t = Some (th\<lparr>th_framer := ?f, th_pending := fst (frames ?b)\<rparr>)"
    "rl_streams t = butlast (rl_streams s) @ [last (rl_streams s) @ buf]"
    using step th push(2) by (auto simp: src_read_def split_beta Let_def split: if_splits)
  from ok th have ne: "rl_streams s \<noteq> []" and buf: "resync (fr_buf (th_framer th)) = snd (frames (last (rl_streams s)))"
    and sent: "rl_sent s = stream_frames (rl_streams s)"
    by (auto simp: frames_ok_def relay_pending_def)
  have "frames ?b = frames (snd (frames (last (rl_streams s))) @ buf)"
    using frames_resync_append [of "fr_buf (th_framer th)" buf] buf by simp
  with frames_append [of "last (rl_streams s)" buf]
  have fr: "frames (last (rl_streams s) @ buf) = (fst (frames (last (rl_streams s))) @ fst (frames ?b), snd (frames ?b))"
    by simp
  have "stream_frames (butlast (rl_streams s) @ [last (rl_streams s)]) = rl_sent s" using ne sent by simp
  then have "rl_sent s @ fst (frames ?b) = stream_frames (butlast (rl_streams s) @ [last (rl_streams s) @ buf])"
    by (simp add: stream_frames_snoc fr)
  moreover have "resync (fr_buf ?f) = snd (frames (last (rl_streams s) @ buf))"
    using drain_frames [of ?b] by (simp add: push fr)
  ultimately show ?thesis by (auto simp: frames_ok_def relay_pending_def t)
qed

lemma src_read_ok:
  assumes ok: "relay_ok s" and step: "src_read buf s = Some t"
  shows "relay_ok t"
proof -
  have "frames_ok t" using src_read_frames [OF _ step] ok by (simp add: relay_ok_def)
  with ok step mount_ok_stats(1) show ?thesis
    by (auto simp: relay_ok_def registry_ok_def thread_ok_def clients_ok_def relay_todo_def src_read_def split_beta Let_def
        split: option.splits if_splits)
qed

lemma src_packet_ok:
  assumes ok: "relay_ok s" and step: "src_packet cv now s = Some t"
  shows "relay_ok t"
proof -
  from step obtain th p ps where th: "rl_live s = Some th" "th_pending th = p # ps" "th_pkt th = None"
    and t: "t = s\<lparr>rl_mount := on_1005 cv now p (rl_mount s),
        rl_live := Some (th\<lparr>th_pending := ps, th_pkt := Some p, th_todo := mp_snapshot (on_1005 cv now p (rl_mount s))\<rparr>),
        rl_sent := rl_sent s @ [p]\<rparr>"
    by (auto simp: src_packet_def Let_def split: option.splits list.splits)
  have m: "mount_ok (on_1005 cv now p (rl_mount s))" using ok mount_ok_stats(3) by (simp add: relay_ok_defs)
  then have snap: "mp_snapshot (on_1005 cv now p (rl_mount s)) = mp_clients (rl_mount s)" "distinct (mp_clients (rl_mount s))"
    by (auto simp: mount_ok_def)
  have "clients_ok t"
    unfolding clients_ok_def
  proof (intro ballI conjI)
    fix cid assume "cid \<in> set (rl_joined t)"
    then have cid: "cid \<in> set (rl_joined s)" by (simp add: t)
    with ok th have c: "rover_ok (rl_sent s) False (rl_wire s cid) (rl_written s cid) (rl_running s cid) (mp_heap (rl_mount s) cid)"
      and opn: "\<not> rv_done (mp_heap (rl_mount s) cid) \<Longrightarrow> cid \<in> set (mp_clients (rl_mount s)) \<and> rl_running s cid"
      by (auto simp: relay_ok_defs)
    show "rover_ok (rl_sent t) (cid \<in> set (relay_todo t)) (rl_wire t cid) (rl_written t cid) (rl_running t cid) (mp_heap (rl_mount t) cid)"
      using rover_ok_packet [OF c, of "cid \<in> set (mp_clients (rl_mount s))" p] opn
      by (simp add: t relay_todo_def snap)
    show "\<not> rv_done (mp_heap (rl_mount t) cid) \<longrightarrow> cid \<in> set (mp_clients (rl_mount t)) \<and> rl_running t cid"
      using opn by (simp add: t)
  qed
  with ok th m snap show ?thesis by (auto simp: relay_ok_defs t)
qed

lemma broadcast_one_ok: "mount_ok m \<Longrightarrow> mount_ok (broadcast_one p i m)"
  by (simp add: mount_ok_def broadcast_one_fields)

lemma offered_done: "rv_done c \<Longrightarrow> rv_done (offered p c)"
  by (simp add: offered_def)

lemma src_send_ok:
  assumes ok: "relay_ok s" and step: "src_send s = Some t"
  shows "relay_ok t"
proof -
  from step obtain th p where th: "rl_live s = Some th" "th_pkt th = Some p"
    by (auto simp: src_send_def split: option.splits list.splits)
  show ?thesis
  proof (cases "th_todo th")
    case Nil
    then have "t = s\<lparr>rl_mount := addBytesOut p (rl_mount s), rl_live := Some (th\<lparr>th_pkt := None\<rparr>)\<rparr>"
      using step th by (simp add: src_send_def)
    with ok th Nil mount_ok_stats(2) show ?thesis by (auto simp: relay_ok_defs)
  next
    case (Cons i "is")
    then have t: "t = s\<lparr>rl_mount := broadcast_one p i (rl_mount s), rl_live := Some (th\<lparr>th_todo := is\<rparr>)\<rparr>"
      using step th by (simp add: src_send_def)
    from ok th Cons have last: "rl_sent s \<noteq> []" "last (rl_sent s) = p" and i: "i \<notin> set is" "i \<in> set (rl_joined s)"
      by (auto simp: relay_ok_defs)
    have "clients_ok t"
      unfolding clients_ok_def
    proof (intro ballI conjI)
      fix cid assume "cid \<in> set (rl_joined t)"
      then have cid: "cid \<in> set (rl_joined s)" by (simp add: t)
      with ok th Cons have c: "rover_ok (rl_sent s) (cid \<in> set (i # is)) (rl_wire s cid) (rl_written s cid) (rl_running s cid) (mp_heap (rl_mount s) cid)"
        and opn: "\<not> rv_done (mp_heap (rl_mount s) cid) \<Longrightarrow> cid \<in> set (mp_clients (rl_mount s)) \<and> rl_running s cid"
        by (auto simp: relay_ok_defs)
      show "rover_ok (rl_sent t) (cid \<in> set (relay_todo t)) (rl_wire t cid) (rl_written t cid) (rl_running t cid) (mp_heap (rl_mount t) cid)"
      proof (cases "cid = i")
        case True
        then show ?thesis
          using rover_ok_offered [of "rl_sent s"] c last i
          by (simp add: t relay_todo_def broadcast_one_heap)
      next
        case False
        then show ?thesis using c by (simp add: t relay_todo_def broadcast_one_heap)
      qed
      show "\<not> rv_done (mp_heap (rl_mount t) cid) \<longrightarrow> cid \<in> set (mp_clients (rl_mount t)) \<and> rl_running t cid"
        using opn offered_done by (auto simp: t broadcast_one_heap broadcast_one_fields)
    qed
    with ok th Cons show ?thesis
      by (auto simp: relay_ok_defs t broadcast_one_ok broadcast_one_fields)
  qed
qed

lemma src_end_ok:
  assumes ok: "relay_ok s" and step: "src_end s = Some t"
  shows "relay_ok t"
proof -
  from step obtain th where th: "rl_live s = Some th" "th_pending th = []" "th_pkt th = None"
    and t: "t = s\<lparr>rl_mount := ClearSource (th_ID th) (rl_mount s), rl_live := None\<rparr>"
    by (auto simp: src_end_def split: option.splits if_splits)
  obtain K where K: "kicks_only K (rl_mount s) (ClearSource (th_ID th) (rl_mount s))"
    using ClearSource_kicks by blast
  have m: "mount_ok (ClearSource (th_ID th) (rl_mount s))"
    using ok mount_ok_step [of "rl_mount s" "O_ClearSource (th_ID th)"] by (simp add: relay_ok_defs)
  from ok th have "relay_todo s = []" "relay_pending s = []" by (auto simp: relay_ok_defs)
  with kicked_ok [OF ok m K, of t] t show ?thesis by simp
qed

lemma outside_ok:
  assumes ok: "relay_ok s" and op: "from_outside op"
  shows "relay_ok (s\<lparr>rl_mount := mount_step op (rl_mount s)\<rparr>)"
proof -
  obtain K where K: "kicks_only K (rl_mount s) (mount_step op (rl_mount s))"
    using outside_kicks [OF op] by blast
  have m: "mount_ok (mount_step op (rl_mount s))"
    using ok mount_ok_step by (simp add: relay_ok_defs)
  from kicked_ok [OF ok m K, of "s\<lparr>rl_mount := mount_step op (rl_mount s)\<rparr>"] show ?thesis by simp
qed

text \<open>A step of one rover: the others, the source and the frames stay as they are.\<close>

lemma one_client_ok:
  assumes ok: "relay_ok s"
    and same: "rl_live t = rl_live s" "rl_sent t = rl_sent s" "rl_streams t = rl_streams s"
      "rl_joined t = rl_joined s"
    and others: "\<And>i. i \<noteq> cid \<Longrightarrow> mp_heap (rl_mount t) i = mp_heap (rl_mount s) i \<and> rl_wire t i = rl_wire s i
        \<and> rl_written t i = rl_written s i \<and> rl_running t i = rl_running s i"
    and reg: "mount_ok (rl_mount t)" "set (mp_clients (rl_mount t)) \<subseteq> set (mp_clients (rl_mount s))"
      "set (mp_clients (rl_mount s)) - {cid} \<subseteq> set (mp_clients (rl_mount t))"
      "cid \<in> set (mp_clients (rl_mount t)) \<Longrightarrow> rl_running t cid"
    and own: "rover_ok (rl_sent s) (cid \<in> set (relay_todo s)) (rl_wire t cid) (rl_written t cid) (rl_running t cid)
        (mp_heap (rl_mount t) cid)"
      "\<not> rv_done (mp_heap (rl_mount t) cid) \<Longrightarrow> cid \<in> set (mp_clients (rl_mount t)) \<and> rl_running t cid"
  shows "relay_ok t"
proof -
  have todo: "relay_todo t = relay_todo s" "relay_pending t = relay_pending s"
    using same by (simp_all add: relay_todo_def relay_pending_def)
  have run: "rl_running t i" if "i \<in> set (mp_clients (rl_mount t))" for i
    using that others [of i] reg ok by (cases "i = cid") (auto simp: relay_ok_def registry_ok_def)
  then have "registry_ok t" using ok reg same by (auto simp: relay_ok_def registry_ok_def)
  moreover have "thread_ok t = thread_ok s" "frames_ok t = frames_ok s"
    unfolding thread_ok_def frames_ok_def todo same by (rule refl)+
  moreover have "clients_ok t"
    unfolding clients_ok_def
  proof (intro ballI)
    fix i assume "i \<in> set (rl_joined t)"
    then show "rover_ok (rl_sent t) (i \<in> set (relay_todo t)) (rl_wire t i) (rl_written t i) (rl_running t i) (mp_heap (rl_mount t) i)
        \<and> (\<not> rv_done (mp_heap (rl_mount t) i) \<longrightarrow> i \<in> set (mp_clients (rl_mount t)) \<and> rl_running t i)"
      using ok others [of i] own reg(3) todo same
      by (cases "i = cid") (auto simp: relay_ok_def clients_ok_def)
  qed
  ultimately show ?thesis using ok by (simp add: relay_ok_def)
qed

lemma client_of:
  assumes "relay_ok s" "cid \<in> set (rl_joined s)"
  shows "rover_ok (rl_sent s) (cid \<in> set (relay_todo s)) (rl_wire s cid) (rl_written s cid) (rl_running s cid)
      (mp_heap (rl_mount s) cid)"
    "\<not> rv_done (mp_heap (rl_mount s) cid) \<Longrightarrow> cid \<in> set (mp_clients (rl_mount s)) \<and> rl_running s cid"
  using assms by (auto simp: relay_ok_def clients_ok_def)

text \<open>Loops run only for rovers that joined.\<close>

definition runs_joined :: "relay \<Rightarrow> bool" where
  "runs_joined s \<longleftrightarrow> (\<forall>i. rl_running s i \<longrightarrow> i \<in> set (rl_joined s))"

lemma cl_write_ok:
  assumes ok: "relay_ok s" "runs_joined s" and step: "cl_write cid s = Some t"
  shows "relay_ok t"
proof -
  from step obtain p ps where q: "rv_queue (mp_heap (rl_mount s) cid) = p # ps" and run: "rl_running s cid"
    and t: "t = s\<lparr>rl_mount := upd_client cid (\<lambda>c. c\<lparr>rv_queue := ps, rv_BytesOut := rv_BytesOut c + int (length p)\<rparr>) (rl_mount s),
        rl_wire := (rl_wire s)(cid := rl_wire s cid @ p), rl_written := (rl_written s)(cid := rl_written s cid @ [p])\<rparr>"
    by (auto simp: cl_write_def split: list.splits if_splits)
  have joined: "cid \<in> set (rl_joined s)" using ok(2) run by (simp add: runs_joined_def)
  note c = client_of [OF ok(1) joined]
  show ?thesis
    by (rule one_client_ok [OF ok(1), of t cid])
      (use ok c(2) run rover_ok_write [OF c(1) [unfolded run [THEN eqTrueI]] q] in
        \<open>auto simp: t relay_ok_def registry_ok_def\<close>)
qed

lemma cl_write_error_ok:
  assumes ok: "relay_ok s" "runs_joined s" and step: "cl_write_error cid n s = Some t"
  shows "relay_ok t"
proof -
  let ?f = "\<lambda>ps c. KickSlowConsumer (c\<lparr>rv_queue := ps\<rparr>)"
  from step obtain p ps where q: "rv_queue (mp_heap (rl_mount s) cid) = p # ps" and run: "rl_running s cid"
    and t: "t = s\<lparr>rl_mount := RemoveClient cid (upd_client cid (?f ps) (rl_mount s)),
        rl_running := (rl_running s)(cid := False), rl_wire := (rl_wire s)(cid := rl_wire s cid @ take n p)\<rparr>"
    by (auto simp: cl_write_error_def split: list.splits if_splits)
  have joined: "cid \<in> set (rl_joined s)" using ok(2) run by (simp add: runs_joined_def)
  note c = client_of [OF ok(1) joined]
  have m: "mount_ok (upd_client cid (?f ps) (rl_mount s))" using ok(1) by (simp add: relay_ok_defs)
  show ?thesis
    by (rule one_client_ok [OF ok(1), of t cid])
      (use rover_ok_error [OF c(1) [unfolded run [THEN eqTrueI]] q] RemoveClient_fields [OF m] in
        \<open>auto simp: t KickSlowConsumer_def\<close>)
qed

lemma cl_leave_ok:
  assumes ok: "relay_ok s" "runs_joined s" and step: "cl_leave cid s = Some t"
  shows "relay_ok t"
proof -
  from step have run: "rl_running s cid" and don: "rv_done (mp_heap (rl_mount s) cid)"
    and t: "t = s\<lparr>rl_mount := RemoveClient cid (rl_mount s), rl_running := (rl_running s)(cid := False)\<rparr>"
    by (auto simp: cl_leave_def split: if_splits)
  have joined: "cid \<in> set (rl_joined s)" using ok(2) run by (simp add: runs_joined_def)
  note c = client_of [OF ok(1) joined]
  have m: "mount_ok (rl_mount s)" using ok(1) by (simp add: relay_ok_defs)
  show ?thesis
    by (rule one_client_ok [OF ok(1), of t cid])
      (use rover_ok_stop [OF c(1) don] don RemoveClient_fields [OF m] in \<open>auto simp: t\<close>)
qed

lemma cl_hangup_ok:
  assumes ok: "relay_ok s" and step: "cl_hangup cid s = Some t"
  shows "relay_ok t"
proof -
  from step have joined: "cid \<in> set (rl_joined s)"
    and t: "t = s\<lparr>rl_mount := upd_client cid KickSlowConsumer (rl_mount s)\<rparr>"
    by (auto simp: cl_hangup_def split: if_splits)
  note c = client_of [OF ok joined]
  show ?thesis
    by (rule one_client_ok [OF ok, of t cid])
      (use rover_ok_kick [OF c(1)] ok in \<open>auto simp: t KickSlowConsumer_def relay_ok_def registry_ok_def\<close>)
qed

lemma cl_join_ok:
  assumes ok: "relay_ok s" and step: "cl_join cid (client_New uid q now) s = Some t"
  shows "relay_ok t"
proof -
  let ?c = "client_New uid q now"
  from step obtain m where fresh: "cid \<notin> set (rl_joined s)" and m: "AddClient cid ?c (rl_mount s) = Some m"
    and t: "t = s\<lparr>rl_mount := m, rl_running := (rl_running s)(cid := True), rl_wire := (rl_wire s)(cid := []),
        rl_written := (rl_written s)(cid := []), rl_joined := rl_joined s @ [cid]\<rparr>"
    by (auto simp: cl_join_def split: if_splits)
  from fresh ok have new: "cid \<notin> set (mp_clients (rl_mount s))" "cid \<notin> set (relay_todo s)"
    by (auto simp: relay_ok_def registry_ok_def thread_ok_def)
  have "mount_ok m" using ok mount_ok_step [of "rl_mount s" "O_AddClient cid ?c"] m by (simp add: relay_ok_defs)
  moreover have mf: "mp_clients m = mp_clients (rl_mount s) @ [cid]" "mp_heap m = (mp_heap (rl_mount s))(cid := ?c)"
    using m new by (auto simp: AddClient_def count_clients_def rebuildSnapshotLocked_def split: if_splits)
  ultimately have "registry_ok t" using ok by (auto simp: relay_ok_def registry_ok_def t)
  moreover have "thread_ok t" "frames_ok t"
    using ok by (cases "rl_live s"; force simp: relay_ok_def thread_ok_def frames_ok_def t relay_todo_def relay_pending_def)+
  moreover have todo: "relay_todo t = relay_todo s" by (simp add: t relay_todo_def)
  have "clients_ok t"
    unfolding clients_ok_def todo
    using ok new fresh rover_ok_new
    by (auto simp: relay_ok_def clients_ok_def t mf)
  ultimately show ?thesis by (simp add: relay_ok_def)
qed

lemma relay_step_ok:
  assumes ok: "relay_ok s" "runs_joined s" and step: "relay_step cv e s = Some t"
  shows "relay_ok t"
proof (cases e)
  case (E_source sid uid now)
  show ?thesis by (rule src_start_ok [OF ok(1) step [unfolded E_source relay_step.simps]])
next
  case (E_read buf)
  show ?thesis by (rule src_read_ok [OF ok(1) step [unfolded E_read relay_step.simps]])
next
  case (E_packet now)
  show ?thesis by (rule src_packet_ok [OF ok(1) step [unfolded E_packet relay_step.simps]])
next
  case E_send
  show ?thesis by (rule src_send_ok [OF ok(1) step [unfolded E_send relay_step.simps]])
next
  case E_source_end
  show ?thesis by (rule src_end_ok [OF ok(1) step [unfolded E_source_end relay_step.simps]])
next
  case (E_join i u q n)
  show ?thesis by (rule cl_join_ok [OF ok(1) step [unfolded E_join relay_step.simps]])
next
  case (E_write i)
  show ?thesis by (rule cl_write_ok [OF ok step [unfolded E_write relay_step.simps]])
next
  case (E_write_error i n)
  show ?thesis by (rule cl_write_error_ok [OF ok step [unfolded E_write_error relay_step.simps]])
next
  case (E_leave i)
  show ?thesis by (rule cl_leave_ok [OF ok step [unfolded E_leave relay_step.simps]])
next
  case (E_hangup i)
  show ?thesis by (rule cl_hangup_ok [OF ok(1) step [unfolded E_hangup relay_step.simps]])
next
  case (E_outside op)
  then show ?thesis using step outside_ok [OF ok(1), of op] by (auto split: if_splits)
qed

lemma runs_joined_step:
  assumes "runs_joined s" "relay_step cv e s = Some t"
  shows "runs_joined t"
  using assms
  by (cases e)
    (auto simp: runs_joined_def src_start_def src_read_def src_packet_def src_send_def src_end_def cl_join_def
      cl_write_def cl_write_error_def cl_leave_def cl_hangup_def Let_def split_beta
      split: option.splits list.splits if_splits)

lemma relay_run_ok:
  assumes "relay_run cv s es t" "relay_ok s" "runs_joined s"
  shows "relay_ok t \<and> runs_joined t"
  using assms
  by (induction rule: relay_run.induct) (auto dest: relay_step_ok runs_joined_step)

section \<open>A closed rover leaves\<close>

text \<open>The steps a rover's write loop can still take; nothing adds to them once it is closed.\<close>

definition loop_rank :: "string \<Rightarrow> relay \<Rightarrow> nat" where
  "loop_rank cid s = (if rl_running s cid then Suc (length (rv_queue (mp_heap (rl_mount s) cid))) else 0)"

fun loop_event :: "string \<Rightarrow> relay_event \<Rightarrow> bool" where
  "loop_event cid (E_write i) = (i = cid)"
| "loop_event cid (E_write_error i n) = (i = cid)"
| "loop_event cid (E_leave i) = (i = cid)"
| "loop_event cid _ = False"

lemma kicks_only_client:
  "kicks_only K m m' \<Longrightarrow> rv_queue (mp_heap m' i) = rv_queue (mp_heap m i)
     \<and> (rv_done (mp_heap m i) \<longrightarrow> rv_done (mp_heap m' i))"
  by (auto simp: kicks_only_def KickSlowConsumer_def)

lemma SetSource_heap: "source_New sid uid now m = Some m' \<Longrightarrow> mp_heap m' = mp_heap m"
  by (auto simp: source_New_def SetSource_def set_online_def split: if_splits prod.splits)

lemma RemoveClient_heap [simp]: "mp_heap (RemoveClient i m) = mp_heap m"
  by (simp add: RemoveClient_def)

lemma AddClient_heap: "AddClient i c m = Some m' \<Longrightarrow> mp_heap m' = (mp_heap m)(i := c)"
  by (auto simp: AddClient_def count_clients_def rebuildSnapshotLocked_def split: if_splits)

lemma closed_step:
  assumes step: "relay_step cv e s = Some t" and don: "rv_done (mp_heap (rl_mount s) cid)"
    and joined: "cid \<in> set (rl_joined s)"
  shows "rv_done (mp_heap (rl_mount t) cid) \<and> cid \<in> set (rl_joined t)
    \<and> loop_rank cid t + (if loop_event cid e then 1 else 0) \<le> loop_rank cid s"
proof (cases e)
  case (E_outside op)
  then obtain K where "kicks_only K (rl_mount s) (mount_step op (rl_mount s))" "t = s\<lparr>rl_mount := mount_step op (rl_mount s)\<rparr>"
    using step outside_kicks by (auto split: if_splits)
  with kicks_only_client [of K "rl_mount s" _ cid] don joined E_outside show ?thesis by (simp add: loop_rank_def)
next
  case E_source_end
  then obtain th :: source_thread where t: "t = s\<lparr>rl_mount := ClearSource (th_ID th) (rl_mount s), rl_live := None\<rparr>"
    using step by (auto simp: src_end_def split: option.splits if_splits)
  obtain K where "kicks_only K (rl_mount s) (ClearSource (th_ID th) (rl_mount s))" using ClearSource_kicks by blast
  from kicks_only_client [OF this, of cid] don joined E_source_end t show ?thesis by (simp add: loop_rank_def)
next
  case (E_source sid uid now)
  with step don joined SetSource_heap show ?thesis by (auto simp: src_start_def loop_rank_def split: if_splits)
next
  case (E_join i u q n)
  with step don joined AddClient_heap show ?thesis
    by (fastforce simp: cl_join_def loop_rank_def split: if_splits)
next
  case (E_read buf)
  with step don joined show ?thesis by (auto simp: src_read_def loop_rank_def split_beta Let_def split: option.splits if_splits)
next
  case (E_packet now)
  with step don joined show ?thesis by (auto simp: src_packet_def loop_rank_def Let_def split: option.splits list.splits)
next
  case E_send
  with step don joined show ?thesis
    by (auto simp: src_send_def loop_rank_def broadcast_one_heap offered_def split: option.splits list.splits)
next
  case (E_write i)
  with step don joined show ?thesis by (auto simp: cl_write_def loop_rank_def split: list.splits if_splits)
next
  case (E_write_error i n)
  with step don joined show ?thesis
    by (auto simp: cl_write_error_def loop_rank_def KickSlowConsumer_def split: list.splits if_splits)
next
  case (E_leave i)
  with step don joined show ?thesis by (auto simp: cl_leave_def loop_rank_def split: if_splits)
next
  case (E_hangup i)
  with step don joined show ?thesis
    by (auto simp: cl_hangup_def loop_rank_def KickSlowConsumer_def split: if_splits)
qed

lemma closed_run:
  assumes "relay_run cv s es t" "rv_done (mp_heap (rl_mount s) cid)" "cid \<in> set (rl_joined s)"
  shows "rv_done (mp_heap (rl_mount t) cid) \<and> cid \<in> set (rl_joined t)
    \<and> loop_rank cid t + length (filter (loop_event cid) es) \<le> loop_rank cid s"
  using assms
proof (induction rule: relay_run.induct)
  case (run_Cons e s t es u)
  with closed_step [OF run_Cons.hyps(1), of cid] show ?case by (auto split: if_splits)
qed simp

section \<open>Properties\<close>


definition sample_frame :: "byte list" where
  "sample_frame = [0xD3, 0, 1, 7, 1, 2, 3]"

definition empty_point :: mount_point where
  "empty_point = NewMountPoint (\<lambda>i. sample_rover\<lparr>rv_done := True\<rparr>) ''A'' [] ''RTCM3'' 64 3 0"

definition sample_convert :: conversion where
  "sample_convert x y z = Inl ''unused''"

primrec relay_exec :: "conversion \<Rightarrow> relay_event list \<Rightarrow> relay \<Rightarrow> relay option" where
  "relay_exec cv [] s = Some s"
| "relay_exec cv (e # es) s = (case relay_step cv e s of None \<Rightarrow> None | Some t \<Rightarrow> relay_exec cv es t)"

lemma relay_exec_run: "relay_exec cv es s = Some t \<Longrightarrow> relay_run cv s es t"
  by (induction es arbitrary: s) (auto split: option.splits)

definition sample_events :: "relay_event list" where
  "sample_events =
     [E_source ''s'' 0 0, E_join ''c'' 0 8 0, E_read (take 4 sample_frame), E_read (drop 4 sample_frame),
      E_packet 1, E_send, E_send, E_write ''c'']"

definition sample_relay :: relay where
  "sample_relay = the (relay_exec sample_convert sample_events (relay_start empty_point))"

lemma sample_exec:
  "relay_exec sample_convert sample_events (relay_start empty_point) \<noteq> None"
  "rl_wire sample_relay ''c'' = sample_frame" "rl_joined sample_relay = [''c'']"
  "rl_sent sample_relay = [sample_frame]"
  by code_simp+

lemma sample_run: "relay_run sample_convert (relay_start empty_point) sample_events sample_relay"
  using sample_exec(1) by (intro relay_exec_run) (auto simp: sample_relay_def)

lemma empty_point_ok: "mount_ok empty_point" "mp_clients empty_point = []"
  by (simp_all add: empty_point_def mount_ok_new) (simp add: NewMountPoint_def)


text \<open>
  A closed rover goes: after it was closed (kicked as slow, kicked by the administrator, its source gone,
  its connection lost) its write loop takes at most one step per queued packet and one more, whatever the
  rest of the caster does; while the loop has not ended it can end, and once it has the rover is no longer
  registered.
\<close>

theorem closed_rover_leaves:
  assumes "relay_run cv (relay_start m) es s" "mount_ok m" "mp_clients m = []"
    and "cid \<in> set (rl_joined s)" "rv_done (mp_heap (rl_mount s) cid)" "relay_run cv s es' t"
  shows "length (filter (loop_event cid) es') \<le> Suc (length (rv_queue (mp_heap (rl_mount s) cid)))
    \<and> (if rl_running t cid then relay_step cv (E_leave cid) t \<noteq> None else cid \<notin> set (mp_clients (rl_mount t)))"
proof -
  have "runs_joined (relay_start m)" by (simp add: runs_joined_def relay_start_def)
  with relay_run_ok [OF assms(1)] relay_start_ok [OF assms(2,3)] have "relay_ok s" "runs_joined s" by blast+
  with relay_run_ok [OF assms(6)] have "relay_ok t" by blast
  with closed_run [OF assms(6,5,4)] show ?thesis
    by (auto simp: loop_rank_def cl_leave_def relay_ok_def registry_ok_def split: if_splits)
qed

theorem closed_rover_leaves_witness:
  "\<exists>s. relay_run sample_convert (relay_start empty_point) [E_join ''c'' 0 8 0, E_hangup ''c''] s
    \<and> length (filter (loop_event ''c'') []) \<le> Suc (length (rv_queue (mp_heap (rl_mount s) ''c'')))
    \<and> rl_running s ''c'' \<and> relay_step sample_convert (E_leave ''c'') s \<noteq> None"
proof -
  define s where "s = the (relay_exec sample_convert [E_join ''c'' 0 8 0, E_hangup ''c''] (relay_start empty_point))"
  have e: "relay_exec sample_convert [E_join ''c'' 0 8 0, E_hangup ''c''] (relay_start empty_point) \<noteq> None"
    by code_simp
  have f: "rl_joined s = [''c'']" "rv_done (mp_heap (rl_mount s) ''c'')" "rl_running s ''c''"
    unfolding s_def by code_simp+
  have run: "relay_run sample_convert (relay_start empty_point) [E_join ''c'' 0 8 0, E_hangup ''c''] s"
    using e by (intro relay_exec_run) (auto simp: s_def)
  from closed_rover_leaves [OF run empty_point_ok, of "''c''" "[]" s] f run show ?thesis by auto
qed

end
