(* ===== verification/Go_Strings.thy ===== *)
theory Go_Strings
  imports Prelude "HOL-Library.Sublist"
begin

text \<open>
  What the caster uses of Go's \<open>strings\<close>, \<open>bufio\<close> and \<open>encoding/base64\<close>. A Go string is a list of
  bytes. \<open>Fields\<close> and \<open>TrimSpace\<close> see Unicode white space in UTF-8; the first byte of such a rune is
  never a continuation byte, so the rune is recognised by its encoding wherever it starts.
\<close>

section \<open>White space\<close>

abbreviation "nl \<equiv> CHR 0x0A"
abbreviation "cr \<equiv> CHR 0x0D"
abbreviation "crlf \<equiv> [cr, nl]"

text \<open>The encodings of the runes for which \<open>unicode.IsSpace\<close> holds.\<close>

definition wide_spaces :: "string list" where
  "wide_spaces = map utf8_char ([0x85, 0xA0, 0x1680] @ [0x2000 ..< 0x200B] @ [0x2028, 0x2029, 0x202F, 0x205F, 0x3000])"

definition space_runes :: "string list" where
  "space_runes =
     [[CHR 0x09], [CHR 0x0A], [CHR 0x0B], [CHR 0x0C], [CHR 0x0D], [CHR 0x20]] @ wide_spaces"

definition lead :: "string list \<Rightarrow> string \<Rightarrow> nat" where
  "lead rs s = (case find (\<lambda>r. prefix r s) rs of None \<Rightarrow> 0 | Some r \<Rightarrow> length r)"

function strip :: "string list \<Rightarrow> string \<Rightarrow> string" where
  "strip rs s = (if lead rs s = 0 then s else strip rs (drop (lead rs s) s))"
  by pat_completeness auto

lemma lead_le: "lead rs s \<le> length s"
  by (auto simp: lead_def find_Some_iff dest: prefix_length_le split: option.split)

termination strip
proof (relation "measure (\<lambda>(rs, s). length s)", simp)
  fix rs :: "string list" and s :: string
  assume "lead rs s \<noteq> 0"
  with lead_le [of rs s] show "((rs, drop (lead rs s) s), (rs, s)) \<in> measure (\<lambda>(rs, s). length s)"
    by simp
qed

declare strip.simps [simp del]

definition TrimSpace :: "string \<Rightarrow> string" where
  "TrimSpace s = rev (strip (map rev space_runes) (rev (strip space_runes s)))"

definition TrimRight :: "string \<Rightarrow> string \<Rightarrow> string" where
  "TrimRight s cutset = rev (dropWhile (\<lambda>c. c \<in> set cutset) (rev s))"

definition TrimPrefix :: "string \<Rightarrow> string \<Rightarrow> string" where
  "TrimPrefix s p = (if prefix p s then drop (length p) s else s)"

text \<open>The bytes before the next white space.\<close>

fun word_of :: "string \<Rightarrow> string" where
  "word_of [] = []"
| "word_of (c # cs) = (if lead space_runes (c # cs) = 0 then c # word_of cs else [])"

lemma length_word_of: "length (word_of s) \<le> length s"
  by (induction s) auto

lemma length_strip: "length (strip rs s) \<le> length s"
  by (induction rs s rule: strip.induct) (subst strip.simps, auto)

lemma lead_strip: "lead rs (strip rs s) = 0"
  by (induction rs s rule: strip.induct) (subst strip.simps, auto)

lemma word_of_nonempty: "lead space_runes s = 0 \<Longrightarrow> s \<noteq> [] \<Longrightarrow> word_of s \<noteq> []"
  by (cases s) auto

function Fields :: "string \<Rightarrow> string list" where
  "Fields s =
     (let t = strip space_runes s in
      if t = [] then [] else word_of t # Fields (drop (length (word_of t)) t))"
  by pat_completeness auto
termination Fields
proof (relation "measure length", simp)
  fix s t :: string
  assume "t = strip space_runes s" "t \<noteq> []"
  with lead_strip [of space_runes s] have "word_of t \<noteq> []" "length t \<le> length s" "t \<noteq> []"
    using word_of_nonempty [of t] length_strip [of space_runes s] by auto
  then show "(drop (length (word_of t)) t, s) \<in> measure length"
    by (cases "word_of t"; cases t) auto
qed

declare Fields.simps [simp del]

section \<open>Plain text\<close>

text \<open>Visible ASCII: no byte starts or ends a white-space rune.\<close>

definition graphic :: "char \<Rightarrow> bool" where
  "graphic c \<longleftrightarrow> 33 \<le> (of_char c :: nat) \<and> (of_char c :: nat) \<le> 126"

abbreviation "visible s \<equiv> list_all graphic s"

lemma space_runes_bytes:
  "list_all (\<lambda>r. r \<noteq> [] \<and> \<not> graphic (hd r) \<and> \<not> graphic (last r)) space_runes"
  by (simp add: space_runes_def wide_spaces_def utf8_char_def graphic_def upt_rec)

lemma lead_graphic: "graphic c \<Longrightarrow> lead space_runes (c # s) = 0"
  using space_runes_bytes
  by (auto simp: lead_def find_Some_iff list_all_iff prefix_Cons split: option.split)
    (metis list.sel(1) nth_mem)

lemma lead_rev_graphic: "graphic c \<Longrightarrow> lead (map rev space_runes) (c # s) = 0"
proof -
  assume c: "graphic c"
  have "\<not> prefix r (c # s)" if "r \<in> set (map rev space_runes)" for r
  proof
    assume "prefix r (c # s)"
    moreover from that obtain q where "q \<in> set space_runes" "r = rev q" by auto
    ultimately show False
      using space_runes_bytes c by (auto simp: list_all_iff prefix_Cons hd_rev [symmetric])
  qed
  then have "find (\<lambda>r. prefix r (c # s)) (map rev space_runes) = None" by (simp add: find_None_iff)
  then show ?thesis by (simp add: lead_def)
qed

lemma lead_Nil [simp]: "lead space_runes [] = 0" "lead (map rev space_runes) [] = 0"
  using space_runes_bytes by (auto simp: lead_def find_Some_iff list_all_iff split: option.split)

lemma lead_blank: "lead space_runes (CHR '' '' # s) = 1" "lead space_runes (nl # s) = 1" "lead space_runes (cr # s) = 1"
  by (simp_all add: lead_def space_runes_def)

lemma strip_graphic: "graphic c \<Longrightarrow> strip space_runes (c # s) = c # s"
  by (simp add: strip.simps lead_graphic)

lemma strip_rev_graphic: "graphic c \<Longrightarrow> strip (map rev space_runes) (c # s) = c # s"
  by (simp add: strip.simps lead_rev_graphic)

lemma strip_Nil [simp]: "strip space_runes [] = []" "strip (map rev space_runes) [] = []"
  by (simp_all add: strip.simps)

lemma strip_blank: "strip space_runes (CHR '' '' # s) = strip space_runes s"
  by (subst strip.simps) (simp add: lead_blank)

lemma TrimSpace_plain: "s = [] \<or> graphic (hd s) \<and> graphic (last s) \<Longrightarrow> TrimSpace s = s"
proof (cases "s = []")
  case False
  assume "s = [] \<or> graphic (hd s) \<and> graphic (last s)"
  with False have g: "graphic (hd s)" "graphic (hd (rev s))" by (simp_all add: hd_rev)
  have "strip space_runes s = s" using strip_graphic [OF g(1), of "tl s"] False by simp
  moreover have "strip (map rev space_runes) (rev s) = rev s"
    using strip_rev_graphic [OF g(2), of "tl (rev s)"] False by simp
  ultimately show ?thesis by (simp add: TrimSpace_def)
qed (simp add: TrimSpace_def)

lemma word_of_visible:
  "visible w \<Longrightarrow> s = [] \<or> lead space_runes s \<noteq> 0 \<Longrightarrow> word_of (w @ s) = w"
proof (induction w)
  case Nil
  then show ?case by (cases s) auto
qed (simp add: lead_graphic)

lemma Fields_Nil [simp]: "Fields [] = []"
  by (simp add: Fields.simps)

lemma Fields_blank: "Fields (CHR '' '' # s) = Fields s"
  by (subst (1 2) Fields.simps) (simp add: strip_blank)

lemma Fields_word:
  assumes "visible w" "w \<noteq> []"
  shows "Fields w = [w]" "Fields (w @ CHR '' '' # s) = w # Fields s"
proof -
  have "strip space_runes (w @ t) = w @ t" for t
    using assms strip_graphic [of "hd w" "tl w @ t"] by (cases w) auto
  note keep = this this [of "[]", simplified]
  show "Fields w = [w]"
    using assms word_of_visible [of w "[]"] by (simp add: Fields.simps [of w] keep)
  show "Fields (w @ CHR '' '' # s) = w # Fields s"
    using assms word_of_visible [of w "CHR '' '' # s"]
    by (simp add: Fields.simps [of "w @ CHR '' '' # s"] keep lead_blank Fields_blank)
qed

lemma TrimRight_crlf:
  assumes "set s \<inter> set crlf = {}"
  shows "TrimRight (s @ crlf) crlf = s" "TrimRight crlf crlf = []"
proof -
  have "dropWhile (\<lambda>c. c \<in> set crlf) (rev s) = rev s"
    using assms by (cases s rule: rev_cases) auto
  then show "TrimRight (s @ crlf) crlf = s" "TrimRight crlf crlf = []" by (simp_all add: TrimRight_def)
qed

section \<open>Buffered reading\<close>

text \<open>
  \<open>bufio.Reader.ReadString('\<open>\\n\<close>')\<close>: the reader holds the bytes it has buffered and the results of
  the reads to come, after which the connection ends (or its deadline passes). \<open>None\<close> is the error.
\<close>

definition split_line :: "string \<Rightarrow> (string \<times> string) option" where
  "split_line buf =
     (if nl \<in> set buf then Some (takeWhile (\<lambda>c. c \<noteq> nl) buf @ [nl], tl (dropWhile (\<lambda>c. c \<noteq> nl) buf)) else None)"

fun ReadString :: "string \<Rightarrow> string list \<Rightarrow> (string \<times> string \<times> string list) option" where
  "ReadString buf [] = map_option (\<lambda>(l, r). (l, r, [])) (split_line buf)"
| "ReadString buf (c # cs) =
     (case split_line buf of Some (l, r) \<Rightarrow> Some (l, r, c # cs) | None \<Rightarrow> ReadString (buf @ c) cs)"

lemma split_line_append:
  "split_line (buf @ s) =
     (case split_line buf of Some (l, r) \<Rightarrow> Some (l, r @ s)
      | None \<Rightarrow> map_option (\<lambda>(l, r). (buf @ l, r)) (split_line s))"
proof (cases "nl \<in> set buf")
  case True
  then have "dropWhile (\<lambda>c. c \<noteq> nl) buf \<noteq> []" by (simp add: dropWhile_eq_Nil_conv)
  with True show ?thesis
    by (auto simp: split_line_def takeWhile_append1 dropWhile_append1)
next
  case False
  then have "\<forall>c \<in> set buf. c \<noteq> nl" by auto
  with False show ?thesis by (simp add: split_line_def takeWhile_append2 dropWhile_append2)
qed

text \<open>How the bytes were cut into reads does not matter.\<close>

lemma ReadString_flat:
  "map_option (\<lambda>(l, b, cs). (l, b @ concat cs)) (ReadString buf reads) = split_line (buf @ concat reads)"
proof (induction buf reads rule: ReadString.induct)
  case (2 buf c cs)
  then show ?case by (cases "split_line buf") (auto simp: split_line_append [of buf])
qed (auto simp: option.map_comp comp_def case_prod_beta option.map_ident)

lemma split_line_length: "split_line s = Some (l, r) \<Longrightarrow> length r < length s"
  by (induction s arbitrary: l r) (auto simp: split_line_def split: if_splits)

lemma ReadString_length:
  "ReadString buf reads = Some (l, b, cs) \<Longrightarrow> length (b @ concat cs) < length (buf @ concat reads)"
  using ReadString_flat [of buf reads] by (auto dest: split_line_length [OF sym])

lemma split_line_crlf: "nl \<notin> set s \<Longrightarrow> split_line (s @ crlf @ t) = Some (s @ crlf, t)"
  by (induction s) (auto simp: split_line_def)

section \<open>Base64\<close>

text \<open>\<open>base64.StdEncoding\<close>: the decoder skips line ends, asks for the padding and does not look at the spare bits.\<close>

definition b64_char :: "nat \<Rightarrow> char" where
  "b64_char n =
     char_of (if n < 26 then n + 65 else if n < 52 then n + 71 else if n < 62 then n - 4 else if n = 62 then 43 else 47)"

definition b64_val :: "char \<Rightarrow> nat option" where
  "b64_val c =
     (let n = (of_char c :: nat) in
      if 65 \<le> n \<and> n \<le> 90 then Some (n - 65) else if 97 \<le> n \<and> n \<le> 122 then Some (n - 71)
      else if 48 \<le> n \<and> n \<le> 57 then Some (n + 4) else if n = 43 then Some 62 else if n = 47 then Some 63 else None)"

fun EncodeToString :: "string \<Rightarrow> string" where
  "EncodeToString [] = []"
| "EncodeToString [a] =
     (let v = of_char a * 65536 in [b64_char (v div 262144 mod 64), b64_char (v div 4096 mod 64), CHR ''='', CHR ''=''])"
| "EncodeToString [a, b] =
     (let v = of_char a * 65536 + of_char b * 256
      in [b64_char (v div 262144 mod 64), b64_char (v div 4096 mod 64), b64_char (v div 64 mod 64), CHR ''=''])"
| "EncodeToString (a # b # c # s) =
     (let v = of_char a * 65536 + of_char b * 256 + of_char c
      in b64_char (v div 262144 mod 64) # b64_char (v div 4096 mod 64) # b64_char (v div 64 mod 64)
         # b64_char (v mod 64) # EncodeToString s)"

definition b64_bytes :: "nat \<Rightarrow> nat \<Rightarrow> nat \<Rightarrow> nat \<Rightarrow> string" where
  "b64_bytes i j k l =
     (let v = i * 262144 + j * 4096 + k * 64 + l
      in [char_of (v div 65536 mod 256), char_of (v div 256 mod 256), char_of (v mod 256)])"

fun b64_quanta :: "string \<Rightarrow> string option" where
  "b64_quanta [] = Some []"
| "b64_quanta (a # b # c # d # s) =
     (case (b64_val a, b64_val b) of
        (Some i, Some j) \<Rightarrow>
          if c = CHR ''='' then (if d = CHR ''='' \<and> s = [] then Some (take 1 (b64_bytes i j 0 0)) else None)
          else (case b64_val c of None \<Rightarrow> None
            | Some k \<Rightarrow>
                if d = CHR ''='' then (if s = [] then Some (take 2 (b64_bytes i j k 0)) else None)
                else (case b64_val d of None \<Rightarrow> None
                  | Some l \<Rightarrow> map_option (\<lambda>r. b64_bytes i j k l @ r) (b64_quanta s)))
      | _ \<Rightarrow> None)"
| "b64_quanta _ = None"

definition DecodeString :: "string \<Rightarrow> string option" where
  "DecodeString s = b64_quanta (filter (\<lambda>c. c \<notin> set crlf) s)"

lemma b64_char_code: "n < 64 \<Longrightarrow> (of_char (b64_char n) :: nat) =
    (if n < 26 then n + 65 else if n < 52 then n + 71 else if n < 62 then n - 4 else if n = 62 then 43 else 47)"
  by (simp add: b64_char_def)

lemma b64_val_char: "n < 64 \<Longrightarrow> b64_val (b64_char n) = Some n"
  by (auto simp: b64_val_def b64_char_code Let_def split: if_splits)

lemma b64_char_plain:
  assumes "n < 64"
  shows "b64_char n \<noteq> CHR ''=''" "graphic (b64_char n)"
proof -
  have "(of_char (b64_char n) :: nat) \<noteq> of_char CHR ''=''" using assms by (simp add: b64_char_code; arith)
  then show "b64_char n \<noteq> CHR ''=''" by auto
  show "graphic (b64_char n)" using assms by (simp add: graphic_def b64_char_code; arith)
qed

lemma digits64:
  assumes "v < 16777216"
  shows "v div 262144 mod 64 * 262144 + v div 4096 mod 64 * 4096 + v div 64 mod 64 * 64 + v mod 64 = (v :: nat)"
proof -
  have "v div 262144 mod 64 = v div 262144" using assms by (simp add: less_mult_imp_div_less)
  moreover have "v div 64 = v div 4096 * 64 + v div 64 mod 64"
    using div_mult_mod_eq [of "v div 64" 64] by (simp add: div_mult2_eq [symmetric])
  moreover have "v div 4096 = v div 262144 * 64 + v div 4096 mod 64"
    using div_mult_mod_eq [of "v div 4096" 64] by (simp add: div_mult2_eq [symmetric])
  moreover have "v = v div 64 * 64 + v mod 64" by simp
  ultimately show ?thesis by linarith
qed

lemma b64_bytes_digits:
  assumes "v < 16777216"
  shows "b64_bytes (v div 262144 mod 64) (v div 4096 mod 64) (v div 64 mod 64) (v mod 64) =
     [char_of (v div 65536 mod 256), char_of (v div 256 mod 256), char_of (v mod 256)]"
  unfolding b64_bytes_def digits64 [OF assms] Let_def ..

lemma char_lt: "(of_char c :: nat) < 256"
  using of_char_mod_256 [of c, where ?'a = nat] mod_less_divisor [of 256 "of_char c :: nat"] by simp

lemma base256:
  assumes "a < 256" "b < 256" "c < (256 :: nat)"
  shows "(a * 65536 + b * 256 + c) div 65536 mod 256 = a" "(a * 65536 + b * 256 + c) div 256 mod 256 = b"
    "(a * 65536 + b * 256 + c) mod 256 = c"
proof -
  let ?v = "a * 65536 + b * 256 + c"
  have v: "?v = c + 256 * (a * 256 + b)" by simp
  have q: "?v div 256 = a * 256 + b" unfolding v using assms by simp
  have "?v div 65536 = ?v div 256 div 256" by (simp add: div_mult2_eq [symmetric])
  also have "\<dots> = a" unfolding q using assms by simp
  finally show "?v div 65536 mod 256 = a" using assms by simp
  show "?v div 256 mod 256 = b" unfolding q using assms by simp
  show "?v mod 256 = c" unfolding v mod_mult_self2 using assms(3) by (rule mod_less)
qed

lemma b64_bytes_chars:
  fixes a b c :: char
  defines "v \<equiv> of_char a * 65536 + of_char b * 256 + of_char c"
  shows "b64_bytes (v div 262144 mod 64) (v div 4096 mod 64) (v div 64 mod 64) (v mod 64) = [a, b, c]"
proof -
  note lt = char_lt [of a] char_lt [of b] char_lt [of c]
  have v: "v < 16777216" using lt unfolding v_def by linarith
  have "v div 65536 mod 256 = of_char a" "v div 256 mod 256 = of_char b" "v mod 256 = of_char c"
    unfolding v_def using base256 [OF lt] by simp_all
  then show ?thesis unfolding b64_bytes_digits [OF v] by simp
qed

lemma b64_round: "b64_quanta (EncodeToString s) = Some s"
proof (induction s rule: EncodeToString.induct)
  case (2 a)
  then show ?case
    using b64_bytes_chars [of a "CHR 0x00" "CHR 0x00"] by (simp add: Let_def b64_val_char)
next
  case (3 a b)
  then show ?case
    using b64_bytes_chars [of a b "CHR 0x00"] by (simp add: Let_def b64_val_char b64_char_plain)
next
  case (4 a b c s)
  then show ?case
    using b64_bytes_chars [of a b c] by (simp add: Let_def b64_val_char b64_char_plain)
qed simp

lemma Encode_plain: "list_all (\<lambda>c. graphic c) (EncodeToString s)"
  by (induction s rule: EncodeToString.induct) (simp_all add: Let_def b64_char_plain graphic_def [of "CHR ''=''"])

lemma graphic_not_line: "graphic c \<Longrightarrow> c \<notin> set crlf"
  by (auto simp: graphic_def)

lemma Decode_Encode: "DecodeString (EncodeToString s) = Some s"
proof -
  have "filter (\<lambda>c. c \<notin> set crlf) (EncodeToString s) = EncodeToString s"
    using Encode_plain [of s] graphic_not_line by (auto simp: filter_id_conv list_all_iff)
  then show ?thesis by (simp add: DecodeString_def b64_round)
qed

end
