(* ===== verification/Ntrip_Protocol.thy ===== *)
theory Ntrip_Protocol
  imports Go_Strings
begin

text \<open>
  The NTRIP request: \<open>internal/caster/protocol.go\<close> and \<open>internal/auth/auth.go\<close>, and the two programs of
  the repository that write requests, \<open>cmd/simbase\<close> and \<open>cmd/simrover\<close>. A connection is the bytes its
  reader has buffered and the results of its reads to come; \<open>err\<close> is the text of the error with which
  reading ends. Parsing returns what is left of both, because the caster goes on with the connection and
  drops the reader.
\<close>

section \<open>Parsing a request\<close>

datatype request_type =
  RequestUnknown | RequestSourcetable | RequestRover | RequestSourceRev1 | RequestSourceRev2

record ntrip_request =
  rq_Type :: request_type
  rq_MountPoint :: string
  rq_Password :: string
  rq_Headers :: "string \<rightharpoonup> string"
  rq_Proto :: string

text \<open>One header line, without its line end: a line without a colon is skipped.\<close>

definition header_line :: "string \<Rightarrow> (string \<rightharpoonup> string) \<Rightarrow> (string \<rightharpoonup> string)" where
  "header_line line headers =
     (if CHR '':'' \<notin> set line then headers
      else headers(TrimSpace (takeWhile (\<lambda>c. c \<noteq> CHR '':'') line) \<mapsto>
                   TrimSpace (tl (dropWhile (\<lambda>c. c \<noteq> CHR '':'') line))))"

function readHeaders ::
  "string \<Rightarrow> string \<Rightarrow> string list \<Rightarrow> (string \<rightharpoonup> string) \<Rightarrow> string + ((string \<rightharpoonup> string) \<times> string \<times> string list)" where
  "readHeaders err buf reads headers =
     (case ReadString buf reads of
        None \<Rightarrow> Inl (''read header: '' @ err)
      | Some (line, buf', reads') \<Rightarrow>
          if TrimRight line crlf = [] then Inr (headers, buf', reads')
          else readHeaders err buf' reads' (header_line (TrimRight line crlf) headers))"
  by pat_completeness auto
termination readHeaders
  by (relation "measure (\<lambda>(err, buf, reads, headers). length (buf @ concat reads))")
    (simp, use ReadString_length in fastforce)

declare readHeaders.simps [simp del]

definition ParseRequest :: "string \<Rightarrow> string \<Rightarrow> string list \<Rightarrow> string + (ntrip_request \<times> string \<times> string list)" where
  "ParseRequest err buf reads =
     (case ReadString buf reads of
        None \<Rightarrow> Inl (''read request line: '' @ err)
      | Some (line, buf', reads') \<Rightarrow>
          let parts = Fields (TrimRight line crlf);
              finish = (\<lambda>req. map_sum id (\<lambda>(h, b, r). (req\<lparr>rq_Headers := h\<rparr>, b, r)) (readHeaders err buf' reads' Map.empty));
              req0 = \<lparr>rq_Type = RequestUnknown, rq_MountPoint = [], rq_Password = [], rq_Headers = Map.empty, rq_Proto = []\<rparr>;
              proto = (if 3 \<le> length parts then parts ! 2 else [])
          in if length parts < 1 then Inl ''empty request line''
             else if parts ! 0 = ''GET'' then
               (if length parts < 2 then Inl ''malformed GET request''
                else let path = parts ! 1
                  in if path = ''/'' then finish (req0\<lparr>rq_Type := RequestSourcetable, rq_Proto := proto\<rparr>)
                     else finish (req0\<lparr>rq_Type := RequestRover, rq_MountPoint := TrimPrefix path ''/'', rq_Proto := proto\<rparr>))
             else if parts ! 0 = ''SOURCE'' then
               (if length parts < 3 then Inl ''malformed SOURCE request''
                else finish (req0\<lparr>rq_Type := RequestSourceRev1, rq_Password := parts ! 1,
                                  rq_MountPoint := TrimPrefix (parts ! 2) ''/''\<rparr>))
             else if parts ! 0 = ''POST'' then
               (if length parts < 2 then Inl ''malformed POST request''
                else finish (req0\<lparr>rq_Type := RequestSourceRev2, rq_MountPoint := TrimPrefix (parts ! 1) ''/'',
                                  rq_Proto := proto\<rparr>))
             else Inl (''unsupported method: '' @ parts ! 0))"

section \<open>Basic authentication\<close>

definition ParseBasicAuth :: "string \<Rightarrow> (string \<times> string) option" where
  "ParseBasicAuth authHeader =
     (if \<not> prefix ''Basic '' authHeader then None
      else case DecodeString (drop 6 authHeader) of
        None \<Rightarrow> None
      | Some decoded \<Rightarrow>
          if CHR '':'' \<notin> set decoded then None
          else Some (takeWhile (\<lambda>c. c \<noteq> CHR '':'') decoded, tl (dropWhile (\<lambda>c. c \<noteq> CHR '':'') decoded)))"

section \<open>The requests the simulators write\<close>

definition credentials :: "string \<Rightarrow> string \<Rightarrow> string" where
  "credentials user pass =
     (if user = [] then [] else ''Authorization: Basic '' @ EncodeToString (user @ '':'' @ pass) @ crlf)"

definition sendSourceRequest :: "int \<Rightarrow> string \<Rightarrow> string \<Rightarrow> string \<Rightarrow> string option" where
  "sendSourceRequest version mount user pass =
     (if version = 1 then Some (''SOURCE '' @ pass @ '' /'' @ mount @ crlf @ crlf)
      else if version = 2
      then Some (''POST /'' @ mount @ '' HTTP/1.1'' @ crlf @ ''Host: localhost'' @ crlf @ ''Ntrip-Version: Ntrip/2.0'' @ crlf
                 @ ''Transfer-Encoding: chunked'' @ crlf @ credentials user pass @ crlf)
      else None)"

definition sendRoverRequest :: "string \<Rightarrow> string \<Rightarrow> string \<Rightarrow> string" where
  "sendRoverRequest mount user pass =
     ''GET /'' @ mount @ '' HTTP/1.1'' @ crlf @ ''Host: localhost'' @ crlf @ ''Ntrip-Version: Ntrip/2.0'' @ crlf
     @ ''User-Agent: NTRIP simrover/1.0'' @ crlf @ credentials user pass @ crlf"

section \<open>Reading ends where the headers end\<close>

text \<open>\<open>readHeaders\<close> on the bytes as a whole.\<close>

function flat_headers :: "string \<Rightarrow> (string \<rightharpoonup> string) \<Rightarrow> ((string \<rightharpoonup> string) \<times> string) option" where
  "flat_headers s headers =
     (case split_line s of
        None \<Rightarrow> None
      | Some (line, r) \<Rightarrow>
          if TrimRight line crlf = [] then Some (headers, r)
          else flat_headers r (header_line (TrimRight line crlf) headers))"
  by pat_completeness auto
termination flat_headers
  by (relation "measure (\<lambda>(s, h). length s)") (auto dest: split_line_length)

declare flat_headers.simps [simp del]

definition flatten :: "'e + ('a \<times> string \<times> string list) \<Rightarrow> ('a \<times> string) option" where
  "flatten x = (case x of Inl e \<Rightarrow> None | Inr (a, buf, reads) \<Rightarrow> Some (a, buf @ concat reads))"

lemma readHeaders_flat:
  "flatten (readHeaders err buf reads h) = flat_headers (buf @ concat reads) h"
proof (induction err buf reads h rule: readHeaders.induct)
  case (1 err buf reads h)
  note flat = ReadString_flat [of buf reads]
  show ?case
  proof (cases "ReadString buf reads")
    case None
    then have "split_line (buf @ concat reads) = None" using flat by simp
    with None show ?thesis by (simp add: readHeaders.simps [of err buf] flat_headers.simps [of "buf @ _"] flatten_def)
  next
    case (Some t)
    then obtain line b r where t: "ReadString buf reads = Some (line, b, r)" by (cases t) auto
    then have s: "split_line (buf @ concat reads) = Some (line, b @ concat r)" using flat by simp
    show ?thesis
    proof (cases "TrimRight line crlf = []")
      case True
      with t s show ?thesis
        by (simp add: readHeaders.simps [of err buf] flat_headers.simps [of "buf @ _"] flatten_def)
    next
      case False
      then have "flatten (readHeaders err b r (header_line (TrimRight line crlf) h))
          = flat_headers (b @ concat r) (header_line (TrimRight line crlf) h)"
        using 1 [OF t refl refl] by simp
      with t s False show ?thesis
        by (simp add: readHeaders.simps [of err buf] flat_headers.simps [of "buf @ _"])
    qed
  qed
qed

text \<open>A request, whole: the request line \<open>line\<close> with its fields, then the headers.\<close>

definition request_of :: "string list \<Rightarrow> ntrip_request option" where
  "request_of parts =
     (let req0 = \<lparr>rq_Type = RequestUnknown, rq_MountPoint = [], rq_Password = [], rq_Headers = Map.empty, rq_Proto = []\<rparr>;
          proto = (if 3 \<le> length parts then parts ! 2 else [])
      in case parts of
           m # p # rest \<Rightarrow>
             if m = ''GET'' then Some (if p = ''/'' then req0\<lparr>rq_Type := RequestSourcetable, rq_Proto := proto\<rparr>
                 else req0\<lparr>rq_Type := RequestRover, rq_MountPoint := TrimPrefix p ''/'', rq_Proto := proto\<rparr>)
             else if m = ''SOURCE'' then (case rest of [] \<Rightarrow> None
                 | q # _ \<Rightarrow> Some (req0\<lparr>rq_Type := RequestSourceRev1, rq_Password := p, rq_MountPoint := TrimPrefix q ''/''\<rparr>))
             else if m = ''POST''
             then Some (req0\<lparr>rq_Type := RequestSourceRev2, rq_MountPoint := TrimPrefix p ''/'', rq_Proto := proto\<rparr>)
             else None
         | _ \<Rightarrow> None)"

lemma flatten_finish:
  "flatten (map_sum id (\<lambda>(h, y). (f h, y)) x) = map_option (\<lambda>(h, s). (f h, s)) (flatten x)"
  by (cases x) (auto simp: flatten_def)

lemma flatten_Inl [simp]: "flatten (Inl e) = None"
  by (simp add: flatten_def)

lemma ParseRequest_flat:
  "flatten (ParseRequest err buf reads) =
     (case split_line (buf @ concat reads) of None \<Rightarrow> None
      | Some (line, s) \<Rightarrow>
          (case request_of (Fields (TrimRight line crlf)) of None \<Rightarrow> None
           | Some req \<Rightarrow> map_option (\<lambda>(h, t). (req\<lparr>rq_Headers := h\<rparr>, t)) (flat_headers s Map.empty)))"
proof (cases "ReadString buf reads")
  case None
  then show ?thesis using ReadString_flat [of buf reads] by (simp add: ParseRequest_def flatten_def)
next
  case (Some t)
  then obtain line b r where t: "ReadString buf reads = Some (line, b, r)" by (cases t) auto
  then have s: "split_line (buf @ concat reads) = Some (line, b @ concat r)"
    using ReadString_flat [of buf reads] by simp
  define parts where "parts = Fields (TrimRight line crlf)"
  note flat = readHeaders_flat [of err b r Map.empty]
  show ?thesis
  proof (cases parts rule: remdups_adj.cases)
    case (3 m p rest)
    then show ?thesis
      unfolding ParseRequest_def t s option.case prod.case Let_def parts_def [symmetric]
      by (cases "m = ''GET''"; cases "p = ''/''"; cases "m = ''SOURCE''"; cases "m = ''POST''"; cases rest)
        (simp_all add: request_of_def flatten_finish flat Let_def)
  qed (simp_all add: ParseRequest_def t s Let_def parts_def [symmetric] request_of_def)
qed

section \<open>What the simulators write is what the caster reads\<close>

lemma flat_headers_end: "flat_headers (crlf @ t) h = Some (h, t)"
  using split_line_crlf [of "[]" t] TrimRight_crlf(2) [of "[]"]
  by (simp add: flat_headers.simps [of "cr # nl # t"])

lemma flat_headers_line:
  assumes "set line \<inter> set crlf = {}" "line \<noteq> []"
  shows "flat_headers (line @ crlf @ t) h = flat_headers t (header_line line h)"
proof -
  have "split_line (line @ crlf @ t) = Some (line @ crlf, t)"
    using assms by (intro split_line_crlf) auto
  then show ?thesis
    using assms TrimRight_crlf(1) [of line]
    by (simp add: flat_headers.simps [of "line @ _"])
qed

lemma around_sep:
  "c \<notin> set s \<Longrightarrow> takeWhile (\<lambda>x. x \<noteq> c) (s @ c # t) = s"
  "c \<notin> set s \<Longrightarrow> tl (dropWhile (\<lambda>x. x \<noteq> c) (s @ c # t)) = t"
  by (induction s) auto

lemma header_line_pair:
  assumes "visible k" "CHR '':'' \<notin> set k" "v = [] \<or> graphic (hd v) \<and> graphic (last v)"
  shows "header_line (k @ '': '' @ v) h = h(k \<mapsto> v)"
proof -
  have "TrimSpace (CHR '' '' # v) = v"
    using TrimSpace_plain [OF assms(3)] by (simp add: TrimSpace_def strip_blank)
  moreover have "TrimSpace k = k"
    using assms(1) by (intro TrimSpace_plain) (cases k, auto simp: list_all_iff)
  ultimately show ?thesis
    using assms(2) by (simp add: header_line_def around_sep)
qed

lemma flat_headers_pair:
  assumes "visible k" "CHR '':'' \<notin> set k" "v = [] \<or> graphic (hd v) \<and> graphic (last v)"
    "set v \<inter> set crlf = {}"
  shows "flat_headers (k @ '': '' @ v @ crlf @ t) h = flat_headers t (h(k \<mapsto> v))"
proof -
  have "set k \<inter> set crlf = {}" using assms(1) graphic_not_line by (auto simp: list_all_iff)
  with assms(4) have "set (k @ '': '' @ v) \<inter> set crlf = {}" by auto
  from flat_headers_line [OF this, of t h] header_line_pair [OF assms(1-3), of h] show ?thesis by simp
qed

lemma ParseBasicAuth_credentials:
  assumes "CHR '':'' \<notin> set user"
  shows "ParseBasicAuth (''Basic '' @ EncodeToString (user @ '':'' @ pass)) = Some (user, pass)"
  using assms by (simp add: ParseBasicAuth_def Decode_Encode around_sep)

lemma Encode_nonempty: "s \<noteq> [] \<Longrightarrow> EncodeToString s \<noteq> []"
  by (cases s rule: EncodeToString.cases) (simp_all add: Let_def)

lemma basic_value:
  assumes "s \<noteq> []"
  defines "v \<equiv> ''Basic '' @ EncodeToString s"
  shows "v = [] \<or> graphic (hd v) \<and> graphic (last v)" "set v \<inter> set crlf = {}"
proof -
  have g: "\<forall>c \<in> set (EncodeToString s). graphic c" using Encode_plain [of s] by (simp add: list_all_iff)
  have "last v = last (EncodeToString s)" "EncodeToString s \<noteq> []"
    using Encode_nonempty [OF assms(1)] by (simp_all add: v_def)
  with g show "v = [] \<or> graphic (hd v) \<and> graphic (last v)"
    by (auto simp: v_def graphic_def [of "CHR ''B''"])
  show "set v \<inter> set crlf = {}" using g graphic_not_line by (auto simp: v_def)
qed

lemma flat_credentials:
  assumes "CHR '':'' \<notin> set user" "h ''Authorization'' = None"
  shows "\<exists>h'. flat_headers (credentials user pass @ crlf @ t) h = Some (h', t)
    \<and> Option.bind (h' ''Authorization'') ParseBasicAuth = (if user = [] then None else Some (user, pass))"
proof (cases "user = []")
  case True
  with assms(2) show ?thesis using flat_headers_end [of t h] by (simp add: credentials_def)
next
  case False
  let ?v = "''Basic '' @ EncodeToString (user @ '':'' @ pass)"
  have "flat_headers (''Authorization'' @ '': '' @ ?v @ crlf @ crlf @ t) h
      = flat_headers (crlf @ t) (h(''Authorization'' \<mapsto> ?v))"
    by (rule flat_headers_pair) (use basic_value [of "user @ '':'' @ pass"] in \<open>simp_all add: graphic_def\<close>)
  with False ParseBasicAuth_credentials [OF assms(1), of pass] flat_headers_end [of t] show ?thesis
    by (simp add: credentials_def)
qed

lemma request_line:
  assumes "request_of (Fields line) = Some req" "set line \<inter> set crlf = {}" "concat reads = line @ crlf @ s"
  shows "flatten (ParseRequest err [] reads) =
    map_option (\<lambda>(h, t). (req\<lparr>rq_Headers := h\<rparr>, t)) (flat_headers s Map.empty)"
proof -
  have "split_line (line @ crlf @ s) = Some (line @ crlf, s)"
    using assms(2) by (intro split_line_crlf) auto
  then show ?thesis
    using assms TrimRight_crlf(1) [OF assms(2)] by (simp add: ParseRequest_flat)
qed

lemma visible_lines: "visible s \<Longrightarrow> set s \<inter> set crlf = {}"
  using graphic_not_line by (auto simp: list_all_iff)

lemma fields3:
  assumes "visible a" "a \<noteq> []" "visible b" "b \<noteq> []" "visible c" "c \<noteq> []"
  shows "Fields (a @ CHR '' '' # b @ CHR '' '' # c) = [a, b, c]"
  using assms by (simp add: Fields_word)

definition plain_header :: "string \<times> string \<Rightarrow> bool" where
  "plain_header = (\<lambda>(k, v). visible k \<and> CHR '':'' \<notin> set k \<and> (v = [] \<or> graphic (hd v) \<and> graphic (last v))
     \<and> set v \<inter> set crlf = {} \<and> k \<noteq> ''Authorization'')"

definition header_text :: "(string \<times> string) list \<Rightarrow> string" where
  "header_text hs = concat (map (\<lambda>(k, v). k @ '': '' @ v @ crlf) hs)"

lemma fixed_headers:
  "list_all plain_header hs \<Longrightarrow> h ''Authorization'' = None
   \<Longrightarrow> \<exists>h'. flat_headers (header_text hs @ t) h = flat_headers t h' \<and> h' ''Authorization'' = None"
proof (induction hs arbitrary: h)
  case (Cons kv hs)
  obtain k v where kv: "kv = (k, v)" by (cases kv)
  with Cons.prems have p: "visible k" "CHR '':'' \<notin> set k" "v = [] \<or> graphic (hd v) \<and> graphic (last v)"
    "set v \<inter> set crlf = {}" "k \<noteq> ''Authorization''" "list_all plain_header hs" by (auto simp: plain_header_def)
  have "flat_headers (header_text (kv # hs) @ t) h = flat_headers (header_text hs @ t) (h(k \<mapsto> v))"
    using flat_headers_pair [OF p(1-4), of "header_text hs @ t" h] by (simp add: header_text_def kv)
  moreover have "(h(k \<mapsto> v)) ''Authorization'' = None" using p(5) Cons.prems by simp
  ultimately show ?case using Cons.IH [OF p(6)] by metis
qed (auto simp: header_text_def)

lemma all_headers:
  assumes "list_all plain_header hs" "CHR '':'' \<notin> set user"
  shows "\<exists>h. flat_headers (header_text hs @ credentials user pass @ crlf @ t) Map.empty = Some (h, t)
    \<and> Option.bind (h ''Authorization'') ParseBasicAuth = (if user = [] then None else Some (user, pass))"
proof -
  from fixed_headers [OF assms(1), of Map.empty] obtain h where
    "flat_headers (header_text hs @ credentials user pass @ crlf @ t) Map.empty
      = flat_headers (credentials user pass @ crlf @ t) h" "h ''Authorization'' = None" by auto
  then show ?thesis using flat_credentials [OF assms(2), of h pass t] by simp
qed

definition rover_headers :: "(string \<times> string) list" where
  "rover_headers = [(''Host'', ''localhost''), (''Ntrip-Version'', ''Ntrip/2.0''), (''User-Agent'', ''NTRIP simrover/1.0'')]"

definition source_headers :: "(string \<times> string) list" where
  "source_headers = [(''Host'', ''localhost''), (''Ntrip-Version'', ''Ntrip/2.0''), (''Transfer-Encoding'', ''chunked'')]"

lemma headers_plain: "list_all plain_header rover_headers" "list_all plain_header source_headers"
  by (simp_all add: rover_headers_def source_headers_def plain_header_def graphic_def)

text \<open>The request as the caster understands it: its kind, its mountpoint, its credentials, and the bytes after it.\<close>

definition parsed_as ::
  "request_type \<Rightarrow> string \<Rightarrow> string \<Rightarrow> (string \<times> string) option \<Rightarrow> string
   \<Rightarrow> string + (ntrip_request \<times> string \<times> string list) \<Rightarrow> bool" where
  "parsed_as ty mount password cred data res =
     (case flatten res of None \<Rightarrow> False
      | Some (req, rest) \<Rightarrow> rq_Type req = ty \<and> rq_MountPoint req = mount \<and> rq_Password req = password
          \<and> Option.bind (rq_Headers req ''Authorization'') ParseBasicAuth = cred \<and> rest = data)"

lemma parsed_line:
  assumes "request_of (Fields line) = Some req" "set line \<inter> set crlf = {}"
    and "concat reads = line @ crlf @ header_text hs @ credentials user pass @ crlf @ data"
    and "list_all plain_header hs" "CHR '':'' \<notin> set user"
  shows "parsed_as (rq_Type req) (rq_MountPoint req) (rq_Password req)
    (if user = [] then None else Some (user, pass)) data (ParseRequest err [] reads)"
  using request_line [OF assms(1-3), of err] all_headers [OF assms(4,5), of pass data]
  by (auto simp: parsed_as_def)

lemma rover_request_parsed:
  assumes mount: "visible mount" "mount \<noteq> []" and user: "CHR '':'' \<notin> set user"
    and reads: "concat reads = sendRoverRequest mount user pass @ data"
  shows "parsed_as RequestRover mount [] (if user = [] then None else Some (user, pass)) data (ParseRequest err [] reads)"
proof -
  let ?line = "''GET'' @ CHR '' '' # (''/'' @ mount) @ CHR '' '' # ''HTTP/1.1''"
  have "Fields ?line = [''GET'', ''/'' @ mount, ''HTTP/1.1'']"
    using mount by (intro fields3) (simp_all add: graphic_def)
  then have "request_of (Fields ?line) = Some \<lparr>rq_Type = RequestRover, rq_MountPoint = mount, rq_Password = [],
      rq_Headers = Map.empty, rq_Proto = ''HTTP/1.1''\<rparr>"
    using mount by (simp add: request_of_def TrimPrefix_def)
  moreover have "set ?line \<inter> set crlf = {}" using visible_lines [OF mount(1)] by auto
  moreover have "concat reads = ?line @ crlf @ header_text rover_headers @ credentials user pass @ crlf @ data"
    using reads by (simp add: sendRoverRequest_def header_text_def rover_headers_def)
  ultimately show ?thesis
    using parsed_line [of ?line _ reads rover_headers user pass data err] headers_plain(1) user by simp
qed

lemma post_request_parsed:
  assumes mount: "visible mount" and user: "CHR '':'' \<notin> set user"
    and reads: "concat reads = the (sendSourceRequest 2 mount user pass) @ data"
  shows "parsed_as RequestSourceRev2 mount [] (if user = [] then None else Some (user, pass)) data (ParseRequest err [] reads)"
proof -
  let ?line = "''POST'' @ CHR '' '' # (''/'' @ mount) @ CHR '' '' # ''HTTP/1.1''"
  have "Fields ?line = [''POST'', ''/'' @ mount, ''HTTP/1.1'']"
    using mount by (intro fields3) (simp_all add: graphic_def)
  then have "request_of (Fields ?line) = Some \<lparr>rq_Type = RequestSourceRev2, rq_MountPoint = mount, rq_Password = [],
      rq_Headers = Map.empty, rq_Proto = ''HTTP/1.1''\<rparr>"
    by (simp add: request_of_def TrimPrefix_def)
  moreover have "set ?line \<inter> set crlf = {}" using visible_lines [OF mount(1)] by auto
  moreover have "concat reads = ?line @ crlf @ header_text source_headers @ credentials user pass @ crlf @ data"
    using reads by (simp add: sendSourceRequest_def header_text_def source_headers_def)
  ultimately show ?thesis
    using parsed_line [of ?line _ reads source_headers user pass data err] headers_plain(2) user by simp
qed

lemma source_request_parsed:
  assumes mount: "visible mount" and pass: "visible pass" "pass \<noteq> []"
    and reads: "concat reads = the (sendSourceRequest 1 mount user pass) @ data"
  shows "parsed_as RequestSourceRev1 mount pass None data (ParseRequest err [] reads)"
proof -
  let ?line = "''SOURCE'' @ CHR '' '' # pass @ CHR '' '' # (''/'' @ mount)"
  have "Fields ?line = [''SOURCE'', pass, ''/'' @ mount]"
    using mount pass by (intro fields3) (simp_all add: graphic_def)
  then have "request_of (Fields ?line) = Some \<lparr>rq_Type = RequestSourceRev1, rq_MountPoint = mount, rq_Password = pass,
      rq_Headers = Map.empty, rq_Proto = []\<rparr>"
    by (simp add: request_of_def TrimPrefix_def)
  moreover have "set ?line \<inter> set crlf = {}" using visible_lines [OF mount] visible_lines [OF pass(1)] by auto
  moreover have "concat reads = ?line @ crlf @ header_text [] @ credentials [] pass @ crlf @ data"
    using reads by (simp add: sendSourceRequest_def header_text_def credentials_def)
  ultimately show ?thesis
    using parsed_line [of ?line _ reads "[]" "[]" pass data err] by simp
qed

section \<open>Properties\<close>

text \<open>
  C26. A request is read as it was meant, however the network cuts it into reads: the mountpoint, the
  password of a Rev1 source and the user name and password of \<open>Authorization: Basic\<close> (any bytes, but no
  colon in the name) are those the rover or the base wrote, and what follows the empty line is left unread.
\<close>

theorem requests_round_trip:
  fixes secret :: string
  assumes "visible mount" "mount \<noteq> []" "CHR '':'' \<notin> set user" "visible pass" "pass \<noteq> []"
  defines "cred \<equiv> (if user = [] then None else Some (user, secret))"
  shows "(concat reads = sendRoverRequest mount user secret @ data
      \<longrightarrow> parsed_as RequestRover mount [] cred data (ParseRequest err [] reads))
    \<and> (concat reads = the (sendSourceRequest 2 mount user secret) @ data
      \<longrightarrow> parsed_as RequestSourceRev2 mount [] cred data (ParseRequest err [] reads))
    \<and> (concat reads = the (sendSourceRequest 1 mount user pass) @ data
      \<longrightarrow> parsed_as RequestSourceRev1 mount pass None data (ParseRequest err [] reads))"
  using rover_request_parsed [OF assms(1-3)] post_request_parsed [OF assms(1,3)]
    source_request_parsed [OF assms(1,4,5)]
  by (simp add: cred_def)

theorem requests_round_trip_witness:
  "parsed_as RequestRover ''A'' [] (Some (''u'', '':x'')) ''rest''
     (ParseRequest ''EOF'' [] [sendRoverRequest ''A'' ''u'' '':x'', ''rest''])"
  using requests_round_trip [of "''A''" "''u''" "''p''" "[sendRoverRequest ''A'' ''u'' '':x'', ''rest'']" "'':x''" "''rest''" "''EOF''"]
  by (simp add: graphic_def)

end
