(* ===== verification/Admission.thy ===== *)
theory Admission
  imports Caster_Limits Relay Ntrip_Protocol
begin

text \<open>
  \<open>internal/caster/connection.go\<close>: who is admitted. A handler is a sequence of stages, one per access to
  state that other goroutines share; \<open>rover_step\<close> is one stage, and the handler on its own is its stages
  one after the other. Mountpoints are objects: the manager maps names to object numbers, and a handler
  keeps the object it got, also when the manager has dropped it meanwhile.

  A connection id is a new UUID. \<open>Caster_Faults\<close> adds the failures of the database; socket options and
  logging are left out.
\<close>

section \<open>State\<close>

record ntrip_config =
  nc_AuthEnabled :: bool
  nc_NtripSourceAuth :: string
  nc_NtripRoverAuth :: string

record caster =
  ca_store :: store
  ca_reg :: "string \<rightharpoonup> nat"
  ca_obj :: "nat \<Rightarrow> mount_point"
  ca_limiter :: global_limiter

record caster_env =
  ce_cfg :: ntrip_config
  ce_verify :: "string \<Rightarrow> string \<Rightarrow> bool"

abbreviation RoleRover :: string where "RoleRover \<equiv> ''rover''"
abbreviation RoleBase :: string where "RoleBase \<equiv> ''base''"

text \<open>\<open>mgr.Get\<close> followed by \<open>IsEnabled\<close> reads the object itself.\<close>

definition mgr_Get :: "string \<Rightarrow> caster \<Rightarrow> nat option" where
  "mgr_Get name c = ca_reg c name"

section \<open>Authentication of a connection\<close>

definition header :: "ntrip_request \<Rightarrow> string \<Rightarrow> string" where
  "header req name = nullish (rq_Headers req name) []"

definition authenticateBasic ::
  "caster_env \<Rightarrow> int \<Rightarrow> ntrip_request \<Rightarrow> string \<Rightarrow> store \<Rightarrow> db_user option \<times> store" where
  "authenticateBasic E now req role s =
     (if header req ''Authorization'' = [] then (None, s)
      else case ParseBasicAuth (header req ''Authorization'') of
        None \<Rightarrow> (None, s)
      | Some (username, password) \<Rightarrow>
          (case Authenticate (ce_verify E) now username password s of
             (None, s') \<Rightarrow> (None, s')
           | (Some user, s') \<Rightarrow>
               if u_role user = RoleAdmin then (Some user, s')
               else if u_role user \<noteq> role then (None, s')
               else (Some user, s')))"

text \<open>\<open>authenticateSource\<close>: the user id and whether the source may go on.\<close>

definition authenticateSource ::
  "caster_env \<Rightarrow> int \<Rightarrow> ntrip_request \<Rightarrow> store \<Rightarrow> (int \<times> bool) \<times> store" where
  "authenticateSource E now req s =
     (if nc_NtripSourceAuth (ce_cfg E) = ''user_binding'' then
        (if header req ''Authorization'' \<noteq> [] then
           (case authenticateBasic E now req RoleBase s of
              (None, s') \<Rightarrow> ((0, False), s')
            | (Some user, s') \<Rightarrow> ((u_id user, HasBinding (u_id user) (rq_MountPoint req) s'), s'))
         else ((0, VerifyMountPointSourceSecret (ce_verify E) (rq_MountPoint req) (rq_Password req) s), s))
      else ((0, True), s))"

section \<open>A rover\<close>

definition resp :: "string \<Rightarrow> string" where
  "resp s = s @ [CHR 0x0D, CHR 0x0A, CHR 0x0D, CHR 0x0A]"

definition at_capacity :: "string \<Rightarrow> string" where
  "at_capacity s =
     ''HTTP/1.1 503 Service Unavailable'' @ [CHR 0x0D, CHR 0x0A] @ resp ''Content-Type: text/plain'' @ s"

datatype stage = S_auth | S_lookup | S_enabled | S_source | S_capacity | S_register | S_count | S_reply | S_loop | S_release | S_end

record rover_conn =
  rc_req :: ntrip_request
  rc_id :: string
  rc_stage :: stage
  rc_user :: int
  rc_mp :: nat
  rc_out :: string
  rc_closed :: bool

definition new_conn :: "string \<Rightarrow> ntrip_request \<Rightarrow> rover_conn" where
  "new_conn cid req =
     \<lparr>rc_req = req, rc_id = cid, rc_stage = S_auth, rc_user = 0, rc_mp = 0, rc_out = [], rc_closed = False\<rparr>"

text \<open>\<open>writeResponse(conn, s); conn.Close(); return\<close>\<close>

definition refuse :: "string \<Rightarrow> rover_conn \<Rightarrow> rover_conn" where
  "refuse s r = r\<lparr>rc_out := rc_out r @ s, rc_closed := True, rc_stage := S_end\<rparr>"

definition set_obj :: "nat \<Rightarrow> mount_point \<Rightarrow> caster \<Rightarrow> caster" where
  "set_obj k m c = c\<lparr>ca_obj := (ca_obj c)(k := m)\<rparr>"

definition rover_auth :: "caster_env \<Rightarrow> int \<Rightarrow> rover_conn \<Rightarrow> caster \<Rightarrow> rover_conn \<times> caster" where
  "rover_auth E now r c =
     (if nc_AuthEnabled (ce_cfg E) \<and> nc_NtripRoverAuth (ce_cfg E) = ''basic'' then
        (case authenticateBasic E now (rc_req r) RoleRover (ca_store c) of
           (None, s) \<Rightarrow> (refuse (resp ''HTTP/1.1 401 Unauthorized'') r, c\<lparr>ca_store := s\<rparr>)
         | (Some user, s) \<Rightarrow>
             if u_role user \<noteq> RoleAdmin \<and> \<not> HasBinding (u_id user) (rq_MountPoint (rc_req r)) s
             then (refuse (resp ''HTTP/1.1 403 Forbidden'') r, c\<lparr>ca_store := s\<rparr>)
             else (r\<lparr>rc_user := u_id user, rc_stage := S_lookup\<rparr>, c\<lparr>ca_store := s\<rparr>))
      else (r\<lparr>rc_stage := S_lookup\<rparr>, c))"

fun rover_step :: "caster_env \<Rightarrow> int \<Rightarrow> rover_conn \<Rightarrow> caster \<Rightarrow> rover_conn \<times> caster" where
  "rover_step E now r c =
     (case rc_stage r of
        S_auth \<Rightarrow> rover_auth E now r c
      | S_lookup \<Rightarrow>
          (case mgr_Get (rq_MountPoint (rc_req r)) c of
             None \<Rightarrow> (refuse (resp ''HTTP/1.1 404 Not Found'') r, c)
           | Some k \<Rightarrow> (r\<lparr>rc_mp := k, rc_stage := S_enabled\<rparr>, c))
      | S_enabled \<Rightarrow>
          if \<not> mp_enabled (ca_obj c (rc_mp r)) then (refuse (resp ''HTTP/1.1 404 Not Found'') r, c)
          else (r\<lparr>rc_stage := S_source\<rparr>, c)
      | S_source \<Rightarrow>
          if mp_source (ca_obj c (rc_mp r)) = None then (refuse (resp ''HTTP/1.1 503 Service Unavailable'') r, c)
          else (r\<lparr>rc_stage := S_capacity\<rparr>, c)
      | S_capacity \<Rightarrow>
          if AtCapacity (ca_limiter c) then (refuse (at_capacity ''Server at capacity'') r, c)
          else (r\<lparr>rc_stage := S_register\<rparr>, c)
      | S_register \<Rightarrow>
          (case AddClient (rc_id r)
                  (client_New (rc_user r) (nat (mp_WriteQueue (ca_obj c (rc_mp r)))) now) (ca_obj c (rc_mp r)) of
             None \<Rightarrow> (refuse (at_capacity ''Mountpoint at capacity'') r, c)
           | Some m \<Rightarrow> (r\<lparr>rc_stage := S_count\<rparr>, set_obj (rc_mp r) m c))
      | S_count \<Rightarrow> (r\<lparr>rc_stage := S_reply\<rparr>, c\<lparr>ca_limiter := gl_Add (ca_limiter c)\<rparr>)
      | S_reply \<Rightarrow> (r\<lparr>rc_out := rc_out r @ resp ''ICY 200 OK'', rc_stage := S_loop\<rparr>, c)
      | S_loop \<Rightarrow> (r\<lparr>rc_stage := S_release\<rparr>, set_obj (rc_mp r) (RemoveClient (rc_id r) (ca_obj c (rc_mp r))) c)
      | S_release \<Rightarrow> (r\<lparr>rc_stage := S_end\<rparr>, c\<lparr>ca_limiter := gl_Release (ca_limiter c)\<rparr>)
      | S_end \<Rightarrow> (r, c))"

declare rover_step.simps [simp del]

text \<open>
  \<open>handleRover\<close> when nothing comes between: its stages up to the start of the write loop. The last stages
  (\<open>S_loop\<close>, \<open>S_release\<close>) are the goroutine's when the loop ends.
\<close>

definition settled :: "stage \<Rightarrow> bool" where
  "settled st \<longleftrightarrow> st \<in> {S_loop, S_end}"

fun run_rover :: "nat \<Rightarrow> caster_env \<Rightarrow> int \<Rightarrow> rover_conn \<Rightarrow> caster \<Rightarrow> rover_conn \<times> caster" where
  "run_rover 0 E now r c = (r, c)"
| "run_rover (Suc n) E now r c =
     (if settled (rc_stage r) then (r, c) else (let (r', c') = rover_step E now r c in run_rover n E now r' c'))"

definition handleRover :: "caster_env \<Rightarrow> int \<Rightarrow> string \<Rightarrow> ntrip_request \<Rightarrow> caster \<Rightarrow> rover_conn \<times> caster" where
  "handleRover E now cid req c = run_rover 8 E now (new_conn cid req) c"

section \<open>A source\<close>

record source_conn_out =
  sc_out :: string
  sc_closed :: bool
  sc_started :: "(string \<times> nat) option"

definition refuse_source :: "string \<Rightarrow> source_conn_out" where
  "refuse_source s = \<lparr>sc_out = s, sc_closed = True, sc_started = None\<rparr>"

text \<open>The part both revisions share: \<open>mgr.Get\<close>, \<open>source.New\<close>, the reply, the read loop.\<close>

definition open_source ::
  "string \<Rightarrow> int \<Rightarrow> string \<Rightarrow> ntrip_request \<Rightarrow> int \<Rightarrow> caster \<Rightarrow> source_conn_out \<times> caster" where
  "open_source reply now sid req userID c =
     (case mgr_Get (rq_MountPoint req) c of
        None \<Rightarrow> (refuse_source (resp ''HTTP/1.1 404 Not Found''), c)
      | Some k \<Rightarrow>
          if \<not> mp_enabled (ca_obj c k) then (refuse_source (resp ''HTTP/1.1 404 Not Found''), c)
          else (case source_New sid userID now (ca_obj c k) of
              None \<Rightarrow> (refuse_source (resp ''HTTP/1.1 409 Conflict''), c)
            | Some m \<Rightarrow> (\<lparr>sc_out = resp reply, sc_closed = False, sc_started = Some (sid, k)\<rparr>, set_obj k m c)))"

definition handleSourceRev1 ::
  "caster_env \<Rightarrow> int \<Rightarrow> string \<Rightarrow> ntrip_request \<Rightarrow> caster \<Rightarrow> source_conn_out \<times> caster" where
  "handleSourceRev1 E now sid req c =
     (if nc_AuthEnabled (ce_cfg E) then
        (case authenticateSource E now req (ca_store c) of
           ((uid, ok), s) \<Rightarrow>
             if \<not> ok then (refuse_source (''ERROR - Bad Password'' @ [CHR 0x0D, CHR 0x0A]), c\<lparr>ca_store := s\<rparr>)
             else open_source ''ICY 200 OK'' now sid req uid (c\<lparr>ca_store := s\<rparr>))
      else open_source ''ICY 200 OK'' now sid req 0 c)"

definition handleSourceRev2 ::
  "caster_env \<Rightarrow> int \<Rightarrow> string \<Rightarrow> ntrip_request \<Rightarrow> caster \<Rightarrow> source_conn_out \<times> caster" where
  "handleSourceRev2 E now sid req c =
     (if nc_AuthEnabled (ce_cfg E) then
        (case authenticateBasic E now req RoleBase (ca_store c) of
           (None, s) \<Rightarrow> (refuse_source (resp ''HTTP/1.1 401 Unauthorized''), c\<lparr>ca_store := s\<rparr>)
         | (Some user, s) \<Rightarrow>
             if nc_NtripSourceAuth (ce_cfg E) = ''user_binding'' \<and> \<not> HasBinding (u_id user) (rq_MountPoint req) s
             then (refuse_source (resp ''HTTP/1.1 403 Forbidden''), c\<lparr>ca_store := s\<rparr>)
             else open_source ''HTTP/1.1 200 OK'' now sid req (u_id user) (c\<lparr>ca_store := s\<rparr>))
      else open_source ''HTTP/1.1 200 OK'' now sid req 0 c)"

section \<open>A connection\<close>

text \<open>
  \<open>handle\<close>: the reads of the connection up to its end or the deadline, the request, the handler. The
  result says what was written, whether the connection is closed, which source was started, and the bytes
  the source's read loop will see: what the reader had buffered after the headers is not among them.
\<close>

datatype conn_result =
    Closed string
  | Rover_started rover_conn
  | Source_started string nat "byte list list"

definition of_bytes :: "string \<Rightarrow> byte list" where
  "of_bytes s = map of_char s"

definition source_result :: "string list \<Rightarrow> source_conn_out \<Rightarrow> conn_result" where
  "source_result reads o' =
     (case sc_started o' of None \<Rightarrow> Closed (sc_out o') | Some (sid, k) \<Rightarrow> Source_started sid k (map of_bytes reads))"

definition handle ::
  "caster_env \<Rightarrow> string list \<Rightarrow> string \<Rightarrow> int \<Rightarrow> string \<Rightarrow> string list \<Rightarrow> caster \<Rightarrow> conn_result \<times> caster" where
  "handle E names err now cid reads c =
     (case ParseRequest err [] reads of
        Inl e \<Rightarrow> (Closed [], c)
      | Inr (req, buffered, later) \<Rightarrow>
          (case rq_Type req of
             RequestSourcetable \<Rightarrow>
               (Closed (Generate (List.map_filter (\<lambda>n. map_option (ca_obj c) (ca_reg c n)) names)), c)
           | RequestRover \<Rightarrow>
               (let (r, c') = handleRover E now cid req c
                in (if rc_stage r = S_loop then Rover_started r else Closed (rc_out r), c'))
           | RequestSourceRev1 \<Rightarrow> (let (o', c') = handleSourceRev1 E now cid req c in (source_result later o', c'))
           | RequestSourceRev2 \<Rightarrow> (let (o', c') = handleSourceRev2 E now cid req c in (source_result later o', c'))
           | RequestUnknown \<Rightarrow> (Closed [], c)))"

section \<open>A rover's stages in one go\<close>

definition rover_auth_on :: "caster_env \<Rightarrow> bool" where
  "rover_auth_on E \<longleftrightarrow> nc_AuthEnabled (ce_cfg E) \<and> nc_NtripRoverAuth (ce_cfg E) = ''basic''"

text \<open>Who may use the mountpoint, and when it can take one more rover.\<close>

definition rover_allowed :: "caster_env \<Rightarrow> int \<Rightarrow> ntrip_request \<Rightarrow> store \<Rightarrow> bool" where
  "rover_allowed E now req s \<longleftrightarrow> \<not> rover_auth_on E \<or>
     (case authenticateBasic E now req RoleRover s of
        (None, s') \<Rightarrow> False
      | (Some u, s') \<Rightarrow> u_role u = RoleAdmin \<or> HasBinding (u_id u) (rq_MountPoint req) s')"

definition rover_user :: "caster_env \<Rightarrow> int \<Rightarrow> ntrip_request \<Rightarrow> store \<Rightarrow> int" where
  "rover_user E now req s =
     (if rover_auth_on E then nullish (map_option u_id (fst (authenticateBasic E now req RoleRover s))) 0 else 0)"

definition mount_open :: "caster \<Rightarrow> nat \<Rightarrow> bool" where
  "mount_open c k \<longleftrightarrow> mp_enabled (ca_obj c k) \<and> mp_source (ca_obj c k) \<noteq> None
     \<and> gl_count (ca_limiter c) < gl_maxCount (ca_limiter c)
     \<and> (mp_MaxClients (ca_obj c k) \<le> 0 \<or> int (length (mp_clients (ca_obj c k))) < mp_MaxClients (ca_obj c k))"

lemma run_rover_numeral:
  "run_rover (numeral n) E now r c =
     (if settled (rc_stage r) then (r, c)
      else (let (r', c') = rover_step E now r c in run_rover (pred_numeral n) E now r' c'))"
  by (simp add: numeral_eq_Suc)

lemma run_rover_settled: "settled (rc_stage r) \<Longrightarrow> run_rover n E now r c = (r, c)"
  by (cases n) simp_all

lemma refuse_settled [simp]: "rc_stage (refuse s r) = S_end" "settled S_end" "settled S_loop"
  by (simp_all add: refuse_def settled_def)

definition new_rover :: "int \<Rightarrow> int \<Rightarrow> mount_point \<Rightarrow> rover" where
  "new_rover now uid m = client_New uid (nat (mp_WriteQueue m)) now"

text \<open>From the lookup on.\<close>

lemma run_from_lookup:
  assumes "rc_stage r = S_lookup" "rc_closed r = False" "rc_out r = []"
  shows "case run_rover 7 E now r c of (r', c') \<Rightarrow>
    (case ca_reg c (rq_MountPoint (rc_req r)) of
       None \<Rightarrow> rc_stage r' = S_end \<and> rc_closed r' \<and> c' = c
     | Some k \<Rightarrow>
         if mount_open c k
         then (\<exists>m. AddClient (rc_id r) (new_rover now (rc_user r) (ca_obj c k)) (ca_obj c k) = Some m
           \<and> c' = set_obj k m c\<lparr>ca_limiter := gl_Add (ca_limiter c)\<rparr>
           \<and> r' = r\<lparr>rc_mp := k, rc_stage := S_loop, rc_out := resp ''ICY 200 OK''\<rparr>)
         else rc_stage r' = S_end \<and> rc_closed r' \<and> c' = c)"
proof (cases "ca_reg c (rq_MountPoint (rc_req r))")
  case None
  then show ?thesis
    using assms by (simp add: run_rover_numeral run_rover_settled settled_def rover_step.simps mgr_Get_def refuse_def)
next
  case (Some k)
  let ?m = "ca_obj c k"
  have add: "AddClient (rc_id r) (new_rover now (rc_user r) ?m) ?m = None \<longleftrightarrow>
      \<not> (mp_MaxClients ?m \<le> 0 \<or> int (length (mp_clients ?m)) < mp_MaxClients ?m)"
    by (auto simp: AddClient_def)
  note eval = run_rover_numeral run_rover_settled settled_def rover_step.simps mgr_Get_def refuse_def mount_open_def
    AtCapacity_def new_rover_def
  show ?thesis
  proof (cases "mp_enabled ?m \<and> mp_source ?m \<noteq> None \<and> gl_count (ca_limiter c) < gl_maxCount (ca_limiter c)")
    case False
    with Some assms show ?thesis by (auto simp: eval not_less)
  next
    case True
    then show ?thesis
      using Some assms add
      by (cases "AddClient (rc_id r) (new_rover now (rc_user r) ?m) ?m")
        (auto simp: eval set_obj_def)
  qed
qed

lemma handleRover_cases:
  fixes E now cid req c
  defines "s' \<equiv> (if rover_auth_on E then snd (authenticateBasic E now req RoleRover (ca_store c)) else ca_store c)"
  defines "c1 \<equiv> c\<lparr>ca_store := s'\<rparr>"
  shows "if rover_allowed E now req (ca_store c)
    then handleRover E now cid req c
      = run_rover 7 E now ((new_conn cid req)\<lparr>rc_user := rover_user E now req (ca_store c), rc_stage := S_lookup\<rparr>) c1
    else (\<exists>out. handleRover E now cid req c = (refuse out (new_conn cid req), c1))"
proof -
  have start: "handleRover E now cid req c = (let (r', c') = rover_auth E now (new_conn cid req) c in run_rover 7 E now r' c')"
    unfolding handleRover_def
    by (subst run_rover_numeral) (simp add: settled_def new_conn_def rover_step.simps)
  obtain u s1 where a: "authenticateBasic E now req RoleRover (ca_store c) = (u, s1)" by fastforce
  have req: "rc_req (new_conn cid req) = req" by (simp add: new_conn_def)
  show ?thesis
  proof (cases "rover_auth_on E")
    case False
    moreover have "(new_conn cid req)\<lparr>rc_user := 0, rc_stage := S_lookup\<rparr> = (new_conn cid req)\<lparr>rc_stage := S_lookup\<rparr>"
      by (simp add: new_conn_def)
    ultimately show ?thesis
      by (simp add: start rover_auth_def [folded rover_auth_on_def] rover_allowed_def rover_user_def c1_def s'_def)
  next
    case True
    then show ?thesis
      by (cases u)
        (auto simp: start rover_auth_def [folded rover_auth_on_def] rover_allowed_def rover_user_def c1_def s'_def a req
          run_rover_settled)
  qed
qed

text \<open>
  What the handler relies on at the mountpoint: registration puts the object under its id and touches no
  other, removal takes the id out and leaves the objects alone.
\<close>

locale client_registry =
  fixes add :: "'i \<Rightarrow> 'c \<Rightarrow> 'm \<Rightarrow> 'm option" and remove :: "'i \<Rightarrow> 'm \<Rightarrow> 'm"
    and members :: "'m \<Rightarrow> 'i list" and object :: "'m \<Rightarrow> 'i \<Rightarrow> 'c"
  assumes add_members: "add i c m = Some m' \<Longrightarrow> set (members m') = insert i (set (members m))"
    and add_object: "add i c m = Some m' \<Longrightarrow> object m' = (object m)(i := c)"
    and remove_members: "set (members (remove i m)) = set (members m) - {i}"
    and remove_object: "object (remove i m) = object m"
begin

lemma registered: "add i c m = Some m' \<Longrightarrow> i \<in> set (members m')" "add i c m = Some m' \<Longrightarrow> object m' i = c"
  by (simp_all add: add_members add_object)

lemma others_untouched: "add i c m = Some m' \<Longrightarrow> j \<noteq> i \<Longrightarrow> j \<in> set (members m') \<longleftrightarrow> j \<in> set (members m)"
  "add i c m = Some m' \<Longrightarrow> j \<noteq> i \<Longrightarrow> object m' j = object m j"
  by (simp_all add: add_members add_object)

lemma visit: "add i c m = Some m' \<Longrightarrow> i \<notin> set (members m) \<Longrightarrow> set (members (remove i m')) = set (members m)"
  by (simp add: add_members remove_members)

end

interpretation mount_clients: client_registry AddClient RemoveClient mp_clients mp_heap
  by unfold_locales
    (auto simp: AddClient_def RemoveClient_def unregister_def count_clients_def rebuildSnapshotLocked_def split: if_splits)

text \<open>
  What a run of the handler may come to: admitted exactly if allowed and the mountpoint can take it, and then
  registered under its user, counted and answered; otherwise refused, with mountpoints and counter untouched.
\<close>

definition rover_result :: "caster_env \<Rightarrow> int \<Rightarrow> string \<Rightarrow> ntrip_request \<Rightarrow> caster \<Rightarrow> rover_conn \<Rightarrow> caster \<Rightarrow> bool" where
  "rover_result E now cid req c r c' \<longleftrightarrow>
     (rc_stage r = S_loop \<longleftrightarrow> rover_allowed E now req (ca_store c)
        \<and> (\<exists>k. ca_reg c (rq_MountPoint req) = Some k \<and> mount_open c k))
     \<and> (if rc_stage r = S_loop
        then rc_out r = resp ''ICY 200 OK'' \<and> \<not> rc_closed r
          \<and> ca_reg c (rq_MountPoint req) = Some (rc_mp r)
          \<and> cid \<in> set (mp_clients (ca_obj c' (rc_mp r)))
          \<and> rv_UserID (mp_heap (ca_obj c' (rc_mp r)) cid) = rover_user E now req (ca_store c)
          \<and> gl_count (ca_limiter c') = gl_count (ca_limiter c) + 1
        else rc_stage r = S_end \<and> rc_closed r \<and> ca_obj c' = ca_obj c \<and> ca_limiter c' = ca_limiter c)"

lemma rover_outcome:
  assumes "handleRover E now cid req c = (r, c')"
  shows "rover_result E now cid req c r c'"
proof -
  let ?s = "if rover_auth_on E then snd (authenticateBasic E now req RoleRover (ca_store c)) else ca_store c"
  let ?c = "c\<lparr>ca_store := ?s\<rparr>"
  let ?r = "(new_conn cid req)\<lparr>rc_user := rover_user E now req (ca_store c), rc_stage := S_lookup\<rparr>"
  have f: "rc_req ?r = req" "rc_id ?r = cid" "rc_user ?r = rover_user E now req (ca_store c)"
    "rc_stage ?r = S_lookup" "rc_closed ?r = False" "rc_out ?r = []" by (simp_all add: new_conn_def)
  have opn: "mount_open ?c k = mount_open c k" for k by (simp add: mount_open_def)
  note main = handleRover_cases [of E now req c cid]
  show ?thesis
  proof (cases "rover_allowed E now req (ca_store c)")
    case False
    with main assms obtain out where "r = refuse out (new_conn cid req)" "c' = ?c" by auto
    with False show ?thesis by (simp add: rover_result_def refuse_def)
  next
    case True
    with main assms have run: "run_rover 7 E now ?r ?c = (r, c')" by simp
    from run_from_lookup [OF f(4-6), where E = E and now = now and c = ?c, unfolded run prod.case f(1-3)] True opn
    show ?thesis
      by (auto simp: rover_result_def set_obj_def gl_Add_def new_rover_def client_New_def new_conn_def
          mount_clients.registered split: option.splits if_splits)
  qed
qed

text \<open>A rover that comes and goes leaves the registry and the counter as they were.\<close>

lemma rover_visit:
  assumes "handleRover E now cid req c = (r, c1)" "rc_stage r = S_loop" "rover_step E now r c1 = (r2, c2)"
    "rover_step E now r2 c2 = (r3, c3)" "\<And>k. cid \<notin> set (mp_clients (ca_obj c k))"
  shows "rc_stage r3 = S_end \<and> (\<forall>k. set (mp_clients (ca_obj c3 k)) = set (mp_clients (ca_obj c k)))
    \<and> ca_limiter c3 = ca_limiter c"
proof -
  let ?s = "if rover_auth_on E then snd (authenticateBasic E now req RoleRover (ca_store c)) else ca_store c"
  let ?c = "c\<lparr>ca_store := ?s\<rparr>"
  let ?r = "(new_conn cid req)\<lparr>rc_user := rover_user E now req (ca_store c), rc_stage := S_lookup\<rparr>"
  have f: "rc_req ?r = req" "rc_id ?r = cid" "rc_stage ?r = S_lookup" "rc_closed ?r = False" "rc_out ?r = []"
    by (simp_all add: new_conn_def)
  have run: "run_rover 7 E now ?r ?c = (r, c1)"
    using handleRover_cases [of E now req c cid] assms(1,2) by (auto split: if_splits)
  from run_from_lookup [OF f(3-5), where E = E and now = now and c = ?c, unfolded run prod.case f(1,2)] assms(2)
  obtain k cl m where m: "AddClient cid cl (ca_obj c k) = Some m" "c1 = set_obj k m ?c\<lparr>ca_limiter := gl_Add (ca_limiter c)\<rparr>"
    and r: "rc_mp r = k" "rc_id r = cid"
    by (auto simp: new_conn_def split: option.splits if_splits)
  from assms(2-4) have "rc_stage r3 = S_end"
    and c3: "c3 = set_obj k (RemoveClient cid (ca_obj c1 k)) c1\<lparr>ca_limiter := gl_Release (ca_limiter c1)\<rparr>"
    by (auto simp: rover_step.simps r set_obj_def)
  with m mount_clients.visit [OF m(1) assms(5)] show ?thesis
    by (auto simp: set_obj_def gl_Add_def gl_Release_def)
qed

section \<open>A source's admission\<close>

definition rev1_allowed :: "caster_env \<Rightarrow> int \<Rightarrow> ntrip_request \<Rightarrow> store \<Rightarrow> bool" where
  "rev1_allowed E now req s \<longleftrightarrow> \<not> nc_AuthEnabled (ce_cfg E) \<or> snd (fst (authenticateSource E now req s))"

definition rev2_allowed :: "caster_env \<Rightarrow> int \<Rightarrow> ntrip_request \<Rightarrow> store \<Rightarrow> bool" where
  "rev2_allowed E now req s \<longleftrightarrow> \<not> nc_AuthEnabled (ce_cfg E) \<or>
     (case authenticateBasic E now req RoleBase s of
        (None, s') \<Rightarrow> False
      | (Some u, s') \<Rightarrow> nc_NtripSourceAuth (ce_cfg E) = ''user_binding'' \<longrightarrow> HasBinding (u_id u) (rq_MountPoint req) s')"

text \<open>Started exactly if allowed and the mountpoint is free; a source that is there is never displaced.\<close>

definition source_result_ok :: "bool \<Rightarrow> string \<Rightarrow> ntrip_request \<Rightarrow> caster \<Rightarrow> source_conn_out \<times> caster \<Rightarrow> bool" where
  "source_result_ok allowed sid req c res \<longleftrightarrow>
     (case res of (o', c') \<Rightarrow>
        (\<forall>k. sc_started o' = Some (sid, k) \<longleftrightarrow> allowed \<and> ca_reg c (rq_MountPoint req) = Some k
            \<and> mp_enabled (ca_obj c k) \<and> mp_source (ca_obj c k) = None)
        \<and> (case sc_started o' of
             None \<Rightarrow> sc_closed o' \<and> ca_obj c' = ca_obj c
           | Some (i, k) \<Rightarrow> i = sid \<and> \<not> sc_closed o' \<and> map_option so_ID (mp_source (ca_obj c' k)) = Some sid
               \<and> (\<forall>j. j \<noteq> k \<longrightarrow> ca_obj c' j = ca_obj c j)))"

lemma open_source_ok: "source_result_ok True sid req c (open_source reply now sid req uid (c\<lparr>ca_store := s\<rparr>))"
  by (auto simp: source_result_ok_def open_source_def mgr_Get_def refuse_source_def source_New_def SetSource_def
      set_online_def set_obj_def Let_def split: option.split)

lemma refuse_source_ok: "source_result_ok False sid req c (refuse_source out, c\<lparr>ca_store := s\<rparr>)"
  by (simp add: source_result_ok_def refuse_source_def)

lemma same_store: "c\<lparr>ca_store := ca_store c\<rparr> = (c :: caster)"
  by simp

lemma rev1_ok: "source_result_ok (rev1_allowed E now req (ca_store c)) sid req c (handleSourceRev1 E now sid req c)"
  using open_source_ok [of sid req c "''ICY 200 OK''" now] refuse_source_ok [of sid req c]
    open_source_ok [of sid req c "''ICY 200 OK''" now 0 "ca_store c"]
  by (auto simp: handleSourceRev1_def rev1_allowed_def split: prod.split)

lemma rev2_ok: "source_result_ok (rev2_allowed E now req (ca_store c)) sid req c (handleSourceRev2 E now sid req c)"
  using open_source_ok [of sid req c "''HTTP/1.1 200 OK''" now] refuse_source_ok [of sid req c]
    open_source_ok [of sid req c "''HTTP/1.1 200 OK''" now 0 "ca_store c"]
  by (auto simp: handleSourceRev2_def rev2_allowed_def split: prod.split option.split)

section \<open>From the wire\<close>

lemma header_credentials:
  assumes "Option.bind (rq_Headers req ''Authorization'') ParseBasicAuth = Some (user, pass)"
  shows "ParseBasicAuth (header req ''Authorization'') = Some (user, pass)" "header req ''Authorization'' \<noteq> []"
proof -
  from assms obtain a where a: "rq_Headers req ''Authorization'' = Some a" "ParseBasicAuth a = Some (user, pass)"
    by (cases "rq_Headers req ''Authorization''") auto
  then have "a \<noteq> []" by (auto simp: ParseBasicAuth_def)
  with a show "ParseBasicAuth (header req ''Authorization'') = Some (user, pass)" "header req ''Authorization'' \<noteq> []"
    by (simp_all add: header_def)
qed

text \<open>The user behind a name and password, for a connection of a role.\<close>

definition login_as :: "caster_env \<Rightarrow> int \<Rightarrow> string \<Rightarrow> string \<Rightarrow> string \<Rightarrow> store \<Rightarrow> db_user option \<times> store" where
  "login_as E now user pass role s =
     (case Authenticate (ce_verify E) now user pass s of
        (None, s') \<Rightarrow> (None, s')
      | (Some u, s') \<Rightarrow> (if u_role u = RoleAdmin \<or> u_role u = role then Some u else None, s'))"

lemma authenticateBasic_login:
  assumes "Option.bind (rq_Headers req ''Authorization'') ParseBasicAuth = Some (user, pass)"
  shows "authenticateBasic E now req role s = login_as E now user pass role s"
  using header_credentials [OF assms]
  by (auto simp: authenticateBasic_def login_as_def split: prod.split option.split)

lemma parsed_request:
  assumes "parsed_as ty mount pw cred data res"
  shows "\<exists>req buf later. res = Inr (req, buf, later) \<and> rq_Type req = ty \<and> rq_MountPoint req = mount \<and> rq_Password req = pw
    \<and> Option.bind (rq_Headers req ''Authorization'') ParseBasicAuth = cred \<and> buf @ concat later = data"
  using assms by (auto simp: parsed_as_def flatten_def split: sum.splits)

text \<open>When the request and more arrive in one read, the reader keeps what follows the request.\<close>

lemma ReadString_buffered: "split_line buf = Some (l, r) \<Longrightarrow> ReadString buf reads = Some (l, r, reads)"
  by (cases reads) auto

lemma readHeaders_buffered:
  "flat_headers s h = Some (h', t) \<Longrightarrow> readHeaders err s reads h = Inr (h', t, reads)"
proof (induction s h rule: flat_headers.induct)
  case (1 s h)
  then obtain line r where s: "split_line s = Some (line, r)"
    by (subst (asm) flat_headers.simps) (auto split: option.splits)
  show ?case
  proof (cases "TrimRight line crlf = []")
    case True
    with 1(2) s have "h' = h" "t = r" by (simp_all add: flat_headers.simps [of s])
    with True s show ?thesis by (simp add: readHeaders.simps [of err s] ReadString_buffered)
  next
    case False
    with 1(2) s have "flat_headers r (header_line (TrimRight line crlf) h) = Some (h', t)"
      by (simp add: flat_headers.simps [of s])
    with 1(1) [OF s refl False] False s show ?thesis
      by (simp add: readHeaders.simps [of err s] ReadString_buffered)
  qed
qed

lemma ParseRequest_buffered:
  assumes "flatten (ParseRequest err [] [x]) = Some (req, data)"
  shows "ParseRequest err [] (x # later) = Inr (req, data, later)"
proof -
  from assms obtain line s req0 h where l: "split_line x = Some (line, s)"
    and r: "request_of (Fields (TrimRight line crlf)) = Some req0" and h: "flat_headers s Map.empty = Some (h, data)"
    and req: "req = req0\<lparr>rq_Headers := h\<rparr>"
    unfolding ParseRequest_flat by (auto split: option.splits)
  have read: "ReadString [] (x # later) = Some (line, s, later)"
    using ReadString_buffered [OF l] by (simp add: split_line_def)
  define parts where "parts = Fields (TrimRight line crlf)"
  note heads = readHeaders_buffered [OF h, of err later]
  note parts = parts_def [symmetric]
  from r [unfolded parts] consider p rest where "parts = ''GET'' # p # rest"
    | p q rest where "parts = ''SOURCE'' # p # q # rest" | p rest where "parts = ''POST'' # p # rest"
    unfolding request_of_def by (auto simp: Let_def split: list.splits if_splits)
  then show ?thesis
  proof cases
    case (1 p rest)
    with r [unfolded parts] have "req0 = (if p = ''/'' then \<lparr>rq_Type = RequestSourcetable, rq_MountPoint = [], rq_Password = [],
        rq_Headers = Map.empty, rq_Proto = (if 3 \<le> length parts then parts ! 2 else [])\<rparr>
      else \<lparr>rq_Type = RequestRover, rq_MountPoint = TrimPrefix p ''/'', rq_Password = [],
        rq_Headers = Map.empty, rq_Proto = (if 3 \<le> length parts then parts ! 2 else [])\<rparr>)"
      by (simp add: request_of_def Let_def split: if_splits)
    with 1 show ?thesis
      unfolding ParseRequest_def read option.case prod.case Let_def parts req by (simp add: heads)
  next
    case (2 p q rest)
    with r [unfolded parts] show ?thesis
      unfolding ParseRequest_def read option.case prod.case Let_def parts req
      by (auto simp: request_of_def heads Let_def)
  next
    case (3 p rest)
    with r [unfolded parts] show ?thesis
      unfolding ParseRequest_def read option.case prod.case Let_def parts req
      by (auto simp: request_of_def heads Let_def)
  qed
qed

text \<open>What the handler makes of the request of \<open>cmd/simrover\<close>.\<close>

lemma wire_rover:
  assumes "visible mount" "mount \<noteq> []" "user \<noteq> []" "CHR '':'' \<notin> set user"
    and "concat reads = sendRoverRequest mount user pass @ data"
  shows "\<exists>req. ((\<exists>r. fst (handle E names err now cid reads c) = Rover_started r)
        \<longleftrightarrow> rc_stage (fst (handleRover E now cid req c)) = S_loop)
    \<and> rq_MountPoint req = mount
    \<and> authenticateBasic E now req RoleRover s = login_as E now user pass RoleRover s"
proof -
  from parsed_request [OF rover_request_parsed [OF assms(1,2,4,5)], of err] obtain req buf later where
    p: "ParseRequest err [] reads = Inr (req, buf, later)" "rq_Type req = RequestRover" "rq_MountPoint req = mount"
    and cred: "Option.bind (rq_Headers req ''Authorization'') ParseBasicAuth = Some (user, pass)"
    using assms(3) by auto
  have "(\<exists>r. fst (handle E names err now cid reads c) = Rover_started r)
      \<longleftrightarrow> rc_stage (fst (handleRover E now cid req c)) = S_loop"
    by (simp add: handle_def p split_beta Let_def)
  with p(3) authenticateBasic_login [OF cred] show ?thesis by blast
qed

section \<open>Properties\<close>


text \<open>
  From the bytes on the wire: a rover that sends the request of \<open>cmd/simrover\<close> with a user name and
  password, cut into reads in any way, is served exactly if that user logs in, is an administrator or a rover
  with a binding for the mountpoint, and the mountpoint is open.
\<close>

theorem rover_wire_admission:
  assumes "visible mount" "mount \<noteq> []" "user \<noteq> []" "CHR '':'' \<notin> set user" "rover_auth_on E"
    and "concat reads = sendRoverRequest mount user pass @ data"
  shows "(\<exists>r. fst (handle E names err now cid reads c) = Rover_started r)
    \<longleftrightarrow> (\<exists>u s'. login_as E now user pass RoleRover (ca_store c) = (Some u, s')
          \<and> (u_role u = RoleAdmin \<or> HasBinding (u_id u) mount s'))
        \<and> (\<exists>k. ca_reg c mount = Some k \<and> mount_open c k)"
proof -
  from wire_rover [OF assms(1-4,6)] obtain req where
    started: "(\<exists>r. fst (handle E names err now cid reads c) = Rover_started r)
      \<longleftrightarrow> rc_stage (fst (handleRover E now cid req c)) = S_loop"
    and req: "rq_MountPoint req = mount"
    and login: "authenticateBasic E now req RoleRover (ca_store c) = login_as E now user pass RoleRover (ca_store c)"
    by metis
  have allowed: "rover_allowed E now req (ca_store c) \<longleftrightarrow>
      (\<exists>u s'. login_as E now user pass RoleRover (ca_store c) = (Some u, s')
          \<and> (u_role u = RoleAdmin \<or> HasBinding (u_id u) mount s'))"
    using assms(5) by (auto simp: rover_allowed_def login req split: prod.splits option.splits)
  note admitted = rover_outcome [OF surjective_pairing, unfolded rover_result_def, THEN conjunct1]
  show ?thesis unfolding started admitted allowed req ..
qed

definition sample_cfg :: caster_env where
  "sample_cfg =
     \<lparr>ce_cfg = \<lparr>nc_AuthEnabled = True, nc_NtripSourceAuth = ''user_binding'', nc_NtripRoverAuth = ''basic''\<rparr>,
      ce_verify = sample_verify\<rparr>"

definition sample_caster :: caster where
  "sample_caster =
     \<lparr>ca_store = svc_step sample_hash sample_verify (Op_CreateUser ''root'' ''pw'' ''admin'') NewService,
      ca_reg = [''A'' \<mapsto> 0],
      ca_obj = (\<lambda>k. empty_point\<lparr>mp_source := Some \<lparr>so_ID = ''s'', so_UserID = 0, so_BytesIn = 0, so_StartTime = 0\<rparr>\<rparr>),
      ca_limiter = NewGlobalLimiter 2\<rparr>"

lemma sample_caster_open:
  "ca_reg sample_caster ''A'' = Some 0" "mount_open sample_caster 0"
  "map_option u_role (fst (login_as sample_cfg 0 ''root'' ''pw'' RoleRover (ca_store sample_caster))) = Some RoleAdmin"
  by code_simp+

theorem rover_wire_admission_witness:
  "\<exists>r. fst (handle sample_cfg [] ''EOF'' 0 ''c'' [sendRoverRequest ''A'' ''root'' ''pw''] sample_caster) = Rover_started r"
proof -
  obtain u s' where l: "login_as sample_cfg 0 ''root'' ''pw'' RoleRover (ca_store sample_caster) = (Some u, s')"
    "u_role u = RoleAdmin"
    using sample_caster_open(3) by (cases "login_as sample_cfg 0 ''root'' ''pw'' RoleRover (ca_store sample_caster)") auto
  have "(\<exists>r. fst (handle sample_cfg [] ''EOF'' 0 ''c'' [sendRoverRequest ''A'' ''root'' ''pw''] sample_caster) = Rover_started r)
    \<longleftrightarrow> (\<exists>u s'. login_as sample_cfg 0 ''root'' ''pw'' RoleRover (ca_store sample_caster) = (Some u, s')
          \<and> (u_role u = RoleAdmin \<or> HasBinding (u_id u) ''A'' s'))
        \<and> (\<exists>k. ca_reg sample_caster ''A'' = Some k \<and> mount_open sample_caster k)"
    by (rule rover_wire_admission [where data = "[]"]) (simp_all add: graphic_def rover_auth_on_def sample_cfg_def)
  with l sample_caster_open(1,2) show ?thesis by blast
qed


text \<open>
  Bytes that a source sends together with its request are lost: the reader that parsed the request has
  buffered them, and the read loop starts on the connection with a new buffer. Here the first read returns
  the request of \<open>cmd/simbase\<close> and some data; the loop sees only the later reads.
\<close>

theorem early_source_data_is_lost:
  assumes "visible mount" "visible pass" "pass \<noteq> []"
    and "handle E names err now sid ((the (sendSourceRequest 1 mount user pass) @ data) # later) c = (Source_started i k reads, c')"
  shows "reads = map of_bytes later"
proof -
  let ?x = "the (sendSourceRequest 1 mount user pass) @ data"
  have "concat [?x] = the (sendSourceRequest 1 mount user pass) @ data" by simp
  from source_request_parsed [OF assms(1-3) this, of err] obtain req where
    f: "flatten (ParseRequest err [] [?x]) = Some (req, data)" and ty: "rq_Type req = RequestSourceRev1"
    by (auto simp: parsed_as_def split: option.splits)
  obtain o' c1 where h: "handleSourceRev1 E now sid req c = (o', c1)" by fastforce
  from assms(4) show ?thesis
    by (auto simp: handle_def ParseRequest_buffered [OF f] ty h source_result_def split: option.splits)
qed

definition sample_free :: caster where
  "sample_free = sample_caster\<lparr>ca_obj := (\<lambda>k. empty_point)\<rparr>"

definition sample_open_cfg :: caster_env where
  "sample_open_cfg = sample_cfg\<lparr>ce_cfg := (ce_cfg sample_cfg)\<lparr>nc_AuthEnabled := False\<rparr>\<rparr>"

theorem early_source_data_is_lost_witness:
  "\<exists>c'. handle sample_open_cfg [] ''EOF'' 0 ''s''
      ((the (sendSourceRequest 1 ''A'' [] ''p'') @ ''data'') # [''later'']) sample_free
    = (Source_started ''s'' 0 (map of_bytes [''later'']), c')"
proof -
  define run where "run = handle sample_open_cfg [] ''EOF'' 0 ''s''
    ((the (sendSourceRequest 1 ''A'' [] ''p'') @ ''data'') # [''later'']) sample_free"
  have "concat [the (sendSourceRequest 1 ''A'' [] ''p'') @ ''data''] = the (sendSourceRequest 1 ''A'' [] ''p'') @ ''data''"
    by simp
  from source_request_parsed [OF _ _ _ this, of "''EOF''"] obtain req where
    f: "flatten (ParseRequest ''EOF'' [] [the (sendSourceRequest 1 ''A'' [] ''p'') @ ''data'']) = Some (req, ''data'')"
    and req: "rq_Type req = RequestSourceRev1" "rq_MountPoint req = ''A''"
    by (auto simp: parsed_as_def graphic_def split: option.splits)
  have "source_New ''s'' 0 0 empty_point \<noteq> None" "mp_enabled empty_point" "ca_reg sample_free ''A'' = Some 0"
    "ca_obj sample_free 0 = empty_point"
    by (simp_all add: source_New_def SetSource_def empty_point_def NewMountPoint_def sample_free_def sample_caster_def)
  then have "\<exists>reads c'. run = (Source_started ''s'' 0 reads, c')"
    unfolding run_def handle_def ParseRequest_buffered [OF f] handleSourceRev1_def open_source_def mgr_Get_def
    by (auto simp: req sample_open_cfg_def source_result_def)
  then obtain reads c' where started: "run = (Source_started ''s'' 0 reads, c')" by blast
  have "reads = map of_bytes [''later'']"
    by (rule early_source_data_is_lost [OF _ _ _ started [unfolded run_def]]) (simp_all add: graphic_def)
  with started show ?thesis unfolding run_def by blast
qed

end
