(* ===== verification/Caster_Net.thy ===== *)
theory Caster_Net
  imports Admission
begin

text \<open>
  Many rovers at once: the stages of their handlers (\<open>Admission.rover_step\<close>) interleave with each other and
  with everything else the caster does, which may change the tables, the manager and every mountpoint in any
  way between two stages (\<open>N_other\<close>). The lemmas show what the counter of \<open>internal/limiter/global_limiter.go\<close>
  guarantees then, and the races of the check-then-act sequence of \<open>handleRover\<close>.
\<close>

section \<open>The system\<close>

record net =
  nt_caster :: caster
  nt_ids :: "string list"
  nt_conn :: "string \<Rightarrow> rover_conn"

datatype net_event =
    N_accept string ntrip_request
  | N_step string int
  | N_other store "string \<rightharpoonup> nat" "nat \<Rightarrow> mount_point"

fun net_step :: "caster_env \<Rightarrow> net_event \<Rightarrow> net \<Rightarrow> net option" where
  "net_step E (N_accept cid req) s =
     (if cid \<in> set (nt_ids s) then None
      else Some (s\<lparr>nt_ids := nt_ids s @ [cid], nt_conn := (nt_conn s)(cid := new_conn cid req)\<rparr>))"
| "net_step E (N_step cid now) s =
     (if cid \<notin> set (nt_ids s) then None
      else let (r, c) = rover_step E now (nt_conn s cid) (nt_caster s)
        in Some (s\<lparr>nt_caster := c, nt_conn := (nt_conn s)(cid := r)\<rparr>))"
| "net_step E (N_other st reg obj) s =
     Some (s\<lparr>nt_caster := (nt_caster s)\<lparr>ca_store := st, ca_reg := reg, ca_obj := obj\<rparr>\<rparr>)"

text \<open>Between \<open>Add\<close> and \<open>Release\<close>; and between a successful check of the limit and \<open>Add\<close>.\<close>

definition counted :: "rover_conn \<Rightarrow> bool" where
  "counted r \<longleftrightarrow> rc_stage r \<in> {S_reply, S_loop, S_release}"

definition passed :: "rover_conn \<Rightarrow> bool" where
  "passed r \<longleftrightarrow> rc_stage r \<in> {S_register, S_count}"

definition how_many :: "(rover_conn \<Rightarrow> bool) \<Rightarrow> net \<Rightarrow> nat" where
  "how_many P s = length (filter (\<lambda>i. P (nt_conn s i)) (nt_ids s))"

text \<open>A run in which never more than \<open>w\<close> handlers are past the check and not yet counted.\<close>

inductive net_run :: "caster_env \<Rightarrow> nat \<Rightarrow> net \<Rightarrow> net_event list \<Rightarrow> net \<Rightarrow> bool" for E w where
  net_done: "net_run E w s [] s"
| net_more: "net_step E e s = Some t \<Longrightarrow> how_many passed t \<le> w \<Longrightarrow> net_run E w t es u \<Longrightarrow> net_run E w s (e # es) u"

definition net_start :: "caster \<Rightarrow> net" where
  "net_start c = \<lparr>nt_caster = c, nt_ids = [], nt_conn = (\<lambda>i. new_conn i undefined)\<rparr>"

section \<open>The counter\<close>

lemma filter_update:
  assumes "distinct xs" "x \<in> set xs"
  shows "int (length (filter (\<lambda>i. P ((f(x := y)) i)) xs))
    = int (length (filter (\<lambda>i. P (f i)) xs)) - of_bool (P (f x)) + of_bool (P y)"
  using assms
proof (induction xs)
  case (Cons z zs)
  show ?case
  proof (cases "z = x")
    case True
    with Cons.prems have "filter (\<lambda>i. P ((f(x := y)) i)) zs = filter (\<lambda>i. P (f i)) zs"
      by (intro filter_cong) auto
    with True show ?thesis by simp
  next
    case False
    with Cons show ?thesis by simp
  qed
qed simp

lemma how_many_step:
  assumes "distinct (nt_ids s)" "cid \<in> set (nt_ids s)"
  shows "int (how_many P (s\<lparr>nt_caster := c, nt_conn := (nt_conn s)(cid := r)\<rparr>))
    = int (how_many P s) - of_bool (P (nt_conn s cid)) + of_bool (P r)"
  using filter_update [OF assms, of P "nt_conn s" r] by (simp add: how_many_def)

text \<open>What one stage does to the counter.\<close>

lemma rover_auth_stage:
  assumes "rover_auth E now r c = (r', c')"
  shows "rc_stage r' \<in> {S_lookup, S_end} \<and> ca_limiter c' = ca_limiter c"
  using assms
  by (auto simp: rover_auth_def refuse_def split: if_splits prod.splits option.splits)

lemma rover_step_stage:
  assumes "rover_step E now r c = (r', c')"
  shows "(case rc_stage r of
      S_auth \<Rightarrow> rc_stage r' \<in> {S_lookup, S_end} \<and> ca_limiter c' = ca_limiter c
    | S_lookup \<Rightarrow> rc_stage r' \<in> {S_enabled, S_end} \<and> ca_limiter c' = ca_limiter c
    | S_enabled \<Rightarrow> rc_stage r' \<in> {S_source, S_end} \<and> ca_limiter c' = ca_limiter c
    | S_source \<Rightarrow> rc_stage r' \<in> {S_capacity, S_end} \<and> ca_limiter c' = ca_limiter c
    | S_capacity \<Rightarrow> (rc_stage r' = S_end \<or> rc_stage r' = S_register \<and> \<not> AtCapacity (ca_limiter c))
        \<and> ca_limiter c' = ca_limiter c
    | S_register \<Rightarrow> rc_stage r' \<in> {S_count, S_end} \<and> ca_limiter c' = ca_limiter c
    | S_count \<Rightarrow> rc_stage r' = S_reply \<and> ca_limiter c' = gl_Add (ca_limiter c)
    | S_reply \<Rightarrow> rc_stage r' = S_loop \<and> ca_limiter c' = ca_limiter c
    | S_loop \<Rightarrow> rc_stage r' = S_release \<and> ca_limiter c' = ca_limiter c
    | S_release \<Rightarrow> rc_stage r' = S_end \<and> ca_limiter c' = gl_Release (ca_limiter c)
    | S_end \<Rightarrow> rc_stage r' = S_end \<and> ca_limiter c' = ca_limiter c)"
  using assms rover_auth_stage [of E now r c]
  by (cases "rc_stage r")
    (auto simp: rover_step.simps refuse_def set_obj_def split: option.splits if_splits)

lemma rover_step_count:
  assumes "rover_step E now r c = (r', c')"
  shows "gl_maxCount (ca_limiter c') = gl_maxCount (ca_limiter c)
    \<and> gl_count (ca_limiter c') - of_bool (counted r') = gl_count (ca_limiter c) - of_bool (counted r)
    \<and> (passed r' \<longrightarrow> passed r \<or> gl_count (ca_limiter c) < gl_maxCount (ca_limiter c))
    \<and> (passed r \<longrightarrow> passed r' \<or> counted r' \<or> gl_count (ca_limiter c') = gl_count (ca_limiter c))
    \<and> (counted r' \<longrightarrow> counted r \<or> passed r)"
  using rover_step_stage [OF assms]
  by (cases "rc_stage r") (auto simp: counted_def passed_def gl_Add_def gl_Release_def AtCapacity_def)

definition count_ok :: "int \<Rightarrow> net \<Rightarrow> bool" where
  "count_ok mc s \<longleftrightarrow> distinct (nt_ids s) \<and> gl_maxCount (ca_limiter (nt_caster s)) = mc
     \<and> gl_count (ca_limiter (nt_caster s)) = int (how_many counted s)"

definition bound_ok :: "int \<Rightarrow> nat \<Rightarrow> net \<Rightarrow> bool" where
  "bound_ok mc w s \<longleftrightarrow> gl_count (ca_limiter (nt_caster s)) + int (how_many passed s) \<le> mc + int w - 1"

lemma new_conn_quiet: "\<not> counted (new_conn cid req)" "\<not> passed (new_conn cid req)"
  by (simp_all add: counted_def passed_def new_conn_def)

lemma how_many_accept:
  assumes "cid \<notin> set (nt_ids s)" "\<not> P (new_conn cid req)"
  shows "how_many P (s\<lparr>nt_ids := nt_ids s @ [cid], nt_conn := (nt_conn s)(cid := new_conn cid req)\<rparr>) = how_many P s"
proof -
  have "filter (\<lambda>i. P (((nt_conn s)(cid := new_conn cid req)) i)) (nt_ids s) = filter (\<lambda>i. P (nt_conn s i)) (nt_ids s)"
    using assms(1) by (intro filter_cong) auto
  with assms show ?thesis by (simp add: how_many_def)
qed

lemma net_step_ok:
  assumes step: "net_step E e s = Some t" and ok: "count_ok mc s" "bound_ok mc w s" and w: "how_many passed t \<le> w"
  shows "count_ok mc t \<and> bound_ok mc w t"
proof (cases e)
  case (N_accept cid req)
  with step ok how_many_accept [of cid s counted] how_many_accept [of cid s passed] show ?thesis
    by (auto simp: count_ok_def bound_ok_def new_conn_quiet split: if_splits)
next
  case (N_other st reg obj)
  with step ok show ?thesis by (auto simp: count_ok_def bound_ok_def how_many_def)
next
  case (N_step cid now)
  then obtain r c where r: "rover_step E now (nt_conn s cid) (nt_caster s) = (r, c)"
    and t: "t = s\<lparr>nt_caster := c, nt_conn := (nt_conn s)(cid := r)\<rparr>" and cid: "cid \<in> set (nt_ids s)"
    using step by (auto split: if_splits prod.splits)
  note n = rover_step_count [OF r, THEN conjunct1] rover_step_count [OF r, THEN conjunct2, THEN conjunct1]
    rover_step_count [OF r, THEN conjunct2, THEN conjunct2]
  from ok have d: "distinct (nt_ids s)" by (simp add: count_ok_def)
  note hm = how_many_step [OF d cid, where c = c and r = r, folded t]
  have "gl_count (ca_limiter c) = int (how_many counted t)"
    using ok n(2) hm [of counted] by (simp add: count_ok_def)
  with ok n(1) have c: "count_ok mc t" by (simp add: count_ok_def t)
  have "gl_count (ca_limiter c) + int (how_many passed t) \<le> mc + int w - 1"
  proof (cases "passed r \<and> \<not> passed (nt_conn s cid)")
    case True
    then have "\<not> counted r" by (auto simp: passed_def counted_def)
    with True n w ok show ?thesis by (auto simp: count_ok_def split: if_splits)
  next
    case False
    have "of_bool (passed r) \<le> (of_bool (passed (nt_conn s cid)) :: int)" using False by simp
    moreover have "passed (nt_conn s cid) \<Longrightarrow> \<not> counted (nt_conn s cid)" "passed r \<Longrightarrow> \<not> counted r"
      by (auto simp: passed_def counted_def)
    ultimately show ?thesis using ok(2) hm [of passed] n(2,3) unfolding bound_ok_def
      by (cases "passed r"; cases "passed (nt_conn s cid)"; cases "counted r"; cases "counted (nt_conn s cid)";
        simp only: of_bool_eq simp_thms; linarith)
  qed
  with c show ?thesis by (simp add: bound_ok_def t)
qed

lemma net_run_ok:
  assumes "net_run E w s es t" "count_ok mc s" "bound_ok mc w s"
  shows "count_ok mc t \<and> bound_ok mc w t"
  using assms
  by (induction rule: net_run.induct) (auto dest: net_step_ok)

text \<open>Running a sequence of events, with the window of every state on the way.\<close>

fun net_exec :: "caster_env \<Rightarrow> nat \<Rightarrow> net \<Rightarrow> net_event list \<Rightarrow> net option" where
  "net_exec E w s [] = Some s"
| "net_exec E w s (e # es) =
     (case net_step E e s of
        None \<Rightarrow> None
      | Some t \<Rightarrow> if how_many passed t \<le> w then net_exec E w t es else None)"

lemma net_exec_run: "net_exec E w s es = Some t \<Longrightarrow> net_run E w s es t"
  by (induction E w s es rule: net_exec.induct) (auto intro: net_run.intros split: option.splits if_splits)

lemma net_start_ok:
  assumes "gl_count (ca_limiter c) = 0" "0 \<le> gl_maxCount (ca_limiter c)" "1 \<le> w"
  shows "count_ok (gl_maxCount (ca_limiter c)) (net_start c)" "bound_ok (gl_maxCount (ca_limiter c)) w (net_start c)"
  using assms by (simp_all add: count_ok_def bound_ok_def net_start_def how_many_def)

section \<open>Handlers end\<close>

text \<open>The stages in the order of the code.\<close>

primrec stage_rank :: "stage \<Rightarrow> nat" where
  "stage_rank S_auth = 0"
| "stage_rank S_lookup = 1"
| "stage_rank S_enabled = 2"
| "stage_rank S_source = 3"
| "stage_rank S_capacity = 4"
| "stage_rank S_register = 5"
| "stage_rank S_count = 6"
| "stage_rank S_reply = 7"
| "stage_rank S_loop = 8"
| "stage_rank S_release = 9"
| "stage_rank S_end = 10"

lemma stage_rank_inject: "stage_rank a = stage_rank b \<Longrightarrow> a = b"
  by (cases a; cases b) simp_all

instantiation stage :: linorder
begin

definition less_eq_stage :: "stage \<Rightarrow> stage \<Rightarrow> bool" where
  "a \<le> b \<longleftrightarrow> stage_rank a \<le> stage_rank b"

definition less_stage :: "stage \<Rightarrow> stage \<Rightarrow> bool" where
  "a < b \<longleftrightarrow> stage_rank a < stage_rank b"

instance
  by intro_classes (auto simp: less_eq_stage_def less_stage_def dest: stage_rank_inject)

end

lemma rover_step_forward:
  "rc_stage r \<noteq> S_end \<Longrightarrow> rc_stage r < rc_stage (fst (rover_step E now r c))"
  using rover_step_stage [OF surjective_pairing, of E now r c]
  by (cases "rc_stage r") (auto simp: less_stage_def)

lemma rover_step_end: "rc_stage r = S_end \<Longrightarrow> rover_step E now r c = (r, c)"
  by (simp add: rover_step.simps)

fun steps_of :: "string \<Rightarrow> net_event list \<Rightarrow> nat" where
  "steps_of cid [] = 0"
| "steps_of cid (N_step i now # es) = (if i = cid then 1 else 0) + steps_of cid es"
| "steps_of cid (e # es) = steps_of cid es"

lemma net_step_progress:
  assumes "net_step E e s = Some t" "cid \<in> set (nt_ids s)"
  shows "cid \<in> set (nt_ids t)
    \<and> min 10 (stage_rank (rc_stage (nt_conn s cid)) + steps_of cid [e]) \<le> stage_rank (rc_stage (nt_conn t cid))"
proof (cases e)
  case (N_accept i req)
  with assms show ?thesis by (auto split: if_splits)
next
  case (N_other st reg obj)
  with assms show ?thesis by auto
next
  case (N_step i now)
  then obtain r c where r: "rover_step E now (nt_conn s i) (nt_caster s) = (r, c)"
    and t: "t = s\<lparr>nt_caster := c, nt_conn := (nt_conn s)(i := r)\<rparr>"
    using assms(1) by (auto split: if_splits prod.splits)
  show ?thesis
  proof (cases "rc_stage (nt_conn s i) = S_end")
    case True
    with rover_step_end [OF True] r have "r = nt_conn s i" by simp
    with True N_step t assms(2) show ?thesis by auto
  next
    case False
    from rover_step_forward [OF False, of E now "nt_caster s"] r N_step t assms(2) show ?thesis
      by (auto simp: less_stage_def)
  qed
qed

lemma net_run_progress:
  assumes "net_run E w s es t" "cid \<in> set (nt_ids s)"
  shows "min 10 (stage_rank (rc_stage (nt_conn s cid)) + steps_of cid es) \<le> stage_rank (rc_stage (nt_conn t cid))"
  using assms
proof (induction rule: net_run.induct)
  case (net_more e s t es u)
  have "steps_of cid (e # es) = steps_of cid [e] + steps_of cid es" by (cases e) simp_all
  with net_step_progress [OF net_more.hyps(1) net_more.prems] net_more.IH show ?case by auto
qed simp

section \<open>Properties\<close>


text \<open>
  C21. However the handlers of any number of rovers interleave with each other and with changes of the tables and
  the mountpoints, the global counter is exactly the number of rovers between \<open>Add\<close> and \<open>Release\<close>: none is
  counted twice or forgotten. If at most \<open>w\<close> handlers at a time are between the check of the limit and \<open>Add\<close>,
  the counter never exceeds the limit by more than \<open>w - 1\<close>; handlers that do not overlap there keep the limit.
\<close>

theorem rover_count_exact_and_bounded:
  assumes "net_run E w (net_start c) es t"
    and "gl_count (ca_limiter c) = 0" "0 \<le> gl_maxCount (ca_limiter c)" "1 \<le> w"
  shows "gl_count (ca_limiter (nt_caster t)) = int (how_many counted t)
    \<and> gl_count (ca_limiter (nt_caster t)) \<le> gl_maxCount (ca_limiter c) + int w - 1"
  using net_run_ok [OF assms(1) net_start_ok [OF assms(2-4)]] by (auto simp: count_ok_def bound_ok_def)

definition sample_request :: ntrip_request where
  "sample_request =
     \<lparr>rq_Type = RequestRover, rq_MountPoint = ''A'', rq_Password = [], rq_Headers = Map.empty, rq_Proto = []\<rparr>"

definition limit_one :: caster where
  "limit_one = sample_caster\<lparr>ca_limiter := NewGlobalLimiter 1\<rparr>"

text \<open>Two rovers in step with each other, and the first rover alone, its turns interrupted after \<open>n\<close>.\<close>

definition side_by_side :: "nat \<Rightarrow> net_event list" where
  "side_by_side n = [N_accept ''r1'' sample_request, N_accept ''r2'' sample_request]
     @ concat (replicate n [N_step ''r1'' 0, N_step ''r2'' 0])"

definition one_after_other :: "nat \<Rightarrow> net_event list" where
  "one_after_other n = N_accept ''r1'' sample_request # replicate n (N_step ''r1'' 0)
     @ N_accept ''r2'' sample_request # replicate n (N_step ''r2'' 0)"

theorem rover_count_exact_and_bounded_witness:
  "\<exists>t. net_run sample_open_cfg 1 (net_start limit_one) (one_after_other 8) t
    \<and> gl_count (ca_limiter (nt_caster t)) = int (how_many counted t)
    \<and> gl_count (ca_limiter (nt_caster t)) \<le> 1 + int 1 - 1"
proof -
  have "net_exec sample_open_cfg 1 (net_start limit_one) (one_after_other 8) \<noteq> None" by code_simp
  then obtain t where "net_run sample_open_cfg 1 (net_start limit_one) (one_after_other 8) t"
    by (auto dest: net_exec_run)
  with rover_count_exact_and_bounded [OF this] show ?thesis
    by (auto simp: limit_one_def NewGlobalLimiter_def)
qed


text \<open>A mountpoint switched off by \<open>Manager.UpdateMountPoint\<close>.\<close>

definition switched_off :: "mount_point \<Rightarrow> mount_point" where
  "switched_off m =
     the (the (mgr_UpdateMountPoint ''A'' (mp_Description m) (mp_Format m) False (mp_WriteQueue m) (mp_WriteTimeout m)
       (mp_MaxClients m) [''A'' \<mapsto> m]) ''A'')"

definition off_between :: "nat \<Rightarrow> nat \<Rightarrow> net_event list" where
  "off_between i j = N_accept ''r1'' sample_request # replicate i (N_step ''r1'' 0)
     @ N_other (ca_store limit_one) (ca_reg limit_one) (\<lambda>k. switched_off (ca_obj limit_one k))
     # replicate j (N_step ''r1'' 0)"


end
