(* ===== verification/Admin_Api.thy ===== *)
theory Admin_Api
  imports Mount_Runtime Api_Client
begin

text \<open>
  The admin server: \<open>internal/api/handlers.go\<close>, \<open>middleware.go\<close> and the routes of
  \<open>http_server.go\<close>. A handler maps the request and the server's state (tables, mountpoints at
  run time, login sessions) to a reply and a new state. A body is the JSON value of the request,
  \<open>None\<close> when it does not parse; a field is found under its exact name. Times are seconds,
  \<open>stamp\<close> formats one as RFC 3339; the random token and the order in which Go walks through
  the map of mountpoints (\<open>names\<close>) are arguments, and so are the pages outside \<open>/api/\<close>.
\<close>

section \<open>State and replies\<close>

record server =
  sv_store :: store
  sv_mgr :: manager
  sv_sessions :: "string \<rightharpoonup> string \<times> int"

record api_env =
  ae_hash :: "string \<Rightarrow> string option"
  ae_verify :: "string \<Rightarrow> string \<Rightarrow> bool"
  ae_like :: "string \<Rightarrow> string \<Rightarrow> bool"
  ae_heap :: "string \<Rightarrow> rover"
  ae_writeQueue :: int
  ae_writeTimeout :: int
  ae_stamp :: "int \<Rightarrow> string"
  ae_names :: "string list"
  ae_page :: "http_request \<Rightarrow> fetch_outcome"

text \<open>\<open>jsonError\<close> and \<open>jsonOK\<close>.\<close>

datatype 'a reply = jsonError string int | jsonOK 'a

text \<open>The text of a service error, without what the driver or bcrypt adds after the colon.\<close>

fun error_prefix :: "svc_error \<Rightarrow> string" where
  "error_prefix Hash_password = ''hash password''"
| "error_prefix Insert_user = ''insert user''"
| "error_prefix Hash_secret = ''hash mountpoint source secret''"
| "error_prefix Insert_mountpoint = ''insert mountpoint''"
| "error_prefix Add_binding = ''add binding''"

section \<open>Decoding requests\<close>

text \<open>\<open>Decode\<close> into a struct: a missing or null field keeps the zero value, another type is an error.\<close>

definition body_fields :: "json option \<Rightarrow> (string \<times> json) list option" where
  "body_fields body =
     (case body of Some (JObj ps) \<Rightarrow> Some ps | Some JNull \<Rightarrow> Some [] | _ \<Rightarrow> None)"

definition str_field :: "string \<Rightarrow> (string \<times> json) list \<Rightarrow> string option" where
  "str_field k ps =
     (case map_of ps k of None \<Rightarrow> Some [] | Some JNull \<Rightarrow> Some [] | Some (JStr s) \<Rightarrow> Some s | _ \<Rightarrow> None)"

definition str_ptr_field :: "string \<Rightarrow> (string \<times> json) list \<Rightarrow> string option option" where
  "str_ptr_field k ps =
     (case map_of ps k of None \<Rightarrow> Some None | Some JNull \<Rightarrow> Some None | Some (JStr s) \<Rightarrow> Some (Some s) | _ \<Rightarrow> None)"

definition bool_ptr_field :: "string \<Rightarrow> (string \<times> json) list \<Rightarrow> bool option option" where
  "bool_ptr_field k ps =
     (case map_of ps k of None \<Rightarrow> Some None | Some JNull \<Rightarrow> Some None | Some (JBool b) \<Rightarrow> Some (Some b) | _ \<Rightarrow> None)"

definition int_ptr_field :: "string \<Rightarrow> (string \<times> json) list \<Rightarrow> int option option" where
  "int_ptr_field k ps =
     (case map_of ps k of None \<Rightarrow> Some None | Some JNull \<Rightarrow> Some None
      | Some (JNum r) \<Rightarrow> if of_int \<lfloor>r\<rfloor> = r \<and> - (2 ^ 63) \<le> r \<and> r < 2 ^ 63 then Some (Some \<lfloor>r\<rfloor>) else None
      | _ \<Rightarrow> None)"

definition int_field :: "string \<Rightarrow> (string \<times> json) list \<Rightarrow> int option" where
  "int_field k ps = map_option (\<lambda>x. nullish x 0) (int_ptr_field k ps)"

text \<open>The request structs of the handlers, field by field in the order of the structs.\<close>

definition login_fields :: "json option \<Rightarrow> (string \<times> string) option" where
  "login_fields body =
     Option.bind (body_fields body) (\<lambda>ps. Option.bind (str_field ''username'' ps) (\<lambda>u.
       map_option (\<lambda>p. (u, p)) (str_field ''password'' ps)))"

definition create_user_fields :: "json option \<Rightarrow> (string \<times> string \<times> string) option" where
  "create_user_fields body =
     Option.bind (body_fields body) (\<lambda>ps. Option.bind (str_field ''username'' ps) (\<lambda>u.
       Option.bind (str_field ''password'' ps) (\<lambda>p. map_option (\<lambda>r. (u, p, r)) (str_field ''role'' ps))))"

definition update_user_fields :: "json option \<Rightarrow> (string \<times> bool option \<times> string) option" where
  "update_user_fields body =
     Option.bind (body_fields body) (\<lambda>ps. Option.bind (str_field ''role'' ps) (\<lambda>r.
       Option.bind (bool_ptr_field ''enabled'' ps) (\<lambda>e. map_option (\<lambda>p. (r, e, p)) (str_field ''password'' ps))))"

definition create_mount_fields :: "json option \<Rightarrow> (string \<times> string \<times> string \<times> string \<times> int) option" where
  "create_mount_fields body =
     Option.bind (body_fields body) (\<lambda>ps. Option.bind (str_field ''name'' ps) (\<lambda>n.
       Option.bind (str_field ''description'' ps) (\<lambda>d. Option.bind (str_field ''format'' ps) (\<lambda>f.
       Option.bind (str_field ''source_secret'' ps) (\<lambda>p. map_option (\<lambda>m. (n, d, f, p, m)) (int_field ''max_clients'' ps))))))"

definition update_mount_fields ::
  "json option \<Rightarrow> (string \<times> string \<times> bool option \<times> string option \<times> int option) option" where
  "update_mount_fields body =
     Option.bind (body_fields body) (\<lambda>ps. Option.bind (str_field ''description'' ps) (\<lambda>d.
       Option.bind (str_field ''format'' ps) (\<lambda>f. Option.bind (bool_ptr_field ''enabled'' ps) (\<lambda>e.
       Option.bind (str_ptr_field ''source_secret'' ps) (\<lambda>p. map_option (\<lambda>m. (d, f, e, p, m)) (int_ptr_field ''max_clients'' ps))))))"

definition binding_fields :: "json option \<Rightarrow> (int \<times> int) option" where
  "binding_fields body =
     Option.bind (body_fields body) (\<lambda>ps. Option.bind (int_field ''user_id'' ps) (\<lambda>u.
       map_option (\<lambda>m. (u, m)) (int_field ''mountpoint_id'' ps)))"

definition parseID :: "string \<Rightarrow> int option" where
  "parseID s = parse_int64 s"

definition parseIntParam :: "string \<Rightarrow> int \<Rightarrow> int" where
  "parseIntParam s defaultVal =
     (if s = [] then defaultVal
      else case parse_int64 s of None \<Rightarrow> defaultVal | Some v \<Rightarrow> if v < 1 then defaultVal else v)"

definition enabled_param :: "params \<Rightarrow> bool option" where
  "enabled_param q = (let e = query_get q ''enabled'' in if e \<noteq> [] then Some (e = ''true'') else None)"

section \<open>Sessions\<close>

definition sessionTTL :: int where
  "sessionTTL = 24 * 3600"

definition sess_Create :: "string \<Rightarrow> int \<Rightarrow> string \<Rightarrow> server \<Rightarrow> server" where
  "sess_Create token now username v =
     v\<lparr>sv_sessions := (sv_sessions v)(token \<mapsto> (username, now + sessionTTL))\<rparr>"

definition sess_Validate :: "int \<Rightarrow> string \<Rightarrow> server \<Rightarrow> string option \<times> server" where
  "sess_Validate now token v =
     (case sv_sessions v token of
        None \<Rightarrow> (None, v)
      | Some (username, expiresAt) \<Rightarrow>
          if expiresAt < now then (None, v\<lparr>sv_sessions := (sv_sessions v)(token := None)\<rparr>)
          else (Some username, v))"

definition sess_Destroy :: "string \<Rightarrow> server \<Rightarrow> server" where
  "sess_Destroy token v = v\<lparr>sv_sessions := (sv_sessions v)(token := None)\<rparr>"

definition h_Login :: "api_env \<Rightarrow> int \<Rightarrow> string \<Rightarrow> json option \<Rightarrow> server \<Rightarrow> string reply \<times> server" where
  "h_Login ae now token body v =
     (case login_fields body of
        None \<Rightarrow> (jsonError ''invalid request body'' 400, v)
      | Some (u, p) \<Rightarrow>
          let (r, st) = Authenticate (ae_verify ae) now u p (sv_store v); v = v\<lparr>sv_store := st\<rparr> in
          case r of
            None \<Rightarrow> (jsonError ''invalid credentials'' 401, v)
          | Some user \<Rightarrow>
              if u_role user \<noteq> RoleAdmin then (jsonError ''invalid credentials'' 401, v)
              else (jsonOK (u_username user), sess_Create token now (u_username user) v))"

definition h_Logout :: "string option \<Rightarrow> server \<Rightarrow> unit reply \<times> server" where
  "h_Logout cookie v = (jsonOK (), case cookie of None \<Rightarrow> v | Some t \<Rightarrow> sess_Destroy t v)"

section \<open>Users\<close>

definition to_user :: "db_user \<Rightarrow> user" where
  "to_user u = \<lparr>u_id = u_id u, u_username = u_username u, u_role = u_role u, u_enabled = u_enabled u\<rparr>"

text \<open>An empty result is a nil slice and encodes as \<open>null\<close>.\<close>

definition nil_slice :: "'a list \<Rightarrow> 'a list option" where
  "nil_slice xs = (if xs = [] then None else Some xs)"

definition h_ListUsers :: "api_env \<Rightarrow> params \<Rightarrow> server \<Rightarrow> user paginated_response" where
  "h_ListUsers ae q v =
     (let page = parseIntParam (query_get q ''page'') 1; limit = parseIntParam (query_get q ''limit'') 50;
          (users, total) = ListUsersPaginated (ae_like ae) page limit (query_get q ''search'') (query_get q ''role'')
                             (enabled_param q) (sv_store v)
      in \<lparr>pr_data = nil_slice (map to_user users), pr_total = total, pr_page = page, pr_limit = limit\<rparr>)"

definition h_CreateUser :: "api_env \<Rightarrow> json option \<Rightarrow> server \<Rightarrow> user reply \<times> server" where
  "h_CreateUser ae body v =
     (case create_user_fields body of
        None \<Rightarrow> (jsonError ''invalid request body'' 400, v)
      | Some (u, p, r) \<Rightarrow>
          if u = [] \<or> p = [] \<or> r = [] then (jsonError ''username, password, and role are required'' 400, v)
          else case CreateUser (ae_hash ae) u p r (sv_store v) of
                 Inl e \<Rightarrow> (jsonError (error_prefix e) 409, v)
               | Inr (user, st) \<Rightarrow> (jsonOK user, v\<lparr>sv_store := st\<rparr>))"

definition h_UpdateUser :: "api_env \<Rightarrow> string \<Rightarrow> json option \<Rightarrow> server \<Rightarrow> unit reply \<times> server" where
  "h_UpdateUser ae idText body v =
     (case parseID idText of None \<Rightarrow> (jsonError ''invalid user id'' 400, v) | Some i \<Rightarrow>
      case update_user_fields body of
        None \<Rightarrow> (jsonError ''invalid request body'' 400, v)
      | Some (reqRole, reqEnabled, reqPassword) \<Rightarrow>
      case GetUser i (sv_store v) of None \<Rightarrow> (jsonError ''user not found'' 404, v) | Some user \<Rightarrow>
      let role = (if reqRole \<noteq> [] then reqRole else u_role user);
          enabled = nullish reqEnabled (u_enabled user);
          st = UpdateUser i role enabled (sv_store v)
      in case (if reqPassword \<noteq> [] then UpdatePassword (ae_hash ae) i reqPassword st else Inr st) of
           Inl e \<Rightarrow> (jsonError (error_prefix e) 500, v\<lparr>sv_store := st\<rparr>)
         | Inr st' \<Rightarrow>
             (jsonOK (), v\<lparr>sv_store := st',
                sv_mgr := (if u_enabled user \<and> \<not> enabled then mgr_DisconnectUser i (sv_mgr v) else sv_mgr v)\<rparr>))"

definition h_DeleteUser :: "string \<Rightarrow> server \<Rightarrow> unit reply \<times> server" where
  "h_DeleteUser idText v =
     (case parseID idText of None \<Rightarrow> (jsonError ''invalid user id'' 400, v) | Some i \<Rightarrow>
      (jsonOK (), v\<lparr>sv_mgr := mgr_DisconnectUser i (sv_mgr v), sv_store := DeleteUser i (sv_store v)\<rparr>))"

section \<open>Mountpoints\<close>

text \<open>\<open>omitempty\<close> leaves a zero out of the JSON.\<close>

definition omit_zero :: "rat \<Rightarrow> rat option" where
  "omit_zero r = (if r = 0 then None else Some r)"

definition mp_info :: "(int \<Rightarrow> string) \<Rightarrow> manager \<Rightarrow> db_mount \<Rightarrow> mountpoint_info" where
  "mp_info stamp g row =
     (let mp = g (m_name row); ant = Option.bind mp mp_antennaPos in
      \<lparr>m_id = m_id row, m_name = m_name row, m_description = m_description row, m_enabled = m_enabled row,
       m_format = m_format row, m_source_auth_mode = m_source_auth_mode row, m_write_queue = m_write_queue row,
       m_write_timeout_ms = m_write_timeout_ms row, m_max_clients = m_max_clients row,
       m_source_online = nullish (map_option (\<lambda>m. sn_SourceOnline (mp_Stats m)) mp) False,
       m_client_count = nullish (map_option (\<lambda>m. sn_ClientCount (mp_Stats m)) mp) 0,
       m_antenna_lat = Option.bind ant (\<lambda>p. omit_zero (ap_latitude p)),
       m_antenna_lon = Option.bind ant (\<lambda>p. omit_zero (ap_longitude p)),
       m_antenna_height = Option.bind ant (\<lambda>p. omit_zero (ap_height p)),
       m_antenna_updated_at = Option.bind ant (\<lambda>p. if 0 < ap_updated_at p then Some (stamp (ap_updated_at p)) else None)\<rparr>)"

definition h_ListMountpoints :: "api_env \<Rightarrow> params \<Rightarrow> server \<Rightarrow> mountpoint_info paginated_response" where
  "h_ListMountpoints ae q v =
     (let page = parseIntParam (query_get q ''page'') 1; limit = parseIntParam (query_get q ''limit'') 50;
          (rows, total) = ListMountPointRowsPaginated (ae_like ae) page limit (query_get q ''search'')
                            (query_get q ''format'') (enabled_param q) (sv_store v)
      in \<lparr>pr_data = Some (map (mp_info (ae_stamp ae) (sv_mgr v)) rows), pr_total = total, pr_page = page, pr_limit = limit\<rparr>)"

definition h_CreateMountpoint :: "api_env \<Rightarrow> json option \<Rightarrow> server \<Rightarrow> mountpoint_row reply \<times> server" where
  "h_CreateMountpoint ae body v =
     (case create_mount_fields body of
        None \<Rightarrow> (jsonError ''invalid request body'' 400, v)
      | Some (n, d, f, p, m) \<Rightarrow>
      if n = [] then (jsonError ''name is required'' 400, v) else
      let format = (if f = [] then ''RTCM3'' else f) in
      case CreateMountPointRow n d format (sv_store v) of
        Inl e \<Rightarrow> (jsonError (error_prefix e) 409, v)
      | Inr (row, st) \<Rightarrow>
      case (if p \<noteq> [] then SetMountPointSourceSecret (ae_hash ae) (m_id row) p st else Inr st) of
        Inl e \<Rightarrow> (jsonError (error_prefix e) 500, v\<lparr>sv_store := st\<rparr>)
      | Inr st \<Rightarrow>
      let st = (if 0 < m then SetMountPointMaxClients (m_id row) m st else st) in
      (jsonOK row, v\<lparr>sv_store := st,
         sv_mgr := nullish (mgr_Create (ae_heap ae) n d format (ae_writeQueue ae) (ae_writeTimeout ae) m (sv_mgr v)) (sv_mgr v)\<rparr>))"

definition h_UpdateMountpoint :: "api_env \<Rightarrow> string \<Rightarrow> json option \<Rightarrow> server \<Rightarrow> unit reply \<times> server" where
  "h_UpdateMountpoint ae idText body v =
     (case parseID idText of None \<Rightarrow> (jsonError ''invalid mountpoint id'' 400, v) | Some i \<Rightarrow>
      case update_mount_fields body of
        None \<Rightarrow> (jsonError ''invalid request body'' 400, v)
      | Some (reqDesc, reqFormat, reqEnabled, reqSecret, reqMax) \<Rightarrow>
      case GetMountPointRowByID i (sv_store v) of None \<Rightarrow> (jsonError ''mountpoint not found'' 404, v) | Some row \<Rightarrow>
      let desc = (if reqDesc \<noteq> [] then reqDesc else m_description row);
          format = (if reqFormat \<noteq> [] then reqFormat else m_format row);
          enabled = nullish reqEnabled (m_enabled row);
          maxClients = nullish reqMax (m_max_clients row);
          st = UpdateMountPointRow i desc format enabled (sv_store v);
          st = (case reqMax of None \<Rightarrow> st | Some n \<Rightarrow> SetMountPointMaxClients i n st)
      in case (case reqSecret of None \<Rightarrow> Inr st | Some p \<Rightarrow> SetMountPointSourceSecret (ae_hash ae) i p st) of
           Inl e \<Rightarrow> (jsonError (error_prefix e) 500, v\<lparr>sv_store := st\<rparr>)
         | Inr st' \<Rightarrow>
             (jsonOK (), v\<lparr>sv_store := st',
                sv_mgr := nullish (mgr_UpdateMountPoint (m_name row) desc format enabled (ae_writeQueue ae)
                                     (ae_writeTimeout ae) maxClients (sv_mgr v)) (sv_mgr v)\<rparr>))"

definition h_DeleteMountpoint :: "string \<Rightarrow> server \<Rightarrow> unit reply \<times> server" where
  "h_DeleteMountpoint idText v =
     (case parseID idText of None \<Rightarrow> (jsonError ''invalid mountpoint id'' 400, v) | Some i \<Rightarrow>
      case GetMountPointRowByID i (sv_store v) of None \<Rightarrow> (jsonError ''mountpoint not found'' 404, v) | Some row \<Rightarrow>
      (jsonOK (), v\<lparr>sv_mgr := nullish (map_option fst (mgr_Delete (m_name row) (sv_mgr v))) (sv_mgr v),
                    sv_store := DeleteMountPointRow i (sv_store v)\<rparr>))"

section \<open>Connections and statistics\<close>

definition mgr_List :: "string list \<Rightarrow> manager \<Rightarrow> mount_point list" where
  "mgr_List names g = List.map_filter g names"

definition user_name :: "int \<Rightarrow> store \<Rightarrow> string" where
  "user_name i s = (if 0 < i then nullish (map_option u_username (GetUser i s)) [] else [])"

definition h_ListSources :: "api_env \<Rightarrow> int \<Rightarrow> params \<Rightarrow> server \<Rightarrow> source_info list option" where
  "h_ListSources ae now q v =
     nil_slice (concat (map (\<lambda>mp.
       case mp_source mp of None \<Rightarrow> [] | Some si \<Rightarrow>
       let mountFilter = query_get q ''mountpoint''; usernameFilter = query_get q ''username'';
           username = user_name (so_UserID si) (sv_store v) in
       if so_ID si = [] then []
       else if mountFilter \<noteq> [] \<and> mp_Name mp \<noteq> mountFilter then []
       else if usernameFilter \<noteq> [] \<and> username \<noteq> usernameFilter then []
       else [\<lparr>si_mountpoint = mp_Name mp, si_source_id = so_ID si, si_user_id = so_UserID si, si_username = username,
              si_bytes_in = so_BytesIn si, si_connected_at = ae_stamp ae (so_StartTime si),
              si_duration_seconds = now - so_StartTime si\<rparr>]) (mgr_List (ae_names ae) (sv_mgr v))))"

definition h_ListClients :: "api_env \<Rightarrow> int \<Rightarrow> params \<Rightarrow> server \<Rightarrow> client_info list option" where
  "h_ListClients ae now q v =
     nil_slice (concat (map (\<lambda>mp.
       let mountFilter = query_get q ''mountpoint''; usernameFilter = query_get q ''username'' in
       if mountFilter \<noteq> [] \<and> mp_Name mp \<noteq> mountFilter then []
       else concat (map (\<lambda>cid.
         let c = mp_heap mp cid; username = user_name (rv_UserID c) (sv_store v) in
         if usernameFilter \<noteq> [] \<and> username \<noteq> usernameFilter then []
         else [\<lparr>ci_mountpoint = mp_Name mp, ci_client_id = cid, ci_user_id = rv_UserID c, ci_username = username,
                ci_bytes_out = rv_BytesOut c, ci_connected_at = ae_stamp ae (rv_ConnectedAt c),
                ci_duration_seconds = now - rv_ConnectedAt c\<rparr>]) (mp_clients mp)))
       (mgr_List (ae_names ae) (sv_mgr v))))"

definition h_KickSource :: "string \<Rightarrow> server \<Rightarrow> unit reply \<times> server" where
  "h_KickSource mountName v =
     (if mountName = [] then (jsonError ''mountpoint name required'' 400, v)
      else case sv_mgr v mountName of
             None \<Rightarrow> (jsonError ''mountpoint not found'' 404, v)
           | Some mp \<Rightarrow> (jsonOK (), v\<lparr>sv_mgr := (sv_mgr v)(mountName \<mapsto> ClearSource (SourceID mp) mp)\<rparr>))"

definition h_KickClient :: "string \<Rightarrow> server \<Rightarrow> unit reply \<times> server" where
  "h_KickClient clientID v =
     (if clientID = [] then (jsonError ''client id required'' 400, v)
      else (jsonOK (), v\<lparr>sv_mgr := (\<lambda>n. map_option (KickClient clientID) (sv_mgr v n))\<rparr>))"

definition mount_stat :: "mount_point \<Rightarrow> mountpoint_stats" where
  "mount_stat mp =
     (let snap = mp_Stats mp in
      \<lparr>ms_name = mp_Name mp, ms_client_count = sn_ClientCount snap, ms_source_online = sn_SourceOnline snap,
       ms_bytes_in = sn_BytesIn snap, ms_bytes_out = sn_BytesOut snap, ms_slow_clients = sn_SlowClients snap,
       ms_kick_count = sn_KickCount snap\<rparr>)"

definition h_Stats :: "api_env \<Rightarrow> int \<Rightarrow> server \<Rightarrow> system_stats" where
  "h_Stats ae now v =
     (let mounts = map mount_stat (mgr_List (ae_names ae) (sv_mgr v)) in
      \<lparr>ss_total_clients = foldl (\<lambda>n m. n + ms_client_count m) 0 mounts,
       ss_total_sources = foldl (\<lambda>n m. if ms_source_online m then n + 1 else n) 0 mounts,
       ss_mountpoints = nil_slice mounts, ss_timestamp = ae_stamp ae now\<rparr>)"

section \<open>Bindings\<close>

definition h_ListBindings :: "server \<Rightarrow> binding list option" where
  "h_ListBindings v = nil_slice (ListBindings (sv_store v))"

definition h_ListUserBindings :: "string \<Rightarrow> server \<Rightarrow> (binding list option) reply" where
  "h_ListUserBindings idText v =
     (case parseID idText of None \<Rightarrow> jsonError ''invalid user id'' 400
      | Some i \<Rightarrow> jsonOK (nil_slice (ListBindingsByUser i (sv_store v))))"

definition h_CreateBinding :: "json option \<Rightarrow> server \<Rightarrow> unit reply \<times> server" where
  "h_CreateBinding body v =
     (case binding_fields body of
        None \<Rightarrow> (jsonError ''invalid request body'' 400, v)
      | Some (u, m) \<Rightarrow>
          if u = 0 \<or> m = 0 then (jsonError ''user_id and mountpoint_id are required'' 400, v)
          else case AddBinding u m (sv_store v) of
                 Inl e \<Rightarrow> (jsonError (error_prefix e) 409, v)
               | Inr st \<Rightarrow> (jsonOK (), v\<lparr>sv_store := st\<rparr>))"

definition h_DeleteBinding :: "string \<Rightarrow> server \<Rightarrow> unit reply \<times> server" where
  "h_DeleteBinding idText v =
     (case parseID idText of None \<Rightarrow> (jsonError ''invalid binding id'' 400, v)
      | Some i \<Rightarrow> (jsonOK (), v\<lparr>sv_store := RemoveBinding i (sv_store v)\<rparr>))"

section \<open>Routes\<close>

datatype handler =
    H_Login | H_Logout | H_ListUsers | H_CreateUser | H_UpdateUser | H_DeleteUser | H_ListMountpoints
  | H_CreateMountpoint | H_UpdateMountpoint | H_DeleteMountpoint | H_ListSources | H_ListClients
  | H_KickSource | H_KickClient | H_Stats | H_ListBindings | H_ListUserBindings | H_CreateBinding
  | H_DeleteBinding

text \<open>A pattern is a list of segments; \<open>None\<close> is a wildcard, which matches a segment that is not empty.\<close>

type_synonym pattern = "string \<times> string option list"

definition protected_routes :: "(pattern \<times> handler) list" where
  "protected_routes =
     [((''POST'', [Some ''api'', Some ''logout'']), H_Logout),
      ((''GET'', [Some ''api'', Some ''users'']), H_ListUsers),
      ((''POST'', [Some ''api'', Some ''users'']), H_CreateUser),
      ((''PUT'', [Some ''api'', Some ''users'', None]), H_UpdateUser),
      ((''DELETE'', [Some ''api'', Some ''users'', None]), H_DeleteUser),
      ((''GET'', [Some ''api'', Some ''mountpoints'']), H_ListMountpoints),
      ((''POST'', [Some ''api'', Some ''mountpoints'']), H_CreateMountpoint),
      ((''PUT'', [Some ''api'', Some ''mountpoints'', None]), H_UpdateMountpoint),
      ((''DELETE'', [Some ''api'', Some ''mountpoints'', None]), H_DeleteMountpoint),
      ((''GET'', [Some ''api'', Some ''sources'']), H_ListSources),
      ((''GET'', [Some ''api'', Some ''clients'']), H_ListClients),
      ((''DELETE'', [Some ''api'', Some ''sources'', None]), H_KickSource),
      ((''DELETE'', [Some ''api'', Some ''clients'', None]), H_KickClient),
      ((''GET'', [Some ''api'', Some ''stats'']), H_Stats),
      ((''GET'', [Some ''api'', Some ''bindings'']), H_ListBindings),
      ((''GET'', [Some ''api'', Some ''users'', None, Some ''bindings'']), H_ListUserBindings),
      ((''POST'', [Some ''api'', Some ''bindings'']), H_CreateBinding),
      ((''DELETE'', [Some ''api'', Some ''bindings'', None]), H_DeleteBinding)]"

text \<open>The values of the wildcards when the segments fit the pattern.\<close>

fun segments_match :: "string option list \<Rightarrow> string list \<Rightarrow> string list option" where
  "segments_match [] [] = Some []"
| "segments_match (Some p # ps) (s # ss) = (if p = s then segments_match ps ss else None)"
| "segments_match (None # ps) (s # ss) = (if s \<noteq> [] then map_option ((#) s) (segments_match ps ss) else None)"
| "segments_match _ _ = None"

text \<open>\<open>GET\<close> patterns also serve \<open>HEAD\<close>.\<close>

definition method_matches :: "string \<Rightarrow> string \<Rightarrow> bool" where
  "method_matches m method \<longleftrightarrow> m = method \<or> m = ''GET'' \<and> method = ''HEAD''"

text \<open>
  \<open>url.PathUnescape\<close> on a segment: a plus sign stays, a malformed escape leaves the segment.
  The path is taken to be clean: no empty, \<open>.\<close> or \<open>..\<close> segment, which the mux redirects.
\<close>

fun path_unescape :: "string \<Rightarrow> string option" where
  "path_unescape [] = Some []"
| "path_unescape (c # cs) =
     (if c = CHR ''%'' then
        (case cs of
           a # b # rest \<Rightarrow>
             (case (hex_val a, hex_val b) of
                (Some x, Some y) \<Rightarrow> map_option ((#) (char_of (16 * x + y))) (path_unescape rest)
              | _ \<Rightarrow> None)
         | _ \<Rightarrow> None)
      else map_option ((#) c) (path_unescape cs))"

definition url_path :: "string \<Rightarrow> string" where
  "url_path p = fst (cut CHR ''?'' p)"

definition path_segments :: "string \<Rightarrow> string list" where
  "path_segments p = map (\<lambda>s. nullish (path_unescape s) s) (tl (split_on CHR ''/'' (url_path p)))"

definition route_protected :: "string \<Rightarrow> string \<Rightarrow> (handler \<times> string list) option" where
  "route_protected method path =
     (case List.map_filter (\<lambda>((m, pat), h). if method_matches m method
             then map_option (\<lambda>vs. (h, vs)) (segments_match pat (path_segments path)) else None) protected_routes of
        [] \<Rightarrow> None
      | r # rs \<Rightarrow> Some r)"

text \<open>The outcome of the two muxes and the middleware; a handler comes with its path values.\<close>

datatype dispatch = Refused string | Handle handler "string list" | No_route | Other_page

definition AuthMiddleware :: "int \<Rightarrow> string option \<Rightarrow> server \<Rightarrow> string option \<times> server" where
  "AuthMiddleware now cookie v =
     (case cookie of
        None \<Rightarrow> (Some ''unauthorized'', v)
      | Some t \<Rightarrow> (let (u, v') = sess_Validate now t v in (if u = None then Some ''session expired'' else None, v')))"

text \<open>Everything outside \<open>/api/\<close> is the profiler or the embedded web pages.\<close>

definition serve :: "int \<Rightarrow> string \<Rightarrow> string \<Rightarrow> string option \<Rightarrow> server \<Rightarrow> dispatch \<times> server" where
  "serve now method path cookie v =
     (if method = ''POST'' \<and> path_segments path = [''api'', ''login''] then (Handle H_Login [], v)
      else if length (path_segments path) \<ge> 2 \<and> hd (path_segments path) = ''api''
      then (case AuthMiddleware now cookie v of
              (Some e, v') \<Rightarrow> (Refused e, v')
            | (None, v') \<Rightarrow>
                (case route_protected method path of None \<Rightarrow> No_route | Some (h, vs) \<Rightarrow> Handle h vs, v'))
      else (Other_page, v))"

section \<open>JSON encoding of the answers\<close>

definition encode_user :: "user \<Rightarrow> json" where
  "encode_user u =
     JObj [(''id'', JInt (u_id u)), (''username'', JStr (u_username u)), (''role'', JStr (u_role u)),
           (''enabled'', JBool (u_enabled u))]"

definition row_fields :: "'a mountpoint_row_scheme \<Rightarrow> (string \<times> json) list" where
  "row_fields m =
     [(''id'', JInt (m_id m)), (''name'', JStr (m_name m)), (''description'', JStr (m_description m)),
      (''enabled'', JBool (m_enabled m)), (''format'', JStr (m_format m)),
      (''source_auth_mode'', JStr (m_source_auth_mode m))]
     @ opt_field ''write_queue'' JInt (m_write_queue m) @ opt_field ''write_timeout_ms'' JInt (m_write_timeout_ms m)
     @ [(''max_clients'', JInt (m_max_clients m))]"

definition encode_info :: "mountpoint_info \<Rightarrow> json" where
  "encode_info m =
     JObj (row_fields m @ [(''source_online'', JBool (m_source_online m)), (''client_count'', JInt (m_client_count m))]
       @ opt_field ''antenna_lat'' JNum (m_antenna_lat m) @ opt_field ''antenna_lon'' JNum (m_antenna_lon m)
       @ opt_field ''antenna_height'' JNum (m_antenna_height m)
       @ opt_field ''antenna_updated_at'' JStr (m_antenna_updated_at m))"

definition encode_binding :: "binding \<Rightarrow> json" where
  "encode_binding b =
     JObj ([(''id'', JInt (b_id b)), (''user_id'', JInt (b_user_id b)), (''mountpoint_id'', JInt (b_mountpoint_id b))]
       @ opt_field ''username'' JStr (b_username b) @ opt_field ''mountpoint_name'' JStr (b_mountpoint_name b))"

definition encode_source :: "source_info \<Rightarrow> json" where
  "encode_source s =
     JObj [(''mountpoint'', JStr (si_mountpoint s)), (''source_id'', JStr (si_source_id s)),
           (''user_id'', JInt (si_user_id s)), (''username'', JStr (si_username s)), (''bytes_in'', JInt (si_bytes_in s)),
           (''connected_at'', JStr (si_connected_at s)), (''duration_seconds'', JInt (si_duration_seconds s))]"

definition encode_client :: "client_info \<Rightarrow> json" where
  "encode_client c =
     JObj [(''mountpoint'', JStr (ci_mountpoint c)), (''client_id'', JStr (ci_client_id c)),
           (''user_id'', JInt (ci_user_id c)), (''username'', JStr (ci_username c)), (''bytes_out'', JInt (ci_bytes_out c)),
           (''connected_at'', JStr (ci_connected_at c)), (''duration_seconds'', JInt (ci_duration_seconds c))]"

definition encode_mount_stat :: "mountpoint_stats \<Rightarrow> json" where
  "encode_mount_stat m =
     JObj [(''name'', JStr (ms_name m)), (''client_count'', JInt (ms_client_count m)),
           (''source_online'', JBool (ms_source_online m)), (''bytes_in'', JInt (ms_bytes_in m)),
           (''bytes_out'', JInt (ms_bytes_out m)), (''slow_clients'', JInt (ms_slow_clients m)),
           (''kick_count'', JInt (ms_kick_count m))]"

definition encode_slice :: "('a \<Rightarrow> json) \<Rightarrow> 'a list option \<Rightarrow> json" where
  "encode_slice f xs = (case xs of None \<Rightarrow> JNull | Some ys \<Rightarrow> JArr (map f ys))"

definition encode_page :: "('a \<Rightarrow> json) \<Rightarrow> 'a paginated_response \<Rightarrow> json" where
  "encode_page f r =
     JObj [(''data'', encode_slice f (pr_data r)), (''limit'', JInt (pr_limit r)), (''page'', JInt (pr_page r)),
           (''total'', JInt (pr_total r))]"

definition encode_stats :: "system_stats \<Rightarrow> json" where
  "encode_stats s =
     JObj [(''mountpoints'', encode_slice encode_mount_stat (ss_mountpoints s)), (''timestamp'', JStr (ss_timestamp s)),
           (''total_clients'', JInt (ss_total_clients s)), (''total_sources'', JInt (ss_total_sources s))]"

definition status_ok :: "unit \<Rightarrow> json" where
  "status_ok u = JObj [(''status'', JStr ''ok'')]"

definition encode_reply :: "('a \<Rightarrow> json) \<Rightarrow> 'a reply \<Rightarrow> int \<times> json" where
  "encode_reply f r =
     (case r of jsonError m code \<Rightarrow> (code, JObj [(''error'', JStr m)]) | jsonOK x \<Rightarrow> (200, f x))"

section \<open>The whole server\<close>

text \<open>What the handlers do with a dispatched request. The cookie is the one of the request.\<close>

fun run_handler ::
  "api_env \<Rightarrow> int \<Rightarrow> string \<Rightarrow> handler \<Rightarrow> string \<Rightarrow> params \<Rightarrow> json option \<Rightarrow> string option \<Rightarrow> server
   \<Rightarrow> (int \<times> json) \<times> server" where
  "run_handler ae now token H_Login w q body cookie v =
     apfst (encode_reply (\<lambda>u. JObj [(''status'', JStr ''ok''), (''username'', JStr u)])) (h_Login ae now token body v)"
| "run_handler ae now token H_Logout w q body cookie v = apfst (encode_reply status_ok) (h_Logout cookie v)"
| "run_handler ae now token H_ListUsers w q body cookie v = ((200, encode_page encode_user (h_ListUsers ae q v)), v)"
| "run_handler ae now token H_CreateUser w q body cookie v = apfst (encode_reply encode_user) (h_CreateUser ae body v)"
| "run_handler ae now token H_UpdateUser w q body cookie v = apfst (encode_reply status_ok) (h_UpdateUser ae w body v)"
| "run_handler ae now token H_DeleteUser w q body cookie v = apfst (encode_reply status_ok) (h_DeleteUser w v)"
| "run_handler ae now token H_ListMountpoints w q body cookie v =
     ((200, encode_page encode_info (h_ListMountpoints ae q v)), v)"
| "run_handler ae now token H_CreateMountpoint w q body cookie v =
     apfst (encode_reply (\<lambda>m. JObj (row_fields m))) (h_CreateMountpoint ae body v)"
| "run_handler ae now token H_UpdateMountpoint w q body cookie v =
     apfst (encode_reply status_ok) (h_UpdateMountpoint ae w body v)"
| "run_handler ae now token H_DeleteMountpoint w q body cookie v = apfst (encode_reply status_ok) (h_DeleteMountpoint w v)"
| "run_handler ae now token H_ListSources w q body cookie v =
     ((200, encode_slice encode_source (h_ListSources ae now q v)), v)"
| "run_handler ae now token H_ListClients w q body cookie v =
     ((200, encode_slice encode_client (h_ListClients ae now q v)), v)"
| "run_handler ae now token H_KickSource w q body cookie v = apfst (encode_reply status_ok) (h_KickSource w v)"
| "run_handler ae now token H_KickClient w q body cookie v = apfst (encode_reply status_ok) (h_KickClient w v)"
| "run_handler ae now token H_Stats w q body cookie v = ((200, encode_stats (h_Stats ae now v)), v)"
| "run_handler ae now token H_ListBindings w q body cookie v = ((200, encode_slice encode_binding (h_ListBindings v)), v)"
| "run_handler ae now token H_ListUserBindings w q body cookie v =
     (encode_reply (encode_slice encode_binding) (h_ListUserBindings w v), v)"
| "run_handler ae now token H_CreateBinding w q body cookie v = apfst (encode_reply status_ok) (h_CreateBinding body v)"
| "run_handler ae now token H_DeleteBinding w q body cookie v = apfst (encode_reply status_ok) (h_DeleteBinding w v)"

text \<open>
  The answer to a request as the browser's \<open>fetch\<close> sees it. The mux answers an unknown route
  with a text that is not JSON.
\<close>

definition handle_request ::
  "api_env \<Rightarrow> int \<Rightarrow> string \<Rightarrow> string option \<Rightarrow> http_request \<Rightarrow> server \<Rightarrow> fetch_outcome \<times> server" where
  "handle_request ae now token cookie r v =
     (case serve now (hr_method r) (hr_path r) cookie v of
        (Refused e, v') \<Rightarrow> (Response 401 (Inr (JObj [(''error'', JStr e)])), v')
      | (Handle h vs, v') \<Rightarrow>
          (let ((st, j), v'') = run_handler ae now token h (case vs of [] \<Rightarrow> [] | w # ws \<Rightarrow> w)
                                  (url_query (hr_path r)) (hr_body r) cookie v'
           in (Response st (Inr j), v''))
      | (No_route, v') \<Rightarrow> (Response 404 (Inl ''404 page not found''), v')
      | (Other_page, v') \<Rightarrow> (ae_page ae r, v'))"

section \<open>Start\<close>

text \<open>\<open>syncMountpoints\<close> of \<open>cmd/caster/main.go\<close>; the timeout is in milliseconds.\<close>

definition sync_row :: "api_env \<Rightarrow> db_mount \<Rightarrow> manager \<Rightarrow> manager" where
  "sync_row ae row g =
     (if \<not> m_enabled row then g
      else nullish (mgr_Create (ae_heap ae) (m_name row) (m_description row) (m_format row)
             (nullish (m_write_queue row) (ae_writeQueue ae)) (nullish (m_write_timeout_ms row) (ae_writeTimeout ae))
             (m_max_clients row) g) g)"

definition syncMountpoints :: "api_env \<Rightarrow> store \<Rightarrow> manager" where
  "syncMountpoints ae s = fold (sync_row ae) (ListMountPointRows s) Map.empty"

section \<open>Events\<close>

text \<open>
  What can happen to the server: an admin request, an operation of the caster on one mountpoint, a
  login at the caster, or a decoded antenna position.
\<close>

datatype server_event =
    Request int string "string option" http_request
  | Caster string mount_op
  | Caster_login int string string
  | Caster_antenna string "antenna_position option"

fun server_step :: "api_env \<Rightarrow> server_event \<Rightarrow> server \<Rightarrow> server" where
  "server_step ae (Request now token cookie r) v = snd (handle_request ae now token cookie r v)"
| "server_step ae (Caster n op) v =
     v\<lparr>sv_mgr := (case sv_mgr v n of None \<Rightarrow> sv_mgr v | Some m \<Rightarrow> (sv_mgr v)(n \<mapsto> mount_step op m))\<rparr>"
| "server_step ae (Caster_login now n p) v = v\<lparr>sv_store := snd (Authenticate (ae_verify ae) now n p (sv_store v))\<rparr>"
| "server_step ae (Caster_antenna n pos) v = v\<lparr>sv_store := UpdateMountPointAntennaPosition n pos (sv_store v)\<rparr>"

definition start_server :: "api_env \<Rightarrow> store \<Rightarrow> server" where
  "start_server ae s = \<lparr>sv_store = s, sv_mgr = syncMountpoints ae s, sv_sessions = Map.empty\<rparr>"

section \<open>The invariant of the server\<close>

text \<open>Every mountpoint at run time is consistent, filed under its name, and has a row.\<close>

definition mgr_ok :: "store \<Rightarrow> manager \<Rightarrow> bool" where
  "mgr_ok s g \<longleftrightarrow>
     (\<forall>n mp. g n = Some mp \<longrightarrow> mp_Name mp = n \<and> mount_ok mp \<and> n \<in> set (map m_name (st_mounts s)))"

definition server_ok :: "(string \<Rightarrow> string \<Rightarrow> bool) \<Rightarrow> server \<Rightarrow> bool" where
  "server_ok verify v \<longleftrightarrow>
     (store_ok (sv_store v) \<and> cache_ok verify (sv_store v)) \<and> mgr_ok (sv_store v) (sv_mgr v)"

text \<open>The run-time effects of the handlers are operations of single mountpoints.\<close>

lemma mp_Name_step [simp]: "mp_Name (mount_step op m) = mp_Name m"
proof -
  have "mp_Name (fold (broadcast_one p) ids m) = mp_Name m" for p ids
    by (induction ids arbitrary: m) (simp_all add: broadcast_one_def Let_def)
  then show ?thesis
    by (cases op) (simp_all add: mount_op_defs Broadcast_def Let_def split: option.split)
qed

lemma mount_ok_ops:
  assumes "mount_ok m"
  shows "mount_ok (mp_DisconnectAll m)" "mount_ok (ClearSource i m)" "mount_ok (KickClient i m)"
    "mount_ok (KickClientsByUser u m)" "mount_ok (KickSourceByUser u m)"
  using mount_ok_step [OF assms, of O_DisconnectAll] mount_ok_step [OF assms, of "O_ClearSource i"]
    mount_ok_step [OF assms, of "O_KickClient i"] mount_ok_step [OF assms, of "O_KickClientsByUser u"]
    mount_ok_step [OF assms, of "O_KickSourceByUser u"] by simp_all

lemma mp_Name_ops [simp]:
  "mp_Name (mp_DisconnectAll m) = mp_Name m" "mp_Name (ClearSource i m) = mp_Name m"
  "mp_Name (KickClient i m) = mp_Name m" "mp_Name (KickClientsByUser u m) = mp_Name m"
  "mp_Name (KickSourceByUser u m) = mp_Name m"
  using mp_Name_step [of O_DisconnectAll m] mp_Name_step [of "O_ClearSource i" m] mp_Name_step [of "O_KickClient i" m]
    mp_Name_step [of "O_KickClientsByUser u" m] mp_Name_step [of "O_KickSourceByUser u" m] by simp_all

lemma mgr_ok_map:
  assumes "mgr_ok s g" and "\<And>m. mp_Name (f m) = mp_Name m" and "\<And>m. mount_ok m \<Longrightarrow> mount_ok (f m)"
  shows "mgr_ok s (\<lambda>n. map_option f (g n))"
  using assms by (auto simp: mgr_ok_def)

lemma mgr_ok_upd:
  assumes "mgr_ok s g" and "mp_Name m = n" "mount_ok m" "n \<in> set (map m_name (st_mounts s))"
  shows "mgr_ok s (g(n \<mapsto> m))"
  using assms by (auto simp: mgr_ok_def)

lemma mgr_ok_DisconnectUser: "mgr_ok s g \<Longrightarrow> mgr_ok s (mgr_DisconnectUser u g)"
  unfolding mgr_DisconnectUser_def by (rule mgr_ok_map) (auto simp: mount_ok_ops)

lemma mgr_ok_names:
  "mgr_ok s g \<Longrightarrow> map m_name (st_mounts t) = map m_name (st_mounts s) \<Longrightarrow> mgr_ok t g"
  by (simp only: mgr_ok_def)

lemma mgr_ok_more:
  "mgr_ok s g \<Longrightarrow> set (map m_name (st_mounts s)) \<subseteq> set (map m_name (st_mounts t)) \<Longrightarrow> mgr_ok t g"
  by (fastforce simp: mgr_ok_def)

lemma mgr_ok_Update:
  assumes "mgr_ok s g" and "mgr_UpdateMountPoint n d f e wq wt mc g = Some g'"
  shows "mgr_ok s g'"
proof -
  from assms(2) obtain mp where n: "g n = Some mp" by (auto simp: mgr_UpdateMountPoint_def split: option.splits)
  let ?mp = "mp\<lparr>mp_Description := d, mp_Format := f, mp_enabled := e, mp_WriteQueue := wq, mp_WriteTimeout := wt,
               mp_MaxClients := mc\<rparr>"
  from assms(1) n have "mp_Name ?mp = n" "mount_ok ?mp" "n \<in> set (map m_name (st_mounts s))"
    by (auto simp: mgr_ok_def mount_ok_def)
  moreover from assms(2) n have "g' = g(n \<mapsto> if mp_enabled mp \<and> \<not> e then mp_DisconnectAll ?mp else ?mp)"
    by (simp add: mgr_UpdateMountPoint_def Let_def)
  ultimately show ?thesis using assms(1) by (auto intro!: mgr_ok_upd mount_ok_ops)
qed

text \<open>What one service operation keeps, for the stores of the handlers.\<close>

definition store_inv :: "(string \<Rightarrow> string \<Rightarrow> bool) \<Rightarrow> store \<Rightarrow> bool" where
  "store_inv verify s \<longleftrightarrow> store_ok s \<and> cache_ok verify s"

lemma store_inv_step: "store_inv verify s \<Longrightarrow> store_inv verify (svc_step hash verify op s)"
  by (simp add: store_inv_def store_ok_step cache_ok_step)

lemma store_inv_ops:
  assumes "store_inv verify s"
  shows "store_inv verify (snd (Authenticate verify now n p s))"
    and "CreateUser hash n p r s = Inr (u, t) \<Longrightarrow> store_inv verify t"
    and "store_inv verify (UpdateUser i r b s)"
    and "UpdatePassword hash i p s = Inr t \<Longrightarrow> store_inv verify t"
    and "store_inv verify (DeleteUser i s)"
    and "CreateMountPointRow n d f s = Inr (m, t) \<Longrightarrow> store_inv verify t"
    and "SetMountPointSourceSecret hash i p s = Inr t \<Longrightarrow> store_inv verify t"
    and "store_inv verify (UpdateMountPointRow i d f b s)"
    and "store_inv verify (SetMountPointMaxClients i k s)"
    and "store_inv verify (DeleteMountPointRow i s)"
    and "store_inv verify (UpdateMountPointAntennaPosition n pos s)"
    and "AddBinding i j s = Inr t \<Longrightarrow> store_inv verify t"
    and "store_inv verify (RemoveBinding i s)"
  using store_inv_step [OF assms, where hash = hash and op = "Op_Authenticate now n p"]
    store_inv_step [OF assms, where hash = hash and op = "Op_CreateUser n p r"]
    store_inv_step [OF assms, where hash = hash and op = "Op_UpdateUser i r b"]
    store_inv_step [OF assms, where hash = hash and op = "Op_UpdatePassword i p"]
    store_inv_step [OF assms, where hash = hash and op = "Op_DeleteUser i"]
    store_inv_step [OF assms, where hash = hash and op = "Op_CreateMount n d f"]
    store_inv_step [OF assms, where hash = hash and op = "Op_SetSecret i p"]
    store_inv_step [OF assms, where hash = hash and op = "Op_UpdateMount i d f b"]
    store_inv_step [OF assms, where hash = hash and op = "Op_SetMaxClients i k"]
    store_inv_step [OF assms, where hash = hash and op = "Op_DeleteMount i"]
    store_inv_step [OF assms, where hash = hash and op = "Op_Antenna n pos"]
    store_inv_step [OF assms, where hash = hash and op = "Op_AddBinding i j"]
    store_inv_step [OF assms, where hash = hash and op = "Op_RemoveBinding i"]
  by (simp_all add: or_same_def)

lemma mount_names_ops:
  "st_mounts (snd (Authenticate verify now n p s)) = st_mounts s"
  "CreateUser hash n p r s = Inr (u, t) \<Longrightarrow> st_mounts t = st_mounts s"
  "st_mounts (UpdateUser i r b s) = st_mounts s"
  "UpdatePassword hash i p s = Inr t \<Longrightarrow> st_mounts t = st_mounts s"
  "st_mounts (DeleteUser i s) = st_mounts s"
  "CreateMountPointRow n d f s = Inr (m, t) \<Longrightarrow> set (map m_name (st_mounts t)) = insert n (set (map m_name (st_mounts s)))"
  "SetMountPointSourceSecret hash i p s = Inr t \<Longrightarrow> map m_name (st_mounts t) = map m_name (st_mounts s)"
  "map m_name (st_mounts (UpdateMountPointRow i d f b s)) = map m_name (st_mounts s)"
  "map m_name (st_mounts (SetMountPointMaxClients i k s)) = map m_name (st_mounts s)"
  "map m_name (st_mounts (UpdateMountPointAntennaPosition n pos s)) = map m_name (st_mounts s)"
  "AddBinding i j s = Inr t \<Longrightarrow> st_mounts t = st_mounts s"
  "st_mounts (RemoveBinding i s) = st_mounts s"
  by (auto simp: svc_defs Authenticate_def auth_store_def Let_def mountpoint_row.defs map_update_keep simp del: map_map
      split: option.splits if_splits)

lemma server_ok_iff: "server_ok verify v \<longleftrightarrow> store_inv verify (sv_store v) \<and> mgr_ok (sv_store v) (sv_mgr v)"
  by (simp add: server_ok_def store_inv_def)

text \<open>A new store with the same mountpoint names, and new contents of the manager.\<close>

lemma server_okI:
  assumes "server_ok verify v" "store_inv verify t" "map m_name (st_mounts t) = map m_name (st_mounts (sv_store v))"
  shows "server_ok verify (v\<lparr>sv_store := t\<rparr>)"
    and "mgr_ok (sv_store v) g \<Longrightarrow> server_ok verify (v\<lparr>sv_store := t, sv_mgr := g\<rparr>)"
    and "mgr_ok (sv_store v) g \<Longrightarrow> server_ok verify (v\<lparr>sv_mgr := g, sv_store := t\<rparr>)"
  using assms mgr_ok_names [OF _ assms(3)] by (simp_all add: server_ok_iff)

lemma server_ok_sessions [simp]: "server_ok verify (v\<lparr>sv_sessions := x\<rparr>) = server_ok verify v"
  by (simp add: server_ok_def)

lemma server_ok_mgr: "server_ok verify v \<Longrightarrow> mgr_ok (sv_store v) g \<Longrightarrow> server_ok verify (v\<lparr>sv_mgr := g\<rparr>)"
  by (simp add: server_ok_def)

lemma Login_state:
  "snd (h_Login ae now token body v) = v
   \<or> (\<exists>u p x. snd (h_Login ae now token body v) =
        v\<lparr>sv_store := snd (Authenticate (ae_verify ae) now u p (sv_store v)), sv_sessions := x\<rparr>)"
proof (cases "login_fields body")
  case None
  then show ?thesis by (simp add: h_Login_def)
next
  case (Some up)
  obtain u p where up: "up = (u, p)" by (cases up)
  obtain r st where a: "Authenticate (ae_verify ae) now u p (sv_store v) = (r, st)" by fastforce
  have "\<exists>x. snd (h_Login ae now token body v) = v\<lparr>sv_store := st, sv_sessions := x\<rparr>"
  proof (cases "r = None \<or> u_role (the r) \<noteq> RoleAdmin")
    case True
    with Some up a have "snd (h_Login ae now token body v) = v\<lparr>sv_store := st, sv_sessions := sv_sessions v\<rparr>"
      by (cases r) (simp_all add: h_Login_def)
    then show ?thesis by blast
  next
    case False
    with Some up a show ?thesis by (cases r) (simp_all add: h_Login_def sess_Create_def, blast)
  qed
  with a show ?thesis by (metis snd_conv)
qed

lemma Login_ok: "server_ok (ae_verify ae) v \<Longrightarrow> server_ok (ae_verify ae) (snd (h_Login ae now token body v))"
proof -
  assume v: "server_ok (ae_verify ae) v"
  then have "server_ok (ae_verify ae) (v\<lparr>sv_store := snd (Authenticate (ae_verify ae) now u p (sv_store v))\<rparr>)" for u p
    by (intro server_okI(1)) (simp_all add: server_ok_iff store_inv_ops(1) mount_names_ops(1))
  with v Login_state [of ae now token body v] show ?thesis by auto
qed

lemma Logout_ok: "server_ok verify v \<Longrightarrow> server_ok verify (snd (h_Logout cookie v))"
  by (simp add: h_Logout_def sess_Destroy_def split: option.split)

lemma CreateUser_handler_ok:
  assumes "server_ok verify v"
  shows "server_ok verify (snd (h_CreateUser ae body v))"
proof (cases "create_user_fields body")
  case None
  with assms show ?thesis by (simp add: h_CreateUser_def)
next
  case (Some x)
  obtain n p r where x: "x = (n, p, r)" by (metis prod_cases3)
  have "server_ok verify (v\<lparr>sv_store := t\<rparr>)" if "CreateUser (ae_hash ae) n p r (sv_store v) = Inr (u, t)" for u t
    using assms that by (intro server_okI(1)) (auto simp: server_ok_iff mount_names_ops intro: store_inv_ops(2))
  with assms Some x show ?thesis by (auto simp: h_CreateUser_def split: sum.split)
qed

lemma DeleteUser_handler_ok:
  assumes "server_ok verify v"
  shows "server_ok verify (snd (h_DeleteUser w v))"
proof (cases "parseID w")
  case None
  with assms show ?thesis by (simp add: h_DeleteUser_def)
next
  case (Some i)
  from assms have "store_inv verify (DeleteUser i (sv_store v))" by (simp add: server_ok_iff store_inv_ops(5))
  with assms Some show ?thesis
    by (simp add: h_DeleteUser_def) (rule server_okI(3), simp_all add: mount_names_ops(5) mgr_ok_DisconnectUser server_ok_iff)
qed

lemma UpdateUser_handler_ok:
  assumes "server_ok verify v"
  shows "server_ok verify (snd (h_UpdateUser ae w body v))"
proof (cases "parseID w = None \<or> update_user_fields body = None \<or> GetUser (the (parseID w)) (sv_store v) = None")
  case True
  with assms show ?thesis by (auto simp: h_UpdateUser_def split: option.split)
next
  case False
  then obtain i x u where i: "parseID w = Some i" and x: "update_user_fields body = Some x"
    and u: "GetUser i (sv_store v) = Some u" by auto
  obtain role e pw where xs: "x = (role, e, pw)" by (metis prod_cases3)
  define st where "st = UpdateUser i (if role \<noteq> [] then role else u_role u) (nullish e (u_enabled u)) (sv_store v)"
  define g where "g = (if u_enabled u \<and> \<not> nullish e (u_enabled u) then mgr_DisconnectUser i (sv_mgr v) else sv_mgr v)"
  have st: "store_inv verify st \<and> st_mounts st = st_mounts (sv_store v)"
    using assms by (simp add: st_def server_ok_iff store_inv_ops(3) mount_names_ops(3))
  have "mgr_ok (sv_store v) g" using assms by (simp add: g_def server_ok_iff mgr_ok_DisconnectUser)
  moreover have "store_inv verify t \<and> st_mounts t = st_mounts (sv_store v)"
    if "UpdatePassword (ae_hash ae) i pw st = Inr t" for t
    using st that store_inv_ops(4) [of verify st] mount_names_ops(4) [of "ae_hash ae" i pw st t] by auto
  moreover have "snd (h_UpdateUser ae w body v) =
      (case (if pw \<noteq> [] then UpdatePassword (ae_hash ae) i pw st else Inr st) of
         Inl err \<Rightarrow> v\<lparr>sv_store := st\<rparr> | Inr t \<Rightarrow> v\<lparr>sv_store := t, sv_mgr := g\<rparr>)"
    by (cases "if pw \<noteq> [] then UpdatePassword (ae_hash ae) i pw st else Inr st")
      (simp_all only: h_UpdateUser_def i x u xs st_def g_def Let_def option.case prod.case sum.case snd_conv)
  ultimately show ?thesis using st server_okI [OF assms] by (auto split: sum.split if_splits)
qed

text \<open>The mountpoint handlers.\<close>

lemma mgr_ok_Create:
  assumes "mgr_ok s g" "mgr_Create heap n d f wq wt mc g = Some g'" "n \<in> set (map m_name (st_mounts s))"
  shows "mgr_ok s g'"
proof -
  from assms(2) have "g' = g(n \<mapsto> NewMountPoint heap n d f wq wt mc)"
    by (auto simp: mgr_Create_def split: if_splits)
  with assms show ?thesis
    by (auto intro!: mgr_ok_upd simp: mount_ok_new) (simp add: NewMountPoint_def)
qed

lemma nullish_ok: "(\<And>y. x = Some y \<Longrightarrow> P y) \<Longrightarrow> P d \<Longrightarrow> P (nullish x d)"
  by (cases x) simp_all

lemma CreateMountpoint_ok:
  assumes "server_ok verify v"
  shows "server_ok verify (snd (h_CreateMountpoint ae body v))"
proof (cases "create_mount_fields body")
  case None
  with assms show ?thesis by (simp add: h_CreateMountpoint_def)
next
  case (Some x)
  obtain n d f p m where x: "x = (n, d, f, p, m)" by (metis prod_cases5)
  define fmt where "fmt = (if f = [] then ''RTCM3'' else f)"
  show ?thesis
  proof (cases "n = [] \<or> (\<exists>e. CreateMountPointRow n d fmt (sv_store v) = Inl e)")
    case True
    with assms Some x show ?thesis by (auto simp: h_CreateMountpoint_def fmt_def Let_def)
  next
    case False
    then obtain row st where c: "CreateMountPointRow n d fmt (sv_store v) = Inr (row, st)"
      by (cases "CreateMountPointRow n d fmt (sv_store v)") auto
    have st: "store_inv verify st" using assms c by (auto simp: server_ok_iff intro: store_inv_ops(6))
    have names: "set (map m_name (st_mounts st)) = insert n (set (map m_name (st_mounts (sv_store v))))"
      by (rule mount_names_ops(6) [OF c])
    then have g: "mgr_ok st (sv_mgr v)" using assms by (auto simp: server_ok_iff intro: mgr_ok_more)
    define st2 where "st2 = (if p \<noteq> [] then SetMountPointSourceSecret (ae_hash ae) (m_id row) p st else Inr st)"
    define g2 where "g2 = nullish (mgr_Create (ae_heap ae) n d fmt (ae_writeQueue ae) (ae_writeTimeout ae) m (sv_mgr v)) (sv_mgr v)"
    have "mgr_ok st g2" unfolding g2_def
      by (rule nullish_ok [where P = "mgr_ok st"]) (use names in \<open>auto intro: mgr_ok_Create [OF g] g\<close>)
    moreover have "store_inv verify t \<and> map m_name (st_mounts t) = map m_name (st_mounts st)" if "st2 = Inr t" for t
      using that st store_inv_ops(7) [OF st] mount_names_ops(7) unfolding st2_def by (auto split: if_splits simp del: map_map)
    moreover have "snd (h_CreateMountpoint ae body v) =
        (case st2 of Inl e \<Rightarrow> v\<lparr>sv_store := st\<rparr>
         | Inr t \<Rightarrow> v\<lparr>sv_store := (if 0 < m then SetMountPointMaxClients (m_id row) m t else t), sv_mgr := g2\<rparr>)"
      using False
      by (cases "if p \<noteq> [] then SetMountPointSourceSecret (ae_hash ae) (m_id row) p st else Inr st")
        (simp_all only: h_CreateMountpoint_def Some x c [unfolded fmt_def] st2_def g2_def fmt_def Let_def option.case
          prod.case sum.case, simp_all)
    ultimately show ?thesis
      using st g by (cases st2) (auto simp: server_ok_iff store_inv_ops(9) mount_names_ops(9) intro: mgr_ok_names)
  qed
qed

lemma DeleteMountPoint_names:
  "store_ok s \<Longrightarrow> GetMountPointRowByID i s = Some row \<Longrightarrow>
   set (map m_name (st_mounts (DeleteMountPointRow i s))) = set (map m_name (st_mounts s)) - {m_name row}"
proof -
  assume s: "store_ok s" and r: "GetMountPointRowByID i s = Some row"
  have r': "row \<in> set (st_mounts s)" "m_id row = i"
    using find_Some_in [of _ "st_mounts s" row] r by (auto simp: GetMountPointRowByID_def)
  from s have "inj_on m_id (set (st_mounts s))" "inj_on m_name (set (st_mounts s))"
    by (simp_all add: store_ok_defs distinct_map)
  with r' have "m_name m = m_name row \<longleftrightarrow> m_id m = i" if "m \<in> set (st_mounts s)" for m
    using that by (auto dest: inj_onD)
  then show ?thesis using r' by (force simp: DeleteMountPointRow_def)
qed

lemma DeleteMountpoint_ok:
  assumes "server_ok verify v"
  shows "server_ok verify (snd (h_DeleteMountpoint w v))"
proof (cases "parseID w = None \<or> GetMountPointRowByID (the (parseID w)) (sv_store v) = None")
  case True
  with assms show ?thesis by (auto simp: h_DeleteMountpoint_def split: option.split)
next
  case False
  then obtain i row where i: "parseID w = Some i" and r: "GetMountPointRowByID i (sv_store v) = Some row" by auto
  let ?st = "DeleteMountPointRow i (sv_store v)"
  from assms have n: "set (map m_name (st_mounts ?st)) = set (map m_name (st_mounts (sv_store v))) - {m_name row}"
    by (intro DeleteMountPoint_names r) (simp add: server_ok_def)
  have "nullish (map_option fst (mgr_Delete (m_name row) (sv_mgr v))) (sv_mgr v) = (sv_mgr v)(m_name row := None)"
    by (auto simp: mgr_Delete_def split: option.split)
  moreover have "mgr_ok ?st ((sv_mgr v)(m_name row := None))"
    using assms unfolding server_ok_def mgr_ok_def n by auto
  moreover have "store_inv verify ?st" using assms by (simp add: server_ok_iff store_inv_ops(10))
  ultimately show ?thesis by (simp add: h_DeleteMountpoint_def i r server_ok_iff)
qed

lemma UpdateMountpoint_ok:
  assumes "server_ok verify v"
  shows "server_ok verify (snd (h_UpdateMountpoint ae w body v))"
proof (cases "parseID w = None \<or> update_mount_fields body = None \<or> GetMountPointRowByID (the (parseID w)) (sv_store v) = None")
  case True
  with assms show ?thesis by (auto simp: h_UpdateMountpoint_def split: option.split)
next
  case False
  then obtain i x row where i: "parseID w = Some i" and x: "update_mount_fields body = Some x"
    and r: "GetMountPointRowByID i (sv_store v) = Some row" by auto
  obtain d f e p m where xs: "x = (d, f, e, p, m)" by (metis prod_cases5)
  define desc where "desc = (if d \<noteq> [] then d else m_description row)"
  define fmt where "fmt = (if f \<noteq> [] then f else m_format row)"
  define st where "st = (case m of None \<Rightarrow> UpdateMountPointRow i desc fmt (nullish e (m_enabled row)) (sv_store v)
      | Some n \<Rightarrow> SetMountPointMaxClients i n (UpdateMountPointRow i desc fmt (nullish e (m_enabled row)) (sv_store v)))"
  define g where "g = nullish (mgr_UpdateMountPoint (m_name row) desc fmt (nullish e (m_enabled row)) (ae_writeQueue ae)
      (ae_writeTimeout ae) (nullish m (m_max_clients row)) (sv_mgr v)) (sv_mgr v)"
  have st: "store_inv verify st \<and> map m_name (st_mounts st) = map m_name (st_mounts (sv_store v))"
    using assms by (simp add: st_def server_ok_iff store_inv_ops(8,9) mount_names_ops(8,9) split: option.split)
  have "mgr_ok (sv_store v) g" unfolding g_def
    by (rule nullish_ok [where P = "mgr_ok (sv_store v)"]) (use assms in \<open>auto simp: server_ok_iff intro: mgr_ok_Update\<close>)
  moreover have "store_inv verify t \<and> map m_name (st_mounts t) = map m_name (st_mounts (sv_store v))"
    if "SetMountPointSourceSecret (ae_hash ae) i q st = Inr t" for t q
    using st that store_inv_ops(7) [of verify st] mount_names_ops(7) [of "ae_hash ae" i q st t] by auto
  moreover have "snd (h_UpdateMountpoint ae w body v) =
      (case (case p of None \<Rightarrow> Inr st | Some q \<Rightarrow> SetMountPointSourceSecret (ae_hash ae) i q st) of
         Inl err \<Rightarrow> v\<lparr>sv_store := st\<rparr> | Inr t \<Rightarrow> v\<lparr>sv_store := t, sv_mgr := g\<rparr>)"
    by (cases "case p of None \<Rightarrow> Inr st | Some q \<Rightarrow> SetMountPointSourceSecret (ae_hash ae) i q st")
      (simp_all only: h_UpdateMountpoint_def i x r xs st_def g_def desc_def fmt_def Let_def option.case prod.case sum.case snd_conv)
  ultimately show ?thesis
    using st server_okI [OF assms] by (auto split: sum.split option.splits)
qed

lemma other_handlers_ok:
  assumes "server_ok verify v"
  shows "server_ok verify (snd (h_KickSource w v))" and "server_ok verify (snd (h_KickClient w v))"
    and "server_ok verify (snd (h_CreateBinding body v))" and "server_ok verify (snd (h_DeleteBinding w v))"
proof -
  from assms have i: "store_inv verify (sv_store v)" and g: "mgr_ok (sv_store v) (sv_mgr v)"
    by (simp_all add: server_ok_iff)
  have "mgr_ok (sv_store v) ((sv_mgr v)(w \<mapsto> ClearSource j m))" if "sv_mgr v w = Some m" for j m
    using g that by (auto simp: mgr_ok_def mount_ok_ops)
  with assms show "server_ok verify (snd (h_KickSource w v))"
    by (auto simp: h_KickSource_def server_ok_mgr split: option.split)
  have "mgr_ok (sv_store v) (\<lambda>n. map_option (KickClient w) (sv_mgr v n))"
    by (rule mgr_ok_map [OF g]) (simp_all add: mount_ok_ops)
  with assms show "server_ok verify (snd (h_KickClient w v))" by (simp add: h_KickClient_def server_ok_mgr)
  have "server_ok verify (v\<lparr>sv_store := t\<rparr>)" if "AddBinding a b (sv_store v) = Inr t" for a b t
    using store_inv_ops(12) [OF i that] mount_names_ops(11) [OF that] by (intro server_okI(1) assms) simp_all
  with assms show "server_ok verify (snd (h_CreateBinding body v))"
    by (auto simp: h_CreateBinding_def split: option.split sum.split)
  have "server_ok verify (v\<lparr>sv_store := RemoveBinding j (sv_store v)\<rparr>)" for j
    using store_inv_ops(13) [OF i] by (intro server_okI(1) assms) (simp_all add: mount_names_ops(12))
  with assms show "server_ok verify (snd (h_DeleteBinding w v))" by (simp add: h_DeleteBinding_def split: option.split)
qed

lemma run_handler_ok:
  assumes "server_ok (ae_verify ae) v"
  shows "server_ok (ae_verify ae) (snd (run_handler ae now token h w q body cookie v))"
  using assms
  by (cases h) (simp_all add: Login_ok Logout_ok CreateUser_handler_ok UpdateUser_handler_ok DeleteUser_handler_ok
      CreateMountpoint_ok UpdateMountpoint_ok DeleteMountpoint_ok other_handlers_ok)

lemma serve_state:
  "snd (serve now method path cookie v) = v
   \<or> (\<exists>t. snd (serve now method path cookie v) = v\<lparr>sv_sessions := (sv_sessions v)(t := None)\<rparr>)"
  by (auto simp: serve_def AuthMiddleware_def sess_Validate_def Let_def split: option.splits prod.splits)

end
