(* ===== verification/Admin_Server.thy ===== *)
theory Admin_Server
  imports Admin_Api
begin

text \<open>
  The admin server as a whole: which requests get past the session check, which request of the
  client reaches which handler, what every sequence of requests and caster operations keeps, and
  how the mountpoints at run time follow the table.
\<close>

section \<open>Sessions\<close>

definition valid_session :: "int \<Rightarrow> string option \<Rightarrow> server \<Rightarrow> bool" where
  "valid_session now cookie v \<longleftrightarrow>
     (case cookie of None \<Rightarrow> False | Some t \<Rightarrow> (case sv_sessions v t of None \<Rightarrow> False | Some (u, e) \<Rightarrow> now \<le> e))"

definition is_login :: "http_request \<Rightarrow> bool" where
  "is_login r \<longleftrightarrow> hr_method r = ''POST'' \<and> path_segments (hr_path r) = [''api'', ''login'']"

definition is_api :: "http_request \<Rightarrow> bool" where
  "is_api r \<longleftrightarrow> length (path_segments (hr_path r)) \<ge> 2 \<and> hd (path_segments (hr_path r)) = ''api''"

lemma AuthMiddleware_valid: "valid_session now cookie v \<Longrightarrow> AuthMiddleware now cookie v = (None, v)"
  by (auto simp: valid_session_def AuthMiddleware_def sess_Validate_def split: option.splits prod.splits)

lemma AuthMiddleware_invalid:
  "\<not> valid_session now cookie v \<Longrightarrow> \<exists>e x. AuthMiddleware now cookie v = (Some e, v\<lparr>sv_sessions := x\<rparr>)"
proof (cases cookie)
  case None
  then show ?thesis
    by (auto simp: AuthMiddleware_def intro!: exI [of _ "sv_sessions v"])
next
  case (Some t)
  assume "\<not> valid_session now cookie v"
  with Some show ?thesis
    by (cases "sv_sessions v t")
      (auto simp: valid_session_def AuthMiddleware_def sess_Validate_def
        intro: exI [of _ "sv_sessions v"] exI [of _ "(sv_sessions v)(t := None)"])
qed

text \<open>
  C1. Without a valid, unexpired session no request but the login reads or changes anything behind
  the API: a request under \<open>/api/\<close> is answered with 401, and users, mountpoints, bindings
  and connections stay as they are.
\<close>

theorem api_requires_session:
  assumes "\<not> valid_session now cookie v" and "\<not> is_login r"
  shows "sv_store (snd (handle_request ae now token cookie r v)) = sv_store v
    \<and> sv_mgr (snd (handle_request ae now token cookie r v)) = sv_mgr v
    \<and> (is_api r \<longrightarrow> (\<exists>e. fst (handle_request ae now token cookie r v) = Response 401 (Inr (JObj [(''error'', JStr e)]))))"
proof -
  from AuthMiddleware_invalid [OF assms(1)] obtain e x where m: "AuthMiddleware now cookie v = (Some e, v\<lparr>sv_sessions := x\<rparr>)"
    by blast
  have "serve now (hr_method r) (hr_path r) cookie v =
      (if is_api r then (Refused e, v\<lparr>sv_sessions := x\<rparr>) else (Other_page, v))"
    using assms(2) by (auto simp: serve_def m is_login_def is_api_def)
  then show ?thesis by (simp add: handle_request_def)
qed

section \<open>Who gets a session\<close>

lemma Authenticate_checked:
  assumes "cache_ok verify s" and "fst (Authenticate verify now n p s) = Some u"
  shows "\<exists>q. auth_check verify (u_username u) q s = Some u"
proof -
  from assms have "\<exists>n q. auth_check verify n q s = Some u"
    by (auto simp: Authenticate_def auth_cached_def cache_ok_def split: option.splits if_splits) blast
  then obtain n q where c: "auth_check verify n q s = Some u" by blast
  then have "GetUserByName n s = Some u" by (cases "GetUserByName n s") (auto simp: auth_check_def split: if_splits)
  then have "u_username u = n" using find_Some_in [of _ "st_users s" u] by (auto simp: GetUserByName_def)
  with c show ?thesis by blast
qed

lemma Login_session:
  assumes "sv_sessions (snd (h_Login ae now token body v)) t = Some (n, e)" and "sv_sessions v t = None"
    and "cache_ok (ae_verify ae) (sv_store v)"
  shows "t = token \<and> e = now + sessionTTL
    \<and> (\<exists>u q. auth_check (ae_verify ae) n q (sv_store v) = Some u \<and> u_role u = RoleAdmin \<and> u_enabled u)"
proof (cases "login_fields body")
  case None
  with assms show ?thesis by (simp add: h_Login_def)
next
  case (Some x)
  obtain u p where x: "x = (u, p)" by (cases x)
  obtain r st where a: "Authenticate (ae_verify ae) now u p (sv_store v) = (r, st)" by fastforce
  with assms Some x obtain user where r: "r = Some user" "u_role user = RoleAdmin" "t = token" "n = u_username user"
    "e = now + sessionTTL"
    by (cases r) (auto simp: h_Login_def sess_Create_def Let_def split: if_splits)
  from Authenticate_checked [OF assms(3), of now u p user] a r(1) obtain q
    where q: "auth_check (ae_verify ae) n q (sv_store v) = Some user" using r(4) by auto
  then have "u_enabled user" by (cases "GetUserByName n (sv_store v)") (auto simp: auth_check_def split: if_splits)
  with q r show ?thesis by blast
qed

lemma handlers_keep_sessions:
  "h \<noteq> H_Login \<Longrightarrow> sv_sessions (snd (run_handler ae now token h w q body cookie v)) t = Some x \<Longrightarrow> sv_sessions v t = Some x"
  by (cases h)
    (auto simp: h_Logout_def sess_Destroy_def h_CreateUser_def h_UpdateUser_def h_DeleteUser_def h_CreateMountpoint_def
      h_UpdateMountpoint_def h_DeleteMountpoint_def h_KickSource_def h_KickClient_def h_CreateBinding_def h_DeleteBinding_def Let_def
      split: option.splits sum.splits if_splits prod.splits)

lemma serve_sessions: "sv_sessions (snd (serve now m path cookie v)) t = Some x \<Longrightarrow> sv_sessions v t = Some x"
  using serve_state [of now m path cookie v] by (auto split: if_splits)

lemma serve_store: "sv_store (snd (serve now m path cookie v)) = sv_store v \<and> sv_mgr (snd (serve now m path cookie v)) = sv_mgr v"
  using serve_state [of now m path cookie v] by auto

text \<open>The state after a request: what \<open>serve\<close> left, or what the handler made of it.\<close>

lemma handle_request_state:
  "snd (handle_request ae now token cookie r v) =
     (case serve now (hr_method r) (hr_path r) cookie v of
        (Handle h vs, v') \<Rightarrow> snd (run_handler ae now token h (case vs of [] \<Rightarrow> [] | w # ws \<Rightarrow> w)
                               (url_query (hr_path r)) (hr_body r) cookie v')
      | (_, v') \<Rightarrow> v')"
  by (simp add: handle_request_def split_beta Let_def split: dispatch.split)

lemma map_filter_hit: "y \<in> set (List.map_filter f xs) \<Longrightarrow> \<exists>x \<in> set xs. f x = Some y"
  by (induction xs) (auto simp: map_filter_simps split: option.splits)

lemma route_in_table:
  assumes "route_protected m path = Some (h, vs)"
  shows "\<exists>k. (k, h) \<in> set protected_routes"
proof -
  let ?f = "\<lambda>((k, pat), h). if method_matches k m then map_option (\<lambda>vs. (h, vs)) (segments_match pat (path_segments path)) else None"
  from assms have "(h, vs) \<in> set (List.map_filter ?f protected_routes)"
    by (auto simp: route_protected_def split: list.splits)
  from map_filter_hit [OF this] obtain x where x: "x \<in> set protected_routes" "?f x = Some (h, vs)" ..
  obtain k pat g where "x = ((k, pat), g)" by (metis surj_pair)
  with x show ?thesis by (cases "method_matches k m") auto
qed

lemma route_not_login: "route_protected m path = Some (h, vs) \<Longrightarrow> h \<noteq> H_Login"
  using route_in_table [of m path h vs] by (auto simp: protected_routes_def)

lemma serve_login: "fst (serve now m path cookie v) = Handle H_Login vs \<Longrightarrow> m = ''POST'' \<and> path_segments path = [''api'', ''login'']"
  using route_not_login [of m path H_Login] by (auto simp: serve_def split: if_splits option.splits prod.splits)

lemma server_ok_request:
  assumes "server_ok (ae_verify ae) v"
  shows "server_ok (ae_verify ae) (snd (handle_request ae now token cookie r v))"
proof -
  obtain d v' where d: "serve now (hr_method r) (hr_path r) cookie v = (d, v')" by fastforce
  from serve_state [of now "hr_method r" "hr_path r" cookie v] assms d have "server_ok (ae_verify ae) v'" by auto
  with d show ?thesis by (simp add: handle_request_state run_handler_ok split: dispatch.split)
qed


section \<open>The server stays consistent\<close>

lemma server_ok_step: "server_ok (ae_verify ae) v \<Longrightarrow> server_ok (ae_verify ae) (server_step ae ev v)"
proof (cases ev)
  case (Request now token cookie r)
  assume "server_ok (ae_verify ae) v"
  with Request show ?thesis by (simp add: server_ok_request)
next
  case (Caster n op)
  assume v: "server_ok (ae_verify ae) v"
  then have "mgr_ok (sv_store v) ((sv_mgr v)(n \<mapsto> mount_step op m))" if "sv_mgr v n = Some m" for m
    using that by (auto simp: server_ok_def mgr_ok_def mount_ok_step)
  with v Caster show ?thesis by (auto simp: server_ok_mgr split: option.split)
next
  case (Caster_login now n p)
  assume "server_ok (ae_verify ae) v"
  with Caster_login show ?thesis
    by (simp add: server_okI(1) store_inv_ops(1) mount_names_ops(1) server_ok_iff [of _ v])
next
  case (Caster_antenna n pos)
  assume "server_ok (ae_verify ae) v"
  with Caster_antenna show ?thesis
    by (simp add: server_okI(1) store_inv_ops(11) mount_names_ops(10) server_ok_iff [of _ v])
qed

interpretation server_run: kept "server_step ae" "server_ok (ae_verify ae)" for ae
  by unfold_locales (rule server_ok_step)

lemma sync_fold_ok:
  "mgr_ok s g \<Longrightarrow> set rows \<subseteq> set (st_mounts s) \<Longrightarrow> mgr_ok s (fold (sync_row ae) rows g)"
proof (induction rows arbitrary: g)
  case (Cons row rows)
  have "mgr_ok s (sync_row ae row g)"
    unfolding sync_row_def using Cons.prems
    by (auto intro!: nullish_ok [where P = "mgr_ok s"] intro: mgr_ok_Create)
  with Cons show ?case by simp
qed simp

lemma start_server_ok: "store_ok s \<Longrightarrow> cache_ok verify s \<Longrightarrow> server_ok verify (start_server ae s)"
  unfolding server_ok_def start_server_def syncMountpoints_def ListMountPointRows_def
  by (auto intro!: sync_fold_ok) (simp add: mgr_ok_def)

text \<open>
  After any interleaving of admin requests, operations of the caster, logins and antenna
  updates since the start, the tables are consistent and every mountpoint at run time is filed
  under its own name, has a row in the table, reports the exact number of its clients and counts
  its source as online exactly when there is one.
\<close>

theorem server_stays_consistent:
  assumes "svc_reach (ae_hash ae) (ae_verify ae) s" and "v = fold (server_step ae) evs (start_server ae s)"
  shows "store_ok (sv_store v)
    \<and> (\<forall>n mp. sv_mgr v n = Some mp \<longrightarrow>
         mp_Name mp = n \<and> n \<in> set (map m_name (st_mounts (sv_store v)))
         \<and> sn_ClientCount (mp_Stats mp) = int (length (mp_clients mp)) \<and> mp_snapshot mp = mp_clients mp
         \<and> (sn_SourceOnline (mp_Stats mp) \<longleftrightarrow> mp_source mp \<noteq> None))"
proof -
  from svc_reach_ok [OF assms(1)] have "server_ok (ae_verify ae) (start_server ae s)" by (simp add: start_server_ok)
  then have "server_ok (ae_verify ae) v" unfolding assms(2) by (rule server_run.run_keeps)
  then show ?thesis by (auto simp: server_ok_def mgr_ok_def mount_ok_def)
qed

section \<open>Requests of the client reach their handlers\<close>

definition plain_segment :: "string \<Rightarrow> bool" where
  "plain_segment s \<longleftrightarrow> s \<noteq> [] \<and> CHR ''/'' \<notin> set s \<and> CHR ''?'' \<notin> set s \<and> CHR ''%'' \<notin> set s"

lemma path_unescape_plain [simp]: "CHR ''%'' \<notin> set s \<Longrightarrow> path_unescape s = Some s"
  by (induction s) auto

lemma not_digit_percent [simp]: "\<not> is_digit CHR ''%''"
  by (simp add: is_digit_def digit_val_def)

lemma plain_int_str [simp]: "plain_segment (int_str i)"
  by (auto simp: plain_segment_def int_str_def dest: nat_str_digits)

lemma path_segments_free: "CHR ''?'' \<notin> set p \<Longrightarrow> path_segments p = map (\<lambda>s. nullish (path_unescape s) s) (tl (split_on CHR ''/'' p))"
  by (simp add: path_segments_def url_path_def cut_def)

lemma url_path_query [simp]: "CHR ''?'' \<notin> set base \<Longrightarrow> url_path (with_query base ps) = base"
  by (simp add: url_path_def with_query_def cut_def Let_def)

lemma path_segments_query: "CHR ''?'' \<notin> set base \<Longrightarrow> path_segments (with_query base ps) = path_segments base"
  by (simp add: path_segments_def) (simp add: url_path_def cut_def)

text \<open>The paths of the client.\<close>

lemma path_segments_item:
  assumes "plain_segment s"
  shows "path_segments (''/api/users/'' @ s) = [''api'', ''users'', s]"
    and "path_segments (''/api/mountpoints/'' @ s) = [''api'', ''mountpoints'', s]"
    and "path_segments (''/api/bindings/'' @ s) = [''api'', ''bindings'', s]"
    and "path_segments (''/api/sources/'' @ s) = [''api'', ''sources'', s]"
    and "path_segments (''/api/clients/'' @ s) = [''api'', ''clients'', s]"
    and "path_segments (''/api/users/'' @ s @ ''/bindings'') = [''api'', ''users'', s, ''bindings'']"
  using assms by (simp_all add: plain_segment_def path_segments_free split_on_append)

lemma path_segments_collection:
  "path_segments ''/api/login'' = [''api'', ''login'']" "path_segments ''/api/logout'' = [''api'', ''logout'']"
  "path_segments ''/api/users'' = [''api'', ''users'']" "path_segments ''/api/mountpoints'' = [''api'', ''mountpoints'']"
  "path_segments ''/api/bindings'' = [''api'', ''bindings'']" "path_segments ''/api/sources'' = [''api'', ''sources'']"
  "path_segments ''/api/clients'' = [''api'', ''clients'']" "path_segments ''/api/stats'' = [''api'', ''stats'']"
  by (simp_all add: path_segments_free)

lemmas client_paths = path_segments_item [simplified append_Cons append_Nil] path_segments_collection path_segments_query

text \<open>The handler and path values that a call of the client gets.\<close>

definition call_dispatch :: "int \<Rightarrow> string option \<Rightarrow> server \<Rightarrow> api_call \<Rightarrow> dispatch" where
  "call_dispatch now cookie v c =
     (let r = fetch_args (fst c) (snd c) in fst (serve now (hr_method r) (hr_path r) cookie v))"

lemma serve_route:
  assumes "valid_session now cookie v" and "route_protected m path = Some (h, vs)"
    and "length (path_segments path) \<ge> 2" "hd (path_segments path) = ''api''"
    and "path_segments path \<noteq> [''api'', ''login'']"
  shows "serve now m path cookie v = (Handle h vs, v)"
  using assms AuthMiddleware_valid [OF assms(1)] by (simp add: serve_def)

lemmas route_simps = route_protected_def protected_routes_def map_filter_simps method_matches_def


section \<open>Updates of a mountpoint\<close>

definition int64 :: "int \<Rightarrow> bool" where
  "int64 i \<longleftrightarrow> - (2 ^ 63) < i \<and> i < 2 ^ 63"

lemma parseID_int_str [simp]: "int64 i \<Longrightarrow> parseID (int_str i) = Some i"
  by (simp add: parseID_def int64_def)

lemma int_ptr_field_JInt: "int64 n \<Longrightarrow> map_of ps k = Some (JInt n) \<Longrightarrow> int_ptr_field k ps = Some (Some n)"
proof -
  assume n: "int64 n" and m: "map_of ps k = Some (JInt n)"
  from n have "- (2 ^ 63) \<le> (of_int n :: rat)" "(of_int n :: rat) < 2 ^ 63"
    unfolding int64_def by (simp_all add: of_int_le_iff [of "- (2 ^ 63)", symmetric] of_int_less_iff [of _ "2 ^ 63", symmetric]
        del: of_int_le_iff of_int_less_iff)
  with m show ?thesis by (simp add: int_ptr_field_def)
qed

text \<open>The server reads the fields that the client wrote; a field left out reads as the zero value.\<close>

lemma update_fields_stringify:
  assumes "\<And>n. um_max_clients r = Some n \<Longrightarrow> int64 n"
  shows "update_mount_fields (Some (stringify_update_mountpoint r)) =
     Some (nullish (um_description r) [], nullish (um_format r) [], um_enabled r, um_source_secret r, um_max_clients r)"
proof -
  define ps where "ps = opt_field ''description'' JStr (um_description r) @ opt_field ''format'' JStr (um_format r)
      @ opt_field ''enabled'' JBool (um_enabled r) @ opt_field ''max_clients'' JInt (um_max_clients r)
      @ opt_field ''source_secret'' JStr (um_source_secret r)"
  have k: "map_of ps ''description'' = map_option JStr (um_description r)" "map_of ps ''format'' = map_option JStr (um_format r)"
    "map_of ps ''enabled'' = map_option JBool (um_enabled r)" "map_of ps ''max_clients'' = map_option JInt (um_max_clients r)"
    "map_of ps ''source_secret'' = map_option JStr (um_source_secret r)"
    by (simp_all add: ps_def opt_field_def map_add_def split: option.split)
  have "str_field ''description'' ps = Some (nullish (um_description r) [])"
    by (cases "um_description r") (simp_all add: str_field_def k)
  moreover have "str_field ''format'' ps = Some (nullish (um_format r) [])"
    by (cases "um_format r") (simp_all add: str_field_def k)
  moreover have "bool_ptr_field ''enabled'' ps = Some (um_enabled r)"
    by (cases "um_enabled r") (simp_all add: bool_ptr_field_def k)
  moreover have "str_ptr_field ''source_secret'' ps = Some (um_source_secret r)"
    by (cases "um_source_secret r") (simp_all add: str_ptr_field_def k)
  moreover have "int_ptr_field ''max_clients'' ps = Some (um_max_clients r)"
  proof (cases "um_max_clients r")
    case None
    then show ?thesis by (simp add: int_ptr_field_def k)
  next
    case (Some n)
    then show ?thesis using assms by (intro int_ptr_field_JInt [THEN trans]) (simp_all add: k)
  qed
  ultimately show ?thesis
    by (simp add: update_mount_fields_def body_fields_def stringify_update_mountpoint_def ps_def [symmetric])
qed

text \<open>A dispatched request of the client is run by its handler.\<close>

definition call_server ::
  "api_env \<Rightarrow> int \<Rightarrow> string \<Rightarrow> string option \<Rightarrow> api_call \<Rightarrow> server \<Rightarrow> fetch_outcome \<times> server" where
  "call_server ae now token cookie c v = handle_request ae now token cookie (fetch_args (fst c) (snd c)) v"

lemma call_server_updateMountpoint:
  assumes "valid_session now cookie v"
  shows "call_server ae now token cookie (api_updateMountpoint i r) v =
    (let ((st, j), v') = run_handler ae now token H_UpdateMountpoint (int_str i)
         (url_query (''/api/mountpoints/'' @ int_str i)) (Some (stringify_update_mountpoint r)) cookie v
     in (Response st (Inr j), v'))"
proof -
  have "serve now ''PUT'' (''/api/mountpoints/'' @ int_str i) cookie v = (Handle H_UpdateMountpoint [int_str i], v)"
    by (rule serve_route [OF assms]) (simp_all add: client_paths route_simps)
  then show ?thesis
    by (simp add: call_server_def handle_request_def api_defs fetch_args_def split_beta Let_def)
qed

lemma find_update_id:
  assumes "\<And>v. k (f v) = k v"
  shows "find (\<lambda>v. k v = j) (map (\<lambda>v. if k v = i then f v else v) xs) =
     (if j = i then map_option f (find (\<lambda>v. k v = j) xs) else find (\<lambda>v. k v = j) xs)"
  using assms by (induction xs) auto

lemma row_set_mount:
  assumes "\<And>m. m_id (f m) = m_id m"
  shows "GetMountPointRowByID j (set_mount i f s) =
     (if j = i then map_option f (GetMountPointRowByID j s) else GetMountPointRowByID j s)"
  using assms by (simp add: GetMountPointRowByID_def set_mount_def find_update_id)

text \<open>The row that an update request asks for.\<close>

definition new_secret :: "(string \<Rightarrow> string option) \<Rightarrow> string option \<Rightarrow> string option \<Rightarrow> string option" where
  "new_secret hash old req = (case req of None \<Rightarrow> old | Some p \<Rightarrow> if p = [] then None else hash p)"

definition updated_row :: "(string \<Rightarrow> string option) \<Rightarrow> update_mountpoint_req \<Rightarrow> db_mount \<Rightarrow> db_mount" where
  "updated_row hash r row =
     row\<lparr>m_description := str_or (nullish (um_description r) []) (m_description row),
         m_format := str_or (nullish (um_format r) []) (m_format row),
         m_enabled := nullish (um_enabled r) (m_enabled row),
         m_max_clients := nullish (um_max_clients r) (m_max_clients row),
         dm_secret_hash := new_secret hash (dm_secret_hash row) (um_source_secret r)\<rparr>"

lemma str_or_if: "(if s \<noteq> [] then s else d) = str_or s d"
  by (simp add: str_or_def)

lemma updated_row_fields:
  "m_description (updated_row hash r row) = str_or (nullish (um_description r) []) (m_description row)"
  "m_format (updated_row hash r row) = str_or (nullish (um_format r) []) (m_format row)"
  "m_enabled (updated_row hash r row) = nullish (um_enabled r) (m_enabled row)"
  "m_max_clients (updated_row hash r row) = nullish (um_max_clients r) (m_max_clients row)"
  by (simp_all add: updated_row_def)

text \<open>The handler on a request of the client, with its three statements one after the other.\<close>

lemma UpdateMountpoint_run:
  assumes "int64 i" and "\<And>n. um_max_clients r = Some n \<Longrightarrow> int64 n"
    and "\<And>p. um_source_secret r = Some p \<Longrightarrow> p \<noteq> [] \<Longrightarrow> ae_hash ae p \<noteq> None"
    and row: "GetMountPointRowByID i (sv_store v) = Some row"
    and g: "g = nullish (mgr_UpdateMountPoint (m_name row) (m_description (updated_row (ae_hash ae) r row))
              (m_format (updated_row (ae_hash ae) r row)) (m_enabled (updated_row (ae_hash ae) r row)) (ae_writeQueue ae)
              (ae_writeTimeout ae) (m_max_clients (updated_row (ae_hash ae) r row)) (sv_mgr v)) (sv_mgr v)"
  shows "\<exists>t. h_UpdateMountpoint ae (int_str i) (Some (stringify_update_mountpoint r)) v = (jsonOK (), v\<lparr>sv_store := t, sv_mgr := g\<rparr>)
    \<and> (\<forall>j. GetMountPointRowByID j t =
          (if j = i then Some (updated_row (ae_hash ae) r row) else GetMountPointRowByID j (sv_store v)))"
proof -
  define st where "st = (case um_max_clients r of
      None \<Rightarrow> UpdateMountPointRow i (m_description (updated_row (ae_hash ae) r row)) (m_format (updated_row (ae_hash ae) r row))
               (m_enabled (updated_row (ae_hash ae) r row)) (sv_store v)
    | Some n \<Rightarrow> SetMountPointMaxClients i n (UpdateMountPointRow i (m_description (updated_row (ae_hash ae) r row))
               (m_format (updated_row (ae_hash ae) r row)) (m_enabled (updated_row (ae_hash ae) r row)) (sv_store v)))"
  define x where "x = (case um_source_secret r of None \<Rightarrow> Inr st | Some p \<Rightarrow> SetMountPointSourceSecret (ae_hash ae) i p st)"
  have "\<exists>t. x = Inr t \<and> (\<forall>j. GetMountPointRowByID j t =
      (if j = i then Some (updated_row (ae_hash ae) r row) else GetMountPointRowByID j (sv_store v)))"
    using assms(3) row unfolding x_def st_def updated_row_def
    by (auto simp: SetMountPointSourceSecret_def SetMountPointMaxClients_def UpdateMountPointRow_def row_set_mount new_secret_def
        split: option.splits)
  moreover have "h_UpdateMountpoint ae (int_str i) (Some (stringify_update_mountpoint r)) v =
      (case x of Inl e \<Rightarrow> (jsonError (error_prefix e) 500, v\<lparr>sv_store := st\<rparr>)
       | Inr t \<Rightarrow> (jsonOK (), v\<lparr>sv_store := t, sv_mgr := g\<rparr>))"
    using assms(1,2) row
    by (simp only: h_UpdateMountpoint_def parseID_int_str update_fields_stringify option.case prod.case Let_def str_or_if
        x_def st_def g updated_row_fields)
  ultimately show ?thesis by auto
qed

text \<open>
  An update of a mountpoint by the client takes effect in the table and at run time: each field
  of the request becomes the field of the row, except that an empty description or format keeps
  the old text, an empty secret removes the stored one and a missing secret keeps it; no other row
  changes. A mountpoint at run time takes over the values, and disabling it closes its source and
  all its clients.
\<close>

theorem update_mountpoint_takes_effect:
  assumes "valid_session now cookie v" and "int64 i" and "\<And>n. um_max_clients r = Some n \<Longrightarrow> int64 n"
    and "\<And>p. um_source_secret r = Some p \<Longrightarrow> p \<noteq> [] \<Longrightarrow> ae_hash ae p \<noteq> None"
    and "GetMountPointRowByID i (sv_store v) = Some row"
    and "row' = updated_row (ae_hash ae) r row"
    and "call_server ae now token cookie (api_updateMountpoint i r) v = (answer, v')"
  shows "answer = Response 200 (Inr (JObj [(''status'', JStr ''ok'')]))
    \<and> (\<forall>j. GetMountPointRowByID j (sv_store v') = (if j = i then Some row' else GetMountPointRowByID j (sv_store v)))
    \<and> (\<forall>mp. sv_mgr v (m_name row) = Some mp \<longrightarrow>
         (\<exists>mp'. sv_mgr v' (m_name row) = Some mp' \<and> mp_Description mp' = m_description row' \<and> mp_Format mp' = m_format row'
            \<and> mp_enabled mp' = m_enabled row' \<and> mp_MaxClients mp' = m_max_clients row'
            \<and> (mp_enabled mp \<and> \<not> m_enabled row' \<longrightarrow>
                 mp_source mp' = None \<and> (\<forall>c \<in> set (mp_clients mp'). rv_done (mp_heap mp' c)))))"
proof -
  define g where "g = nullish (mgr_UpdateMountPoint (m_name row) (m_description row') (m_format row') (m_enabled row')
      (ae_writeQueue ae) (ae_writeTimeout ae) (m_max_clients row') (sv_mgr v)) (sv_mgr v)"
  from UpdateMountpoint_run [OF assms(2-5) g_def [unfolded assms(6)]] obtain t
    where h: "h_UpdateMountpoint ae (int_str i) (Some (stringify_update_mountpoint r)) v = (jsonOK (), v\<lparr>sv_store := t, sv_mgr := g\<rparr>)"
      and t: "\<forall>j. GetMountPointRowByID j t = (if j = i then Some row' else GetMountPointRowByID j (sv_store v))"
    unfolding assms(6) by blast
  from assms(7) h have a: "answer = Response 200 (Inr (JObj [(''status'', JStr ''ok'')]))" "v' = v\<lparr>sv_store := t, sv_mgr := g\<rparr>"
    by (simp_all add: call_server_updateMountpoint [OF assms(1)] encode_reply_def status_ok_def split_beta Let_def)
  moreover have "\<exists>mp'. g (m_name row) = Some mp' \<and> mp_Description mp' = m_description row' \<and> mp_Format mp' = m_format row'
      \<and> mp_enabled mp' = m_enabled row' \<and> mp_MaxClients mp' = m_max_clients row'
      \<and> (mp_enabled mp \<and> \<not> m_enabled row' \<longrightarrow>
           mp_source mp' = None \<and> (\<forall>c \<in> set (mp_clients mp'). rv_done (mp_heap mp' c)))"
    if "sv_mgr v (m_name row) = Some mp" for mp
    using that by (auto simp: g_def mgr_UpdateMountPoint_def Let_def mp_DisconnectAll_def kick_all_def set_online_def KickSlowConsumer_def)
  ultimately show ?thesis using t by simp
qed

text \<open>A disabled row has no mountpoint at run time after the start.\<close>

lemma sync_fold_none:
  "(\<And>row. row \<in> set rows \<Longrightarrow> m_name row = n \<Longrightarrow> \<not> m_enabled row) \<Longrightarrow> fold (sync_row ae) rows g n = g n"
proof (induction rows arbitrary: g)
  case (Cons row rows)
  have "sync_row ae row g n = g n"
    using Cons.prems [of row] by (auto simp: sync_row_def mgr_Create_def)
  with Cons show ?case by simp
qed simp

text \<open>
  A mountpoint that is disabled when the caster starts cannot be switched on from the admin
  page: the request succeeds and the row becomes enabled, but there is no mountpoint at run time,
  so sources and clients cannot connect to it until the caster is restarted.
\<close>

theorem enabling_after_start_is_lost:
  assumes "store_ok s" and "GetMountPointRowByID i s = Some row" and "\<not> m_enabled row" and "int64 i"
    and "r = \<lparr>um_description = None, um_format = None, um_enabled = Some True, um_source_secret = None, um_max_clients = None\<rparr>"
    and "v = (start_server ae s)\<lparr>sv_sessions := ss\<rparr>" and "valid_session now cookie v"
    and "call_server ae now token cookie (api_updateMountpoint i r) v = (answer, v')"
  shows "answer = Response 200 (Inr (JObj [(''status'', JStr ''ok'')]))
    \<and> GetMountPointRowByID i (sv_store v') = Some (row\<lparr>m_enabled := True\<rparr>)
    \<and> sv_mgr v' (m_name row) = None"
proof -
  from assms(2) have "row \<in> set (st_mounts s)"
    using find_Some_in [of _ "st_mounts s" row] by (auto simp: GetMountPointRowByID_def)
  with assms(1,3) have "\<not> m_enabled m" if "m \<in> set (st_mounts s)" "m_name m = m_name row" for m
    using that by (auto simp: store_ok_defs distinct_map dest: inj_onD)
  then have "fold (sync_row ae) (sort_key m_id (st_mounts s)) Map.empty (m_name row) = None"
    by (subst sync_fold_none) simp_all
  then have none: "sv_mgr v (m_name row) = None"
    by (simp add: assms(6) start_server_def syncMountpoints_def ListMountPointRows_def)
  have row: "GetMountPointRowByID i (sv_store v) = Some row" by (simp add: assms(2,6) start_server_def)
  have u: "updated_row (ae_hash ae) r row = row\<lparr>m_enabled := True\<rparr>"
    by (simp add: updated_row_def assms(5) new_secret_def)
  from UpdateMountpoint_run [OF assms(4) _ _ row refl, of r ae] assms(5) u none obtain t
    where "h_UpdateMountpoint ae (int_str i) (Some (stringify_update_mountpoint r)) v = (jsonOK (), v\<lparr>sv_store := t, sv_mgr := sv_mgr v\<rparr>)"
      and "GetMountPointRowByID i t = Some (row\<lparr>m_enabled := True\<rparr>)"
    by (auto simp: mgr_UpdateMountPoint_def)
  with assms(8) none show ?thesis
    by (auto simp: call_server_updateMountpoint [OF assms(7)] encode_reply_def status_ok_def split_beta Let_def)
qed

section \<open>Instances\<close>

definition sample_env :: api_env where
  "sample_env = \<lparr>ae_hash = sample_hash, ae_verify = sample_verify, ae_like = (\<lambda>p t. True), ae_heap = (\<lambda>i. sample_rover),
     ae_writeQueue = 64, ae_writeTimeout = 3000, ae_stamp = int_str, ae_names = [''A''],
     ae_page = (\<lambda>r. Response 200 (Inl ''index.html''))\<rparr>"

text \<open>An administrator, and a mountpoint that was created and disabled before the start.\<close>

definition sample_tables :: store where
  "sample_tables = svc_step sample_hash sample_verify (Op_UpdateMount 1 ''d'' ''RTCM3'' False)
     (svc_step sample_hash sample_verify (Op_CreateMount ''A'' ''d'' ''RTCM3'')
       (svc_step sample_hash sample_verify (Op_CreateUser ''root'' ''pw'' ''admin'') NewService))"

definition sample_row :: db_mount where
  "sample_row = \<lparr>m_id = 1, m_name = ''A'', m_description = ''d'', m_enabled = False, m_format = ''RTCM3'',
     m_source_auth_mode = ''user_binding'', m_write_queue = None, m_write_timeout_ms = None, m_max_clients = 0,
     dm_secret_hash = None, dm_antenna = None\<rparr>"

definition sample_server :: server where
  "sample_server = (start_server sample_env sample_tables)\<lparr>sv_sessions := [''tok'' \<mapsto> (''root'', 100)]\<rparr>"

lemma sample_tables_reach: "svc_reach sample_hash sample_verify sample_tables"
  unfolding sample_tables_def by (intro svc_reach.step svc_reach.init) (simp_all add: plain_name_def)

lemma sample_tables_eq:
  "sample_tables = NewService\<lparr>st_users := [\<lparr>u_id = 1, u_username = ''root'', u_role = ''admin'', u_enabled = True,
       du_password_hash = ''hpw''\<rparr>], st_users_seq := 1, st_mounts := [sample_row], st_mounts_seq := 1\<rparr>"
  by (simp add: sample_tables_def NewService_def CreateUser_def CreateMountPointRow_def UpdateMountPointRow_def set_mount_def
      or_same_def sample_hash_def sample_row_def mountpoint_row.defs)

lemma sample_session: "valid_session 50 (Some ''tok'') sample_server"
  by (simp add: valid_session_def sample_server_def)

lemma sample_row_found: "GetMountPointRowByID 1 sample_tables = Some sample_row"
  by (simp add: sample_tables_eq GetMountPointRowByID_def sample_row_def)

lemma sample_store_ok: "store_ok sample_tables" "cache_ok sample_verify sample_tables"
  using svc_reach_ok [OF sample_tables_reach] by simp_all

theorem api_requires_session_witness:
  "\<exists>e. fst (handle_request sample_env 200 ''new'' (Some ''tok'') (fetch_args ''/api/users'' no_options) sample_server)
     = Response 401 (Inr (JObj [(''error'', JStr e)]))"
proof -
  have "\<not> valid_session 200 (Some ''tok'') sample_server" by (simp add: valid_session_def sample_server_def)
  moreover have "\<not> is_login (fetch_args ''/api/users'' no_options)" "is_api (fetch_args ''/api/users'' no_options)"
    by (simp_all add: is_login_def is_api_def fetch_args_def no_options_def client_paths)
  ultimately show ?thesis using api_requires_session [of 200 "Some ''tok''" sample_server] by blast
qed

definition sample_login :: http_request where
  "sample_login = fetch_args (fst (api_login ''root'' ''pw'')) (snd (api_login ''root'' ''pw''))"

lemma sample_login_session:
  "sv_sessions (snd (handle_request sample_env 50 ''new'' None sample_login sample_server)) ''new'' = Some (''root'', 50 + sessionTTL)"
  by (simp add: handle_request_state sample_login_def api_defs fetch_args_def serve_def client_paths h_Login_def login_fields_def
      body_fields_def str_field_def Authenticate_def auth_cached_def auth_check_def GetUserByName_def sample_server_def
      start_server_def sample_tables_eq NewService_def sample_env_def sample_verify_def sess_Create_def auth_store_def Let_def)


theorem server_stays_consistent_witness:
  "store_ok (sv_store (fold (server_step sample_env) [Request 50 ''new'' None sample_login, Caster ''A'' O_DisconnectAll]
     (start_server sample_env sample_tables)))"
proof -
  have "svc_reach (ae_hash sample_env) (ae_verify sample_env) sample_tables"
    using sample_tables_reach by (simp add: sample_env_def)
  from server_stays_consistent [OF this refl] show ?thesis by blast
qed


definition sample_update :: update_mountpoint_req where
  "sample_update = \<lparr>um_description = None, um_format = None, um_enabled = Some True, um_source_secret = None, um_max_clients = None\<rparr>"

theorem update_mountpoint_takes_effect_witness:
  "GetMountPointRowByID 1 (sv_store (snd (call_server sample_env 50 ''new'' (Some ''tok'') (api_updateMountpoint 1 sample_update) sample_server)))
     = Some (sample_row\<lparr>m_enabled := True\<rparr>)"
proof -
  obtain a w where c: "call_server sample_env 50 ''new'' (Some ''tok'') (api_updateMountpoint 1 sample_update) sample_server = (a, w)"
    by fastforce
  have r: "GetMountPointRowByID 1 (sv_store sample_server) = Some sample_row"
    by (simp add: sample_server_def start_server_def sample_row_found)
  have "updated_row (ae_hash sample_env) sample_update sample_row = sample_row\<lparr>m_enabled := True\<rparr>"
    by (simp add: updated_row_def sample_update_def new_secret_def)
  with c update_mountpoint_takes_effect [OF sample_session _ _ _ r refl c] show ?thesis
    by (simp add: int64_def sample_update_def)
qed

theorem enabling_after_start_is_lost_witness:
  "sv_mgr (snd (call_server sample_env 50 ''new'' (Some ''tok'') (api_updateMountpoint 1 sample_update) sample_server)) ''A'' = None"
proof -
  obtain a w where c: "call_server sample_env 50 ''new'' (Some ''tok'') (api_updateMountpoint 1 sample_update) sample_server = (a, w)"
    by fastforce
  have "\<not> m_enabled sample_row" "m_name sample_row = ''A''" "int64 1" by (simp_all add: sample_row_def int64_def)
  with c enabling_after_start_is_lost [OF sample_store_ok(1) sample_row_found _ _ sample_update_def sample_server_def sample_session c]
  show ?thesis by simp
qed

end
