(* ===== verification/Caster_Admin.thy ===== *)
theory Caster_Admin
  imports Caster_Net Admin_Server
begin

text \<open>
  The connections of the caster (\<open>Admission\<close>, objects behind a registry) against the server that the admin
  API works on (\<open>Admin_Api\<close>, mountpoints by name). \<open>caster_view\<close> forgets the objects that are not registered
  any more; every stage of a connection is then a sequence of the server's caster events.
\<close>

section \<open>The abstraction\<close>

definition caster_view :: "caster \<Rightarrow> server \<Rightarrow> server" where
  "caster_view c v = v\<lparr>sv_store := ca_store c, sv_mgr := (\<lambda>n. map_option (ca_obj c) (ca_reg c n))\<rparr>"

fun caster_event :: "server_event \<Rightarrow> bool" where
  "caster_event (Request now token cookie r) = False"
| "caster_event _ = True"

text \<open>The manager never files one object under two names.\<close>

definition one_name :: "caster \<Rightarrow> bool" where
  "one_name c \<longleftrightarrow> (\<forall>m n k. ca_reg c m = Some k \<longrightarrow> ca_reg c n = Some k \<longrightarrow> m = n)"

definition refines :: "api_env \<Rightarrow> server \<Rightarrow> caster \<Rightarrow> caster \<Rightarrow> bool" where
  "refines ae v c c' \<longleftrightarrow> ca_reg c' = ca_reg c
     \<and> (\<exists>es. list_all caster_event es \<and> caster_view c' v = fold (server_step ae) es (caster_view c v))"

lemma refines_same: "caster_view c' v = caster_view c v \<Longrightarrow> ca_reg c' = ca_reg c \<Longrightarrow> refines ae v c c'"
  unfolding refines_def by (intro conjI exI [of _ "[]"]) simp_all

lemma refines_refl [simp]: "refines ae v c c"
  by (simp add: refines_same)

lemma refines_trans: "refines ae v a b \<Longrightarrow> refines ae v b c \<Longrightarrow> refines ae v a c"
  unfolding refines_def
proof (elim conjE exE)
  fix es fs
  assume "ca_reg b = ca_reg a" "ca_reg c = ca_reg b" "list_all caster_event es" "list_all caster_event fs"
    "caster_view b v = fold (server_step ae) es (caster_view a v)" "caster_view c v = fold (server_step ae) fs (caster_view b v)"
  then show "ca_reg c = ca_reg a \<and> (\<exists>es. list_all caster_event es \<and> caster_view c v = fold (server_step ae) es (caster_view a v))"
    by (intro conjI exI [of _ "es @ fs"]) simp_all
qed

lemma refines_event:
  "caster_event e \<Longrightarrow> caster_view c' v = server_step ae e (caster_view c v) \<Longrightarrow> ca_reg c' = ca_reg c \<Longrightarrow> refines ae v c c'"
  unfolding refines_def by (intro conjI exI [of _ "[e]"]) simp_all

lemma refines_limiter: "refines ae v c (c\<lparr>ca_limiter := l\<rparr>)"
  by (simp add: refines_same caster_view_def)

text \<open>An operation on an object: a caster event while it is registered, invisible afterwards.\<close>

lemma refines_object:
  assumes "one_name c" and "m = mount_step op (ca_obj c k)"
  shows "refines ae v c (set_obj k m c)"
proof (cases "\<exists>n. ca_reg c n = Some k")
  case True
  then obtain n where n: "ca_reg c n = Some k" ..
  have "map_option (ca_obj (set_obj k m c)) (ca_reg c n') = (if n' = n then Some m else map_option (ca_obj c) (ca_reg c n'))" for n'
    using assms(1) n by (cases "ca_reg c n'") (auto simp: set_obj_def one_name_def)
  then have "(\<lambda>n'. map_option (ca_obj (set_obj k m c)) (ca_reg c n')) = (\<lambda>n'. map_option (ca_obj c) (ca_reg c n'))(n \<mapsto> m)"
    by (intro ext) simp
  with n assms(2) show ?thesis
    by (intro refines_event [of "Caster n op"]) (simp_all add: caster_view_def, simp_all add: set_obj_def)
next
  case False
  then have "map_option (ca_obj (set_obj k m c)) (ca_reg c n) = map_option (ca_obj c) (ca_reg c n)" for n
    by (cases "ca_reg c n") (auto simp: set_obj_def)
  then show ?thesis by (intro refines_same) (simp_all add: caster_view_def, simp_all add: set_obj_def)
qed

lemma refines_login:
  assumes "ae_verify ae = ce_verify E"
  shows "refines ae v c (c\<lparr>ca_store := snd (Authenticate (ce_verify E) now n p (ca_store c))\<rparr>)"
  by (rule refines_event [of "Caster_login now n p"]) (simp_all add: caster_view_def assms)

section \<open>Stages of a connection\<close>

lemma refines_basic:
  assumes "ae_verify ae = ce_verify E" and "authenticateBasic E now req role (ca_store c) = (u, s)"
  shows "refines ae v c (c\<lparr>ca_store := s\<rparr>)"
proof -
  have same: "c\<lparr>ca_store := ca_store c\<rparr> = c" by simp
  have "s = ca_store c \<or> (\<exists>n p. s = snd (Authenticate (ce_verify E) now n p (ca_store c)))"
    using assms(2) by (auto simp: authenticateBasic_def split: if_splits option.splits prod.splits) (metis snd_conv)+
  then show ?thesis
    using refines_login [OF assms(1), of v c now] same by (elim disjE exE) (metis refines_refl, metis)
qed

lemma refines_rover_step:
  assumes "ae_verify ae = ce_verify E" and "one_name c" and "rover_step E now r c = (r', c')"
  shows "refines ae v c c'"
proof -
  have auth: "refines ae v c c'" if "rover_auth E now r c = (r', c')"
    using that refines_basic [OF assms(1), of now "rc_req r" RoleRover c]
    by (auto simp: rover_auth_def split: if_splits prod.splits option.splits)
  have add: "refines ae v c (set_obj k m c)" if "AddClient i cl (ca_obj c k) = Some m" for i cl k m
    using that by (intro refines_object [OF assms(2), of _ "O_AddClient i cl"]) simp
  have remove: "refines ae v c (set_obj k (RemoveClient i (ca_obj c k)) c)" for i k
    by (rule refines_object [OF assms(2), of _ "O_RemoveClient i"]) simp
  show ?thesis
    using assms(3) auth add remove refines_limiter
    by (cases "rc_stage r") (auto simp: rover_step.simps split: option.splits if_splits)
qed

lemma refines_run_rover:
  assumes "ae_verify ae = ce_verify E"
  shows "one_name c \<Longrightarrow> refines ae v c (snd (run_rover n E now r c))"
proof (induction n arbitrary: r c)
  case (Suc n)
  obtain r' c' where step: "rover_step E now r c = (r', c')" by fastforce
  have one: "refines ae v c c'" by (rule refines_rover_step [OF assms Suc.prems step])
  with Suc.prems have "one_name c'" by (simp add: refines_def one_name_def)
  from refines_trans [OF one Suc.IH [OF this, of r']] step show ?case by simp
qed simp

lemma refines_open_source:
  assumes "one_name c"
  shows "refines ae v c (snd (open_source reply now sid req uid c))"
proof -
  have "refines ae v c (set_obj k m c)" if "source_New sid uid now (ca_obj c k) = Some m" for k m
    using that
    by (intro refines_object [OF assms, of _ "O_SetSource \<lparr>so_ID = sid, so_UserID = uid, so_BytesIn = 0, so_StartTime = now\<rparr>"])
      (auto simp: source_New_def split: prod.splits if_splits)
  then show ?thesis by (auto simp: open_source_def split: option.split)
qed

lemma one_name_store: "one_name (c\<lparr>ca_store := s\<rparr>) = one_name c"
  by (simp add: one_name_def)

lemma refines_source:
  assumes "ae_verify ae = ce_verify E" and "one_name c"
  shows "refines ae v c (snd (handleSourceRev1 E now sid req c))" "refines ae v c (snd (handleSourceRev2 E now sid req c))"
proof -
  note opened = refines_open_source [OF assms(2)]
  have after: "refines ae v c (snd (open_source reply now sid req uid (c\<lparr>ca_store := s\<rparr>)))"
    if "refines ae v c (c\<lparr>ca_store := s\<rparr>)" for reply uid s
    using that refines_open_source [of "c\<lparr>ca_store := s\<rparr>"] assms(2) by (auto simp: one_name_store intro: refines_trans)
  have same: "c\<lparr>ca_store := ca_store c\<rparr> = c" by simp
  have s1: "refines ae v c (c\<lparr>ca_store := s\<rparr>)" if "authenticateSource E now req (ca_store c) = (x, s)" for x s
    using that refines_basic [OF assms(1), of now req RoleBase c] same
    by (auto simp: authenticateSource_def split: if_splits prod.splits option.splits)
  show "refines ae v c (snd (handleSourceRev1 E now sid req c))"
    using opened after s1 by (auto simp: handleSourceRev1_def split: prod.split)
  show "refines ae v c (snd (handleSourceRev2 E now sid req c))"
    using opened after refines_basic [OF assms(1), of now req RoleBase c]
    by (auto simp: handleSourceRev2_def split: prod.split option.split)
qed

lemma refines_handle:
  assumes "ae_verify ae = ce_verify E" and "one_name c"
  shows "refines ae v c (snd (handle E names err now cid reads c))"
  using refines_run_rover [OF assms, of v 8 now] refines_source [OF assms, of v now cid]
  by (auto simp: handle_def handleRover_def split_beta Let_def split: sum.split request_type.split)

lemma refines_keeps:
  assumes "refines ae v c c'" and "server_ok (ae_verify ae) (caster_view c v)"
  shows "server_ok (ae_verify ae) (caster_view c' v)"
proof -
  from assms(1) obtain es where "caster_view c' v = fold (server_step ae) es (caster_view c v)" by (auto simp: refines_def)
  with server_run.run_keeps [OF assms(2)] show ?thesis by simp
qed

section \<open>Properties\<close>

text \<open>
  C9. The caster's connections implement the mountpoints the admin API works on: one stage of a rover's
  handler, interleaved in any way, and one whole connection each amount to a sequence of logins and mountpoint
  operations of the server, on the registered mountpoints; operations on a mountpoint that was deleted
  meanwhile are not seen. So a consistent server stays consistent.
\<close>

theorem connections_refine_server:
  assumes "one_name c" and "ae_verify ae = ce_verify E"
    and "c' \<in> {snd (rover_step E now r c), snd (handle E names err now cid reads c)}"
  shows "(\<exists>es. list_all caster_event es \<and> caster_view c' v = fold (server_step ae) es (caster_view c v))
    \<and> (server_ok (ae_verify ae) (caster_view c v) \<longrightarrow> server_ok (ae_verify ae) (caster_view c' v))"
proof -
  have "refines ae v c c'"
    using assms(3) refines_handle [OF assms(2,1), of v names err now cid reads]
      refines_rover_step [OF assms(2,1) surjective_pairing [of "rover_step E now r c"]] by auto
  then show ?thesis using refines_keeps [of ae v c c'] by (auto simp: refines_def)
qed

text \<open>A rover about to be registered.\<close>

definition sample_joining :: rover_conn where
  "sample_joining = (new_conn ''r1'' sample_request)\<lparr>rc_stage := S_register\<rparr>"

theorem connections_refine_server_witness:
  "\<exists>es. list_all caster_event es
     \<and> caster_view (snd (rover_step sample_open_cfg 0 sample_joining sample_caster)) sample_server
       = fold (server_step sample_env) es (caster_view sample_caster sample_server)"
proof -
  have "one_name sample_caster" "ae_verify sample_env = ce_verify sample_open_cfg"
    by (simp_all add: one_name_def sample_caster_def sample_env_def sample_open_cfg_def sample_cfg_def)
  from connections_refine_server [OF this, of "snd (rover_step sample_open_cfg 0 sample_joining sample_caster)"]
  show ?thesis by blast
qed

end
