(* ===== verification/Api_Contract.thy ===== *)
theory Api_Contract
  imports Admin_Server
begin

text \<open>
  The contract between client and server: the interfaces of \<open>web/src/api/types.ts\<close> as types of JSON values,
  the type each member of \<open>api\<close> passes to \<open>request\<close>, and what the handlers' answers satisfy of it.
\<close>

section \<open>Types of JSON values\<close>

text \<open>
  A member of an interface is required or optional. An object may have further members, as TypeScript's
  structural types allow.
\<close>

datatype ts_type =
    T_string
  | T_number
  | T_boolean
  | T_literals "string list"
  | T_array ts_type
  | T_nullable ts_type
  | T_interface "ts_member list"
and ts_member = Required string ts_type | Optional string ts_type

fun has_type :: "json \<Rightarrow> ts_type \<Rightarrow> bool" and has_member :: "(string \<times> json) list \<Rightarrow> ts_member \<Rightarrow> bool" where
  "has_type v T_string = (case v of JStr s \<Rightarrow> True | _ \<Rightarrow> False)"
| "has_type v T_number = (case v of JNum r \<Rightarrow> True | _ \<Rightarrow> False)"
| "has_type v T_boolean = (case v of JBool b \<Rightarrow> True | _ \<Rightarrow> False)"
| "has_type v (T_literals ls) = (case v of JStr s \<Rightarrow> s \<in> set ls | _ \<Rightarrow> False)"
| "has_type v (T_array t) = (case v of JArr xs \<Rightarrow> list_all (\<lambda>x. has_type x t) xs | _ \<Rightarrow> False)"
| "has_type v (T_nullable t) = (v = JNull \<or> has_type v t)"
| "has_type v (T_interface ms) = (case v of JObj ps \<Rightarrow> list_all (has_member ps) ms | _ \<Rightarrow> False)"
| "has_member ps (Required k t) = (case map_of ps k of None \<Rightarrow> False | Some v \<Rightarrow> has_type v t)"
| "has_member ps (Optional k t) = (case map_of ps k of None \<Rightarrow> True | Some v \<Rightarrow> has_type v t)"

section \<open>The declared types\<close>

definition ts_User :: ts_type where
  "ts_User = T_interface
     [Required ''id'' T_number, Required ''username'' T_string, Required ''role'' (T_literals [''admin'', ''base'', ''rover'']),
      Required ''enabled'' T_boolean]"

definition ts_MountpointRow :: "ts_member list" where
  "ts_MountpointRow =
     [Required ''id'' T_number, Required ''name'' T_string, Required ''description'' T_string, Required ''enabled'' T_boolean,
      Required ''format'' T_string, Required ''source_auth_mode'' T_string, Required ''write_queue'' T_number,
      Required ''write_timeout_ms'' T_number, Required ''max_clients'' T_number]"

definition ts_MountpointInfo :: ts_type where
  "ts_MountpointInfo = T_interface (ts_MountpointRow @
     [Required ''source_online'' T_boolean, Required ''client_count'' T_number, Optional ''antenna_lat'' T_number,
      Optional ''antenna_lon'' T_number, Optional ''antenna_height'' T_number, Optional ''antenna_updated_at'' T_string])"

definition ts_Binding :: ts_type where
  "ts_Binding = T_interface
     [Required ''id'' T_number, Required ''user_id'' T_number, Required ''mountpoint_id'' T_number,
      Optional ''username'' T_string, Optional ''mountpoint_name'' T_string]"

definition ts_SourceInfo :: ts_type where
  "ts_SourceInfo = T_interface
     [Required ''mountpoint'' T_string, Required ''source_id'' T_string, Required ''user_id'' T_number,
      Required ''username'' T_string, Required ''bytes_in'' T_number, Required ''connected_at'' T_string,
      Required ''duration_seconds'' T_number]"

definition ts_ClientInfo :: ts_type where
  "ts_ClientInfo = T_interface
     [Required ''mountpoint'' T_string, Required ''client_id'' T_string, Required ''user_id'' T_number,
      Required ''username'' T_string, Required ''bytes_out'' T_number, Required ''connected_at'' T_string,
      Required ''duration_seconds'' T_number]"

definition ts_MountpointStats :: ts_type where
  "ts_MountpointStats = T_interface
     [Required ''name'' T_string, Required ''client_count'' T_number, Required ''source_online'' T_boolean,
      Required ''bytes_in'' T_number, Required ''bytes_out'' T_number, Required ''slow_clients'' T_number,
      Required ''kick_count'' T_number]"

definition ts_SystemStats :: ts_type where
  "ts_SystemStats = T_interface
     [Required ''total_clients'' T_number, Required ''total_sources'' T_number,
      Required ''mountpoints'' (T_array ts_MountpointStats), Required ''timestamp'' T_string]"

definition ts_PaginatedResponse :: "ts_type \<Rightarrow> ts_type" where
  "ts_PaginatedResponse t = T_interface
     [Required ''data'' (T_array t), Required ''total'' T_number, Required ''page'' T_number, Required ''limit'' T_number]"

definition ts_status :: ts_type where
  "ts_status = T_interface [Required ''status'' T_string]"

text \<open>The error object that \<open>request\<close> looks for.\<close>

definition ts_error :: ts_type where
  "ts_error = T_interface [Required ''error'' T_string]"

text \<open>The type argument of \<open>request\<close> in the member of \<open>api\<close> that calls the handler.\<close>

fun declared_type :: "handler \<Rightarrow> ts_type" where
  "declared_type H_Login = T_interface [Required ''status'' T_string, Required ''username'' T_string]"
| "declared_type H_ListUsers = ts_PaginatedResponse ts_User"
| "declared_type H_CreateUser = ts_User"
| "declared_type H_ListMountpoints = ts_PaginatedResponse ts_MountpointInfo"
| "declared_type H_CreateMountpoint = T_interface ts_MountpointRow"
| "declared_type H_ListSources = T_array ts_SourceInfo"
| "declared_type H_ListClients = T_array ts_ClientInfo"
| "declared_type H_Stats = ts_SystemStats"
| "declared_type H_ListBindings = T_array ts_Binding"
| "declared_type H_ListUserBindings = T_array ts_Binding"
| "declared_type _ = ts_status"

lemmas declared_defs = ts_PaginatedResponse_def ts_User_def ts_MountpointRow_def ts_MountpointInfo_def ts_Binding_def
  ts_SourceInfo_def ts_ClientInfo_def ts_MountpointStats_def ts_SystemStats_def ts_status_def ts_error_def

text \<open>
  What the server sends instead: \<open>null\<close> for an empty list, any text as a role, and no write queue and
  timeout while they are unset.
\<close>

fun as_sent :: "ts_type \<Rightarrow> ts_type" and as_sent_member :: "ts_member \<Rightarrow> ts_member" where
  "as_sent (T_array t) = T_nullable (T_array (as_sent t))"
| "as_sent (T_nullable t) = T_nullable (as_sent t)"
| "as_sent (T_literals ls) = T_string"
| "as_sent (T_interface ms) = T_interface (map as_sent_member ms)"
| "as_sent T_string = T_string"
| "as_sent T_number = T_number"
| "as_sent T_boolean = T_boolean"
| "as_sent_member (Required k t) =
     (if k \<in> {''write_queue'', ''write_timeout_ms''} then Optional k (as_sent t) else Required k (as_sent t))"
| "as_sent_member (Optional k t) = Optional k (as_sent t)"

section \<open>Answers are typed\<close>

lemma map_of_opt_field: "map_of (opt_field k f x @ ps) k' = (if x \<noteq> None \<and> k = k' then Some (f (the x)) else map_of ps k')"
  by (cases x) (auto simp: opt_field_def)

lemma map_of_opt_field_end: "map_of (opt_field k f x) k' = (if x \<noteq> None \<and> k = k' then Some (f (the x)) else None)"
  using map_of_opt_field [of k f x "[]" k'] by simp

lemma typed_slice: "(\<And>x. has_type (f x) t) \<Longrightarrow> has_type (encode_slice f xs) (T_nullable (T_array t))"
  by (cases xs) (auto simp: encode_slice_def list_all_iff)

lemma typed_rows:
  "has_type (encode_user u) (as_sent ts_User)" "has_type (encode_info m) (as_sent ts_MountpointInfo)"
  "has_type (encode_binding b) (as_sent ts_Binding)" "has_type (encode_source s) (as_sent ts_SourceInfo)"
  "has_type (encode_client c) (as_sent ts_ClientInfo)" "has_type (encode_mount_stat q) (as_sent ts_MountpointStats)"
  "has_type (JObj (row_fields r)) (as_sent (T_interface ts_MountpointRow))"
  by (simp_all add: declared_defs encode_user_def encode_info_def row_fields_def encode_binding_def encode_source_def
      encode_client_def encode_mount_stat_def map_of_opt_field map_of_opt_field_end del: map_of_append)

lemma typed_page: "(\<And>x. has_type (f x) (as_sent t)) \<Longrightarrow> has_type (encode_page f r) (as_sent (ts_PaginatedResponse t))"
  using typed_slice [of f "as_sent t" "pr_data r"] by (simp add: encode_page_def ts_PaginatedResponse_def)

lemma typed_stats: "has_type (encode_stats s) (as_sent ts_SystemStats)"
  using typed_slice [of encode_mount_stat "as_sent ts_MountpointStats" "ss_mountpoints s"] typed_rows(6)
  by (simp add: encode_stats_def ts_SystemStats_def)

text \<open>An error is never reported with status 200.\<close>

definition honest :: "'a reply \<Rightarrow> bool" where
  "honest r \<longleftrightarrow> (\<forall>m. r \<noteq> jsonError m 200)"

lemma honest_simps [simp]: "honest (jsonOK x)" "honest (jsonError m c) = (c \<noteq> 200)"
  by (simp_all add: honest_def)

lemma honest_handlers:
  "honest (fst (h_Login ae now token body v))" "honest (fst (h_Logout cookie v))" "honest (fst (h_CreateUser ae body v))"
  "honest (fst (h_UpdateUser ae w body v))" "honest (fst (h_DeleteUser w v))" "honest (fst (h_CreateMountpoint ae body v))"
  "honest (fst (h_UpdateMountpoint ae w body v))" "honest (fst (h_DeleteMountpoint w v))" "honest (fst (h_KickSource w v))"
  "honest (fst (h_KickClient w v))" "honest (h_ListUserBindings w v)" "honest (fst (h_CreateBinding body v))"
  "honest (fst (h_DeleteBinding w v))"
  by (simp_all add: h_Login_def h_Logout_def h_CreateUser_def h_UpdateUser_def h_DeleteUser_def h_CreateMountpoint_def
      h_UpdateMountpoint_def h_DeleteMountpoint_def h_KickSource_def h_KickClient_def h_ListUserBindings_def
      h_CreateBinding_def h_DeleteBinding_def Let_def split: option.split prod.split sum.split)

definition typed_answer :: "ts_type \<Rightarrow> int \<times> json \<Rightarrow> bool" where
  "typed_answer t a \<longleftrightarrow> (case a of (st, j) \<Rightarrow> if st = 200 then has_type j (as_sent t) else has_type j ts_error)"

lemma typed_reply: "(\<And>x. has_type (f x) (as_sent t)) \<Longrightarrow> honest r \<Longrightarrow> typed_answer t (encode_reply f r)"
  by (cases r) (auto simp: encode_reply_def ts_error_def typed_answer_def)

lemma typed_value: "has_type j (as_sent t) \<Longrightarrow> typed_answer t (200, j)"
  by (simp add: typed_answer_def)

lemma typed_status: "has_type (status_ok u) (as_sent ts_status)"
  by (simp add: status_ok_def ts_status_def)

lemma typed_list: "(\<And>x. has_type (f x) (as_sent t)) \<Longrightarrow> has_type (encode_slice f xs) (as_sent (T_array t))"
  using typed_slice [of f "as_sent t"] by simp

lemma typed_handler: "typed_answer (declared_type h) (fst (run_handler ae now token h w q body cookie v))"
  by (cases h)
    (simp_all only: run_handler.simps declared_type.simps fst_conv fst_apfst typed_reply typed_value typed_status typed_page
      typed_list typed_rows typed_stats honest_handlers,
     simp_all add: typed_reply honest_handlers)

section \<open>Properties\<close>

text \<open>
  C25. The answers are the types the client declares for them, up to three weakenings. Whenever a call of the
  client is dispatched to a handler, the answer is JSON; with status 200 it has the type that the call
  passes to \<open>request\<close>, except that an empty list may be \<open>null\<close>, a role may be any text, and the write
  queue and timeout of a mountpoint may be missing; with any other status it is the error object that
  \<open>request\<close> reads.
\<close>

theorem answers_have_declared_types:
  assumes "call_dispatch now cookie v c = Handle h vs"
  shows "\<exists>st j v'. call_server ae now token cookie c v = (Response st (Inr j), v')
    \<and> (if st = 200 then has_type j (as_sent (declared_type h)) else has_type j ts_error)"
proof -
  let ?r = "fetch_args (fst c) (snd c)"
  obtain w where "serve now (hr_method ?r) (hr_path ?r) cookie v = (Handle h vs, w)"
    using assms by (cases "serve now (hr_method ?r) (hr_path ?r) cookie v") (auto simp: call_dispatch_def Let_def)
  then show ?thesis
    using typed_handler [of h ae now token "case vs of [] \<Rightarrow> [] | w # ws \<Rightarrow> w" "url_query (hr_path ?r)" "hr_body ?r" cookie w]
    by (cases "run_handler ae now token h (case vs of [] \<Rightarrow> [] | w # ws \<Rightarrow> w) (url_query (hr_path ?r)) (hr_body ?r) cookie w")
      (auto simp: call_server_def handle_request_def typed_answer_def split: if_splits)
qed

theorem answers_have_declared_types_witness:
  "\<exists>st j v'. call_server sample_env 50 ''new'' (Some ''tok'') api_getStats sample_server = (Response st (Inr j), v')
    \<and> (if st = 200 then has_type j (as_sent ts_SystemStats) else has_type j ts_error)"
proof -
  have "call_dispatch 50 (Some ''tok'') sample_server api_getStats = Handle H_Stats []"
    using serve_route [OF sample_session, of "''GET''" "''/api/stats''"] client_paths
    by (simp add: call_dispatch_def api_defs fetch_args_def route_simps)
  from answers_have_declared_types [OF this, where ae = sample_env and token = "''new''"] show ?thesis
    by (simp only: declared_type.simps)
qed

text \<open>Each weakening is needed: a list without rows, a user with another role, a mountpoint without settings.\<close>

lemma declared_types_too_narrow:
  "\<not> has_type (encode_page encode_user (h_ListUsers ae q (v\<lparr>sv_store := NewService\<rparr>))) (declared_type H_ListUsers)"
  "\<not> has_type (encode_user \<lparr>u_id = 1, u_username = n, u_role = ''guest'', u_enabled = True\<rparr>) (declared_type H_CreateUser)"
  "m_write_queue row = None \<Longrightarrow> \<not> has_type (JObj (row_fields row)) (declared_type H_CreateMountpoint)"
  by (simp_all add: h_ListUsers_def ListUsersPaginated_def paginate_def sql_limit_offset_def NewService_def encode_page_def
      encode_slice_def nil_slice_def declared_defs encode_user_def row_fields_def map_of_opt_field split_beta Let_def
      del: map_of_append)

end
