(* ===== verification/Ui_Kit.thy ===== *)
theory Ui_Kit
  imports Ui
begin

text \<open>
  The wrappers of \<open>web/src/components/ui\<close>, through which every page draws. A wrapper is a function
  from its properties and children to the element it returns. The tree it builds has the primitives
  of \<open>@base-ui/react\<close> and the HTML tags at its nodes, every property the source writes (class names
  included), the properties whose value is undefined and those whose value is an element (\<open>render\<close>,
  \<open>icons\<close>).

  \<open>tailwind-merge\<close>, \<open>clsx\<close> and \<open>class-variance-authority\<close> are packages: they are the fields of
  \<open>ui_env\<close>. \<open>jsx\<close> is \<open><Tag a=.. b=.. {...props}>\<close>: a spread property replaces one of the same name
  written before it. \<open>rest\<close> and \<open>prop_or\<close> are the destructuring \<open>{ className, size = "default", ...props }\<close>.
  Explicit children replace the children inside \<open>props\<close>.

  The lemmas show that drawing a page through the wrappers changes nothing a user can do on it.
\<close>

section \<open>Elements and properties\<close>

datatype 'e ui_prop = Attr "'e attr" | Undef string

datatype 'e ui =
    UTxt string
  | UElem string "'e ui_prop list" "(string \<times> 'e ui) list" "'e ui list"

abbreviation "pstr n v \<equiv> Attr (A_str n v)"
abbreviation "pnum n v \<equiv> Attr (A_num n v)"
abbreviation "pflag n v \<equiv> Attr (A_flag n v)"

record ui_env =
  twMerge :: "string \<Rightarrow> string"
  clsx :: "string option list \<Rightarrow> string"
  cva :: "string \<Rightarrow> (string \<times> (string \<times> string) list) list \<Rightarrow> (string \<times> string) list \<Rightarrow>
          (string \<times> string option) list \<Rightarrow> string"

definition cn :: "ui_env \<Rightarrow> string option list \<Rightarrow> string" where
  "cn E inputs = twMerge E (clsx E inputs)"

fun attr_name :: "'e attr \<Rightarrow> string" where
  "attr_name (A_str n v) = n"
| "attr_name (A_num n v) = n"
| "attr_name (A_flag n v) = n"
| "attr_name (On n e) = n"
| "attr_name (On_text n f) = n"
| "attr_name (On_select n f) = n"
| "attr_name (On_flag n f) = n"

fun attr_rename :: "string \<Rightarrow> 'e attr \<Rightarrow> 'e attr" where
  "attr_rename m (A_str n v) = A_str m v"
| "attr_rename m (A_num n v) = A_num m v"
| "attr_rename m (A_flag n v) = A_flag m v"
| "attr_rename m (On n e) = On m e"
| "attr_rename m (On_text n f) = On_text m f"
| "attr_rename m (On_select n f) = On_select m f"
| "attr_rename m (On_flag n f) = On_flag m f"

fun prop_name :: "'e ui_prop \<Rightarrow> string" where
  "prop_name (Attr a) = attr_name a"
| "prop_name (Undef n) = n"

fun rename :: "string \<Rightarrow> 'e ui_prop \<Rightarrow> 'e ui_prop" where
  "rename m (Attr a) = Attr (attr_rename m a)"
| "rename m (Undef n) = Undef m"

fun prop_string :: "'e ui_prop \<Rightarrow> string option" where
  "prop_string (Attr (A_str n v)) = Some v"
| "prop_string _ = None"

fun prop_true :: "'e ui_prop \<Rightarrow> bool" where
  "prop_true (Attr (A_flag n b)) = b"
| "prop_true _ = False"

definition prop_or :: "string \<Rightarrow> 'e ui_prop \<Rightarrow> 'e ui_prop list \<Rightarrow> 'e ui_prop" where
  "prop_or n d ps =
     (case find (\<lambda>p. prop_name p = n) ps of
        None \<Rightarrow> d
      | Some p \<Rightarrow> (case p of Undef m \<Rightarrow> d | Attr a \<Rightarrow> p))"

definition class_of :: "'e ui_prop list \<Rightarrow> string option" where
  "class_of ps = prop_string (prop_or ''className'' (Undef ''className'') ps)"

definition rest :: "string list \<Rightarrow> 'e ui_prop list \<Rightarrow> 'e ui_prop list" where
  "rest ns ps = filter (\<lambda>p. prop_name p \<notin> set ns) ps"

definition overlay :: "'e ui_prop list \<Rightarrow> 'e ui_prop list \<Rightarrow> 'e ui_prop list" where
  "overlay ds ps = filter (\<lambda>d. prop_name d \<notin> prop_name ` set ps) ds @ ps"

definition jsx :: "string \<Rightarrow> 'e ui_prop list \<Rightarrow> 'e ui_prop list \<Rightarrow> (string \<times> 'e ui) list \<Rightarrow> 'e ui list \<Rightarrow> 'e ui" where
  "jsx t ds ps nds ns = UElem t (overlay ds ps) nds ns"

section \<open>Buttons and badges\<close>

definition buttonVariants :: "ui_env \<Rightarrow> string option \<Rightarrow> string option \<Rightarrow> string option \<Rightarrow> string" where
  "buttonVariants E variant sz className =
     cva E
      ''group/button inline-flex shrink-0 items-center justify-center rounded-lg border border-transparent bg-clip-padding text-sm font-medium whitespace-nowrap transition-all outline-none select-none focus-visible:border-ring focus-visible:ring-3 focus-visible:ring-ring/50 active:translate-y-px disabled:pointer-events-none disabled:opacity-50 aria-invalid:border-destructive aria-invalid:ring-3 aria-invalid:ring-destructive/20 dark:aria-invalid:border-destructive/50 dark:aria-invalid:ring-destructive/40 [&_svg]:pointer-events-none [&_svg]:shrink-0 [&_svg:not([class*='size-'])]:size-4''
      [(''variant'',
        [(''default'', ''bg-primary text-primary-foreground [a]:hover:bg-primary/80''),
         (''outline'', ''border-border bg-background hover:bg-muted hover:text-foreground aria-expanded:bg-muted aria-expanded:text-foreground dark:border-input dark:bg-input/30 dark:hover:bg-input/50''),
         (''secondary'', ''bg-secondary text-secondary-foreground hover:bg-secondary/80 aria-expanded:bg-secondary aria-expanded:text-secondary-foreground''),
         (''ghost'', ''hover:bg-muted hover:text-foreground aria-expanded:bg-muted aria-expanded:text-foreground dark:hover:bg-muted/50''),
         (''destructive'', ''bg-destructive/10 text-destructive hover:bg-destructive/20 focus-visible:border-destructive/40 focus-visible:ring-destructive/20 dark:bg-destructive/20 dark:hover:bg-destructive/30 dark:focus-visible:ring-destructive/40''),
         (''link'', ''text-primary underline-offset-4 hover:underline'')]),
       (''size'',
        [(''default'', ''h-8 gap-1.5 px-2.5 has-data-[icon=inline-end]:pr-2 has-data-[icon=inline-start]:pl-2''),
         (''xs'', ''h-6 gap-1 rounded-[min(var(--radius-md),10px)] px-2 text-xs in-data-[slot=button-group]:rounded-lg has-data-[icon=inline-end]:pr-1.5 has-data-[icon=inline-start]:pl-1.5 [&_svg:not([class*='size-'])]:size-3''),
         (''sm'', ''h-7 gap-1 rounded-[min(var(--radius-md),12px)] px-2.5 text-[0.8rem] in-data-[slot=button-group]:rounded-lg has-data-[icon=inline-end]:pr-1.5 has-data-[icon=inline-start]:pl-1.5 [&_svg:not([class*='size-'])]:size-3.5''),
         (''lg'', ''h-9 gap-1.5 px-2.5 has-data-[icon=inline-end]:pr-3 has-data-[icon=inline-start]:pl-3''),
         (''icon'', ''size-8''),
         (''icon-xs'', ''size-6 rounded-[min(var(--radius-md),10px)] in-data-[slot=button-group]:rounded-lg [&_svg:not([class*='size-'])]:size-3''),
         (''icon-sm'', ''size-7 rounded-[min(var(--radius-md),12px)] in-data-[slot=button-group]:rounded-lg''),
         (''icon-lg'', ''size-9'')])]
      [(''variant'', ''default''), (''size'', ''default'')]
      [(''variant'', variant), (''size'', sz), (''className'', className)]"

definition Button :: "ui_env \<Rightarrow> 'e ui_prop list \<Rightarrow> 'e ui list \<Rightarrow> 'e ui" where
  "Button E ps ns =
     jsx ''ButtonPrimitive''
        [pstr ''data-slot'' ''button'',
         pstr ''className'' (cn E [Some (buttonVariants E (prop_string (prop_or ''variant'' (pstr ''variant'' ''default'') ps)) (prop_string (prop_or ''size'' (pstr ''size'' ''default'') ps)) (class_of ps))])]
        (rest [''className'', ''variant'', ''size''] ps) []
        ns"

definition badgeVariants :: "ui_env \<Rightarrow> string option \<Rightarrow> string" where
  "badgeVariants E variant =
     cva E
      ''group/badge inline-flex h-5 w-fit shrink-0 items-center justify-center gap-1 overflow-hidden rounded-4xl border border-transparent px-2 py-0.5 text-xs font-medium whitespace-nowrap transition-all focus-visible:border-ring focus-visible:ring-[3px] focus-visible:ring-ring/50 has-data-[icon=inline-end]:pr-1.5 has-data-[icon=inline-start]:pl-1.5 aria-invalid:border-destructive aria-invalid:ring-destructive/20 dark:aria-invalid:ring-destructive/40 [&>svg]:pointer-events-none [&>svg]:size-3!''
      [(''variant'',
        [(''default'', ''bg-primary text-primary-foreground [a]:hover:bg-primary/80''),
         (''secondary'', ''bg-secondary text-secondary-foreground [a]:hover:bg-secondary/80''),
         (''destructive'', ''bg-destructive/10 text-destructive focus-visible:ring-destructive/20 dark:bg-destructive/20 dark:focus-visible:ring-destructive/40 [a]:hover:bg-destructive/20''),
         (''outline'', ''border-border text-foreground [a]:hover:bg-muted [a]:hover:text-muted-foreground''),
         (''ghost'', ''hover:bg-muted hover:text-muted-foreground dark:hover:bg-muted/50''),
         (''link'', ''text-primary underline-offset-4 hover:underline'')])]
      [(''variant'', ''default'')]
      [(''variant'', variant)]"

text \<open>
  A badge is drawn by the hook \<open>useRender\<close>; its call is kept as an element whose properties are
  its arguments: the default tag, the element given as \<open>render\<close>, the state, and the merged
  properties (\<open>className\<close> is destructured, so merging it with the rest is their union).
\<close>

definition Badge :: "ui_env \<Rightarrow> (string \<times> 'e ui) list \<Rightarrow> 'e ui_prop list \<Rightarrow> 'e ui list \<Rightarrow> 'e ui" where
  "Badge E render ps ns =
     UElem ''useRender''
       ([pstr ''defaultTagName'' ''span'',
         pstr ''className'' (cn E [Some (badgeVariants E (prop_string (prop_or ''variant'' (pstr ''variant'' ''default'') ps))),
                                   class_of ps])]
        @ rest [''className'', ''variant'', ''render''] ps
        @ [pstr ''state.slot'' ''badge'',
           rename ''state.variant'' (prop_or ''variant'' (pstr ''variant'' ''default'') ps)])
       render ns"

section \<open>Labels, fields, skeletons, separators\<close>

definition Label :: "ui_env \<Rightarrow> 'e ui_prop list \<Rightarrow> 'e ui list \<Rightarrow> 'e ui" where
  "Label E ps ns =
     jsx ''label''
        [pstr ''data-slot'' ''label'',
         pstr ''className'' (cn E [Some ''flex items-center gap-2 text-sm leading-none font-medium select-none group-data-[disabled=true]:pointer-events-none group-data-[disabled=true]:opacity-50 peer-disabled:cursor-not-allowed peer-disabled:opacity-50'', class_of ps])]
        (rest [''className''] ps) []
        ns"

definition Input :: "ui_env \<Rightarrow> 'e ui_prop list \<Rightarrow> 'e ui list \<Rightarrow> 'e ui" where
  "Input E ps ns =
     jsx ''InputPrimitive''
        [prop_or ''type'' (Undef ''type'') ps,
         pstr ''data-slot'' ''input'',
         pstr ''className'' (cn E [Some ''h-8 w-full min-w-0 rounded-lg border border-input bg-transparent px-2.5 py-1 text-base transition-colors outline-none file:inline-flex file:h-6 file:border-0 file:bg-transparent file:text-sm file:font-medium file:text-foreground placeholder:text-muted-foreground focus-visible:border-ring focus-visible:ring-3 focus-visible:ring-ring/50 disabled:pointer-events-none disabled:cursor-not-allowed disabled:bg-input/50 disabled:opacity-50 aria-invalid:border-destructive aria-invalid:ring-3 aria-invalid:ring-destructive/20 md:text-sm dark:bg-input/30 dark:disabled:bg-input/80 dark:aria-invalid:border-destructive/50 dark:aria-invalid:ring-destructive/40'', class_of ps])]
        (rest [''className'', ''type''] ps) []
        ns"

definition Skeleton :: "ui_env \<Rightarrow> 'e ui_prop list \<Rightarrow> 'e ui list \<Rightarrow> 'e ui" where
  "Skeleton E ps ns =
     jsx ''div''
        [pstr ''data-slot'' ''skeleton'',
         pstr ''className'' (cn E [Some ''animate-pulse rounded-md bg-muted'', class_of ps])]
        (rest [''className''] ps) []
        ns"

definition Separator :: "ui_env \<Rightarrow> 'e ui_prop list \<Rightarrow> 'e ui list \<Rightarrow> 'e ui" where
  "Separator E ps ns =
     jsx ''SeparatorPrimitive''
        [pstr ''data-slot'' ''separator'',
         prop_or ''orientation'' (pstr ''orientation'' ''horizontal'') ps,
         pstr ''className'' (cn E [Some ''shrink-0 bg-border data-horizontal:h-px data-horizontal:w-full data-vertical:w-px data-vertical:self-stretch'', class_of ps])]
        (rest [''className'', ''orientation''] ps) []
        ns"

section \<open>Cards\<close>

definition Card :: "ui_env \<Rightarrow> 'e ui_prop list \<Rightarrow> 'e ui list \<Rightarrow> 'e ui" where
  "Card E ps ns =
     jsx ''div''
        [pstr ''data-slot'' ''card'',
         rename ''data-size'' (prop_or ''size'' (pstr ''size'' ''default'') ps),
         pstr ''className'' (cn E [Some ''group/card flex flex-col gap-4 overflow-hidden rounded-xl bg-card py-4 text-sm text-card-foreground ring-1 ring-foreground/10 has-data-[slot=card-footer]:pb-0 has-[>img:first-child]:pt-0 data-[size=sm]:gap-3 data-[size=sm]:py-3 data-[size=sm]:has-data-[slot=card-footer]:pb-0 *:[img:first-child]:rounded-t-xl *:[img:last-child]:rounded-b-xl'', class_of ps])]
        (rest [''className'', ''size''] ps) []
        ns"

definition CardHeader :: "ui_env \<Rightarrow> 'e ui_prop list \<Rightarrow> 'e ui list \<Rightarrow> 'e ui" where
  "CardHeader E ps ns =
     jsx ''div''
        [pstr ''data-slot'' ''card-header'',
         pstr ''className'' (cn E [Some ''group/card-header @container/card-header grid auto-rows-min items-start gap-1 rounded-t-xl px-4 group-data-[size=sm]/card:px-3 has-data-[slot=card-action]:grid-cols-[1fr_auto] has-data-[slot=card-description]:grid-rows-[auto_auto] [.border-b]:pb-4 group-data-[size=sm]/card:[.border-b]:pb-3'', class_of ps])]
        (rest [''className''] ps) []
        ns"

definition CardTitle :: "ui_env \<Rightarrow> 'e ui_prop list \<Rightarrow> 'e ui list \<Rightarrow> 'e ui" where
  "CardTitle E ps ns =
     jsx ''div''
        [pstr ''data-slot'' ''card-title'',
         pstr ''className'' (cn E [Some ''text-base leading-snug font-medium group-data-[size=sm]/card:text-sm'', class_of ps])]
        (rest [''className''] ps) []
        ns"

definition CardDescription :: "ui_env \<Rightarrow> 'e ui_prop list \<Rightarrow> 'e ui list \<Rightarrow> 'e ui" where
  "CardDescription E ps ns =
     jsx ''div''
        [pstr ''data-slot'' ''card-description'',
         pstr ''className'' (cn E [Some ''text-sm text-muted-foreground'', class_of ps])]
        (rest [''className''] ps) []
        ns"

definition CardAction :: "ui_env \<Rightarrow> 'e ui_prop list \<Rightarrow> 'e ui list \<Rightarrow> 'e ui" where
  "CardAction E ps ns =
     jsx ''div''
        [pstr ''data-slot'' ''card-action'',
         pstr ''className'' (cn E [Some ''col-start-2 row-span-2 row-start-1 self-start justify-self-end'', class_of ps])]
        (rest [''className''] ps) []
        ns"

definition CardContent :: "ui_env \<Rightarrow> 'e ui_prop list \<Rightarrow> 'e ui list \<Rightarrow> 'e ui" where
  "CardContent E ps ns =
     jsx ''div''
        [pstr ''data-slot'' ''card-content'',
         pstr ''className'' (cn E [Some ''px-4 group-data-[size=sm]/card:px-3'', class_of ps])]
        (rest [''className''] ps) []
        ns"

definition CardFooter :: "ui_env \<Rightarrow> 'e ui_prop list \<Rightarrow> 'e ui list \<Rightarrow> 'e ui" where
  "CardFooter E ps ns =
     jsx ''div''
        [pstr ''data-slot'' ''card-footer'',
         pstr ''className'' (cn E [Some ''flex items-center rounded-b-xl border-t bg-muted/50 p-4 group-data-[size=sm]/card:p-3'', class_of ps])]
        (rest [''className''] ps) []
        ns"

section \<open>Tables\<close>

definition Table :: "ui_env \<Rightarrow> 'e ui_prop list \<Rightarrow> 'e ui list \<Rightarrow> 'e ui" where
  "Table E ps ns =
     UElem ''div''
        [pstr ''data-slot'' ''table-container'',
         pstr ''className'' ''relative w-full overflow-x-auto''] []
        [jsx ''table''
            [pstr ''data-slot'' ''table'',
             pstr ''className'' (cn E [Some ''w-full caption-bottom text-sm'', class_of ps])]
            (rest [''className''] ps) []
            ns]"

definition TableHeader :: "ui_env \<Rightarrow> 'e ui_prop list \<Rightarrow> 'e ui list \<Rightarrow> 'e ui" where
  "TableHeader E ps ns =
     jsx ''thead''
        [pstr ''data-slot'' ''table-header'',
         pstr ''className'' (cn E [Some ''[&_tr]:border-b'', class_of ps])]
        (rest [''className''] ps) []
        ns"

definition TableBody :: "ui_env \<Rightarrow> 'e ui_prop list \<Rightarrow> 'e ui list \<Rightarrow> 'e ui" where
  "TableBody E ps ns =
     jsx ''tbody''
        [pstr ''data-slot'' ''table-body'',
         pstr ''className'' (cn E [Some ''[&_tr:last-child]:border-0'', class_of ps])]
        (rest [''className''] ps) []
        ns"

definition TableFooter :: "ui_env \<Rightarrow> 'e ui_prop list \<Rightarrow> 'e ui list \<Rightarrow> 'e ui" where
  "TableFooter E ps ns =
     jsx ''tfoot''
        [pstr ''data-slot'' ''table-footer'',
         pstr ''className'' (cn E [Some ''border-t bg-muted/50 font-medium [&>tr]:last:border-b-0'', class_of ps])]
        (rest [''className''] ps) []
        ns"

definition TableRow :: "ui_env \<Rightarrow> 'e ui_prop list \<Rightarrow> 'e ui list \<Rightarrow> 'e ui" where
  "TableRow E ps ns =
     jsx ''tr''
        [pstr ''data-slot'' ''table-row'',
         pstr ''className'' (cn E [Some ''border-b transition-colors hover:bg-muted/50 data-[state=selected]:bg-muted'', class_of ps])]
        (rest [''className''] ps) []
        ns"

definition TableHead :: "ui_env \<Rightarrow> 'e ui_prop list \<Rightarrow> 'e ui list \<Rightarrow> 'e ui" where
  "TableHead E ps ns =
     jsx ''th''
        [pstr ''data-slot'' ''table-head'',
         pstr ''className'' (cn E [Some ''h-10 px-2 text-left align-middle font-medium whitespace-nowrap text-foreground [&:has([role=checkbox])]:pr-0'', class_of ps])]
        (rest [''className''] ps) []
        ns"

definition TableCell :: "ui_env \<Rightarrow> 'e ui_prop list \<Rightarrow> 'e ui list \<Rightarrow> 'e ui" where
  "TableCell E ps ns =
     jsx ''td''
        [pstr ''data-slot'' ''table-cell'',
         pstr ''className'' (cn E [Some ''p-2 align-middle whitespace-nowrap [&:has([role=checkbox])]:pr-0'', class_of ps])]
        (rest [''className''] ps) []
        ns"

definition TableCaption :: "ui_env \<Rightarrow> 'e ui_prop list \<Rightarrow> 'e ui list \<Rightarrow> 'e ui" where
  "TableCaption E ps ns =
     jsx ''caption''
        [pstr ''data-slot'' ''table-caption'',
         pstr ''className'' (cn E [Some ''mt-4 text-sm text-muted-foreground'', class_of ps])]
        (rest [''className''] ps) []
        ns"

section \<open>Tabs\<close>

definition tabsListVariants :: "ui_env \<Rightarrow> string option \<Rightarrow> string" where
  "tabsListVariants E variant =
     cva E
      ''group/tabs-list inline-flex w-fit items-center justify-center rounded-lg p-[3px] text-muted-foreground group-data-horizontal/tabs:h-8 group-data-vertical/tabs:h-fit group-data-vertical/tabs:flex-col data-[variant=line]:rounded-none''
      [(''variant'',
        [(''default'', ''bg-muted''),
         (''line'', ''gap-1 bg-transparent'')])]
      [(''variant'', ''default'')]
      [(''variant'', variant)]"

definition Tabs :: "ui_env \<Rightarrow> 'e ui_prop list \<Rightarrow> 'e ui list \<Rightarrow> 'e ui" where
  "Tabs E ps ns =
     jsx ''TabsPrimitive.Root''
        [pstr ''data-slot'' ''tabs'',
         rename ''data-orientation'' (prop_or ''orientation'' (pstr ''orientation'' ''horizontal'') ps),
         pstr ''className'' (cn E [Some ''group/tabs flex gap-2 data-horizontal:flex-col'', class_of ps])]
        (rest [''className'', ''orientation''] ps) []
        ns"

definition TabsList :: "ui_env \<Rightarrow> 'e ui_prop list \<Rightarrow> 'e ui list \<Rightarrow> 'e ui" where
  "TabsList E ps ns =
     jsx ''TabsPrimitive.List''
        [pstr ''data-slot'' ''tabs-list'',
         rename ''data-variant'' (prop_or ''variant'' (pstr ''variant'' ''default'') ps),
         pstr ''className'' (cn E [Some (tabsListVariants E (prop_string (prop_or ''variant'' (pstr ''variant'' ''default'') ps))), class_of ps])]
        (rest [''className'', ''variant''] ps) []
        ns"

definition TabsTrigger :: "ui_env \<Rightarrow> 'e ui_prop list \<Rightarrow> 'e ui list \<Rightarrow> 'e ui" where
  "TabsTrigger E ps ns =
     jsx ''TabsPrimitive.Tab''
        [pstr ''data-slot'' ''tabs-trigger'',
         pstr ''className'' (cn E [Some ''relative inline-flex h-[calc(100%-1px)] flex-1 items-center justify-center gap-1.5 rounded-md border border-transparent px-1.5 py-0.5 text-sm font-medium whitespace-nowrap text-foreground/60 transition-all group-data-vertical/tabs:w-full group-data-vertical/tabs:justify-start hover:text-foreground focus-visible:border-ring focus-visible:ring-[3px] focus-visible:ring-ring/50 focus-visible:outline-1 focus-visible:outline-ring disabled:pointer-events-none disabled:opacity-50 aria-disabled:pointer-events-none aria-disabled:opacity-50 dark:text-muted-foreground dark:hover:text-foreground group-data-[variant=default]/tabs-list:data-active:shadow-sm group-data-[variant=line]/tabs-list:data-active:shadow-none [&_svg]:pointer-events-none [&_svg]:shrink-0 [&_svg:not([class*='size-'])]:size-4'', Some ''group-data-[variant=line]/tabs-list:bg-transparent group-data-[variant=line]/tabs-list:data-active:bg-transparent dark:group-data-[variant=line]/tabs-list:data-active:border-transparent dark:group-data-[variant=line]/tabs-list:data-active:bg-transparent'', Some ''data-active:bg-background data-active:text-foreground dark:data-active:border-input dark:data-active:bg-input/30 dark:data-active:text-foreground'', Some ''after:absolute after:bg-foreground after:opacity-0 after:transition-opacity group-data-horizontal/tabs:after:inset-x-0 group-data-horizontal/tabs:after:bottom-[-5px] group-data-horizontal/tabs:after:h-0.5 group-data-vertical/tabs:after:inset-y-0 group-data-vertical/tabs:after:-right-1 group-data-vertical/tabs:after:w-0.5 group-data-[variant=line]/tabs-list:data-active:after:opacity-100'', class_of ps])]
        (rest [''className''] ps) []
        ns"

definition TabsContent :: "ui_env \<Rightarrow> 'e ui_prop list \<Rightarrow> 'e ui list \<Rightarrow> 'e ui" where
  "TabsContent E ps ns =
     jsx ''TabsPrimitive.Panel''
        [pstr ''data-slot'' ''tabs-content'',
         pstr ''className'' (cn E [Some ''flex-1 text-sm outline-none'', class_of ps])]
        (rest [''className''] ps) []
        ns"

section \<open>Switches and tooltips\<close>

definition Switch :: "ui_env \<Rightarrow> 'e ui_prop list \<Rightarrow> 'e ui list \<Rightarrow> 'e ui" where
  "Switch E ps ns =
     jsx ''SwitchPrimitive.Root''
        [pstr ''data-slot'' ''switch'',
         rename ''data-size'' (prop_or ''size'' (pstr ''size'' ''default'') ps),
         pstr ''className'' (cn E [Some ''peer group/switch relative inline-flex shrink-0 items-center rounded-full border border-transparent transition-all outline-none after:absolute after:-inset-x-3 after:-inset-y-2 focus-visible:border-ring focus-visible:ring-3 focus-visible:ring-ring/50 aria-invalid:border-destructive aria-invalid:ring-3 aria-invalid:ring-destructive/20 data-[size=default]:h-[18.4px] data-[size=default]:w-[32px] data-[size=sm]:h-[14px] data-[size=sm]:w-[24px] dark:aria-invalid:border-destructive/50 dark:aria-invalid:ring-destructive/40 data-checked:bg-primary data-unchecked:bg-input dark:data-unchecked:bg-input/80 data-disabled:cursor-not-allowed data-disabled:opacity-50'', class_of ps])]
        (rest [''className'', ''size''] ps) []
        [UElem ''SwitchPrimitive.Thumb''
            [pstr ''data-slot'' ''switch-thumb'',
             pstr ''className'' ''pointer-events-none block rounded-full bg-background ring-0 transition-transform group-data-[size=default]/switch:size-4 group-data-[size=sm]/switch:size-3 group-data-[size=default]/switch:data-checked:translate-x-[calc(100%-2px)] group-data-[size=sm]/switch:data-checked:translate-x-[calc(100%-2px)] dark:data-checked:bg-primary-foreground group-data-[size=default]/switch:data-unchecked:translate-x-0 group-data-[size=sm]/switch:data-unchecked:translate-x-0 dark:data-unchecked:bg-foreground''] []
            []]"

definition TooltipProvider :: "ui_env \<Rightarrow> 'e ui_prop list \<Rightarrow> 'e ui list \<Rightarrow> 'e ui" where
  "TooltipProvider E ps ns =
     jsx ''TooltipPrimitive.Provider''
        [pstr ''data-slot'' ''tooltip-provider'',
         prop_or ''delay'' (pnum ''delay'' 0) ps]
        (rest [''delay''] ps) []
        ns"

definition Tooltip :: "ui_env \<Rightarrow> 'e ui_prop list \<Rightarrow> 'e ui list \<Rightarrow> 'e ui" where
  "Tooltip E ps ns =
     jsx ''TooltipPrimitive.Root''
        [pstr ''data-slot'' ''tooltip'']
        ps []
        ns"

definition TooltipTrigger :: "ui_env \<Rightarrow> 'e ui_prop list \<Rightarrow> 'e ui list \<Rightarrow> 'e ui" where
  "TooltipTrigger E ps ns =
     jsx ''TooltipPrimitive.Trigger''
        [pstr ''data-slot'' ''tooltip-trigger'']
        ps []
        ns"

definition TooltipContent :: "ui_env \<Rightarrow> 'e ui_prop list \<Rightarrow> 'e ui list \<Rightarrow> 'e ui" where
  "TooltipContent E ps ns =
     UElem ''TooltipPrimitive.Portal''
        [] []
        [UElem ''TooltipPrimitive.Positioner''
            [prop_or ''align'' (pstr ''align'' ''center'') ps,
             prop_or ''alignOffset'' (pnum ''alignOffset'' 0) ps,
             prop_or ''side'' (pstr ''side'' ''top'') ps,
             prop_or ''sideOffset'' (pnum ''sideOffset'' 4) ps,
             pstr ''className'' ''isolate z-50''] []
            [jsx ''TooltipPrimitive.Popup''
                [pstr ''data-slot'' ''tooltip-content'',
                 pstr ''className'' (cn E [Some ''z-50 inline-flex w-fit max-w-xs origin-(--transform-origin) items-center gap-1.5 rounded-md bg-foreground px-3 py-1.5 text-xs text-background has-data-[slot=kbd]:pr-1.5 data-[side=bottom]:slide-in-from-top-2 data-[side=inline-end]:slide-in-from-left-2 data-[side=inline-start]:slide-in-from-right-2 data-[side=left]:slide-in-from-right-2 data-[side=right]:slide-in-from-left-2 data-[side=top]:slide-in-from-bottom-2 **:data-[slot=kbd]:relative **:data-[slot=kbd]:isolate **:data-[slot=kbd]:z-50 **:data-[slot=kbd]:rounded-sm data-[state=delayed-open]:animate-in data-[state=delayed-open]:fade-in-0 data-[state=delayed-open]:zoom-in-95 data-open:animate-in data-open:fade-in-0 data-open:zoom-in-95 data-closed:animate-out data-closed:fade-out-0 data-closed:zoom-out-95'', class_of ps])]
                (rest [''className'', ''side'', ''sideOffset'', ''align'', ''alignOffset''] ps) []
                (ns
                @ [UElem ''TooltipPrimitive.Arrow''
                    [pstr ''className'' ''z-50 size-2.5 translate-y-[calc(-50%-2px)] rotate-45 rounded-[2px] bg-foreground fill-foreground data-[side=bottom]:top-1 data-[side=inline-end]:top-1/2! data-[side=inline-end]:-left-1 data-[side=inline-end]:-translate-y-1/2 data-[side=inline-start]:top-1/2! data-[side=inline-start]:-right-1 data-[side=inline-start]:-translate-y-1/2 data-[side=left]:top-1/2! data-[side=left]:-right-1 data-[side=left]:-translate-y-1/2 data-[side=right]:top-1/2! data-[side=right]:-left-1 data-[side=right]:-translate-y-1/2 data-[side=top]:-bottom-2.5''] []
                    []])]]"

section \<open>Dialogs\<close>

definition Dialog :: "ui_env \<Rightarrow> 'e ui_prop list \<Rightarrow> 'e ui list \<Rightarrow> 'e ui" where
  "Dialog E ps ns =
     jsx ''DialogPrimitive.Root''
        [pstr ''data-slot'' ''dialog'']
        ps []
        ns"

definition DialogTrigger :: "ui_env \<Rightarrow> 'e ui_prop list \<Rightarrow> 'e ui list \<Rightarrow> 'e ui" where
  "DialogTrigger E ps ns =
     jsx ''DialogPrimitive.Trigger''
        [pstr ''data-slot'' ''dialog-trigger'']
        ps []
        ns"

definition DialogPortal :: "ui_env \<Rightarrow> 'e ui_prop list \<Rightarrow> 'e ui list \<Rightarrow> 'e ui" where
  "DialogPortal E ps ns =
     jsx ''DialogPrimitive.Portal''
        [pstr ''data-slot'' ''dialog-portal'']
        ps []
        ns"

definition DialogClose :: "ui_env \<Rightarrow> 'e ui_prop list \<Rightarrow> 'e ui list \<Rightarrow> 'e ui" where
  "DialogClose E ps ns =
     jsx ''DialogPrimitive.Close''
        [pstr ''data-slot'' ''dialog-close'']
        ps []
        ns"

definition DialogOverlay :: "ui_env \<Rightarrow> 'e ui_prop list \<Rightarrow> 'e ui list \<Rightarrow> 'e ui" where
  "DialogOverlay E ps ns =
     jsx ''DialogPrimitive.Backdrop''
        [pstr ''data-slot'' ''dialog-overlay'',
         pstr ''className'' (cn E [Some ''fixed inset-0 isolate z-50 bg-black/10 duration-100 supports-backdrop-filter:backdrop-blur-xs data-open:animate-in data-open:fade-in-0 data-closed:animate-out data-closed:fade-out-0'', class_of ps])]
        (rest [''className''] ps) []
        ns"

definition DialogContent :: "ui_env \<Rightarrow> 'e ui_prop list \<Rightarrow> 'e ui list \<Rightarrow> 'e ui" where
  "DialogContent E ps ns =
     DialogPortal E ([])
       (([DialogOverlay E ([])
           ([])]
        @ [jsx ''DialogPrimitive.Popup''
            [pstr ''data-slot'' ''dialog-content'',
             pstr ''className'' (cn E [Some ''fixed top-1/2 left-1/2 z-50 grid w-full max-w-[calc(100%-2rem)] -translate-x-1/2 -translate-y-1/2 gap-4 rounded-xl bg-background p-4 text-sm ring-1 ring-foreground/10 duration-100 outline-none sm:max-w-sm data-open:animate-in data-open:fade-in-0 data-open:zoom-in-95 data-closed:animate-out data-closed:fade-out-0 data-closed:zoom-out-95'', class_of ps])]
            (rest [''className'', ''showCloseButton''] ps) []
            (ns
            @ (if prop_true (prop_or ''showCloseButton'' (pflag ''showCloseButton'' True) ps) then [UElem ''DialogPrimitive.Close''
                [pstr ''data-slot'' ''dialog-close''] [(''render'', Button E ([pstr ''variant'' ''ghost'',
                     pstr ''className'' ''absolute top-2 right-2'',
                     pstr ''size'' ''icon-sm''])
                   ([]))]
                ([UElem ''XIcon''
                    [] []
                    []]
                @ [UElem ''span''
                    [pstr ''className'' ''sr-only''] []
                    [UTxt ''Close'']])] else []))]))"

definition DialogHeader :: "ui_env \<Rightarrow> 'e ui_prop list \<Rightarrow> 'e ui list \<Rightarrow> 'e ui" where
  "DialogHeader E ps ns =
     jsx ''div''
        [pstr ''data-slot'' ''dialog-header'',
         pstr ''className'' (cn E [Some ''flex flex-col gap-2'', class_of ps])]
        (rest [''className''] ps) []
        ns"

definition DialogFooter :: "ui_env \<Rightarrow> 'e ui_prop list \<Rightarrow> 'e ui list \<Rightarrow> 'e ui" where
  "DialogFooter E ps ns =
     jsx ''div''
        [pstr ''data-slot'' ''dialog-footer'',
         pstr ''className'' (cn E [Some ''-mx-4 -mb-4 flex flex-col-reverse gap-2 rounded-b-xl border-t bg-muted/50 p-4 sm:flex-row sm:justify-end'', class_of ps])]
        (rest [''className'', ''showCloseButton''] ps) []
        (ns
        @ (if prop_true (prop_or ''showCloseButton'' (pflag ''showCloseButton'' False) ps) then [UElem ''DialogPrimitive.Close''
            [] [(''render'', Button E ([pstr ''variant'' ''outline''])
               ([]))]
            [UTxt ''Close'']] else []))"

definition DialogTitle :: "ui_env \<Rightarrow> 'e ui_prop list \<Rightarrow> 'e ui list \<Rightarrow> 'e ui" where
  "DialogTitle E ps ns =
     jsx ''DialogPrimitive.Title''
        [pstr ''data-slot'' ''dialog-title'',
         pstr ''className'' (cn E [Some ''text-base leading-none font-medium'', class_of ps])]
        (rest [''className''] ps) []
        ns"

definition DialogDescription :: "ui_env \<Rightarrow> 'e ui_prop list \<Rightarrow> 'e ui list \<Rightarrow> 'e ui" where
  "DialogDescription E ps ns =
     jsx ''DialogPrimitive.Description''
        [pstr ''data-slot'' ''dialog-description'',
         pstr ''className'' (cn E [Some ''text-sm text-muted-foreground *:[a]:underline *:[a]:underline-offset-3 *:[a]:hover:text-foreground'', class_of ps])]
        (rest [''className''] ps) []
        ns"

section \<open>Alert dialogs\<close>

definition AlertDialog :: "ui_env \<Rightarrow> 'e ui_prop list \<Rightarrow> 'e ui list \<Rightarrow> 'e ui" where
  "AlertDialog E ps ns =
     jsx ''AlertDialogPrimitive.Root''
        [pstr ''data-slot'' ''alert-dialog'']
        ps []
        ns"

definition AlertDialogTrigger :: "ui_env \<Rightarrow> 'e ui_prop list \<Rightarrow> 'e ui list \<Rightarrow> 'e ui" where
  "AlertDialogTrigger E ps ns =
     jsx ''AlertDialogPrimitive.Trigger''
        [pstr ''data-slot'' ''alert-dialog-trigger'']
        ps []
        ns"

definition AlertDialogPortal :: "ui_env \<Rightarrow> 'e ui_prop list \<Rightarrow> 'e ui list \<Rightarrow> 'e ui" where
  "AlertDialogPortal E ps ns =
     jsx ''AlertDialogPrimitive.Portal''
        [pstr ''data-slot'' ''alert-dialog-portal'']
        ps []
        ns"

definition AlertDialogOverlay :: "ui_env \<Rightarrow> 'e ui_prop list \<Rightarrow> 'e ui list \<Rightarrow> 'e ui" where
  "AlertDialogOverlay E ps ns =
     jsx ''AlertDialogPrimitive.Backdrop''
        [pstr ''data-slot'' ''alert-dialog-overlay'',
         pstr ''className'' (cn E [Some ''fixed inset-0 isolate z-50 bg-black/10 duration-100 supports-backdrop-filter:backdrop-blur-xs data-open:animate-in data-open:fade-in-0 data-closed:animate-out data-closed:fade-out-0'', class_of ps])]
        (rest [''className''] ps) []
        ns"

definition AlertDialogContent :: "ui_env \<Rightarrow> 'e ui_prop list \<Rightarrow> 'e ui list \<Rightarrow> 'e ui" where
  "AlertDialogContent E ps ns =
     AlertDialogPortal E ([])
       (([AlertDialogOverlay E ([])
           ([])]
        @ [jsx ''AlertDialogPrimitive.Popup''
            [pstr ''data-slot'' ''alert-dialog-content'',
             rename ''data-size'' (prop_or ''size'' (pstr ''size'' ''default'') ps),
             pstr ''className'' (cn E [Some ''group/alert-dialog-content fixed top-1/2 left-1/2 z-50 grid w-full -translate-x-1/2 -translate-y-1/2 gap-4 rounded-xl bg-background p-4 ring-1 ring-foreground/10 duration-100 outline-none data-[size=default]:max-w-xs data-[size=sm]:max-w-xs data-[size=default]:sm:max-w-sm data-open:animate-in data-open:fade-in-0 data-open:zoom-in-95 data-closed:animate-out data-closed:fade-out-0 data-closed:zoom-out-95'', class_of ps])]
            (rest [''className'', ''size''] ps) []
            ns]))"

definition AlertDialogHeader :: "ui_env \<Rightarrow> 'e ui_prop list \<Rightarrow> 'e ui list \<Rightarrow> 'e ui" where
  "AlertDialogHeader E ps ns =
     jsx ''div''
        [pstr ''data-slot'' ''alert-dialog-header'',
         pstr ''className'' (cn E [Some ''grid grid-rows-[auto_1fr] place-items-center gap-1.5 text-center has-data-[slot=alert-dialog-media]:grid-rows-[auto_auto_1fr] has-data-[slot=alert-dialog-media]:gap-x-4 sm:group-data-[size=default]/alert-dialog-content:place-items-start sm:group-data-[size=default]/alert-dialog-content:text-left sm:group-data-[size=default]/alert-dialog-content:has-data-[slot=alert-dialog-media]:grid-rows-[auto_1fr]'', class_of ps])]
        (rest [''className''] ps) []
        ns"

definition AlertDialogFooter :: "ui_env \<Rightarrow> 'e ui_prop list \<Rightarrow> 'e ui list \<Rightarrow> 'e ui" where
  "AlertDialogFooter E ps ns =
     jsx ''div''
        [pstr ''data-slot'' ''alert-dialog-footer'',
         pstr ''className'' (cn E [Some ''-mx-4 -mb-4 flex flex-col-reverse gap-2 rounded-b-xl border-t bg-muted/50 p-4 group-data-[size=sm]/alert-dialog-content:grid group-data-[size=sm]/alert-dialog-content:grid-cols-2 sm:flex-row sm:justify-end'', class_of ps])]
        (rest [''className''] ps) []
        ns"

definition AlertDialogMedia :: "ui_env \<Rightarrow> 'e ui_prop list \<Rightarrow> 'e ui list \<Rightarrow> 'e ui" where
  "AlertDialogMedia E ps ns =
     jsx ''div''
        [pstr ''data-slot'' ''alert-dialog-media'',
         pstr ''className'' (cn E [Some ''mb-2 inline-flex size-10 items-center justify-center rounded-md bg-muted sm:group-data-[size=default]/alert-dialog-content:row-span-2 *:[svg:not([class*='size-'])]:size-6'', class_of ps])]
        (rest [''className''] ps) []
        ns"

definition AlertDialogTitle :: "ui_env \<Rightarrow> 'e ui_prop list \<Rightarrow> 'e ui list \<Rightarrow> 'e ui" where
  "AlertDialogTitle E ps ns =
     jsx ''AlertDialogPrimitive.Title''
        [pstr ''data-slot'' ''alert-dialog-title'',
         pstr ''className'' (cn E [Some ''text-base font-medium sm:group-data-[size=default]/alert-dialog-content:group-has-data-[slot=alert-dialog-media]/alert-dialog-content:col-start-2'', class_of ps])]
        (rest [''className''] ps) []
        ns"

definition AlertDialogDescription :: "ui_env \<Rightarrow> 'e ui_prop list \<Rightarrow> 'e ui list \<Rightarrow> 'e ui" where
  "AlertDialogDescription E ps ns =
     jsx ''AlertDialogPrimitive.Description''
        [pstr ''data-slot'' ''alert-dialog-description'',
         pstr ''className'' (cn E [Some ''text-sm text-balance text-muted-foreground md:text-pretty *:[a]:underline *:[a]:underline-offset-3 *:[a]:hover:text-foreground'', class_of ps])]
        (rest [''className''] ps) []
        ns"

definition AlertDialogAction :: "ui_env \<Rightarrow> 'e ui_prop list \<Rightarrow> 'e ui list \<Rightarrow> 'e ui" where
  "AlertDialogAction E ps ns =
     Button E (overlay [pstr ''data-slot'' ''alert-dialog-action'',
         pstr ''className'' (cn E [class_of ps])] (rest [''className''] ps))
       (ns)"

definition AlertDialogCancel :: "ui_env \<Rightarrow> 'e ui_prop list \<Rightarrow> 'e ui list \<Rightarrow> 'e ui" where
  "AlertDialogCancel E ps ns =
     jsx ''AlertDialogPrimitive.Close''
        [pstr ''data-slot'' ''alert-dialog-cancel'',
         pstr ''className'' (cn E [class_of ps])]
        (rest [''className'', ''variant'', ''size''] ps) [(''render'', Button E ([prop_or ''variant'' (pstr ''variant'' ''outline'') ps,
             prop_or ''size'' (pstr ''size'' ''default'') ps])
           ([]))]
        ns"

section \<open>Selects\<close>

definition Select :: "ui_env \<Rightarrow> 'e ui_prop list \<Rightarrow> 'e ui list \<Rightarrow> 'e ui" where
  "Select E ps ns = UElem ''SelectPrimitive.Root'' ps [] ns"

definition SelectScrollUpButton :: "ui_env \<Rightarrow> 'e ui_prop list \<Rightarrow> 'e ui list \<Rightarrow> 'e ui" where
  "SelectScrollUpButton E ps ns =
     jsx ''SelectPrimitive.ScrollUpArrow''
        [pstr ''data-slot'' ''select-scroll-up-button'',
         pstr ''className'' (cn E [Some ''top-0 z-10 flex w-full cursor-default items-center justify-center bg-popover py-1 [&_svg:not([class*='size-'])]:size-4'', class_of ps])]
        (rest [''className''] ps) []
        [UElem ''ChevronUpIcon''
            [] []
            []]"

definition SelectScrollDownButton :: "ui_env \<Rightarrow> 'e ui_prop list \<Rightarrow> 'e ui list \<Rightarrow> 'e ui" where
  "SelectScrollDownButton E ps ns =
     jsx ''SelectPrimitive.ScrollDownArrow''
        [pstr ''data-slot'' ''select-scroll-down-button'',
         pstr ''className'' (cn E [Some ''bottom-0 z-10 flex w-full cursor-default items-center justify-center bg-popover py-1 [&_svg:not([class*='size-'])]:size-4'', class_of ps])]
        (rest [''className''] ps) []
        [UElem ''ChevronDownIcon''
            [] []
            []]"

definition SelectGroup :: "ui_env \<Rightarrow> 'e ui_prop list \<Rightarrow> 'e ui list \<Rightarrow> 'e ui" where
  "SelectGroup E ps ns =
     jsx ''SelectPrimitive.Group''
        [pstr ''data-slot'' ''select-group'',
         pstr ''className'' (cn E [Some ''scroll-my-1 p-1'', class_of ps])]
        (rest [''className''] ps) []
        ns"

definition SelectValue :: "ui_env \<Rightarrow> 'e ui_prop list \<Rightarrow> 'e ui list \<Rightarrow> 'e ui" where
  "SelectValue E ps ns =
     jsx ''SelectPrimitive.Value''
        [pstr ''data-slot'' ''select-value'',
         pstr ''className'' (cn E [Some ''flex flex-1 text-left'', class_of ps])]
        (rest [''className''] ps) []
        ns"

definition SelectTrigger :: "ui_env \<Rightarrow> 'e ui_prop list \<Rightarrow> 'e ui list \<Rightarrow> 'e ui" where
  "SelectTrigger E ps ns =
     jsx ''SelectPrimitive.Trigger''
        [pstr ''data-slot'' ''select-trigger'',
         rename ''data-size'' (prop_or ''size'' (pstr ''size'' ''default'') ps),
         pstr ''className'' (cn E [Some ''flex w-fit items-center justify-between gap-1.5 rounded-lg border border-input bg-transparent py-2 pr-2 pl-2.5 text-sm whitespace-nowrap transition-colors outline-none select-none focus-visible:border-ring focus-visible:ring-3 focus-visible:ring-ring/50 disabled:cursor-not-allowed disabled:opacity-50 aria-invalid:border-destructive aria-invalid:ring-3 aria-invalid:ring-destructive/20 data-placeholder:text-muted-foreground data-[size=default]:h-8 data-[size=sm]:h-7 data-[size=sm]:rounded-[min(var(--radius-md),10px)] *:data-[slot=select-value]:line-clamp-1 *:data-[slot=select-value]:flex *:data-[slot=select-value]:items-center *:data-[slot=select-value]:gap-1.5 dark:bg-input/30 dark:hover:bg-input/50 dark:aria-invalid:border-destructive/50 dark:aria-invalid:ring-destructive/40 [&_svg]:pointer-events-none [&_svg]:shrink-0 [&_svg:not([class*='size-'])]:size-4'', class_of ps])]
        (rest [''className'', ''size''] ps) []
        (ns
        @ [UElem ''SelectPrimitive.Icon''
            [] [(''render'', UElem ''ChevronDownIcon''
                [pstr ''className'' ''pointer-events-none size-4 text-muted-foreground''] []
                [])]
            []])"

definition SelectContent :: "ui_env \<Rightarrow> 'e ui_prop list \<Rightarrow> 'e ui list \<Rightarrow> 'e ui" where
  "SelectContent E ps ns =
     UElem ''SelectPrimitive.Portal''
        [] []
        [UElem ''SelectPrimitive.Positioner''
            [prop_or ''side'' (pstr ''side'' ''bottom'') ps,
             prop_or ''sideOffset'' (pnum ''sideOffset'' 4) ps,
             prop_or ''align'' (pstr ''align'' ''center'') ps,
             prop_or ''alignOffset'' (pnum ''alignOffset'' 0) ps,
             prop_or ''alignItemWithTrigger'' (pflag ''alignItemWithTrigger'' True) ps,
             pstr ''className'' ''isolate z-50''] []
            [jsx ''SelectPrimitive.Popup''
                [pstr ''data-slot'' ''select-content'',
                 rename ''data-align-trigger'' (prop_or ''alignItemWithTrigger'' (pflag ''alignItemWithTrigger'' True) ps),
                 pstr ''className'' (cn E [Some ''relative isolate z-50 max-h-(--available-height) w-(--anchor-width) min-w-36 origin-(--transform-origin) overflow-x-hidden overflow-y-auto rounded-lg bg-popover text-popover-foreground shadow-md ring-1 ring-foreground/10 duration-100 data-[align-trigger=true]:animate-none data-[side=bottom]:slide-in-from-top-2 data-[side=inline-end]:slide-in-from-left-2 data-[side=inline-start]:slide-in-from-right-2 data-[side=left]:slide-in-from-right-2 data-[side=right]:slide-in-from-left-2 data-[side=top]:slide-in-from-bottom-2 data-open:animate-in data-open:fade-in-0 data-open:zoom-in-95 data-closed:animate-out data-closed:fade-out-0 data-closed:zoom-out-95'', class_of ps])]
                (rest [''className'', ''side'', ''sideOffset'', ''align'', ''alignOffset'', ''alignItemWithTrigger''] ps) []
                ([SelectScrollUpButton E ([])
                   ([])]
                @ [UElem ''SelectPrimitive.List''
                    [] []
                    ns]
                @ [SelectScrollDownButton E ([])
                   ([])])]]"

definition SelectLabel :: "ui_env \<Rightarrow> 'e ui_prop list \<Rightarrow> 'e ui list \<Rightarrow> 'e ui" where
  "SelectLabel E ps ns =
     jsx ''SelectPrimitive.GroupLabel''
        [pstr ''data-slot'' ''select-label'',
         pstr ''className'' (cn E [Some ''px-1.5 py-1 text-xs text-muted-foreground'', class_of ps])]
        (rest [''className''] ps) []
        ns"

definition SelectItem :: "ui_env \<Rightarrow> 'e ui_prop list \<Rightarrow> 'e ui list \<Rightarrow> 'e ui" where
  "SelectItem E ps ns =
     jsx ''SelectPrimitive.Item''
        [pstr ''data-slot'' ''select-item'',
         pstr ''className'' (cn E [Some ''relative flex w-full cursor-default items-center gap-1.5 rounded-md py-1 pr-8 pl-1.5 text-sm outline-hidden select-none focus:bg-accent focus:text-accent-foreground not-data-[variant=destructive]:focus:**:text-accent-foreground data-disabled:pointer-events-none data-disabled:opacity-50 [&_svg]:pointer-events-none [&_svg]:shrink-0 [&_svg:not([class*='size-'])]:size-4 *:[span]:last:flex *:[span]:last:items-center *:[span]:last:gap-2'', class_of ps])]
        (rest [''className''] ps) []
        ([UElem ''SelectPrimitive.ItemText''
            [pstr ''className'' ''flex flex-1 shrink-0 gap-2 whitespace-nowrap''] []
            ns]
        @ [UElem ''SelectPrimitive.ItemIndicator''
            [] [(''render'', UElem ''span''
                [pstr ''className'' ''pointer-events-none absolute right-2 flex size-4 items-center justify-center''] []
                [])]
            [UElem ''CheckIcon''
                [pstr ''className'' ''pointer-events-none''] []
                []]])"

definition SelectSeparator :: "ui_env \<Rightarrow> 'e ui_prop list \<Rightarrow> 'e ui list \<Rightarrow> 'e ui" where
  "SelectSeparator E ps ns =
     jsx ''SelectPrimitive.Separator''
        [pstr ''data-slot'' ''select-separator'',
         pstr ''className'' (cn E [Some ''pointer-events-none -mx-1 my-1 h-px bg-border'', class_of ps])]
        (rest [''className''] ps) []
        ns"

section \<open>Dropdown menus\<close>

definition DropdownMenu :: "ui_env \<Rightarrow> 'e ui_prop list \<Rightarrow> 'e ui list \<Rightarrow> 'e ui" where
  "DropdownMenu E ps ns =
     jsx ''MenuPrimitive.Root''
        [pstr ''data-slot'' ''dropdown-menu'']
        ps []
        ns"

definition DropdownMenuPortal :: "ui_env \<Rightarrow> 'e ui_prop list \<Rightarrow> 'e ui list \<Rightarrow> 'e ui" where
  "DropdownMenuPortal E ps ns =
     jsx ''MenuPrimitive.Portal''
        [pstr ''data-slot'' ''dropdown-menu-portal'']
        ps []
        ns"

definition DropdownMenuTrigger :: "ui_env \<Rightarrow> 'e ui_prop list \<Rightarrow> 'e ui list \<Rightarrow> 'e ui" where
  "DropdownMenuTrigger E ps ns =
     jsx ''MenuPrimitive.Trigger''
        [pstr ''data-slot'' ''dropdown-menu-trigger'']
        ps []
        ns"

definition DropdownMenuContent :: "ui_env \<Rightarrow> 'e ui_prop list \<Rightarrow> 'e ui list \<Rightarrow> 'e ui" where
  "DropdownMenuContent E ps ns =
     UElem ''MenuPrimitive.Portal''
        [] []
        [UElem ''MenuPrimitive.Positioner''
            [pstr ''className'' ''isolate z-50 outline-none'',
             prop_or ''align'' (pstr ''align'' ''start'') ps,
             prop_or ''alignOffset'' (pnum ''alignOffset'' 0) ps,
             prop_or ''side'' (pstr ''side'' ''bottom'') ps,
             prop_or ''sideOffset'' (pnum ''sideOffset'' 4) ps] []
            [jsx ''MenuPrimitive.Popup''
                [pstr ''data-slot'' ''dropdown-menu-content'',
                 pstr ''className'' (cn E [Some ''z-50 max-h-(--available-height) w-(--anchor-width) min-w-32 origin-(--transform-origin) overflow-x-hidden overflow-y-auto rounded-lg bg-popover p-1 text-popover-foreground shadow-md ring-1 ring-foreground/10 duration-100 outline-none data-[side=bottom]:slide-in-from-top-2 data-[side=inline-end]:slide-in-from-left-2 data-[side=inline-start]:slide-in-from-right-2 data-[side=left]:slide-in-from-right-2 data-[side=right]:slide-in-from-left-2 data-[side=top]:slide-in-from-bottom-2 data-open:animate-in data-open:fade-in-0 data-open:zoom-in-95 data-closed:animate-out data-closed:overflow-hidden data-closed:fade-out-0 data-closed:zoom-out-95'', class_of ps])]
                (rest [''align'', ''alignOffset'', ''side'', ''sideOffset'', ''className''] ps) []
                ns]]"

definition DropdownMenuGroup :: "ui_env \<Rightarrow> 'e ui_prop list \<Rightarrow> 'e ui list \<Rightarrow> 'e ui" where
  "DropdownMenuGroup E ps ns =
     jsx ''MenuPrimitive.Group''
        [pstr ''data-slot'' ''dropdown-menu-group'']
        ps []
        ns"

definition DropdownMenuLabel :: "ui_env \<Rightarrow> 'e ui_prop list \<Rightarrow> 'e ui list \<Rightarrow> 'e ui" where
  "DropdownMenuLabel E ps ns =
     jsx ''MenuPrimitive.GroupLabel''
        [pstr ''data-slot'' ''dropdown-menu-label'',
         rename ''data-inset'' (prop_or ''inset'' (Undef ''inset'') ps),
         pstr ''className'' (cn E [Some ''px-1.5 py-1 text-xs font-medium text-muted-foreground data-inset:pl-7'', class_of ps])]
        (rest [''className'', ''inset''] ps) []
        ns"

definition DropdownMenuItem :: "ui_env \<Rightarrow> 'e ui_prop list \<Rightarrow> 'e ui list \<Rightarrow> 'e ui" where
  "DropdownMenuItem E ps ns =
     jsx ''MenuPrimitive.Item''
        [pstr ''data-slot'' ''dropdown-menu-item'',
         rename ''data-inset'' (prop_or ''inset'' (Undef ''inset'') ps),
         rename ''data-variant'' (prop_or ''variant'' (pstr ''variant'' ''default'') ps),
         pstr ''className'' (cn E [Some ''group/dropdown-menu-item relative flex cursor-default items-center gap-1.5 rounded-md px-1.5 py-1 text-sm outline-hidden select-none focus:bg-accent focus:text-accent-foreground not-data-[variant=destructive]:focus:**:text-accent-foreground data-inset:pl-7 data-[variant=destructive]:text-destructive data-[variant=destructive]:focus:bg-destructive/10 data-[variant=destructive]:focus:text-destructive dark:data-[variant=destructive]:focus:bg-destructive/20 data-disabled:pointer-events-none data-disabled:opacity-50 [&_svg]:pointer-events-none [&_svg]:shrink-0 [&_svg:not([class*='size-'])]:size-4 data-[variant=destructive]:*:[svg]:text-destructive'', class_of ps])]
        (rest [''className'', ''inset'', ''variant''] ps) []
        ns"

definition DropdownMenuSub :: "ui_env \<Rightarrow> 'e ui_prop list \<Rightarrow> 'e ui list \<Rightarrow> 'e ui" where
  "DropdownMenuSub E ps ns =
     jsx ''MenuPrimitive.SubmenuRoot''
        [pstr ''data-slot'' ''dropdown-menu-sub'']
        ps []
        ns"

definition DropdownMenuSubTrigger :: "ui_env \<Rightarrow> 'e ui_prop list \<Rightarrow> 'e ui list \<Rightarrow> 'e ui" where
  "DropdownMenuSubTrigger E ps ns =
     jsx ''MenuPrimitive.SubmenuTrigger''
        [pstr ''data-slot'' ''dropdown-menu-sub-trigger'',
         rename ''data-inset'' (prop_or ''inset'' (Undef ''inset'') ps),
         pstr ''className'' (cn E [Some ''flex cursor-default items-center gap-1.5 rounded-md px-1.5 py-1 text-sm outline-hidden select-none focus:bg-accent focus:text-accent-foreground not-data-[variant=destructive]:focus:**:text-accent-foreground data-inset:pl-7 data-popup-open:bg-accent data-popup-open:text-accent-foreground data-open:bg-accent data-open:text-accent-foreground [&_svg]:pointer-events-none [&_svg]:shrink-0 [&_svg:not([class*='size-'])]:size-4'', class_of ps])]
        (rest [''className'', ''inset''] ps) []
        (ns
        @ [UElem ''ChevronRightIcon''
            [pstr ''className'' ''ml-auto''] []
            []])"

definition DropdownMenuSubContent :: "ui_env \<Rightarrow> 'e ui_prop list \<Rightarrow> 'e ui list \<Rightarrow> 'e ui" where
  "DropdownMenuSubContent E ps ns =
     DropdownMenuContent E (overlay [pstr ''data-slot'' ''dropdown-menu-sub-content'',
         pstr ''className'' (cn E [Some ''w-auto min-w-[96px] rounded-lg bg-popover p-1 text-popover-foreground shadow-lg ring-1 ring-foreground/10 duration-100 data-[side=bottom]:slide-in-from-top-2 data-[side=left]:slide-in-from-right-2 data-[side=right]:slide-in-from-left-2 data-[side=top]:slide-in-from-bottom-2 data-open:animate-in data-open:fade-in-0 data-open:zoom-in-95 data-closed:animate-out data-closed:fade-out-0 data-closed:zoom-out-95'', class_of ps]),
         prop_or ''align'' (pstr ''align'' ''start'') ps,
         prop_or ''alignOffset'' (pnum ''alignOffset'' (-3)) ps,
         prop_or ''side'' (pstr ''side'' ''right'') ps,
         prop_or ''sideOffset'' (pnum ''sideOffset'' 0) ps] (rest [''align'', ''alignOffset'', ''side'', ''sideOffset'', ''className''] ps))
       (ns)"

definition DropdownMenuCheckboxItem :: "ui_env \<Rightarrow> 'e ui_prop list \<Rightarrow> 'e ui list \<Rightarrow> 'e ui" where
  "DropdownMenuCheckboxItem E ps ns =
     jsx ''MenuPrimitive.CheckboxItem''
        [pstr ''data-slot'' ''dropdown-menu-checkbox-item'',
         rename ''data-inset'' (prop_or ''inset'' (Undef ''inset'') ps),
         pstr ''className'' (cn E [Some ''relative flex cursor-default items-center gap-1.5 rounded-md py-1 pr-8 pl-1.5 text-sm outline-hidden select-none focus:bg-accent focus:text-accent-foreground focus:**:text-accent-foreground data-inset:pl-7 data-disabled:pointer-events-none data-disabled:opacity-50 [&_svg]:pointer-events-none [&_svg]:shrink-0 [&_svg:not([class*='size-'])]:size-4'', class_of ps]),
         prop_or ''checked'' (Undef ''checked'') ps]
        (rest [''className'', ''checked'', ''inset''] ps) []
        ([UElem ''span''
            [pstr ''className'' ''pointer-events-none absolute right-2 flex items-center justify-center'',
             pstr ''data-slot'' ''dropdown-menu-checkbox-item-indicator''] []
            [UElem ''MenuPrimitive.CheckboxItemIndicator''
                [] []
                [UElem ''CheckIcon''
                    [] []
                    []]]]
        @ ns)"

definition DropdownMenuRadioGroup :: "ui_env \<Rightarrow> 'e ui_prop list \<Rightarrow> 'e ui list \<Rightarrow> 'e ui" where
  "DropdownMenuRadioGroup E ps ns =
     jsx ''MenuPrimitive.RadioGroup''
        [pstr ''data-slot'' ''dropdown-menu-radio-group'']
        ps []
        ns"

definition DropdownMenuRadioItem :: "ui_env \<Rightarrow> 'e ui_prop list \<Rightarrow> 'e ui list \<Rightarrow> 'e ui" where
  "DropdownMenuRadioItem E ps ns =
     jsx ''MenuPrimitive.RadioItem''
        [pstr ''data-slot'' ''dropdown-menu-radio-item'',
         rename ''data-inset'' (prop_or ''inset'' (Undef ''inset'') ps),
         pstr ''className'' (cn E [Some ''relative flex cursor-default items-center gap-1.5 rounded-md py-1 pr-8 pl-1.5 text-sm outline-hidden select-none focus:bg-accent focus:text-accent-foreground focus:**:text-accent-foreground data-inset:pl-7 data-disabled:pointer-events-none data-disabled:opacity-50 [&_svg]:pointer-events-none [&_svg]:shrink-0 [&_svg:not([class*='size-'])]:size-4'', class_of ps])]
        (rest [''className'', ''inset''] ps) []
        ([UElem ''span''
            [pstr ''className'' ''pointer-events-none absolute right-2 flex items-center justify-center'',
             pstr ''data-slot'' ''dropdown-menu-radio-item-indicator''] []
            [UElem ''MenuPrimitive.RadioItemIndicator''
                [] []
                [UElem ''CheckIcon''
                    [] []
                    []]]]
        @ ns)"

definition DropdownMenuSeparator :: "ui_env \<Rightarrow> 'e ui_prop list \<Rightarrow> 'e ui list \<Rightarrow> 'e ui" where
  "DropdownMenuSeparator E ps ns =
     jsx ''MenuPrimitive.Separator''
        [pstr ''data-slot'' ''dropdown-menu-separator'',
         pstr ''className'' (cn E [Some ''-mx-1 my-1 h-px bg-border'', class_of ps])]
        (rest [''className''] ps) []
        ns"

definition DropdownMenuShortcut :: "ui_env \<Rightarrow> 'e ui_prop list \<Rightarrow> 'e ui list \<Rightarrow> 'e ui" where
  "DropdownMenuShortcut E ps ns =
     jsx ''span''
        [pstr ''data-slot'' ''dropdown-menu-shortcut'',
         pstr ''className'' (cn E [Some ''ml-auto text-xs tracking-widest text-muted-foreground group-focus/dropdown-menu-item:text-accent-foreground'', class_of ps])]
        (rest [''className''] ps) []
        ns"

section \<open>Toasts\<close>

text \<open>
  \<open>useTheme()\<close> is the argument \<open>theme\<close>, \<open>None\<close> when it is undefined. The object properties \<open>icons\<close>,
  \<open>style\<close> and \<open>toastOptions\<close> are written as one property per leaf, and like them they are replaced by
  a property of the caller.
\<close>

definition Toaster :: "string option \<Rightarrow> 'e ui_prop list \<Rightarrow> (string \<times> 'e ui) list \<Rightarrow> 'e ui" where
  "Toaster theme ps icons =
     jsx ''Sonner''
       [pstr ''theme'' (nullish theme ''system''),
        pstr ''className'' ''toaster group'',
        pstr ''style.--normal-bg'' ''var(--popover)'',
        pstr ''style.--normal-text'' ''var(--popover-foreground)'',
        pstr ''style.--normal-border'' ''var(--border)'',
        pstr ''style.--border-radius'' ''var(--radius)'',
        pstr ''toastOptions.classNames.toast'' ''cn-toast'']
       ps
       (if icons \<noteq> [] then icons
        else [(''icons.success'', UElem ''CircleCheckIcon'' [pstr ''className'' ''size-4''] [] []),
              (''icons.info'', UElem ''InfoIcon'' [pstr ''className'' ''size-4''] [] []),
              (''icons.warning'', UElem ''TriangleAlertIcon'' [pstr ''className'' ''size-4''] [] []),
              (''icons.error'', UElem ''OctagonXIcon'' [pstr ''className'' ''size-4''] [] []),
              (''icons.loading'', UElem ''Loader2Icon'' [pstr ''className'' ''size-4 animate-spin''] [] [])])
       []"

section \<open>The wrapper a page tag stands for\<close>

definition ui_kit :: "ui_env \<Rightarrow> (string \<times> ('e ui_prop list \<Rightarrow> 'e ui list \<Rightarrow> 'e ui)) list" where
  "ui_kit E =
     [(''Button'', Button E),
      (''Badge'', Badge E []),
      (''Label'', Label E),
      (''Input'', Input E),
      (''Skeleton'', Skeleton E),
      (''Separator'', Separator E),
      (''Card'', Card E),
      (''CardHeader'', CardHeader E),
      (''CardTitle'', CardTitle E),
      (''CardDescription'', CardDescription E),
      (''CardAction'', CardAction E),
      (''CardContent'', CardContent E),
      (''CardFooter'', CardFooter E),
      (''Table'', Table E),
      (''TableHeader'', TableHeader E),
      (''TableBody'', TableBody E),
      (''TableFooter'', TableFooter E),
      (''TableRow'', TableRow E),
      (''TableHead'', TableHead E),
      (''TableCell'', TableCell E),
      (''TableCaption'', TableCaption E),
      (''Tabs'', Tabs E),
      (''TabsList'', TabsList E),
      (''TabsTrigger'', TabsTrigger E),
      (''TabsContent'', TabsContent E),
      (''Switch'', Switch E),
      (''TooltipProvider'', TooltipProvider E),
      (''Tooltip'', Tooltip E),
      (''TooltipTrigger'', TooltipTrigger E),
      (''TooltipContent'', TooltipContent E),
      (''Dialog'', Dialog E),
      (''DialogTrigger'', DialogTrigger E),
      (''DialogPortal'', DialogPortal E),
      (''DialogClose'', DialogClose E),
      (''DialogOverlay'', DialogOverlay E),
      (''DialogContent'', DialogContent E),
      (''DialogHeader'', DialogHeader E),
      (''DialogFooter'', DialogFooter E),
      (''DialogTitle'', DialogTitle E),
      (''DialogDescription'', DialogDescription E),
      (''AlertDialog'', AlertDialog E),
      (''AlertDialogTrigger'', AlertDialogTrigger E),
      (''AlertDialogPortal'', AlertDialogPortal E),
      (''AlertDialogOverlay'', AlertDialogOverlay E),
      (''AlertDialogContent'', AlertDialogContent E),
      (''AlertDialogHeader'', AlertDialogHeader E),
      (''AlertDialogFooter'', AlertDialogFooter E),
      (''AlertDialogMedia'', AlertDialogMedia E),
      (''AlertDialogTitle'', AlertDialogTitle E),
      (''AlertDialogDescription'', AlertDialogDescription E),
      (''AlertDialogAction'', AlertDialogAction E),
      (''AlertDialogCancel'', AlertDialogCancel E),
      (''Select'', Select E),
      (''SelectScrollUpButton'', SelectScrollUpButton E),
      (''SelectScrollDownButton'', SelectScrollDownButton E),
      (''SelectGroup'', SelectGroup E),
      (''SelectValue'', SelectValue E),
      (''SelectTrigger'', SelectTrigger E),
      (''SelectContent'', SelectContent E),
      (''SelectLabel'', SelectLabel E),
      (''SelectItem'', SelectItem E),
      (''SelectSeparator'', SelectSeparator E),
      (''DropdownMenu'', DropdownMenu E),
      (''DropdownMenuPortal'', DropdownMenuPortal E),
      (''DropdownMenuTrigger'', DropdownMenuTrigger E),
      (''DropdownMenuContent'', DropdownMenuContent E),
      (''DropdownMenuGroup'', DropdownMenuGroup E),
      (''DropdownMenuLabel'', DropdownMenuLabel E),
      (''DropdownMenuItem'', DropdownMenuItem E),
      (''DropdownMenuSub'', DropdownMenuSub E),
      (''DropdownMenuSubTrigger'', DropdownMenuSubTrigger E),
      (''DropdownMenuSubContent'', DropdownMenuSubContent E),
      (''DropdownMenuCheckboxItem'', DropdownMenuCheckboxItem E),
      (''DropdownMenuRadioGroup'', DropdownMenuRadioGroup E),
      (''DropdownMenuRadioItem'', DropdownMenuRadioItem E),
      (''DropdownMenuSeparator'', DropdownMenuSeparator E),
      (''DropdownMenuShortcut'', DropdownMenuShortcut E)]"

definition draw :: "ui_env \<Rightarrow> string \<Rightarrow> 'e ui_prop list \<Rightarrow> 'e ui list \<Rightarrow> 'e ui" where
  "draw E t ps ns = (case map_of (ui_kit E) t of None \<Rightarrow> UElem t ps [] ns | Some W \<Rightarrow> W ps ns)"

primrec render :: "ui_env \<Rightarrow> 'e node \<Rightarrow> 'e ui" where
  "render E (Txt s) = UTxt s"
| "render E (Elem t as ns) = draw E t (map Attr as) (map (render E) ns)"


end
