(* ===== verification/Ui_Kit_Events.thy ===== *)
theory Ui_Kit_Events
  imports Ui_Kit "HOL-Library.Sublist"
begin

text \<open>
  What a user can do on a tree of primitives, and the proof that the wrappers of \<open>Ui_Kit\<close> keep it.
  The reading of the primitives is the documented behaviour of \<open>@base-ui/react\<close>: a dialog root that
  is not open shows none of its content, a select offers the values of its items, a disabled control
  dispatches nothing; the close button of an open dialog reports \<open>open = false\<close>, which is one of the
  two values its root reports anyway. \<open>ui_fires\<close> is therefore \<open>Ui.fires\<close> with the primitives' tags
  in place of the wrappers', on the properties that reach the primitive.
\<close>

section \<open>Events of a tree of primitives\<close>

fun prop_fires :: "string set \<Rightarrow> 'e ui_prop \<Rightarrow> 'e set" where
  "prop_fires V (Attr (On n e)) = {e}"
| "prop_fires V (Attr (On_text n f)) = range f"
| "prop_fires V (Attr (On_select n f)) = insert (f None) ((\<lambda>v. f (Some v)) ` V)"
| "prop_fires V (Attr (On_flag n f)) = range f"
| "prop_fires V _ = {}"

fun prop_holds :: "('e attr \<Rightarrow> bool) \<Rightarrow> 'e ui_prop \<Rightarrow> bool" where
  "prop_holds P (Attr a) = P a"
| "prop_holds P (Undef n) = False"

definition prop_flag :: "string \<Rightarrow> 'e ui_prop list \<Rightarrow> bool" where
  "prop_flag n ps = list_ex (prop_holds (flag_is n)) ps"

definition prop_is :: "string \<Rightarrow> string \<Rightarrow> 'e ui_prop list \<Rightarrow> bool" where
  "prop_is n v ps = list_ex (prop_holds (str_attr_is n v)) ps"

fun prop_values :: "'e ui_prop \<Rightarrow> string list" where
  "prop_values (Attr a) = attr_values a"
| "prop_values (Undef n) = []"

primrec ui_values :: "'e ui \<Rightarrow> string set" where
  "ui_values (UTxt s) = {}"
| "ui_values (UElem t ps nds ns) =
     (if t = ''SelectPrimitive.Item'' then \<Union> (set (map (set \<circ> prop_values) ps)) else {})
     \<union> \<Union> (set (map ui_values ns))"

primrec ui_blocks :: "'e ui \<Rightarrow> bool" where
  "ui_blocks (UTxt s) = False"
| "ui_blocks (UElem t ps nds ns) =
     (prop_flag ''required'' ps \<and> prop_is ''value'' [] ps
      \<or> prop_flag ''disabled'' ps \<and> prop_is ''type'' ''submit'' ps
      \<or> list_ex id (map ui_blocks ns))"

primrec ui_fires :: "'e ui \<Rightarrow> 'e set" where
  "ui_fires (UTxt s) = {}"
| "ui_fires (UElem t ps nds ns) =
     (if t \<in> {''DialogPrimitive.Root'', ''AlertDialogPrimitive.Root''} \<and> \<not> prop_flag ''open'' ps then {}
      else (if prop_flag ''disabled'' ps \<or> t = ''form'' \<and> list_ex ui_blocks ns then {}
            else \<Union> (set (map (prop_fires (\<Union> (set (map ui_values ns)))) ps)))
           \<union> \<Union> (set (map ui_fires ns)))"

primrec ui_texts :: "'e ui \<Rightarrow> string list" where
  "ui_texts (UTxt s) = [s]"
| "ui_texts (UElem t ps nds ns) = concat (map ui_texts ns)"

section \<open>Properties that no wrapper touches\<close>

text \<open>
  \<open>quiet\<close>: a property the semantics above does not read. \<open>plain_name\<close>: a name under which only quiet
  properties occur, when handlers are named \<open>on...\<close>.
\<close>

fun quiet :: "'e ui_prop \<Rightarrow> bool" where
  "quiet (Attr (A_str n v)) = (n \<notin> {''value'', ''type''})"
| "quiet (Attr (A_num n v)) = True"
| "quiet (Attr (A_flag n v)) = (n \<notin> {''open'', ''disabled'', ''required''})"
| "quiet (Undef n) = True"
| "quiet _ = False"

definition plain_name :: "string \<Rightarrow> bool" where
  "plain_name n = (take 2 n \<noteq> ''on'' \<and> n \<notin> {''value'', ''type'', ''open'', ''disabled'', ''required''})"

fun handler_named :: "'e attr \<Rightarrow> bool" where
  "handler_named (A_str n v) = True"
| "handler_named (A_num n v) = True"
| "handler_named (A_flag n v) = True"
| "handler_named a = (take 2 (attr_name a) = ''on'')"

fun prop_named :: "'e ui_prop \<Rightarrow> bool" where
  "prop_named (Attr a) = handler_named a"
| "prop_named (Undef n) = True"

abbreviation "named \<equiv> list_all prop_named"

lemma quiet_reads:
  assumes "quiet p"
  shows "prop_fires V p = {}" "set (prop_values p) = {}"
    "n \<in> {''open'', ''disabled'', ''required''} \<Longrightarrow> \<not> prop_holds (flag_is n) p"
    "n \<in> {''value'', ''type''} \<Longrightarrow> \<not> prop_holds (str_attr_is n v) p"
  using assms by (cases p rule: quiet.cases; auto)+

lemma plain_quiet:
  "prop_named p \<Longrightarrow> plain_name (prop_name p) \<Longrightarrow> quiet p"
  by (cases p rule: quiet.cases) (auto simp: plain_name_def)

lemma quiet_rename:
  "quiet p \<Longrightarrow> plain_name m \<Longrightarrow> quiet (rename m p)"
  by (cases p rule: quiet.cases) (auto simp: plain_name_def)

lemma prop_or_cases:
  "prop_or n d ps = d \<or> (prop_or n d ps \<in> set ps \<and> prop_name (prop_or n d ps) = n)"
proof (cases "find (\<lambda>p. prop_name p = n) ps")
  case (Some p)
  then have "p \<in> set ps" "prop_name p = n" by (auto simp: find_Some_iff)
  with Some show ?thesis by (cases p) (auto simp: prop_or_def)
qed (simp add: prop_or_def)

lemma quiet_prop_or:
  assumes ok: "named ps" and n: "plain_name n" and d: "quiet d"
  shows "quiet (prop_or n d ps)"
  using prop_or_cases [of n d ps]
proof
  assume "prop_or n d ps \<in> set ps \<and> prop_name (prop_or n d ps) = n"
  with ok n show ?thesis by (intro plain_quiet) (auto simp: list_all_iff)
qed (simp add: d)

lemma named_prop_or: "named ps \<Longrightarrow> prop_named d \<Longrightarrow> prop_named (prop_or n d ps)"
  using prop_or_cases [of n d ps] by (auto simp: list_all_iff)

lemma named_overlay: "named ds \<Longrightarrow> named ps \<Longrightarrow> named (overlay ds ps)"
  by (auto simp: overlay_def list_all_iff)

lemma named_rest: "named ps \<Longrightarrow> named (rest ns ps)"
  by (auto simp: rest_def list_all_iff)

section \<open>Property lists that the semantics cannot tell apart\<close>

definition loud :: "'e ui_prop list \<Rightarrow> 'e ui_prop set" where
  "loud ps = {p \<in> set ps. \<not> quiet p}"

lemma loud_reads:
  "(\<Union>p \<in> set ps. prop_fires V p) = (\<Union>p \<in> loud ps. prop_fires V p)"
  "(\<Union>p \<in> set ps. set (prop_values p)) = (\<Union>p \<in> loud ps. set (prop_values p))"
  "n \<in> {''open'', ''disabled'', ''required''} \<Longrightarrow> prop_flag n ps \<longleftrightarrow> (\<exists>p \<in> loud ps. prop_holds (flag_is n) p)"
  "n \<in> {''value'', ''type''} \<Longrightarrow> prop_is n v ps \<longleftrightarrow> (\<exists>p \<in> loud ps. prop_holds (str_attr_is n v) p)"
  using quiet_reads(1) [of _ V] quiet_reads(2) quiet_reads(3) [of _ n] quiet_reads(4) [of _ n v]
  by (fastforce simp: loud_def prop_flag_def prop_is_def list_ex_iff)+

lemma list_ex_id_map: "list_ex id (map f xs) = list_ex f xs"
  by (simp add: list_ex_iff)

text \<open>The semantics of an element, from its loud properties only.\<close>

lemma ui_elem:
  "ui_values (UElem t ps nds ns) =
     (if t = ''SelectPrimitive.Item'' then \<Union>p \<in> loud ps. set (prop_values p) else {})
     \<union> (\<Union>u \<in> set ns. ui_values u)"
  "ui_blocks (UElem t ps nds ns) =
     ((\<exists>p \<in> loud ps. prop_holds (flag_is ''required'') p) \<and> (\<exists>p \<in> loud ps. prop_holds (str_attr_is ''value'' []) p)
      \<or> (\<exists>p \<in> loud ps. prop_holds (flag_is ''disabled'') p) \<and> (\<exists>p \<in> loud ps. prop_holds (str_attr_is ''type'' ''submit'') p)
      \<or> list_ex ui_blocks ns)"
  "ui_fires (UElem t ps nds ns) =
     (if t \<in> {''DialogPrimitive.Root'', ''AlertDialogPrimitive.Root''}
         \<and> \<not> (\<exists>p \<in> loud ps. prop_holds (flag_is ''open'') p) then {}
      else (if (\<exists>p \<in> loud ps. prop_holds (flag_is ''disabled'') p) \<or> t = ''form'' \<and> list_ex ui_blocks ns then {}
            else \<Union>p \<in> loud ps. prop_fires (\<Union>u \<in> set ns. ui_values u) p)
           \<union> (\<Union>u \<in> set ns. ui_fires u))"
  by (simp_all add: loud_reads list_ex_id_map)

declare ui_values.simps(2) [simp del] ui_blocks.simps(2) [simp del] ui_fires.simps(2) [simp del]

lemma loud_overlay:
  "list_all quiet ds \<Longrightarrow> loud (overlay ds ps) = loud ps"
  by (auto simp: loud_def overlay_def list_all_iff)

lemma loud_rest:
  "named ps \<Longrightarrow> list_all plain_name ns \<Longrightarrow> loud (rest ns ps) = loud ps"
  using plain_quiet by (auto simp: loud_def rest_def list_all_iff)

lemma loud_quiet: "list_all quiet ds \<Longrightarrow> loud ds = {}"
  by (auto simp: loud_def list_all_iff)

lemma loud_append: "loud (ps @ qs) = loud ps \<union> loud qs"
  by (auto simp: loud_def)

section \<open>Trees that the user cannot tell apart\<close>

definition special :: "string \<Rightarrow> string" where
  "special t =
     (if t \<in> {''DialogPrimitive.Root'', ''AlertDialogPrimitive.Root''} then ''dialog''
      else if t \<in> {''SelectPrimitive.Item'', ''form''} then t else ''plain'')"

definition looks :: "'e ui \<Rightarrow> 'e ui \<Rightarrow> bool" where
  "looks u v \<longleftrightarrow> ui_fires u = ui_fires v \<and> ui_values u = ui_values v
     \<and> ui_blocks u = ui_blocks v \<and> subseq (ui_texts v) (ui_texts u)"

definition looks_all :: "'e ui list \<Rightarrow> 'e ui list \<Rightarrow> bool" where
  "looks_all us vs \<longleftrightarrow> \<Union> (set (map ui_fires us)) = \<Union> (set (map ui_fires vs))
     \<and> \<Union> (set (map ui_values us)) = \<Union> (set (map ui_values vs))
     \<and> list_ex ui_blocks us = list_ex ui_blocks vs
     \<and> subseq (concat (map ui_texts vs)) (concat (map ui_texts us))"

definition inert :: "'e ui \<Rightarrow> bool" where
  "inert u \<longleftrightarrow> ui_fires u = {} \<and> ui_values u = {} \<and> \<not> ui_blocks u"

lemma looks_refl [simp]: "looks u u" "looks_all us us"
  by (simp_all add: looks_def looks_all_def)

lemma inert_all:
  assumes "list_all inert us"
  shows "(\<Union>u \<in> set us. ui_fires u) = {}" "(\<Union>u \<in> set us. ui_values u) = {}" "\<not> list_ex ui_blocks us"
  using assms by (auto simp: inert_def list_all_iff list_ex_iff)

lemma subseq_around: "subseq ys (xs @ ys @ zs)"
  by (metis list_emb_append2 list_emb_prefix subseq_order.refl)

lemma looks_all_around:
  assumes "list_all inert us" "list_all inert ws"
  shows "looks_all (us @ vs @ ws) vs"
  using inert_all [OF assms(1)] inert_all [OF assms(2)]
  by (simp add: looks_all_def image_Un Union_Un_distrib subseq_around)

lemma looks_all_one: "looks u v \<Longrightarrow> looks_all [u] [v]"
  by (simp add: looks_def looks_all_def)

lemma looks_all_sets:
  assumes "looks_all us vs"
  shows "(\<Union>u \<in> set us. ui_fires u) = (\<Union>u \<in> set vs. ui_fires u)"
    "(\<Union>u \<in> set us. ui_values u) = (\<Union>u \<in> set vs. ui_values u)"
    "list_ex ui_blocks us = list_ex ui_blocks vs"
  using assms by (simp_all add: looks_all_def)

lemma looks_elem:
  assumes t: "special t = special t'" and ps: "loud ps = loud qs" and us: "looks_all us vs"
  shows "looks (UElem t ps nds us) (UElem t' qs nds' vs)"
proof -
  have "subseq (concat (map ui_texts vs)) (concat (map ui_texts us))"
    using us by (simp add: looks_all_def)
  moreover have "t \<in> {''DialogPrimitive.Root'', ''AlertDialogPrimitive.Root''} \<longleftrightarrow>
      t' \<in> {''DialogPrimitive.Root'', ''AlertDialogPrimitive.Root''}"
    "t = ''SelectPrimitive.Item'' \<longleftrightarrow> t' = ''SelectPrimitive.Item''" "t = ''form'' \<longleftrightarrow> t' = ''form''"
    using t by (auto simp: special_def split: if_splits)
  ultimately show ?thesis
    unfolding looks_def ui_elem looks_all_sets [OF us] ps by simp
qed

lemma looks_around:
  assumes t: "special t = ''plain''" and ps: "list_all quiet ps"
    and us: "list_all inert us" and ws: "list_all inert ws" and u: "looks u v"
  shows "looks (UElem t ps nds (us @ u # ws)) v"
proof -
  note around = looks_all_around [OF us ws, of "[u]", simplified]
  have "subseq (ui_texts u) (ui_texts (UElem t ps nds (us @ u # ws)))"
    using around by (simp add: looks_all_def)
  moreover have "t \<notin> {''DialogPrimitive.Root'', ''AlertDialogPrimitive.Root'', ''SelectPrimitive.Item'', ''form''}"
    using t by (auto simp: special_def split: if_splits)
  ultimately show ?thesis
    using u subseq_order.trans
    unfolding looks_def ui_elem looks_all_sets [OF around] loud_quiet [OF ps] by auto
qed

lemma inert_elem:
  assumes "special t \<in> {''plain'', ''SelectPrimitive.Item''}" "list_all quiet ps" "list_all inert us"
  shows "inert (UElem t ps nds us)"
  unfolding inert_def ui_elem loud_quiet [OF assms(2)] inert_all(1,2) [OF assms(3)]
  using inert_all(3) [OF assms(3)] by simp

lemma inert_txt [simp]: "inert (UTxt s)"
  by (simp add: inert_def)

section \<open>Each wrapper\<close>

text \<open>
  A wrapper cannot be told from its page tag with the same properties and children; \<open>primitive\<close> is
  the tag under which the semantics knows it.
\<close>

definition primitive :: "string \<Rightarrow> string" where
  "primitive t =
     (if t = ''Dialog'' then ''DialogPrimitive.Root''
      else if t = ''AlertDialog'' then ''AlertDialogPrimitive.Root''
      else if t = ''SelectItem'' then ''SelectPrimitive.Item'' else t)"

lemma looks_jsx:
  assumes "special t = special t'" "list_all quiet ds" "looks_all us ns"
  shows "looks (jsx t ds ps nds us) (UElem t' ps nds' ns)"
    "named ps \<Longrightarrow> list_all plain_name N \<Longrightarrow> looks (jsx t ds (rest N ps) nds us) (UElem t' ps nds' ns)"
  using assms by (auto simp: jsx_def loud_overlay loud_rest intro!: looks_elem)

lemmas looks_eval = looks_jsx primitive_def special_def plain_name_def quiet_prop_or quiet_rename

lemma looks_simple:
  assumes "named ps"
  shows
    "looks (Button E ps ns) (UElem (primitive ''Button'') ps [] ns)"
    "looks (Label E ps ns) (UElem (primitive ''Label'') ps [] ns)"
    "looks (Skeleton E ps ns) (UElem (primitive ''Skeleton'') ps [] ns)"
    "looks (Separator E ps ns) (UElem (primitive ''Separator'') ps [] ns)"
    "looks (Card E ps ns) (UElem (primitive ''Card'') ps [] ns)"
    "looks (CardHeader E ps ns) (UElem (primitive ''CardHeader'') ps [] ns)"
    "looks (CardTitle E ps ns) (UElem (primitive ''CardTitle'') ps [] ns)"
    "looks (CardDescription E ps ns) (UElem (primitive ''CardDescription'') ps [] ns)"
    "looks (CardAction E ps ns) (UElem (primitive ''CardAction'') ps [] ns)"
    "looks (CardContent E ps ns) (UElem (primitive ''CardContent'') ps [] ns)"
    "looks (CardFooter E ps ns) (UElem (primitive ''CardFooter'') ps [] ns)"
    "looks (TableHeader E ps ns) (UElem (primitive ''TableHeader'') ps [] ns)"
    "looks (TableBody E ps ns) (UElem (primitive ''TableBody'') ps [] ns)"
    "looks (TableFooter E ps ns) (UElem (primitive ''TableFooter'') ps [] ns)"
    "looks (TableRow E ps ns) (UElem (primitive ''TableRow'') ps [] ns)"
    "looks (TableHead E ps ns) (UElem (primitive ''TableHead'') ps [] ns)"
    "looks (TableCell E ps ns) (UElem (primitive ''TableCell'') ps [] ns)"
    "looks (TableCaption E ps ns) (UElem (primitive ''TableCaption'') ps [] ns)"
    "looks (Tabs E ps ns) (UElem (primitive ''Tabs'') ps [] ns)"
    "looks (TabsList E ps ns) (UElem (primitive ''TabsList'') ps [] ns)"
    "looks (TabsTrigger E ps ns) (UElem (primitive ''TabsTrigger'') ps [] ns)"
    "looks (TabsContent E ps ns) (UElem (primitive ''TabsContent'') ps [] ns)"
    "looks (TooltipProvider E ps ns) (UElem (primitive ''TooltipProvider'') ps [] ns)"
    "looks (Tooltip E ps ns) (UElem (primitive ''Tooltip'') ps [] ns)"
    "looks (TooltipTrigger E ps ns) (UElem (primitive ''TooltipTrigger'') ps [] ns)"
    "looks (Dialog E ps ns) (UElem (primitive ''Dialog'') ps [] ns)"
    "looks (DialogTrigger E ps ns) (UElem (primitive ''DialogTrigger'') ps [] ns)"
    "looks (DialogPortal E ps ns) (UElem (primitive ''DialogPortal'') ps [] ns)"
    "looks (DialogClose E ps ns) (UElem (primitive ''DialogClose'') ps [] ns)"
    "looks (DialogOverlay E ps ns) (UElem (primitive ''DialogOverlay'') ps [] ns)"
    "looks (DialogHeader E ps ns) (UElem (primitive ''DialogHeader'') ps [] ns)"
    "looks (DialogTitle E ps ns) (UElem (primitive ''DialogTitle'') ps [] ns)"
    "looks (DialogDescription E ps ns) (UElem (primitive ''DialogDescription'') ps [] ns)"
    "looks (AlertDialog E ps ns) (UElem (primitive ''AlertDialog'') ps [] ns)"
    "looks (AlertDialogTrigger E ps ns) (UElem (primitive ''AlertDialogTrigger'') ps [] ns)"
    "looks (AlertDialogPortal E ps ns) (UElem (primitive ''AlertDialogPortal'') ps [] ns)"
    "looks (AlertDialogOverlay E ps ns) (UElem (primitive ''AlertDialogOverlay'') ps [] ns)"
    "looks (AlertDialogHeader E ps ns) (UElem (primitive ''AlertDialogHeader'') ps [] ns)"
    "looks (AlertDialogFooter E ps ns) (UElem (primitive ''AlertDialogFooter'') ps [] ns)"
    "looks (AlertDialogMedia E ps ns) (UElem (primitive ''AlertDialogMedia'') ps [] ns)"
    "looks (AlertDialogTitle E ps ns) (UElem (primitive ''AlertDialogTitle'') ps [] ns)"
    "looks (AlertDialogDescription E ps ns) (UElem (primitive ''AlertDialogDescription'') ps [] ns)"
    "looks (SelectGroup E ps ns) (UElem (primitive ''SelectGroup'') ps [] ns)"
    "looks (SelectValue E ps ns) (UElem (primitive ''SelectValue'') ps [] ns)"
    "looks (SelectLabel E ps ns) (UElem (primitive ''SelectLabel'') ps [] ns)"
    "looks (SelectSeparator E ps ns) (UElem (primitive ''SelectSeparator'') ps [] ns)"
    "looks (DropdownMenu E ps ns) (UElem (primitive ''DropdownMenu'') ps [] ns)"
    "looks (DropdownMenuPortal E ps ns) (UElem (primitive ''DropdownMenuPortal'') ps [] ns)"
    "looks (DropdownMenuTrigger E ps ns) (UElem (primitive ''DropdownMenuTrigger'') ps [] ns)"
    "looks (DropdownMenuGroup E ps ns) (UElem (primitive ''DropdownMenuGroup'') ps [] ns)"
    "looks (DropdownMenuLabel E ps ns) (UElem (primitive ''DropdownMenuLabel'') ps [] ns)"
    "looks (DropdownMenuItem E ps ns) (UElem (primitive ''DropdownMenuItem'') ps [] ns)"
    "looks (DropdownMenuSub E ps ns) (UElem (primitive ''DropdownMenuSub'') ps [] ns)"
    "looks (DropdownMenuRadioGroup E ps ns) (UElem (primitive ''DropdownMenuRadioGroup'') ps [] ns)"
    "looks (DropdownMenuSeparator E ps ns) (UElem (primitive ''DropdownMenuSeparator'') ps [] ns)"
    "looks (DropdownMenuShortcut E ps ns) (UElem (primitive ''DropdownMenuShortcut'') ps [] ns)"
  using assms
  by (simp_all add: looks_eval Button_def Label_def Skeleton_def Separator_def Card_def
      CardHeader_def CardTitle_def CardDescription_def CardAction_def CardContent_def
      CardFooter_def TableHeader_def TableBody_def TableFooter_def TableRow_def
      TableHead_def TableCell_def TableCaption_def Tabs_def TabsList_def
      TabsTrigger_def TabsContent_def TooltipProvider_def Tooltip_def TooltipTrigger_def
      Dialog_def DialogTrigger_def DialogPortal_def DialogClose_def DialogOverlay_def
      DialogHeader_def DialogTitle_def DialogDescription_def AlertDialog_def AlertDialogTrigger_def
      AlertDialogPortal_def AlertDialogOverlay_def AlertDialogHeader_def AlertDialogFooter_def AlertDialogMedia_def
      AlertDialogTitle_def AlertDialogDescription_def SelectGroup_def SelectValue_def SelectLabel_def
      SelectSeparator_def DropdownMenu_def DropdownMenuPortal_def DropdownMenuTrigger_def DropdownMenuGroup_def
      DropdownMenuLabel_def DropdownMenuItem_def DropdownMenuSub_def DropdownMenuRadioGroup_def DropdownMenuSeparator_def
      DropdownMenuShortcut_def)

section \<open>Wrappers that add elements\<close>

lemma looks_trans: "looks u v \<Longrightarrow> looks v w \<Longrightarrow> looks u w"
  by (auto simp: looks_def intro: subseq_order.trans)

lemma inert_looks: "looks u v \<Longrightarrow> inert v \<Longrightarrow> inert u"
  by (simp add: looks_def inert_def)

lemmas inert_simps = inert_elem special_def plain_name_def quiet_prop_or quiet_rename

lemma looks_all_before: "list_all inert us \<Longrightarrow> looks_all (us @ vs) vs"
  using looks_all_around [of us "[]" vs] by simp

lemma looks_all_after: "list_all inert ws \<Longrightarrow> looks_all (vs @ ws) vs"
  using looks_all_around [of "[]" ws vs] by simp

lemma looks_all_inert: "list_all inert us \<Longrightarrow> looks_all us []"
  using looks_all_before [of us "[]"] by simp

lemma loud_Cons: "quiet p \<Longrightarrow> loud (p # ps) = loud ps"
  by (auto simp: loud_def)

lemma looks_all_layout:
  assumes t: "special t = ''plain''" and ps: "list_all quiet ps"
    and us: "list_all inert us" and ws: "list_all inert ws"
  shows "looks_all (us @ UElem t ps nds ns # ws) ns"
proof -
  have t': "t \<notin> {''DialogPrimitive.Root'', ''AlertDialogPrimitive.Root'', ''SelectPrimitive.Item'', ''form''}"
    using t by (auto simp: special_def split: if_splits)
  note around = looks_all_around [OF us ws, of "[UElem t ps nds ns]", simplified]
  have "looks_all [UElem t ps nds ns] ns"
    using t' by (auto simp: looks_all_def ui_elem loud_quiet [OF ps])
  with around show ?thesis
    by (auto simp: looks_all_def intro: subseq_order.trans)
qed

lemma looks_layout:
  assumes "special t = ''plain''" "list_all quiet ps" "looks u v"
  shows "looks (UElem t ps nds [u]) v"
  using looks_around [of t ps "[]" "[]" u v nds] assms by simp

lemma looks_second:
  assumes "special t = ''plain''" "list_all quiet ps" "inert w" "looks u v"
  shows "looks (UElem t ps nds [w, u]) v"
  using looks_around [of t ps "[w]" "[]" u v nds] assms by simp

lemma inert_close:
  "inert (UElem ''DialogPrimitive.Close'' [pstr ''data-slot'' v] nds [UElem ''XIcon'' [] [] [], UElem ''span'' [pstr ''className'' c] [] [UTxt s]])"
  "inert (UElem ''DialogPrimitive.Close'' [] nds [UTxt s])"
  by (simp_all add: inert_simps)

lemma inert_overlay: "inert (DialogOverlay E [] [])" "inert (AlertDialogOverlay E [] [])"
    "inert (SelectScrollUpButton E [] [])" "inert (SelectScrollDownButton E [] [])"
  by (simp_all add: DialogOverlay_def AlertDialogOverlay_def SelectScrollUpButton_def
      SelectScrollDownButton_def jsx_def overlay_def rest_def inert_simps)

lemma looks_Table: "named ps \<Longrightarrow> looks (Table E ps ns) (UElem (primitive ''Table'') ps [] ns)"
  unfolding Table_def by (rule looks_layout) (simp_all add: looks_eval)

lemma looks_TooltipContent:
  "named ps \<Longrightarrow> looks (TooltipContent E ps ns) (UElem (primitive ''TooltipContent'') ps [] ns)"
  unfolding TooltipContent_def
  by (intro looks_layout looks_jsx looks_all_after) (simp_all add: looks_eval inert_simps)

lemma looks_DropdownMenuContent:
  "named ps \<Longrightarrow> looks (DropdownMenuContent E ps ns) (UElem (primitive ''DropdownMenuContent'') ps [] ns)"
  unfolding DropdownMenuContent_def
  by (intro looks_layout looks_jsx) (simp_all add: looks_eval inert_simps)

lemma looks_portal:
  "looks (DialogPortal E [] us) (UElem ''DialogPortal'' [] [] us)"
  "looks (AlertDialogPortal E [] us) (UElem ''AlertDialogPortal'' [] [] us)"
  by (simp_all add: DialogPortal_def AlertDialogPortal_def looks_eval)

lemma looks_DialogContent:
  assumes "named ps"
  shows "looks (DialogContent E ps ns) (UElem (primitive ''DialogContent'') ps [] ns)"
  unfolding DialogContent_def append.simps
  using assms
  by (intro looks_trans [OF looks_portal(1)] looks_second looks_jsx looks_all_after)
    (simp_all add: looks_eval inert_close inert_overlay)

lemma looks_DialogFooter:
  assumes "named ps"
  shows "looks (DialogFooter E ps ns) (UElem (primitive ''DialogFooter'') ps [] ns)"
  unfolding DialogFooter_def
  using assms by (intro looks_jsx looks_all_after) (simp_all add: looks_eval inert_close)

lemma looks_AlertDialogContent:
  assumes "named ps"
  shows "looks (AlertDialogContent E ps ns) (UElem (primitive ''AlertDialogContent'') ps [] ns)"
  unfolding AlertDialogContent_def append.simps
  using assms
  by (intro looks_trans [OF looks_portal(2)] looks_second looks_jsx)
    (simp_all add: looks_eval inert_overlay)

lemma looks_over:
  assumes "\<And>qs. named qs \<Longrightarrow> looks (W qs ns) (UElem (primitive t) qs [] ns)"
    and "named ps" "named ds" "list_all quiet ds" "list_all plain_name N" "special (primitive t) = special t'"
  shows "looks (W (overlay ds (rest N ps)) ns) (UElem t' ps nds ns)"
proof -
  have "looks (W (overlay ds (rest N ps)) ns) (UElem (primitive t) (overlay ds (rest N ps)) [] ns)"
    using assms by (simp add: named_overlay named_rest)
  moreover have "looks (UElem (primitive t) (overlay ds (rest N ps)) [] ns) (UElem t' ps nds ns)"
    using assms by (simp add: looks_elem loud_overlay loud_rest)
  ultimately show ?thesis by (rule looks_trans)
qed

lemma looks_AlertDialogAction:
  "named ps \<Longrightarrow> looks (AlertDialogAction E ps ns) (UElem (primitive ''AlertDialogAction'') ps [] ns)"
  unfolding AlertDialogAction_def
  by (rule looks_over [where W = "Button E", OF looks_simple(1)]) (simp_all add: looks_eval)

lemma looks_DropdownMenuSubContent:
  "named ps \<Longrightarrow> looks (DropdownMenuSubContent E ps ns) (UElem (primitive ''DropdownMenuSubContent'') ps [] ns)"
  unfolding DropdownMenuSubContent_def
  by (rule looks_over [where W = "DropdownMenuContent E", OF looks_DropdownMenuContent])
    (simp_all add: looks_eval named_prop_or)

lemma looks_AlertDialogCancel:
  "named ps \<Longrightarrow> looks (AlertDialogCancel E ps ns) (UElem (primitive ''AlertDialogCancel'') ps [] ns)"
  unfolding AlertDialogCancel_def by (simp add: looks_eval)

lemma looks_SelectTrigger:
  "named ps \<Longrightarrow> looks (SelectTrigger E ps ns) (UElem (primitive ''SelectTrigger'') ps [] ns)"
  unfolding SelectTrigger_def
  by (intro looks_jsx looks_all_after) (simp_all add: looks_eval inert_simps)

lemma looks_DropdownMenuSubTrigger:
  "named ps \<Longrightarrow> looks (DropdownMenuSubTrigger E ps ns) (UElem (primitive ''DropdownMenuSubTrigger'') ps [] ns)"
  unfolding DropdownMenuSubTrigger_def
  by (intro looks_jsx looks_all_after) (simp_all add: looks_eval inert_simps)

lemma looks_SelectContent:
  "named ps \<Longrightarrow> looks (SelectContent E ps ns) (UElem (primitive ''SelectContent'') ps [] ns)"
  unfolding SelectContent_def append_Cons append_Nil
  by (intro looks_layout looks_jsx
      looks_all_layout [of _ _ "[SelectScrollUpButton E [] []]" "[SelectScrollDownButton E [] []]", simplified])
    (simp_all add: looks_eval inert_overlay)

lemma looks_SelectItem:
  "named ps \<Longrightarrow> looks (SelectItem E ps ns) (UElem (primitive ''SelectItem'') ps [] ns)"
  unfolding SelectItem_def append_Cons append_Nil
  by (intro looks_jsx looks_all_layout [of _ _ "[]", simplified])
    (simp_all add: looks_eval inert_simps)

lemma looks_menu_items:
  "named ps \<Longrightarrow> looks (DropdownMenuCheckboxItem E ps ns) (UElem (primitive ''DropdownMenuCheckboxItem'') ps [] ns)"
  "named ps \<Longrightarrow> looks (DropdownMenuRadioItem E ps ns) (UElem (primitive ''DropdownMenuRadioItem'') ps [] ns)"
  unfolding DropdownMenuCheckboxItem_def DropdownMenuRadioItem_def
  by (intro looks_jsx looks_all_before; simp add: looks_eval inert_simps)+

text \<open>These three pass their own children and drop the caller's: no page gives them any.\<close>

lemma looks_childless:
  "named ps \<Longrightarrow> looks (Switch E ps []) (UElem (primitive ''Switch'') ps [] [])"
  "named ps \<Longrightarrow> looks (SelectScrollUpButton E ps []) (UElem (primitive ''SelectScrollUpButton'') ps [] [])"
  "named ps \<Longrightarrow> looks (SelectScrollDownButton E ps []) (UElem (primitive ''SelectScrollDownButton'') ps [] [])"
  unfolding Switch_def SelectScrollUpButton_def SelectScrollDownButton_def
  by (intro looks_jsx looks_all_inert; simp add: looks_eval inert_simps)+

lemma looks_Badge:
  assumes "named ps"
  shows "looks (Badge E [] ps ns) (UElem (primitive ''Badge'') ps [] ns)"
  unfolding Badge_def
  using assms by (intro looks_elem) (simp_all add: looks_eval loud_append loud_Cons loud_rest loud_quiet)

lemma looks_Select: "looks (Select E ps ns) (UElem (primitive ''Select'') ps [] ns)"
  unfolding Select_def by (intro looks_elem) (simp_all add: looks_eval)

text \<open>\<open>Input\<close> takes \<open>type\<close> out and sets it again, so its properties must have distinct names.\<close>

lemma prop_or_distinct:
  assumes "distinct (map prop_name ps)" "p \<in> set ps" "prop_name p = n" "\<not> quiet p"
  shows "prop_or n d ps = p"
proof -
  have "find (\<lambda>p. prop_name p = n) ps = Some p"
    using assms(1-3)
    by (induction ps) (auto simp: image_iff)
  with assms(4) show ?thesis by (cases p) (auto simp: prop_or_def)
qed

lemma loud_reset:
  assumes named: "named ps" and dist: "distinct (map prop_name ps)"
    and N: "list_all plain_name N" and ds: "list_all quiet ds"
  shows "loud (overlay (prop_or n (Undef n) ps # ds) (rest (N @ [n]) ps)) = loud ps"
proof -
  let ?t = "prop_or n (Undef n) ps" and ?R = "rest (N @ [n]) ps"
  have name: "prop_name ?t = n" using prop_or_cases [of n "Undef n" ps] by auto
  then have kept: "prop_name ?t \<notin> prop_name ` set ?R" by (auto simp: rest_def)
  have t: "quiet ?t \<or> ?t \<in> set ps" using prop_or_cases [of n "Undef n" ps] by auto
  have R: "p = ?t \<or> p \<in> set ?R" if "p \<in> set ps" "\<not> quiet p" for p
    using that named N plain_quiet prop_or_distinct [OF dist, of p n "Undef n"]
    by (auto simp: rest_def list_all_iff)
  have "loud (overlay (?t # ds) ?R) = loud (?t # ?R)"
    using ds kept by (auto simp: loud_def overlay_def list_all_iff)
  also have "\<dots> = loud ps"
    using t R by (auto simp: loud_def) (auto simp: rest_def)
  finally show ?thesis .
qed

lemma looks_Input:
  assumes "named ps" "distinct (map prop_name ps)"
  shows "looks (Input E ps ns) (UElem (primitive ''Input'') ps [] ns)"
  unfolding Input_def jsx_def
  using loud_reset [OF assms, of "[''className'']"]
  by (intro looks_elem) (simp_all add: looks_eval)

section \<open>Drawing a page\<close>

definition childless :: "string \<Rightarrow> bool" where
  "childless t \<longleftrightarrow> t \<in> {''Switch'', ''SelectScrollUpButton'', ''SelectScrollDownButton''}"

lemma looks_kit:
  assumes "named ps" "distinct (map prop_name ps)"
  shows "list_all (\<lambda>(t, W). (childless t \<longrightarrow> ns = []) \<longrightarrow> looks (W ps ns) (UElem (primitive t) ps [] ns)) (ui_kit E)"
  unfolding ui_kit_def list.pred_inject prod.case childless_def
  using assms
  by (intro conjI impI TrueI;
      simp add: looks_simple looks_Table looks_TooltipContent looks_DropdownMenuContent looks_DialogContent
        looks_DialogFooter looks_AlertDialogContent looks_AlertDialogAction looks_DropdownMenuSubContent
        looks_AlertDialogCancel looks_SelectTrigger looks_DropdownMenuSubTrigger looks_SelectContent
        looks_SelectItem looks_menu_items looks_childless looks_Badge looks_Select looks_Input)

lemma looks_draw:
  assumes "named ps" "distinct (map prop_name ps)" "childless t \<Longrightarrow> ns = []"
  shows "looks (draw E t ps ns) (UElem (primitive t) ps [] ns)"
proof (cases "map_of (ui_kit E :: (string \<times> ('a ui_prop list \<Rightarrow> 'a ui list \<Rightarrow> 'a ui)) list) t")
  case None
  then have "t \<noteq> ''Dialog''" "t \<noteq> ''AlertDialog''" "t \<noteq> ''SelectItem''"
    by (auto simp: ui_kit_def map_of_eq_None_iff)
  with None show ?thesis by (simp add: draw_def primitive_def)
next
  case (Some W)
  then have "(t, W) \<in> set (ui_kit E)" by (rule map_of_SomeD)
  with looks_kit [OF assms(1,2), of ns E] Some assms(3) show ?thesis
    by (auto simp: draw_def list_all_iff)
qed

text \<open>
  What the pages satisfy: handlers are named \<open>on...\<close>, no property is written twice, switches have no
  children, and a page does not use a primitive directly.
\<close>

primrec node_ok :: "'e node \<Rightarrow> bool" where
  "node_ok (Txt s) = True"
| "node_ok (Elem t as ns) =
     (distinct (map attr_name as) \<and> list_all handler_named as \<and> (childless t \<longrightarrow> ns = [])
      \<and> t \<notin> {''DialogPrimitive.Root'', ''AlertDialogPrimitive.Root'', ''SelectPrimitive.Item''}
      \<and> list_all id (map node_ok ns))"

lemma page_props:
  "prop_flag n (map Attr as) = has_flag n as"
  "prop_is n v (map Attr as) = list_ex (str_attr_is n v) as"
  "(\<Union>p \<in> set (map Attr as). set (prop_values p)) = set (concat (map attr_values as))"
  by (simp_all add: prop_flag_def has_flag_def prop_is_def list_ex_iff)

lemma page_prop_fires: "prop_fires (set vs) (Attr a) = attr_fires vs a"
  by (cases a) auto

lemma page_fires:
  assumes "set vs = V"
  shows "(\<Union>p \<in> set (map Attr as). prop_fires V p) = \<Union> (set (map (attr_fires vs) as))"
  unfolding assms [symmetric] by (simp add: page_prop_fires image_image del: prop_fires.simps)

lemma render_looks:
  assumes "node_ok t"
  shows "ui_fires (render E t) = fires t \<and> ui_values (render E t) = set (item_values t)
    \<and> ui_blocks (render E t) = blocks_submit t \<and> subseq (texts t) (ui_texts (render E t))"
  using assms
proof (induction t)
  case (Elem t as ns)
  let ?us = "map (render E) ns"
  have ok: "named (map Attr as)" "distinct (map prop_name (map Attr as))" "childless t \<Longrightarrow> ?us = []"
    "t \<notin> {''DialogPrimitive.Root'', ''AlertDialogPrimitive.Root'', ''SelectPrimitive.Item''}"
    and IH: "\<And>n. n \<in> set ns \<Longrightarrow> ui_fires (render E n) = fires n \<and> ui_values (render E n) = set (item_values n)
      \<and> ui_blocks (render E n) = blocks_submit n \<and> subseq (texts n) (ui_texts (render E n))"
    using Elem by (auto simp: list_all_iff comp_def)
  have vals: "\<Union> (set (map ui_values ?us)) = set (concat (map item_values ns))"
    using IH by auto
  have tags: "primitive t = ''SelectPrimitive.Item'' \<longleftrightarrow> t = ''SelectItem''"
    "primitive t \<in> {''DialogPrimitive.Root'', ''AlertDialogPrimitive.Root''} \<longleftrightarrow> t \<in> {''Dialog'', ''AlertDialog''}"
    "primitive t = ''form'' \<longleftrightarrow> t = ''form''"
    using ok(4) by (auto simp: primitive_def)
  have blocks: "list_ex ui_blocks ?us = list_ex blocks_submit ns"
    using IH by (simp add: list_ex_iff)
  have "subseq (concat (map texts ns)) (concat (map ui_texts ?us))"
    using IH by (induction ns) (auto intro: list_emb_append_mono)
  moreover have "looks (render E (Elem t as ns)) (UElem (primitive t) (map Attr as) [] ?us)"
    using looks_draw [OF ok(1-3)] by simp
  moreover have "ui_fires (UElem (primitive t) (map Attr as) [] ?us) = fires (Elem t as ns)"
    unfolding ui_fires.simps fires.simps tags page_props blocks list_ex_id_map
    using IH page_fires [OF vals [symmetric], of as] by (simp add: image_image)
  moreover have "ui_values (UElem (primitive t) (map Attr as) [] ?us) = set (item_values (Elem t as ns))"
    unfolding ui_values.simps tags vals using page_props(3) [of as] by (auto simp: comp_def)
  moreover have "ui_blocks (UElem (primitive t) (map Attr as) [] ?us) = blocks_submit (Elem t as ns)"
    unfolding ui_blocks.simps blocks_submit.simps page_props list_ex_id_map blocks ..
  moreover have "texts (Elem t as ns) = concat (map texts ns)" by simp
  ultimately show ?case
    unfolding looks_def by (auto intro: subseq_order.trans)
qed simp

end
