(* ===== verification/Ui_Kit_Pages.thy ===== *)
theory Ui_Kit_Pages
  imports Ui_Kit_Events Users_Page Mountpoints_Page Connections_Page Dashboard_Page Map_Page Auth
begin

text \<open>
  The pages drawn through the wrappers: every tree a page renders meets \<open>node_ok\<close>, so the facts about
  its events proved on the page's own tree hold on the primitives the wrappers hand to the browser.
\<close>

section \<open>The trees of the pages\<close>

definition nodes_ok :: "'e node list \<Rightarrow> bool" where
  "nodes_ok ns = list_all node_ok ns"

lemma nodes_ok_simps [simp]:
  "nodes_ok []" "nodes_ok (n # ns) \<longleftrightarrow> node_ok n \<and> nodes_ok ns"
  "nodes_ok (ms @ ns) \<longleftrightarrow> nodes_ok ms \<and> nodes_ok ns"
  by (auto simp: nodes_ok_def)

lemma nodes_ok_map: "nodes_ok (map f xs) \<longleftrightarrow> (\<forall>x \<in> set xs. node_ok (f x))"
  by (auto simp: nodes_ok_def list_all_iff)

lemma nodes_ok_replicate: "node_ok n \<Longrightarrow> nodes_ok (replicate k n)"
  by (auto simp: nodes_ok_def list_all_iff)

lemma node_ok_Elem:
  "node_ok (Elem t as ns) =
     (distinct (map attr_name as) \<and> list_all handler_named as \<and> (childless t \<longrightarrow> ns = [])
      \<and> t \<notin> {''DialogPrimitive.Root'', ''AlertDialogPrimitive.Root'', ''SelectPrimitive.Item''} \<and> nodes_ok ns)"
  by (simp add: nodes_ok_def list_all_iff)

declare node_ok.simps(2) [simp del] node_ok_Elem [simp]

lemma nodes_ok_if [simp]: "nodes_ok (if b then ms else ns) \<longleftrightarrow> (if b then nodes_ok ms else nodes_ok ns)"
  by simp

lemma pagination_ok: "nodes_ok (pagination page tot limit f)"
  by (simp add: pagination_def page_button_def Let_def nodes_ok_map childless_def)

lemma bindings_section_ok: "node_ok (bindings_section ev d s)"
  by (simp add: bindings_section_def section_list_def binding_row_def nodes_ok_map childless_def
      split: option.split)

lemma users_dialogs_ok:
  "node_ok (users_create_dialog d s)" "node_ok (users_edit_dialog d s)" "node_ok (users_delete_dialog s)"
  by (simp_all add: users_create_dialog_def users_edit_dialog_def users_delete_dialog_def role_items_def
      bindings_section_ok childless_def split: option.split)

lemma user_row_ok: "node_ok (user_row mps u)"
  by (simp add: user_row_def childless_def nodes_ok_map)

lemma users_view_ok: "node_ok (users_view d s)"
  by (simp add: users_view_def users_toolbar_def users_table_def users_pager_def users_dialogs_ok
      user_row_ok pagination_ok childless_def nodes_ok_map nodes_ok_replicate split: option.split)

lemma mounts_dialogs_ok:
  "node_ok (mounts_create_dialog d s)" "node_ok (mounts_edit_dialog d s)" "node_ok (mounts_delete_dialog s)"
  by (simp_all add: mounts_create_dialog_def mounts_edit_dialog_def mounts_delete_dialog_def format_items_def
      nodes_ok_map childless_def)

lemma mount_row_ok: "node_ok (mount_row mp)"
  by (simp add: mount_row_def childless_def)

lemma mounts_view_ok: "node_ok (mounts_view d s)"
  by (simp add: mounts_view_def mounts_toolbar_def mounts_table_def mounts_pager_def mounts_dialogs_ok
      mount_row_ok pagination_ok childless_def nodes_ok_map nodes_ok_replicate split: option.split)

lemma VirtualTable_ok: "VirtualTable vis tot xs t onKick = Inr n \<Longrightarrow> node_ok n"
  by (auto simp: VirtualTable_def Let_def virtual_row_def nodes_ok_map childless_def split: if_splits)

lemma connections_content_ok:
  assumes "connections_content d s = Inr ns"
  shows "nodes_ok ns"
proof -
  have bar: "node_ok (FilterBar a b c)" for a b c
    by (simp add: FilterBar_def nodes_ok_map childless_def)
  have "node_ok skeletons" by (simp add: skeletons_def nodes_ok_replicate childless_def)
  with assms bar show ?thesis
    by (auto simp: connections_content_def Let_def map_sum_def dest: VirtualTable_ok
        split: if_splits sum.splits)
qed

lemma connections_view_ok: "node_ok (connections_view d s)"
  using connections_content_ok [of d s]
  by (auto simp: connections_view_def kick_source_dialog_def kick_client_dialog_def childless_def
      split: sum.split)

lemma DashboardPage_ok: "node_ok (DashboardPage f stats l)"
  by (simp add: DashboardPage_def StatCard_def stats_row_def nodes_ok_map nodes_ok_replicate childless_def)

lemma MapPage_ok: "node_ok (MapPage d s)"
  by (simp add: MapPage_def display_card_def fixed_text_def childless_def split: option.split)

lemma login_view_ok: "node_ok (login_view s)"
  by (simp add: login_view_def childless_def)

lemma AppSidebar_ok: "node_ok (AppSidebar a)"
  by (simp add: AppSidebar_def navItems_def childless_def split: option.split json.split)

section \<open>Properties\<close>

text \<open>
  C24. Drawing a tree through the wrappers of \<open>components/ui\<close> changes nothing the user can do: the events
  of the primitives are those of the page's tree (every handler, \<open>disabled\<close>, \<open>open\<close>, \<open>required\<close>, \<open>type\<close>
  and item value arrives where it has its effect, in every wrapper), and every text of the page is shown,
  in the page's order.
\<close>

theorem wrappers_keep_events:
  assumes "node_ok t"
  shows "ui_fires (render E t) = fires t \<and> subseq (texts t) (ui_texts (render E t))"
  using render_looks [OF assms] by blast

definition sample_ui_env :: ui_env where
  "sample_ui_env =
     \<lparr>twMerge = id, clsx = (\<lambda>xs. concat (map (\<lambda>x. nullish x []) xs)), cva = (\<lambda>base _ _ _. base)\<rparr>"

definition sample_tree :: "bool node" where
  "sample_tree =
     Elem ''Dialog'' [A_flag ''open'' True, On_flag ''onOpenChange'' id]
       [Elem ''DialogContent'' [] [Elem ''Switch'' [A_flag ''disabled'' True, On_flag ''onCheckedChange'' id] []],
        Elem ''Button'' [On ''onClick'' True] [Txt ''ok'']]"

lemma wrappers_keep_events_witness:
  "ui_fires (render sample_ui_env sample_tree) = fires sample_tree
   \<and> subseq (texts sample_tree) (ui_texts (render sample_ui_env sample_tree))"
  by (rule wrappers_keep_events) (simp add: sample_tree_def childless_def)

text \<open>
  On the pages the administrator uses, drawn through the wrappers, the events of the primitives are
  those of the page's own tree, for all data and states (so a closed dialog, a disabled button or an
  incomplete login form dispatches nothing there either), and the dashboard and the map show all their texts.
\<close>

theorem pages_keep_events:
  "ui_fires (render E (users_view ud us)) = fires (users_view ud us)
   \<and> ui_fires (render E (mounts_view md ms)) = fires (mounts_view md ms)
   \<and> ui_fires (render E (connections_view cd cs)) = fires (connections_view cd cs)
   \<and> ui_fires (render E (login_view l)) = fires (login_view l)
   \<and> ui_fires (render E (AppSidebar a)) = fires (AppSidebar a)
   \<and> subseq (texts (DashboardPage f stats b :: unit node)) (ui_texts (render E (DashboardPage f stats b :: unit node)))
   \<and> subseq (texts (MapPage pd ps :: unit node)) (ui_texts (render E (MapPage pd ps :: unit node)))"
  by (simp add: render_looks users_view_ok mounts_view_ok connections_view_ok login_view_ok AppSidebar_ok
      DashboardPage_ok MapPage_ok)

end
