(* ===== verification/Shutdown.thy ===== *)
theory Shutdown
  imports Caster_Net
begin

text \<open>
  \<open>Server.Shutdown\<close> of \<open>internal/caster/server.go\<close>: the listener is closed, \<open>mgr.DisconnectAll\<close> goes over the
  mountpoints that were registered, and the call waits until the \<open>WaitGroup\<close> is down to zero or its context
  ends. The group counts the write loops of rovers (from the start of the loop to after \<open>Release\<close>) and the
  read loops of sources; a handler that has not got that far is not counted. A loop ends by itself only when
  its connection is closed: by the disconnection, or by the other side. Broadcasts of sources that have not
  noticed yet only fill or close queues and are left out.
\<close>

section \<open>The steps\<close>

record shutdown =
  sd_net :: net
  sd_sources :: "(string \<times> nat) list"
  sd_closed :: "string list"
  sd_todo :: "nat list"

abbreviation sd_obj :: "shutdown \<Rightarrow> nat \<Rightarrow> mount_point" where
  "sd_obj s k \<equiv> ca_obj (nt_caster (sd_net s)) k"

abbreviation sd_rover :: "shutdown \<Rightarrow> string \<Rightarrow> rover_conn" where
  "sd_rover s cid \<equiv> nt_conn (sd_net s) cid"

definition put_obj :: "nat \<Rightarrow> mount_point \<Rightarrow> shutdown \<Rightarrow> shutdown" where
  "put_obj k m s = s\<lparr>sd_net := (sd_net s)\<lparr>nt_caster := set_obj k m (nt_caster (sd_net s))\<rparr>\<rparr>"

datatype shutdown_event =
    Sd_disconnect
  | Sd_rover string int
  | Sd_source string
  | Sd_hangup string
  | Sd_source_lost string

text \<open>\<open>DisconnectAll\<close> of one mountpoint also stops the source, which closes its connection.\<close>

definition stop_source :: "mount_point \<Rightarrow> string list \<Rightarrow> string list" where
  "stop_source m ids = (case mp_source m of None \<Rightarrow> ids | Some src \<Rightarrow> so_ID src # ids)"

fun shutdown_step :: "caster_env \<Rightarrow> shutdown_event \<Rightarrow> shutdown \<Rightarrow> shutdown option" where
  "shutdown_step E Sd_disconnect s =
     (case sd_todo s of
        [] \<Rightarrow> None
      | k # ks \<Rightarrow>
          Some (put_obj k (mp_DisconnectAll (sd_obj s k))
            (s\<lparr>sd_closed := stop_source (sd_obj s k) (sd_closed s), sd_todo := ks\<rparr>)))"
| "shutdown_step E (Sd_rover cid now) s =
     (let r = sd_rover s cid in
      if rc_stage r = S_end \<or> rc_stage r = S_loop \<and> \<not> rv_done (mp_heap (sd_obj s (rc_mp r)) cid) then None
      else map_option (\<lambda>n. s\<lparr>sd_net := n\<rparr>) (net_step E (N_step cid now) (sd_net s)))"
| "shutdown_step E (Sd_source sid) s =
     (case map_of (sd_sources s) sid of
        None \<Rightarrow> None
      | Some k \<Rightarrow>
          if sid \<notin> set (sd_closed s) then None
          else Some (put_obj k (ClearSource sid (sd_obj s k))
                 (s\<lparr>sd_sources := filter (\<lambda>(i, k). i \<noteq> sid) (sd_sources s)\<rparr>)))"
| "shutdown_step E (Sd_hangup cid) s =
     (let r = sd_rover s cid in
      if cid \<in> set (nt_ids (sd_net s)) \<and> rc_stage r = S_loop
      then Some (put_obj (rc_mp r) (upd_client cid KickSlowConsumer (sd_obj s (rc_mp r))) s) else None)"
| "shutdown_step E (Sd_source_lost sid) s = Some (s\<lparr>sd_closed := sid # sd_closed s\<rparr>)"

inductive shutdown_run :: "caster_env \<Rightarrow> shutdown \<Rightarrow> shutdown_event list \<Rightarrow> shutdown \<Rightarrow> bool" for E where
  sd_done: "shutdown_run E s [] s"
| sd_more: "shutdown_step E e s = Some t \<Longrightarrow> shutdown_run E t es u \<Longrightarrow> shutdown_run E s (e # es) u"

inductive_cases shutdown_run_ConsE: "shutdown_run E s (e # es) u"

definition looping :: "rover_conn \<Rightarrow> bool" where
  "looping r \<longleftrightarrow> rc_stage r = S_loop"

definition releasing :: "rover_conn \<Rightarrow> bool" where
  "releasing r \<longleftrightarrow> rc_stage r = S_release"

text \<open>The \<open>WaitGroup\<close>, and when \<open>Shutdown\<close> returns without an error.\<close>

definition wg :: "shutdown \<Rightarrow> nat" where
  "wg s = how_many looping (sd_net s) + how_many releasing (sd_net s) + length (sd_sources s)"

definition shut_down :: "shutdown \<Rightarrow> bool" where
  "shut_down s \<longleftrightarrow> sd_todo s = [] \<and> wg s = 0"

text \<open>The caster's own steps, against those of the other sides.\<close>

fun own :: "shutdown_event \<Rightarrow> bool" where
  "own (Sd_hangup cid) = False"
| "own (Sd_source_lost sid) = False"
| "own _ = True"

definition shutdown_rank :: "shutdown \<Rightarrow> nat" where
  "shutdown_rank s = 2 * how_many looping (sd_net s) + how_many releasing (sd_net s) + length (sd_sources s) + length (sd_todo s)"

section \<open>An orderly shutdown\<close>

text \<open>
  No handler is on its way, every loop that runs belongs to a connection that is closed already or that
  is registered at a mountpoint still to be disconnected.
\<close>

definition rover_reached :: "shutdown \<Rightarrow> string \<Rightarrow> bool" where
  "rover_reached s cid \<longleftrightarrow>
     (let r = sd_rover s cid; m = sd_obj s (rc_mp r) in
      rv_done (mp_heap m cid) \<or> cid \<in> set (mp_clients m) \<and> rc_mp r \<in> set (sd_todo s))"

definition source_reached :: "shutdown \<Rightarrow> string \<Rightarrow> nat \<Rightarrow> bool" where
  "source_reached s sid k \<longleftrightarrow>
     sid \<in> set (sd_closed s) \<or> map_option so_ID (mp_source (sd_obj s k)) = Some sid \<and> k \<in> set (sd_todo s)"

definition in_order :: "shutdown \<Rightarrow> bool" where
  "in_order s \<longleftrightarrow> distinct (nt_ids (sd_net s)) \<and> distinct (map fst (sd_sources s))
     \<and> (\<forall>cid \<in> set (nt_ids (sd_net s)). rc_stage (sd_rover s cid) \<in> {S_loop, S_release, S_end}
          \<and> (rc_stage (sd_rover s cid) = S_loop \<longrightarrow> rc_id (sd_rover s cid) = cid \<and> rover_reached s cid))
     \<and> (\<forall>(sid, k) \<in> set (sd_sources s). source_reached s sid k)"

lemma put_obj_simps [simp]:
  "sd_obj (put_obj k m s) j = (if j = k then m else sd_obj s j)" "nt_ids (sd_net (put_obj k m s)) = nt_ids (sd_net s)"
  "sd_rover (put_obj k m s) cid = sd_rover s cid" "sd_sources (put_obj k m s) = sd_sources s"
  "sd_closed (put_obj k m s) = sd_closed s" "sd_todo (put_obj k m s) = sd_todo s"
  "how_many P (sd_net (put_obj k m s)) = how_many P (sd_net s)"
  by (simp_all add: put_obj_def set_obj_def how_many_def)

text \<open>What the operations on one mountpoint leave of a client: closed stays closed, registered is closed or stays.\<close>

definition still_reached :: "mount_point \<Rightarrow> mount_point \<Rightarrow> bool" where
  "still_reached m m' \<longleftrightarrow>
     (\<forall>i. (rv_done (mp_heap m i) \<longrightarrow> rv_done (mp_heap m' i)) \<and> (i \<in> set (mp_clients m) \<longrightarrow> rv_done (mp_heap m' i) \<or> i \<in> set (mp_clients m')))"

lemma disconnect_reached:
  "still_reached m (mp_DisconnectAll m)" "i \<in> set (mp_clients m) \<Longrightarrow> rv_done (mp_heap (mp_DisconnectAll m) i)"
  "still_reached m (ClearSource sid m)" "still_reached m (upd_client cid KickSlowConsumer m)"
  by (auto simp: still_reached_def mp_DisconnectAll_def ClearSource_def upd_client_def kick_all_def set_online_def
      KickSlowConsumer_def split: option.split)

lemma quietD:
  assumes "in_order s" "cid \<in> set (nt_ids (sd_net s))"
  shows "rc_stage (sd_rover s cid) \<in> {S_loop, S_release, S_end}"
    "rc_stage (sd_rover s cid) = S_loop \<Longrightarrow> rc_id (sd_rover s cid) = cid \<and> rover_reached s cid"
  using assms by (auto simp: in_order_def)

text \<open>Steps that change one object only in ways that keep everyone reached.\<close>

lemma in_order_put:
  assumes "in_order s" "still_reached (sd_obj s k) m"
    and "mp_source m = None \<longrightarrow> mp_source (sd_obj s k) = None" "mp_source m \<noteq> None \<longrightarrow> mp_source m = mp_source (sd_obj s k)"
  shows "in_order (put_obj k m s)"
proof -
  have "rover_reached (put_obj k m s) cid" if "rover_reached s cid" for cid
    using that assms(2) by (auto simp: rover_reached_def Let_def still_reached_def)
  moreover have "source_reached (put_obj k m s) sid j" if "source_reached s sid j" for sid j
    using that assms(3,4) by (auto simp: source_reached_def)
  ultimately show ?thesis using assms(1) unfolding in_order_def by fastforce
qed

lemma in_order_disconnect:
  assumes "in_order s" "sd_todo s = k # ks"
  shows "in_order (put_obj k (mp_DisconnectAll (sd_obj s k)) (s\<lparr>sd_closed := stop_source (sd_obj s k) (sd_closed s), sd_todo := ks\<rparr>))"
    (is "in_order ?t")
proof -
  have "rover_reached ?t cid" if "rover_reached s cid" for cid
    using that assms(2) disconnect_reached(1,2) [where m = "sd_obj s k"]
    by (auto simp: rover_reached_def Let_def still_reached_def)
  moreover have "source_reached ?t sid j" if "source_reached s sid j" for sid j
    using that assms(2) by (auto simp: source_reached_def stop_source_def split: option.splits)
  ultimately show ?thesis using assms(1) unfolding in_order_def by fastforce
qed

lemma source_gone: "mp_source (ClearSource sid m) = (if map_option so_ID (mp_source m) = Some sid then None else mp_source m)"
  by (auto simp: ClearSource_def kick_all_def set_online_def split: option.split)

lemma in_order_source:
  assumes "in_order s" "sid \<in> set (sd_closed s)"
  shows "in_order (put_obj k (ClearSource sid (sd_obj s k)) (s\<lparr>sd_sources := filter (\<lambda>(i, k). i \<noteq> sid) (sd_sources s)\<rparr>))"
    (is "in_order ?t")
proof -
  have "rover_reached ?t cid" if "rover_reached s cid" for cid
    using that disconnect_reached(3) [where m = "sd_obj s k" and sid = sid] by (auto simp: rover_reached_def Let_def still_reached_def)
  moreover have "source_reached ?t i j" if "source_reached s i j" "i \<noteq> sid" for i j
    using that by (auto simp: source_reached_def source_gone)
  moreover have "distinct (map fst (filter (\<lambda>(i, k). i \<noteq> sid) (sd_sources s)))"
    using assms(1) by (simp add: in_order_def distinct_map_filter)
  ultimately show ?thesis using assms(1) unfolding in_order_def by fastforce
qed

text \<open>A rover whose loop has ended: its own step to \<open>S_release\<close>, and then to the end.\<close>

lemma rover_ending:
  assumes "in_order s" "shutdown_step E (Sd_rover cid now) s = Some t"
  shows "in_order t \<and> shutdown_rank t < shutdown_rank s"
proof -
  let ?r = "sd_rover s cid" and ?c = "nt_caster (sd_net s)"
  from assms(2) have cid: "cid \<in> set (nt_ids (sd_net s))" and ne: "rc_stage ?r \<noteq> S_end"
    by (auto simp: Let_def split: if_splits)
  obtain r c where st: "rover_step E now ?r ?c = (r, c)" by fastforce
  with assms(2) cid ne have t: "t = s\<lparr>sd_net := (sd_net s)\<lparr>nt_caster := c, nt_conn := (nt_conn (sd_net s))(cid := r)\<rparr>\<rparr>"
    by (auto simp: Let_def split: if_splits)
  have d: "distinct (nt_ids (sd_net s))" using assms(1) by (simp add: in_order_def)
  note count = how_many_step [OF d cid, where c = c and r = r]
  from quietD(1) [OF assms(1) cid] ne consider "rc_stage ?r = S_loop" | "rc_stage ?r = S_release" by auto
  then show ?thesis
  proof cases
    case 1
    note reached = quietD(2) [OF assms(1) cid 1]
    have rc: "r = ?r\<lparr>rc_stage := S_release\<rparr>" "c = set_obj (rc_mp ?r) (RemoveClient cid (sd_obj s (rc_mp ?r))) ?c"
      using st 1 reached by (simp_all add: rover_step.simps)
    have obj: "ca_obj c j = (if j = rc_mp ?r then RemoveClient cid (sd_obj s j) else sd_obj s j)" for j
      by (simp add: rc(2) set_obj_def)
    have "rover_reached t i" if "rover_reached s i" "i \<noteq> cid" for i
      using that by (auto simp: rover_reached_def Let_def t obj mount_clients.remove_object mount_clients.remove_members)
    moreover have "source_reached t i j" if "source_reached s i j" for i j
      using that by (auto simp: source_reached_def obj t RemoveClient_def unregister_def count_clients_def rebuildSnapshotLocked_def)
    ultimately have "in_order t" using assms(1) unfolding in_order_def by (auto simp: t rc(1))
    moreover have "shutdown_rank t < shutdown_rank s"
      using count [where P = looping] count [where P = releasing] 1
      by (simp add: shutdown_rank_def t rc(1) looping_def releasing_def)
    ultimately show ?thesis ..
  next
    case 2
    have rc: "r = ?r\<lparr>rc_stage := S_end\<rparr>" "ca_obj c = ca_obj ?c" using st 2 by (auto simp: rover_step.simps)
    have "rover_reached t i = rover_reached s i" "source_reached t i j = source_reached s i j" if "i \<noteq> cid \<or> True" for i j
      using rc by (auto simp: rover_reached_def source_reached_def Let_def t)
    then have "in_order t" using assms(1) unfolding in_order_def by (auto simp: t rc(1))
    moreover have "shutdown_rank t < shutdown_rank s"
      using count [where P = looping] count [where P = releasing] 2
      by (simp add: shutdown_rank_def t rc(1) looping_def releasing_def)
    ultimately show ?thesis ..
  qed
qed

lemma rank_put [simp]: "shutdown_rank (put_obj k m s) = shutdown_rank s"
  by (simp add: shutdown_rank_def)

lemma source_listed: "map_of ss sid = Some k \<Longrightarrow> length (filter (\<lambda>(i, k). i \<noteq> sid) ss) < length ss"
  by (induction ss) (auto simp: less_Suc_eq_le split: if_splits)

lemma shutdown_step_ok:
  assumes "in_order s" "shutdown_step E e s = Some t"
  shows "in_order t \<and> (if own e then shutdown_rank t < shutdown_rank s else shutdown_rank t = shutdown_rank s)"
proof (cases e)
  case Sd_disconnect
  with assms(2) obtain k ks where k: "sd_todo s = k # ks"
    "t = put_obj k (mp_DisconnectAll (sd_obj s k)) (s\<lparr>sd_closed := stop_source (sd_obj s k) (sd_closed s), sd_todo := ks\<rparr>)"
    by (auto split: list.splits)
  with in_order_disconnect [OF assms(1) k(1)] Sd_disconnect show ?thesis by simp (simp add: shutdown_rank_def)
next
  case (Sd_rover cid now)
  with rover_ending [OF assms(1), of E cid now t] assms(2) show ?thesis by simp
next
  case (Sd_source sid)
  with assms(2) obtain k where k: "map_of (sd_sources s) sid = Some k" "sid \<in> set (sd_closed s)"
    "t = put_obj k (ClearSource sid (sd_obj s k)) (s\<lparr>sd_sources := filter (\<lambda>(i, k). i \<noteq> sid) (sd_sources s)\<rparr>)"
    by (auto split: option.splits if_splits)
  with in_order_source [OF assms(1) k(2)] source_listed [OF k(1)] Sd_source show ?thesis
    by simp (simp add: shutdown_rank_def)
next
  case (Sd_hangup cid)
  with assms(2) have t: "t = put_obj (rc_mp (sd_rover s cid)) (upd_client cid KickSlowConsumer (sd_obj s (rc_mp (sd_rover s cid)))) s"
    by (auto simp: Let_def split: if_splits)
  then have "in_order t" using assms(1) disconnect_reached(4) by (auto intro!: in_order_put)
  with Sd_hangup t show ?thesis by simp
next
  case (Sd_source_lost sid)
  with assms show ?thesis
    by (auto simp: in_order_def rover_reached_def source_reached_def shutdown_rank_def)
qed

fun own_steps :: "shutdown_event list \<Rightarrow> nat" where
  "own_steps [] = 0"
| "own_steps (e # es) = of_bool (own e) + own_steps es"

lemma shutdown_run_ok:
  assumes "shutdown_run E s es t" "in_order s"
  shows "in_order t \<and> own_steps es + shutdown_rank t \<le> shutdown_rank s"
  using assms
proof (induction rule: shutdown_run.induct)
  case (sd_more e s t es u)
  with shutdown_step_ok [OF sd_more.prems sd_more.hyps(1)] show ?case by (auto split: if_splits)
qed simp

text \<open>While it is not over, one of the caster's own steps can be taken.\<close>

lemma how_many_pos: "0 < how_many P n \<Longrightarrow> \<exists>cid \<in> set (nt_ids n). P (nt_conn n cid)"
  unfolding how_many_def by (auto simp: filter_empty_conv)

lemma shutdown_progress:
  assumes "in_order s" "\<not> shut_down s"
  shows "\<exists>e t. own e \<and> shutdown_step E e s = Some t"
proof (cases "sd_todo s")
  case (Cons k ks)
  then show ?thesis by (intro exI [of _ Sd_disconnect]) simp
next
  case Nil
  with assms(2) have "0 < how_many looping (sd_net s) \<or> 0 < how_many releasing (sd_net s) \<or> sd_sources s \<noteq> []"
    by (auto simp: shut_down_def wg_def)
  then consider cid where "cid \<in> set (nt_ids (sd_net s))" "rc_stage (sd_rover s cid) = S_loop"
    | cid where "cid \<in> set (nt_ids (sd_net s))" "rc_stage (sd_rover s cid) = S_release"
    | sid k ss where "sd_sources s = (sid, k) # ss"
    using how_many_pos [of looping "sd_net s"] how_many_pos [of releasing "sd_net s"]
    by (auto simp: looping_def releasing_def neq_Nil_conv)
  then show ?thesis
  proof cases
    case 1
    with quietD(2) [OF assms(1) 1] Nil have "rv_done (mp_heap (sd_obj s (rc_mp (sd_rover s cid))) cid)"
      by (simp add: rover_reached_def Let_def)
    with 1 show ?thesis by (intro exI [of _ "Sd_rover cid 0"]) (simp add: split_beta Let_def)
  next
    case 2
    then show ?thesis by (intro exI [of _ "Sd_rover cid 0"]) (simp add: split_beta Let_def)
  next
    case 3
    with assms(1) Nil have "sid \<in> set (sd_closed s)" by (auto simp: in_order_def source_reached_def)
    with 3 show ?thesis by (intro exI [of _ "Sd_source sid"]) simp
  qed
qed

section \<open>A handler on its way\<close>

text \<open>
  The disconnection is over; the rover \<open>cid\<close> had passed the checks before it, and is about to register or
  has registered since then, at a mountpoint without a limit of its own.
\<close>

definition client_view :: "string \<Rightarrow> mount_point \<Rightarrow> source_conn option \<times> int \<times> bool \<times> bool" where
  "client_view cid m = (mp_source m, mp_MaxClients m, cid \<in> set (mp_clients m), rv_done (mp_heap m cid))"

definition late_stage :: "stage \<Rightarrow> nat option" where
  "late_stage st = (case st of S_register \<Rightarrow> Some 0 | S_count \<Rightarrow> Some 1 | S_reply \<Rightarrow> Some 2 | S_loop \<Rightarrow> Some 3 | _ \<Rightarrow> None)"

definition late :: "string \<Rightarrow> nat \<Rightarrow> shutdown \<Rightarrow> bool" where
  "late cid n s \<longleftrightarrow> sd_todo s = [] \<and> cid \<in> set (nt_ids (sd_net s)) \<and> (\<forall>i \<in> set (nt_ids (sd_net s)). rc_id (sd_rover s i) = i)
     \<and> late_stage (rc_stage (sd_rover s cid)) = Some n
     \<and> (let m = sd_obj s (rc_mp (sd_rover s cid)) in
        mp_source m = None \<and> mp_MaxClients m \<le> 0 \<and> (n > 0 \<longrightarrow> cid \<in> set (mp_clients m) \<and> \<not> rv_done (mp_heap m cid)))"

lemma late_view:
  assumes "late cid n s" "sd_todo t = []" "nt_ids (sd_net t) = nt_ids (sd_net s)" "nt_conn (sd_net t) = nt_conn (sd_net s)"
    "\<And>k. mp_source (sd_obj s k) = None \<Longrightarrow> client_view cid (sd_obj t k) = client_view cid (sd_obj s k)"
  shows "late cid n t"
  using assms(1,2) assms(5) [of "rc_mp (sd_rover s cid)"]
  by (auto simp: late_def Let_def assms(3,4) client_view_def)

lemma other_rover_step:
  assumes "rover_step E now r c = (r', c')" "rc_id r \<noteq> cid"
  shows "client_view cid (ca_obj c' k) = client_view cid (ca_obj c k)" "rc_id r' = rc_id r"
proof -
  have add: "client_view cid m' = client_view cid m" if "AddClient (rc_id r) cl m = Some m'" for cl m m'
    using that assms(2)
    by (auto simp: AddClient_def client_view_def count_clients_def rebuildSnapshotLocked_def split: if_splits)
  have rem: "client_view cid (RemoveClient (rc_id r) m) = client_view cid m" for m
    using assms(2) by (auto simp: RemoveClient_def client_view_def unregister_def count_clients_def rebuildSnapshotLocked_def)
  have auth: "ca_obj (snd (rover_auth E now r c)) = ca_obj c" "rc_id (fst (rover_auth E now r c)) = rc_id r"
    by (auto simp: rover_auth_def refuse_def split: option.split prod.split)
  show "client_view cid (ca_obj c' k) = client_view cid (ca_obj c k)"
    using assms(1) add rem auth(1)
    by (cases "rc_stage r") (auto simp: rover_step.simps set_obj_def split: option.splits if_splits)
  show "rc_id r' = rc_id r"
    using assms(1) auth(2)
    by (cases "rc_stage r") (auto simp: rover_step.simps refuse_def split: option.splits if_splits)
qed

lemma late_own_step:
  assumes "rover_step E now r c = (r', c')" "late_stage (rc_stage r) = Some n" "rc_stage r \<noteq> S_loop" "rc_id r = cid"
    and "mp_MaxClients (ca_obj c (rc_mp r)) \<le> 0" "mp_source (ca_obj c (rc_mp r)) = None"
    and "n > 0 \<longrightarrow> cid \<in> set (mp_clients (ca_obj c (rc_mp r))) \<and> \<not> rv_done (mp_heap (ca_obj c (rc_mp r)) cid)"
  shows "late_stage (rc_stage r') = Some (Suc n) \<and> rc_id r' = cid \<and> rc_mp r' = rc_mp r
    \<and> client_view cid (ca_obj c' (rc_mp r)) = (None, mp_MaxClients (ca_obj c (rc_mp r)), True, False)"
proof -
  from assms(2,3) consider "rc_stage r = S_register" "n = 0" | "rc_stage r = S_count" "n = 1" | "rc_stage r = S_reply" "n = 2"
    by (cases "rc_stage r") (simp_all add: late_stage_def)
  then show ?thesis
  proof cases
    case 1
    let ?m = "ca_obj c (rc_mp r)" and ?cl = "client_New (rc_user r) (nat (mp_WriteQueue (ca_obj c (rc_mp r)))) now"
    obtain m where m: "AddClient cid ?cl ?m = Some m" using assms(5) by (simp add: AddClient_def)
    then have "mp_source m = None" "mp_MaxClients m = mp_MaxClients ?m"
      using assms(6) by (auto simp: AddClient_def count_clients_def rebuildSnapshotLocked_def split: if_splits)
    with mount_clients.registered [OF m] have "client_view cid m = (None, mp_MaxClients ?m, True, False)"
      by (simp add: client_view_def client_New_def)
    then show ?thesis using assms(1,4) 1 m by (auto simp: rover_step.simps set_obj_def late_stage_def)
  next
    case 2
    then show ?thesis using assms by (auto simp: rover_step.simps late_stage_def client_view_def)
  next
    case 3
    then show ?thesis using assms by (auto simp: rover_step.simps late_stage_def client_view_def)
  qed
qed

fun rover_steps :: "string \<Rightarrow> shutdown_event list \<Rightarrow> nat" where
  "rover_steps cid [] = 0"
| "rover_steps cid (Sd_rover i now # es) = of_bool (i = cid) + rover_steps cid es"
| "rover_steps cid (e # es) = rover_steps cid es"

lemma late_step:
  assumes "late cid n s" "shutdown_step E e s = Some t" "e \<noteq> Sd_hangup cid"
  shows "late cid (n + rover_steps cid [e]) t"
proof (cases e)
  case Sd_disconnect
  with assms show ?thesis by (simp add: late_def)
next
  case (Sd_source sid)
  with assms(2) obtain k where "t = put_obj k (ClearSource sid (sd_obj s k)) (s\<lparr>sd_sources := filter (\<lambda>(i, k). i \<noteq> sid) (sd_sources s)\<rparr>)"
    by (auto split: option.splits if_splits)
  moreover from this have "late cid n t"
    using assms(1) by (intro late_view [OF assms(1)]) (auto simp: late_def put_obj_def set_obj_def ClearSource_def)
  ultimately show ?thesis using Sd_source by simp
next
  case (Sd_hangup i)
  with assms(2,3) have "i \<noteq> cid" and
    t: "t = put_obj (rc_mp (sd_rover s i)) (upd_client i KickSlowConsumer (sd_obj s (rc_mp (sd_rover s i)))) s"
    by (auto simp: Let_def split: if_splits)
  then have "late cid n t"
    using assms(1) by (intro late_view [OF assms(1)]) (auto simp: late_def put_obj_def set_obj_def upd_client_def client_view_def)
  with Sd_hangup show ?thesis by simp
next
  case (Sd_source_lost sid)
  with assms(2) have "late cid n t" using assms(1) by (intro late_view [OF assms(1)]) (auto simp: late_def)
  with Sd_source_lost show ?thesis by simp
next
  case (Sd_rover i now)
  let ?r = "sd_rover s i" and ?c = "nt_caster (sd_net s)"
  obtain r c where st: "rover_step E now ?r ?c = (r, c)" by fastforce
  with assms(2) Sd_rover have i: "i \<in> set (nt_ids (sd_net s))" "rc_stage ?r = S_loop \<longrightarrow> rv_done (mp_heap (sd_obj s (rc_mp ?r)) i)"
    and t: "t = s\<lparr>sd_net := (sd_net s)\<lparr>nt_caster := c, nt_conn := (nt_conn (sd_net s))(i := r)\<rparr>\<rparr>"
    by (auto simp: Let_def split: if_splits)
  from assms(1) i(1) have id: "rc_id ?r = i" by (simp add: late_def)
  show ?thesis
  proof (cases "i = cid")
    case False
    then have "client_view cid (ca_obj c k) = client_view cid (ca_obj ?c k)" "rc_id r = i" for k
      using other_rover_step [OF st, of cid] id by auto
    then show ?thesis
      using assms(1) False Sd_rover by (auto simp: late_def t Let_def client_view_def)
  next
    case True
    let ?m = "sd_obj s (rc_mp ?r)"
    have l: "late_stage (rc_stage ?r) = Some n" "mp_source ?m = None" "mp_MaxClients ?m \<le> 0"
      "n > 0 \<longrightarrow> cid \<in> set (mp_clients ?m) \<and> \<not> rv_done (mp_heap ?m cid)"
      using assms(1) True by (auto simp: late_def Let_def)
    have "rc_stage ?r \<noteq> S_loop" using i(2) l(1,4) True by (auto simp: late_stage_def)
    from late_own_step [OF st l(1) this _ l(3,2,4)] id True
    have "late_stage (rc_stage r) = Some (Suc n)" "rc_id r = cid" "rc_mp r = rc_mp ?r"
      "client_view cid (ca_obj c (rc_mp ?r)) = (None, mp_MaxClients ?m, True, False)" by simp_all
    then show ?thesis
      using assms(1) True Sd_rover l(3) by (auto simp: late_def t Let_def client_view_def)
  qed
qed

lemma late_run:
  assumes "shutdown_run E s es t" "late cid n s" "Sd_hangup cid \<notin> set es"
  shows "late cid (n + rover_steps cid es) t"
  using assms
proof (induction arbitrary: n rule: shutdown_run.induct)
  case (sd_more e s t es u)
  have "late cid (n + rover_steps cid [e]) t"
    using late_step [OF sd_more.prems(1) sd_more.hyps(1)] sd_more.prems(2) by auto
  with sd_more.IH [of "n + rover_steps cid [e]"] sd_more.prems(2) have "late cid (n + rover_steps cid [e] + rover_steps cid es) u" by simp
  moreover have "rover_steps cid (e # es) = rover_steps cid [e] + rover_steps cid es" by (cases e) simp_all
  ultimately show ?case by (simp add: add.assoc)
qed simp

lemma how_many_witness: "cid \<in> set (nt_ids n) \<Longrightarrow> P (nt_conn n cid) \<Longrightarrow> 0 < how_many P n"
  unfolding how_many_def by (auto simp: filter_empty_conv)

section \<open>Properties\<close>

text \<open>
  C22. An orderly shutdown ends. When every handler has come to its loop or to its end and every loop belongs to a
  connection that is registered at a mountpoint the manager knows (or is closed), then however the disconnections,
  the ends of the loops and the other sides' hangups interleave, the caster's own steps are bounded in number,
  and as long as \<open>Shutdown\<close> has not returned one of them can be taken: it returns without waiting for anyone
  outside.
\<close>

theorem orderly_shutdown:
  assumes "in_order s" "shutdown_run E s es t"
  shows "own_steps es \<le> shutdown_rank s \<and> (shut_down t \<or> (\<exists>e u. own e \<and> shutdown_step E e t = Some u))"
  using shutdown_run_ok [OF assms(2,1)] shutdown_progress [of t E] by auto


text \<open>One rover in its loop and one source, at the only mountpoint.\<close>

definition shutdown_sample :: shutdown where
  "shutdown_sample =
     \<lparr>sd_net =
        \<lparr>nt_caster = sample_caster\<lparr>ca_obj := (\<lambda>k. (ca_obj sample_caster k)\<lparr>mp_clients := [''c''], mp_heap := (\<lambda>i. sample_rover)\<rparr>)\<rparr>,
         nt_ids = [''c''], nt_conn = (\<lambda>i. (new_conn i sample_request)\<lparr>rc_stage := S_loop\<rparr>)\<rparr>,
      sd_sources = [(''s'', 0)], sd_closed = [], sd_todo = [0]\<rparr>"

lemma shutdown_sample_quiet: "in_order shutdown_sample" "shutdown_rank shutdown_sample = 4"
  by (simp_all add: in_order_def shutdown_sample_def rover_reached_def source_reached_def new_conn_def sample_caster_def
      shutdown_rank_def how_many_def looping_def releasing_def)

theorem orderly_shutdown_witness:
  "\<exists>t. shutdown_step sample_open_cfg Sd_disconnect shutdown_sample = Some t
     \<and> (shut_down t \<or> (\<exists>e u. own e \<and> shutdown_step sample_open_cfg e t = Some u))"
proof -
  obtain t where t: "shutdown_step sample_open_cfg Sd_disconnect shutdown_sample = Some t" by (simp add: shutdown_sample_def)
  then have "shutdown_run sample_open_cfg shutdown_sample [Sd_disconnect] t" by (rule sd_more) (rule sd_done)
  from orderly_shutdown [OF shutdown_sample_quiet(1) this] t show ?thesis by blast
qed

text \<open>A rover about to register when the disconnection is over.\<close>

definition late_sample :: shutdown where
  "late_sample =
     \<lparr>sd_net =
        \<lparr>nt_caster = sample_free, nt_ids = [''c''], nt_conn = (\<lambda>i. (new_conn i sample_request)\<lparr>rc_stage := S_register\<rparr>)\<rparr>,
      sd_sources = [], sd_closed = [], sd_todo = []\<rparr>"

lemma late_sample_late: "late ''c'' 0 late_sample"
  by (simp add: late_def late_sample_def late_stage_def new_conn_def sample_free_def empty_point_def NewMountPoint_def)

lemma late_three:
  assumes "late cid 0 s"
  obtains t where "shutdown_run E s [Sd_rover cid 0, Sd_rover cid 0, Sd_rover cid 0] t"
proof -
  have step: "\<exists>u. shutdown_step E (Sd_rover cid 0) t = Some u" if "late cid n t" "n < 3" for n t
  proof -
    have "rc_stage (sd_rover t cid) \<notin> {S_loop, S_end}" "cid \<in> set (nt_ids (sd_net t))"
      using that by (cases "rc_stage (sd_rover t cid)"; simp add: late_def late_stage_def)+
    then show ?thesis by (simp add: split_beta Let_def)
  qed
  obtain a where a: "shutdown_step E (Sd_rover cid 0) s = Some a" using step [OF assms] by auto
  have la: "late cid 1 a" using late_step [OF assms a] by simp
  obtain b where b: "shutdown_step E (Sd_rover cid 0) a = Some b" using step [OF la] by auto
  have lb: "late cid 2 b" using late_step [OF la b] by (simp add: numeral_2_eq_2)
  obtain t where t: "shutdown_step E (Sd_rover cid 0) b = Some t" using step [OF lb] by auto
  show thesis using that a b t by (blast intro: sd_more sd_done)
qed


end
