(* ===== verification/Ecef.thy ===== *)
theory Ecef
  imports Antenna Complex_Main
begin

text \<open>
  The conversion of \<open>internal/rtcm/decode1005.go\<close> from geocentric coordinates to latitude, longitude and
  height, and the distance of two positions. The source computes in \<open>float64\<close>; here the same expressions
  are over the real numbers, so what is shown holds of the formulas and the loop, up to rounding. \<open>Antenna\<close>
  has the decoder up to the three integers, with this conversion as its argument.
\<close>

section \<open>The constants and \<open>math.Atan2\<close>\<close>

definition wgs84A :: real where "wgs84A = 6378137"
definition wgs84F :: real where "wgs84F = 1 / 298.257223563"
definition wgs84B :: real where "wgs84B = wgs84A * (1 - wgs84F)"
definition wgs84E2 :: real where "wgs84E2 = 2 * wgs84F - wgs84F * wgs84F"
definition wgs84Ep2 :: real where "wgs84Ep2 = wgs84E2 / (1 - wgs84E2)"

definition atan2 :: "real \<Rightarrow> real \<Rightarrow> real" where
  "atan2 y x =
     (if 0 < x then arctan (y / x)
      else if x < 0 then (if 0 \<le> y then arctan (y / x) + pi else arctan (y / x) - pi)
      else if 0 < y then pi / 2 else if y < 0 then - pi / 2 else 0)"

section \<open>Geocentric to geodetic\<close>

definition lat_update :: "real \<Rightarrow> real \<Rightarrow> real \<Rightarrow> real" where
  "lat_update p z theta =
     atan2 (z + wgs84Ep2 * wgs84B * sin theta ^ 3) (p - wgs84E2 * wgs84A * cos theta ^ 3)"

text \<open>The loop: at the start of each round \<open>theta\<close> is \<open>lat\<close>.\<close>

fun lat_loop :: "nat \<Rightarrow> real \<Rightarrow> real \<Rightarrow> real \<Rightarrow> real" where
  "lat_loop 0 p z lat = lat"
| "lat_loop (Suc n) p z lat =
     (let lat' = lat_update p z lat in if \<bar>lat' - lat\<bar> < 1 / 10 ^ 12 then lat' else lat_loop n p z lat')"

record geo_position =
  gp_Latitude :: real
  gp_Longitude :: real
  gp_Height :: real
  gp_UpdatedAt :: int

definition ErrZeroCoordinates :: string where
  "ErrZeroCoordinates = ''ECEF coordinates are all zero''"

definition ErrOutOfRange :: string where
  "ErrOutOfRange = ''ECEF coordinates out of valid Earth range''"

definition ecefToLatLng :: "real \<Rightarrow> real \<Rightarrow> real \<Rightarrow> string + (real \<times> real \<times> real)" where
  "ecefToLatLng x y z =
     (if x = 0 \<and> y = 0 \<and> z = 0 then Inl ErrZeroCoordinates
      else let r = sqrt (x * x + y * y + z * z) in
        if r < 1000000 \<or> 10000000 < r then Inl ErrOutOfRange
        else let lon = atan2 y x * 180 / pi;
                 p = sqrt (x * x + y * y);
                 theta = atan2 (z * wgs84A) (p * wgs84B);
                 lat = lat_loop 10 p z theta * 180 / pi;
                 sinLat = sin (lat * pi / 180);
                 cosLat = cos (lat * pi / 180);
                 N = wgs84A / sqrt (1 - wgs84E2 * sinLat * sinLat);
                 h = (if 1 / 10 ^ 10 < cosLat then p / cosLat - N else z / sinLat - N * (1 - wgs84E2))
          in Inr (lat, lon, h))"

text \<open>The end of \<open>Decode1005\<close>: from tenths of a millimetre to metres, then the conversion.\<close>

definition convert1005 :: "int \<Rightarrow> int \<Rightarrow> int \<Rightarrow> int \<Rightarrow> string + geo_position" where
  "convert1005 now x y z =
     (case ecefToLatLng (of_int x * 0.0001) (of_int y * 0.0001) (of_int z * 0.0001) of
        Inl e \<Rightarrow> Inl e
      | Inr (lat, lon, h) \<Rightarrow>
          Inr \<lparr>gp_Latitude = lat, gp_Longitude = lon, gp_Height = h, gp_UpdatedAt = now\<rparr>)"

definition DistanceBetweenPositions :: "geo_position option \<Rightarrow> geo_position option \<Rightarrow> real" where
  "DistanceBetweenPositions q1 q2 =
     (case (q1, q2) of
        (Some p1, Some p2) \<Rightarrow>
          let dLat = (gp_Latitude p2 - gp_Latitude p1) * pi / 180;
              dLon = (gp_Longitude p2 - gp_Longitude p1) * pi / 180;
              sinDLat = sin (dLat / 2);
              sinDLon = sin (dLon / 2);
              a = sinDLat * sinDLat
                  + cos (gp_Latitude p1 * pi / 180) * cos (gp_Latitude p2 * pi / 180) * sinDLon * sinDLon;
              c = 2 * atan2 (sqrt a) (sqrt (1 - a))
          in 6371000 * c
      | _ \<Rightarrow> 0)"

section \<open>The arc tangent of two arguments\<close>

lemma atan2_range: "- pi \<le> atan2 y x" "atan2 y x \<le> pi"
  using arctan_bounded [of "y / x"] pi_gt_zero arctan_less_zero_iff [of "y / x"] zero_less_arctan_iff [of "y / x"]
  by (auto simp: atan2_def divide_less_0_iff zero_less_divide_iff zero_le_divide_iff divide_le_0_iff)

lemma atan2_right:
  assumes "0 < x"
  shows "cos (atan2 y x) = x / sqrt (x\<^sup>2 + y\<^sup>2)" "sin (atan2 y x) = y / sqrt (x\<^sup>2 + y\<^sup>2)"
    "- (pi / 2) \<le> atan2 y x" "atan2 y x \<le> pi / 2"
proof -
  have "sqrt (1 + (y / x)\<^sup>2) = sqrt (x\<^sup>2 + y\<^sup>2) / x"
  proof -
    have "1 + (y / x)\<^sup>2 = (x\<^sup>2 + y\<^sup>2) / x\<^sup>2" using assms by (simp add: field_simps power2_eq_square)
    then show ?thesis using assms by (simp add: real_sqrt_divide)
  qed
  then show "cos (atan2 y x) = x / sqrt (x\<^sup>2 + y\<^sup>2)" "sin (atan2 y x) = y / sqrt (x\<^sup>2 + y\<^sup>2)"
    using assms by (simp_all add: atan2_def cos_arctan sin_arctan)
  show "- (pi / 2) \<le> atan2 y x" "atan2 y x \<le> pi / 2"
    using assms arctan_bounded [of "y / x"] by (simp_all add: atan2_def)
qed

lemma atan2_scale: "0 < q \<Longrightarrow> 0 < x \<Longrightarrow> atan2 (q * y) (q * x) = arctan (y / x)"
  by (simp add: atan2_def)

lemma wgs84_facts:
  "0 < wgs84A" "0 < wgs84F" "wgs84F < 1" "0 < wgs84B" "wgs84B \<le> wgs84A" "0 < wgs84E2" "wgs84E2 < 1" "0 < wgs84Ep2"
  "wgs84E2 * wgs84A \<le> 500000"
proof -
  show f: "0 < wgs84A" "0 < wgs84F" "wgs84F < 1" by (simp_all add: wgs84A_def wgs84F_def)
  show "0 < wgs84B" "wgs84B \<le> wgs84A" "0 < wgs84E2" "wgs84E2 < 1" "wgs84E2 * wgs84A \<le> 500000"
    by (simp_all add: wgs84B_def wgs84E2_def wgs84A_def wgs84F_def)
  then show "0 < wgs84Ep2" by (simp add: wgs84Ep2_def)
qed

section \<open>The loop stays on the right side\<close>

definition lat_ok :: "real \<Rightarrow> real \<Rightarrow> real \<Rightarrow> bool" where
  "lat_ok p z t \<longleftrightarrow> - (pi / 2) \<le> t \<and> t \<le> pi / 2 \<and> cos t * sqrt (p\<^sup>2 + z\<^sup>2) \<le> p \<and> 0 \<le> z * sin t
     \<and> (z = 0 \<longrightarrow> sin t = 0)"

lemma atan2_lat_ok:
  assumes "0 \<le> p" "p = 0 \<longleftrightarrow> D = 0" "0 \<le> D" "D * \<bar>z\<bar> \<le> p * \<bar>Y\<bar>" "0 \<le> z * Y" "z = 0 \<longleftrightarrow> Y = 0" "p \<noteq> 0 \<or> z \<noteq> 0"
  shows "lat_ok p z (atan2 Y D)"
proof (cases "p = 0")
  case True
  with assms(2,5-7) show ?thesis
    by (auto simp: lat_ok_def atan2_def zero_le_mult_iff)
next
  case False
  then have D: "0 < D" using assms(2,3) by auto
  let ?s = "sqrt (D\<^sup>2 + Y\<^sup>2)"
  have s: "0 < ?s" using D by (simp add: add_pos_nonneg)
  have "(D * \<bar>z\<bar>)\<^sup>2 \<le> (p * \<bar>Y\<bar>)\<^sup>2" using assms(4) D by (intro power_mono) simp_all
  then have "D\<^sup>2 * (p\<^sup>2 + z\<^sup>2) \<le> p\<^sup>2 * (D\<^sup>2 + Y\<^sup>2)" by (simp add: power_mult_distrib algebra_simps)
  then have "sqrt (D\<^sup>2 * (p\<^sup>2 + z\<^sup>2)) \<le> sqrt (p\<^sup>2 * (D\<^sup>2 + Y\<^sup>2))" by (rule real_sqrt_le_mono)
  then have "D * sqrt (p\<^sup>2 + z\<^sup>2) \<le> p * ?s" using D assms(1) by (simp add: real_sqrt_mult)
  then have "cos (atan2 Y D) * sqrt (p\<^sup>2 + z\<^sup>2) \<le> p"
    using s atan2_right(1) [OF D, of Y] by (simp add: field_simps)
  moreover have "z = 0 \<longrightarrow> sin (atan2 Y D) = 0" using atan2_right(2) [OF D, of Y] assms(6) by auto
  moreover have "0 \<le> z * sin (atan2 Y D)" using s atan2_right(2) [OF D, of Y] assms(5) by simp
  ultimately show ?thesis using atan2_right(3,4) [OF D, of Y] by (simp add: lat_ok_def)
qed

lemma lat_start_ok:
  assumes "0 \<le> p" "p \<noteq> 0 \<or> z \<noteq> 0"
  shows "lat_ok p z (atan2 (z * wgs84A) (p * wgs84B))"
proof (rule atan2_lat_ok)
  have "wgs84B * (p * \<bar>z\<bar>) \<le> wgs84A * (p * \<bar>z\<bar>)" using wgs84_facts(5) assms(1) by (intro mult_right_mono) simp_all
  then show "p * wgs84B * \<bar>z\<bar> \<le> p * \<bar>z * wgs84A\<bar>" using wgs84_facts(1) by (simp add: abs_mult algebra_simps)
  show "0 \<le> z * (z * wgs84A)" using wgs84_facts(1) by (simp flip: mult.assoc)
qed (use assms wgs84_facts(1,4) in simp_all)

lemma lat_update_ok:
  assumes "lat_ok p z t" "0 \<le> p" "1000000 \<le> sqrt (p\<^sup>2 + z\<^sup>2)"
  shows "lat_ok p z (lat_update p z t)"
proof -
  let ?D = "p - wgs84E2 * wgs84A * cos t ^ 3" and ?Y = "z + wgs84Ep2 * wgs84B * sin t ^ 3" and ?r = "sqrt (p\<^sup>2 + z\<^sup>2)"
  have t: "0 \<le> cos t" "cos t * ?r \<le> p" "0 \<le> z * sin t" using assms(1) by (auto simp: lat_ok_def intro!: cos_ge_zero)
  have "cos t * 1000000 \<le> cos t * ?r" using t(1) assms(3) by (rule mult_left_mono [rotated])
  then have c: "cos t * 1000000 \<le> p" using t(2) by linarith
  have "cos t ^ 3 \<le> cos t" using t(1) power_decreasing [of 1 3 "cos t"] by simp
  then have "wgs84E2 * wgs84A * cos t ^ 3 \<le> 500000 * cos t"
    using wgs84_facts(1,6,9) t(1) by (intro mult_mono) simp_all
  with c have D: "p / 2 \<le> ?D" by linarith
  have Dp: "?D \<le> p" using wgs84_facts(1,6) t(1) by simp
  have pos: "0 < wgs84Ep2 * wgs84B" using wgs84_facts by simp
  have zs: "0 \<le> z * sin t ^ 3"
  proof -
    have "z * sin t ^ 3 = (z * sin t) * (sin t * sin t)" by (simp only: power3_eq_cube mult.assoc)
    with mult_nonneg_nonneg [OF t(3) zero_le_square [of "sin t"]] show ?thesis by (simp only:)
  qed
  have "0 \<le> (wgs84Ep2 * wgs84B) * (z * sin t ^ 3)" by (rule mult_nonneg_nonneg [OF less_imp_le [OF pos] zs])
  then have zY: "z\<^sup>2 \<le> z * ?Y" by (simp add: algebra_simps power2_eq_square)
  have absz: "\<bar>z\<bar> \<le> \<bar>?Y\<bar>"
  proof (cases "z = 0")
    case False
    have "\<bar>z\<bar> * \<bar>z\<bar> = z\<^sup>2" by (simp add: power2_eq_square)
    also have "\<dots> \<le> \<bar>z * ?Y\<bar>" using zY by linarith
    finally have "\<bar>z\<bar> * \<bar>z\<bar> \<le> \<bar>z\<bar> * \<bar>?Y\<bar>" by (simp only: abs_mult)
    with False show ?thesis by (meson mult_le_cancel_left_pos zero_less_abs_iff)
  qed simp
  have s0: "z = 0 \<Longrightarrow> sin t = 0" using assms(1) by (simp add: lat_ok_def)
  show ?thesis
    unfolding lat_update_def
  proof (rule atan2_lat_ok)
    show "?D * \<bar>z\<bar> \<le> p * \<bar>?Y\<bar>" using Dp absz D assms(2) by (intro mult_mono) simp_all
    show "0 \<le> z * ?Y" using zY zero_le_power2 [of z] by linarith
    show "p = 0 \<longleftrightarrow> ?D = 0" using D Dp c t(1) assms(2) by (auto simp: antisym)
    show "z = 0 \<longleftrightarrow> ?Y = 0" using absz s0 by auto
    show "p \<noteq> 0 \<or> z \<noteq> 0" using assms(3) by auto
    show "0 \<le> ?D" using D assms(2) by linarith
  qed (rule assms(2))
qed

lemma lat_loop_ok:
  "lat_ok p z t \<Longrightarrow> 0 \<le> p \<Longrightarrow> 1000000 \<le> sqrt (p\<^sup>2 + z\<^sup>2) \<Longrightarrow> lat_ok p z (lat_loop n p z t)"
  by (induction n p z t rule: lat_loop.induct) (simp_all add: Let_def lat_update_ok)

lemma degrees_range: "l \<le> c * pi \<Longrightarrow> l * 180 / pi \<le> c * 180" "c * pi \<le> l \<Longrightarrow> c * 180 \<le> l * 180 / pi"
  using pi_gt_zero by (simp_all add: field_simps)

text \<open>The coordinates that are converted, and the range of what they are converted to.\<close>

definition on_earth :: "real \<Rightarrow> real \<Rightarrow> real \<Rightarrow> bool" where
  "on_earth x y z \<longleftrightarrow> 1000000 \<le> sqrt (x\<^sup>2 + y\<^sup>2 + z\<^sup>2) \<and> sqrt (x\<^sup>2 + y\<^sup>2 + z\<^sup>2) \<le> 10000000"

lemma ecef_cases:
  "case ecefToLatLng x y z of
     Inl e \<Rightarrow> e = (if x = 0 \<and> y = 0 \<and> z = 0 then ErrZeroCoordinates else ErrOutOfRange) \<and> \<not> on_earth x y z
   | Inr (lat, lon, h) \<Rightarrow> on_earth x y z \<and> - 90 \<le> lat \<and> lat \<le> 90 \<and> - 180 \<le> lon \<and> lon \<le> 180"
proof -
  have sq: "sqrt (x * x + y * y + z * z) = sqrt (x\<^sup>2 + y\<^sup>2 + z\<^sup>2)" "sqrt (x * x + y * y) = sqrt (x\<^sup>2 + y\<^sup>2)"
    by (simp_all add: power2_eq_square)
  show ?thesis
  proof (cases "on_earth x y z")
    case False
    then show ?thesis by (auto simp: ecefToLatLng_def Let_def sq on_earth_def)
  next
    case True
    let ?p = "sqrt (x\<^sup>2 + y\<^sup>2)"
    let ?lat = "lat_loop 10 ?p z (atan2 (z * wgs84A) (?p * wgs84B))"
    have p: "0 \<le> ?p" "sqrt (?p\<^sup>2 + z\<^sup>2) = sqrt (x\<^sup>2 + y\<^sup>2 + z\<^sup>2)" by simp_all
    have r: "1000000 \<le> sqrt (?p\<^sup>2 + z\<^sup>2)" using True p(2) by (simp add: on_earth_def)
    then have nz: "?p \<noteq> 0 \<or> z \<noteq> 0" by auto
    have "lat_ok ?p z ?lat" by (rule lat_loop_ok [OF lat_start_ok [OF p(1) nz] p(1) r])
    then have "- 90 \<le> ?lat * 180 / pi" "?lat * 180 / pi \<le> 90"
      using degrees_range(1) [of ?lat "1 / 2"] degrees_range(2) [of "- 1 / 2" ?lat] by (simp_all add: lat_ok_def)
    moreover have "- 180 \<le> atan2 y x * 180 / pi" "atan2 y x * 180 / pi \<le> 180"
      using degrees_range(1) [of "atan2 y x" 1] degrees_range(2) [of "- 1" "atan2 y x"] atan2_range [of y x] by simp_all
    moreover have "\<not> (x = 0 \<and> y = 0 \<and> z = 0)" using True by (auto simp: on_earth_def)
    ultimately show ?thesis using True unfolding ecefToLatLng_def Let_def sq by (auto simp: on_earth_def)
  qed
qed

section \<open>The loop and the latitude\<close>

text \<open>A point of the ellipsoid at a latitude.\<close>

definition ellipsoid_p :: "real \<Rightarrow> real" where
  "ellipsoid_p l = wgs84A / sqrt (1 - wgs84E2 * (sin l)\<^sup>2) * cos l"

definition ellipsoid_z :: "real \<Rightarrow> real" where
  "ellipsoid_z l = wgs84A / sqrt (1 - wgs84E2 * (sin l)\<^sup>2) * (1 - wgs84E2) * sin l"

lemma flat_factor:
  defines "k \<equiv> 1 - wgs84F"
  shows "0 < k" "k < 1" "wgs84E2 = 1 - k\<^sup>2" "wgs84B = wgs84A * k" "wgs84Ep2 * wgs84B = wgs84A * (1 - k\<^sup>2) / k"
proof -
  show k: "0 < k" "k < 1" by (simp_all add: k_def wgs84F_def)
  show e: "wgs84E2 = 1 - k\<^sup>2" by (simp add: wgs84E2_def k_def power2_eq_square algebra_simps)
  show b: "wgs84B = wgs84A * k" by (simp add: wgs84B_def k_def)
  show "wgs84Ep2 * wgs84B = wgs84A * (1 - k\<^sup>2) / k"
    using k(1) by (simp add: wgs84Ep2_def e b power2_eq_square)
qed

text \<open>The polynomial behind the comparison: strict convexity, written out.\<close>

lemma convex_gap:
  fixes k s :: real
  assumes "0 < k" "k < 1" "0 < s" "s < 1"
  shows "k\<^sup>2 < (s + k * (1 - s))\<^sup>2 * (1 - (1 - k\<^sup>2) * s)"
proof -
  have "(s + k * (1 - s))\<^sup>2 * (1 - (1 - k\<^sup>2) * s) - k\<^sup>2
      = s * (1 - s) * (1 - k)\<^sup>2 * (k * (2 + k) + (1 - k) * (1 + k) * s)"
    by (simp add: power2_eq_square algebra_simps)
  moreover have "0 < s * (1 - s) * (1 - k)\<^sup>2 * (k * (2 + k) + (1 - k) * (1 + k) * s)"
    using assms by (intro mult_pos_pos add_pos_pos) simp_all
  ultimately show ?thesis by linarith
qed

lemma ellipsoid_facts:
  assumes "0 < l" "l < pi / 2"
  defines "k \<equiv> 1 - wgs84F" and "W \<equiv> sqrt (1 - wgs84E2 * (sin l)\<^sup>2)"
  shows "0 < sin l" "sin l < 1" "0 < cos l" "(sin l)\<^sup>2 + (cos l)\<^sup>2 = 1" "0 < W" "W\<^sup>2 = 1 - (1 - k\<^sup>2) * (sin l)\<^sup>2"
    "ellipsoid_p l = wgs84A * cos l / W" "ellipsoid_z l = wgs84A * k\<^sup>2 * sin l / W" "arctan (sin l / cos l) = l"
proof -
  note k = flat_factor [folded k_def]
  show S: "0 < sin l" "0 < cos l" using assms(1,2) by (auto intro: sin_gt_zero cos_gt_zero)
  show one: "(sin l)\<^sup>2 + (cos l)\<^sup>2 = 1" by simp
  have "(sin l)\<^sup>2 < 1" using one zero_less_power [OF S(2), of 2] by linarith
  then have c: "(sin l)\<^sup>2 < 1\<^sup>2" by simp
  then show "sin l < 1" using power_less_imp_less_base by fastforce
  have "(1 - k\<^sup>2) * (sin l)\<^sup>2 < 1 * 1"
    using k(1,2) c S(1) by (intro mult_strict_mono) (auto simp: power_le_one)
  then have w: "0 < 1 - wgs84E2 * (sin l)\<^sup>2" by (simp add: k(3))
  then show "0 < W" "W\<^sup>2 = 1 - (1 - k\<^sup>2) * (sin l)\<^sup>2" by (simp_all add: W_def k(3))
  show "ellipsoid_p l = wgs84A * cos l / W" "ellipsoid_z l = wgs84A * k\<^sup>2 * sin l / W"
    by (simp_all add: ellipsoid_p_def ellipsoid_z_def W_def k(3))
  show "arctan (sin l / cos l) = l" using assms(1,2) arctan_tan [of l] by (simp add: tan_def)
qed

text \<open>The first round finds the latitude: it starts from the reduced latitude.\<close>

lemma first_round:
  assumes "0 < l" "l < pi / 2"
  shows "lat_update (ellipsoid_p l) (ellipsoid_z l) (atan2 (ellipsoid_z l * wgs84A) (ellipsoid_p l * wgs84B)) = l"
proof -
  define k where "k = 1 - wgs84F"
  define W where "W = sqrt (1 - wgs84E2 * (sin l)\<^sup>2)"
  note k = flat_factor [folded k_def] and f = ellipsoid_facts [OF assms, folded k_def W_def]
  let ?S = "sin l" and ?C = "cos l" and ?A = wgs84A
  let ?y = "ellipsoid_z l * ?A" and ?x = "ellipsoid_p l * wgs84B" and ?q = "?A\<^sup>2 * k / W"
  have A: "0 < ?A" by (simp add: wgs84A_def)
  have q: "0 < ?q" using A k(1) f(5) by simp
  have xy: "?x = ?q * ?C" "?y = ?q * (k * ?S)"
    by (simp_all add: f(7,8) k(4) power2_eq_square field_simps)
  have C2: "?C\<^sup>2 = 1 - ?S\<^sup>2" using f(4) by linarith
  have "?C\<^sup>2 + (k * ?S)\<^sup>2 = W\<^sup>2" unfolding f(6) power_mult_distrib C2 by (simp add: algebra_simps)
  then have "?x\<^sup>2 + ?y\<^sup>2 = (?q * W)\<^sup>2" unfolding xy by (simp only: power_mult_distrib distrib_left [symmetric]) 
  moreover have "0 \<le> ?q * W" by (rule mult_nonneg_nonneg [OF less_imp_le [OF q] less_imp_le [OF f(5)]])
  ultimately have r: "sqrt (?x\<^sup>2 + ?y\<^sup>2) = ?q * W" by (metis real_sqrt_unique)
  have x0: "0 < ?x" unfolding xy(1) by (rule mult_pos_pos [OF q f(3)])
  have sc: "sin (atan2 ?y ?x) = k * ?S / W" "cos (atan2 ?y ?x) = ?C / W"
    unfolding atan2_right(1,2) [OF x0] r unfolding xy
    by (simp_all only: mult_divide_mult_cancel_left [OF q [THEN less_imp_neq, THEN not_sym]])
  have w3: "W ^ 3 = W\<^sup>2 * W" "0 < W ^ 3" using f(5) by (simp_all add: power3_eq_cube power2_eq_square)
  have Y: "ellipsoid_z l + wgs84Ep2 * wgs84B * (k * ?S / W) ^ 3 = ?A * k\<^sup>2 / W ^ 3 * ?S"
  proof -
    have "ellipsoid_z l + wgs84Ep2 * wgs84B * (k * ?S / W) ^ 3 = ?A * k\<^sup>2 * ?S * (W\<^sup>2 + (1 - k\<^sup>2) * ?S\<^sup>2) / W ^ 3"
      using k(1) f(5) unfolding f(8) k(5) by (simp add: field_simps power2_eq_square power3_eq_cube)
    then show ?thesis by (simp add: f(6))
  qed
  have D: "ellipsoid_p l - wgs84E2 * ?A * (?C / W) ^ 3 = ?A * k\<^sup>2 / W ^ 3 * ?C"
  proof -
    have "ellipsoid_p l - wgs84E2 * ?A * (?C / W) ^ 3 = ?A * ?C * (W\<^sup>2 - (1 - k\<^sup>2) * ?C\<^sup>2) / W ^ 3"
      using f(5) unfolding f(7) k(3) by (simp add: field_simps power2_eq_square power3_eq_cube)
    moreover have "W\<^sup>2 - (1 - k\<^sup>2) * ?C\<^sup>2 = k\<^sup>2" unfolding f(6) C2 by (simp add: algebra_simps)
    ultimately show ?thesis by simp
  qed
  have pos: "0 < ?A * k\<^sup>2 / W ^ 3" using A k(1) w3(2) by simp
  show ?thesis
    unfolding lat_update_def sc Y D atan2_scale [OF pos f(3)] by (rule f(9))
qed

lemma cross_identity:
  fixes A k W S C :: real
  shows "(A * k\<^sup>2 * S / W + A * (1 - k\<^sup>2) / k * S ^ 3) * C - (A * C / W - (1 - k\<^sup>2) * A * C ^ 3) * S
    = A * (1 - k\<^sup>2) * S * C * (S\<^sup>2 / k + C\<^sup>2 - 1 / W)"
  by (simp add: divide_inverse power2_eq_square power3_eq_cube algebra_simps)

text \<open>The next round leaves it: it takes the latitude where the formula has the reduced latitude.\<close>

lemma next_round:
  assumes "0 < l" "l < pi / 2"
  shows "l < lat_update (ellipsoid_p l) (ellipsoid_z l) l"
proof -
  define k where "k = 1 - wgs84F"
  define W where "W = sqrt (1 - wgs84E2 * (sin l)\<^sup>2)"
  note k = flat_factor [folded k_def] and f = ellipsoid_facts [OF assms, folded k_def W_def]
  let ?S = "sin l" and ?C = "cos l" and ?A = wgs84A
  let ?m = "?S\<^sup>2 / k + ?C\<^sup>2"
  let ?Y = "ellipsoid_z l + wgs84Ep2 * wgs84B * ?S ^ 3" and ?D = "ellipsoid_p l - wgs84E2 * ?A * ?C ^ 3"
  have A: "0 < ?A" by (simp add: wgs84A_def)
  have s: "0 < ?S\<^sup>2" "?S\<^sup>2 < 1" using f(1-3) by (simp_all add: power_less_one_iff)
  have C2: "?C\<^sup>2 = 1 - ?S\<^sup>2" using f(4) by linarith
  have mk: "?m * k = ?S\<^sup>2 + k * (1 - ?S\<^sup>2)" using k(1) by (simp add: C2 field_simps)
  have "k\<^sup>2 < (?m * k)\<^sup>2 * W\<^sup>2" unfolding mk f(6) by (rule convex_gap [OF k(1,2) s])
  moreover have "(?m * k)\<^sup>2 * W\<^sup>2 = k\<^sup>2 * (?m * W)\<^sup>2" by (simp only: power_mult_distrib ac_simps)
  ultimately have "k\<^sup>2 * 1\<^sup>2 < k\<^sup>2 * (?m * W)\<^sup>2" by simp
  then have "1\<^sup>2 < (?m * W)\<^sup>2" using k(1) by simp
  moreover have "0 \<le> ?m * W" using k(1) f(5) by simp
  ultimately have "1 < ?m * W" by (rule power_less_imp_less_base)
  then have m: "0 < ?m - 1 / W" using f(5) by (simp add: field_simps)
  have e: "0 < 1 - k\<^sup>2" using k(1,2) by (simp add: power_less_one_iff)
  have "?Y * ?C - ?D * ?S = ?A * (1 - k\<^sup>2) * ?S * ?C * (?m - 1 / W)"
    unfolding f(7,8) k(3,5) by (rule cross_identity)
  moreover have "0 < ?A * (1 - k\<^sup>2) * ?S * ?C * (?m - 1 / W)" using A e f(1,3) m by (intro mult_pos_pos)
  ultimately have cross: "?D * ?S < ?Y * ?C" by linarith
  have "W\<^sup>2 \<le> 1\<^sup>2" using e s(1) by (simp add: f(6))
  then have W1: "W \<le> 1" by (rule power2_le_imp_le) simp
  have D: "0 < ?D"
  proof -
    have "(1 - k\<^sup>2) * ?C\<^sup>2 < 1 * ?C\<^sup>2" using k(1) f(3) by (intro mult_strict_right_mono) simp_all
    then have "(1 - k\<^sup>2) * ?C\<^sup>2 < 1" using C2 s(1) by linarith
    moreover have "1 \<le> 1 / W" using W1 f(5) by simp
    ultimately have "0 < ?A * ?C * (1 / W - (1 - k\<^sup>2) * ?C\<^sup>2)" using A f(3) by simp
    then show ?thesis unfolding f(7) k(3) by (simp add: algebra_simps power2_eq_square power3_eq_cube)
  qed
  with cross f(3) have "?S / ?C < ?Y / ?D" by (simp add: field_simps)
  then have "arctan (?S / ?C) < arctan (?Y / ?D)" by (rule arctan_monotone)
  with f(9) D show ?thesis by (simp add: lat_update_def atan2_def)
qed

lemma Decode1005_converted:
  "Decode1005 cv data = Position p \<Longrightarrow> \<exists>x y z. cv x y z = Inr p"
  "Decode1005 cv data = Failed (Conversion e) \<Longrightarrow> \<exists>x y z. cv x y z = Inl e"
  by (auto simp: Decode1005_def Let_def split_beta split: if_splits option.splits sum.splits)

section \<open>Properties\<close>




end
