(* ===== verification/Entry.thy ===== *)
theory Entry
  imports Auth Api_Client "HOL-Library.Sublist"
begin

text \<open>
  How the browser gets the application: \<open>src/main.tsx\<close>, which mounts it, the settings of
  \<open>web/vite.config.ts\<close>, and \<open>spaHandler\<close> of \<open>internal/api/http_server.go\<close>, which serves the built files. The
  document, the file system and what Vite does with its settings (aliases and the proxy match prefixes of
  the path) are arguments or as documented.
\<close>

section \<open>Mounting\<close>

text \<open>\<open>createRoot\<close> throws when the element is missing; the application is rendered into it once.\<close>

definition main_tsx :: "(string \<Rightarrow> 'n option) \<Rightarrow> matcher \<Rightarrow> string \<Rightarrow> auth_state \<Rightarrow> ('n \<times> rendered list) option" where
  "main_tsx getElementById m pathname a =
     (case getElementById ''root'' of None \<Rightarrow> None | Some n \<Rightarrow> Some (n, App m pathname a))"

section \<open>Build and development server\<close>

record proxy_rule =
  px_target :: string
  px_changeOrigin :: bool

record vite_settings =
  vs_plugins :: "string list"
  vs_alias :: "(string \<times> string) list"
  vs_outDir :: string
  vs_emptyOutDir :: bool
  vs_port :: int
  vs_proxy :: "(string \<times> proxy_rule) list"

definition vite_config :: "(string \<Rightarrow> string) \<Rightarrow> vite_settings" where
  "vite_config resolve_path =
     \<lparr>vs_plugins = [''react'', ''tailwindcss''],
      vs_alias = [(''@'', resolve_path ''./src'')],
      vs_outDir = ''../internal/web/dist'', vs_emptyOutDir = True,
      vs_port = 5173,
      vs_proxy = [(''/api'', \<lparr>px_target = ''http://36.152.34.250:18083'', px_changeOrigin = True\<rparr>)]\<rparr>"

text \<open>The rule of the proxy for a path of the development server.\<close>

definition dev_proxy :: "vite_settings \<Rightarrow> string \<Rightarrow> proxy_rule option" where
  "dev_proxy vs path = map_option snd (find (\<lambda>(p, r). prefix p path) (vs_proxy vs))"

section \<open>The built files\<close>

text \<open>
  The path handed to the file server: as it is when the file exists, else the root. A path that does not start
  with a character would panic (\<open>None\<close>).
\<close>

definition spaHandler :: "(string \<Rightarrow> bool) \<Rightarrow> string \<Rightarrow> string option" where
  "spaHandler exists path =
     (if path = [] then None
      else let name = (if path = ''/'' then ''index.html'' else tl path) in
        if \<not> exists name then Some ''/'' else Some path)"

section \<open>Every page loads the application, every call reaches the backend\<close>

definition page_paths :: "string list" where
  "page_paths = ''/login'' # map fst navItems"

definition plain_calls :: "int \<Rightarrow> string \<Rightarrow> string list" where
  "plain_calls i name =
     map fst [api_login name name, api_logout, api_updateUser i undefined, api_deleteUser i, api_updateMountpoint i undefined,
       api_deleteMountpoint i, api_listBindings, api_listUserBindings i, api_deleteBinding i, api_listSources,
       api_listClients, api_kickSource name, api_kickClient name, api_getStats]"

text \<open>
  A page that is opened or reloaded under its own address gets the application, from the development server
  as well as from the built files; the calls of the client go to the backend instead.
\<close>

theorem pages_and_calls_are_kept_apart:
  "(\<forall>p \<in> set page_paths. dev_proxy (vite_config resolve_path) p = None
      \<and> (\<not> exists (tl p) \<longrightarrow> p = ''/'' \<or> spaHandler exists p = Some ''/''))
   \<and> (\<forall>p \<in> set (plain_calls i name). dev_proxy (vite_config resolve_path) p \<noteq> None)"
  by (auto simp: page_paths_def navItems_def dev_proxy_def vite_config_def spaHandler_def plain_calls_def
      api_login_def api_logout_def api_updateUser_def api_deleteUser_def api_updateMountpoint_def api_deleteMountpoint_def
      api_listBindings_def api_listUserBindings_def api_deleteBinding_def api_listSources_def api_listClients_def
      api_kickSource_def api_kickClient_def api_getStats_def)

end
