(* ===== verification/Database.thy ===== *)
theory Database
  imports Prelude
begin

text \<open>
  \<open>internal/database/database.go\<close>: opening the file and bringing the schema up to date. A table is its
  columns and its rows; of SQLite the statements that the source executes are modelled, with the errors
  it documents for them (no such table, duplicate column, a name that is taken, a foreign key that is
  violated on a connection with \<open>foreign_keys=ON\<close>). Every statement commits by itself, as the source
  opens no transaction: a statement that fails, and a process that is killed before it, leave the tables
  of the statements before. \<open>db_io\<close> says which queries and statements go through.
\<close>

section \<open>Tables and statements\<close>

datatype sql_value = V_null | V_int int | V_text string

type_synonym sql_row = "string \<Rightarrow> sql_value"

record sql_table =
  tb_cols :: "string list"
  tb_rows :: "sql_row list"
  tb_seq :: int

record database =
  db_tables :: "string \<rightharpoonup> sql_table"
  db_fk :: bool

abbreviation "t_users \<equiv> ''users''"
abbreviation "t_mounts \<equiv> ''mountpoints''"
abbreviation "t_bindings \<equiv> ''user_mountpoint_bindings''"
abbreviation "t_new \<equiv> ''_bindings_new''"

definition set_table :: "string \<Rightarrow> sql_table \<Rightarrow> database \<Rightarrow> database" where
  "set_table n t db = db\<lparr>db_tables := (db_tables db)(n \<mapsto> t)\<rparr>"

definition pair_of :: "sql_row \<Rightarrow> sql_value \<times> sql_value" where
  "pair_of r = (r ''user_id'', r ''mountpoint_id'')"

definition row_pairs :: "sql_table option \<Rightarrow> (sql_value \<times> sql_value) list" where
  "row_pairs t = (case t of None \<Rightarrow> [] | Some t \<Rightarrow> map pair_of (tb_rows t))"

definition row_ids :: "sql_table option \<Rightarrow> sql_value list" where
  "row_ids t = (case t of None \<Rightarrow> [] | Some t \<Rightarrow> map (\<lambda>r. r ''id'') (tb_rows t))"

text \<open>\<open>INSERT OR IGNORE\<close> skips a pair that is there and one with a NULL.\<close>

definition insert_pair :: "sql_value \<times> sql_value \<Rightarrow> sql_table \<Rightarrow> sql_table" where
  "insert_pair p t =
     (if fst p = V_null \<or> snd p = V_null \<or> p \<in> set (map pair_of (tb_rows t)) then t
      else t\<lparr>tb_rows := tb_rows t @ [(\<lambda>c. V_null)(''id'' := V_int (tb_seq t + 1), ''user_id'' := fst p, ''mountpoint_id'' := snd p)],
             tb_seq := tb_seq t + 1\<rparr>)"

definition fk_holds :: "database \<Rightarrow> sql_value \<times> sql_value \<Rightarrow> bool" where
  "fk_holds db p \<longleftrightarrow> fst p \<in> set (row_ids (db_tables db t_users)) \<and> snd p \<in> set (row_ids (db_tables db t_mounts))"

datatype sql_stmt =
    Pragma_wal
  | Pragma_fk
  | Create_if_missing string "string list"
  | Copy_pairs string string
  | Drop_table string
  | Rename_table string string
  | Add_column string string sql_value

fun exec_stmt :: "sql_stmt \<Rightarrow> database \<Rightarrow> database option" where
  "exec_stmt Pragma_wal db = Some db"
| "exec_stmt Pragma_fk db = Some (db\<lparr>db_fk := True\<rparr>)"
| "exec_stmt (Create_if_missing n cols) db =
     (if db_tables db n \<noteq> None then Some db
      else Some (set_table n \<lparr>tb_cols = cols, tb_rows = [], tb_seq = 0\<rparr> db))"
| "exec_stmt (Copy_pairs target source) db =
     (case (db_tables db target, db_tables db source) of
        (Some t, Some s) \<Rightarrow>
          let t' = fold insert_pair (remdups (row_pairs (Some s))) t
          in if db_fk db \<and> \<not> list_all (fk_holds db) (drop (length (tb_rows t)) (map pair_of (tb_rows t')))
             then None else Some (set_table target t' db)
      | _ \<Rightarrow> None)"
| "exec_stmt (Drop_table n) db =
     (if db_tables db n = None then None else Some (db\<lparr>db_tables := (db_tables db)(n := None)\<rparr>))"
| "exec_stmt (Rename_table old new) db =
     (case (db_tables db old, db_tables db new) of
        (Some t, None) \<Rightarrow> Some (db\<lparr>db_tables := (db_tables db)(old := None, new \<mapsto> t)\<rparr>)
      | _ \<Rightarrow> None)"
| "exec_stmt (Add_column n c d) db =
     (case db_tables db n of
        None \<Rightarrow> None
      | Some t \<Rightarrow>
          if c \<in> set (tb_cols t) then None
          else Some (set_table n (t\<lparr>tb_cols := tb_cols t @ [c], tb_rows := map (\<lambda>r. r(c := d)) (tb_rows t)\<rparr>) db))"

section \<open>Opening the database\<close>

record db_io =
  io_open :: bool
  io_query :: "string \<Rightarrow> string \<Rightarrow> bool"
  io_exec :: "sql_stmt \<Rightarrow> bool"

text \<open>\<open>db.Exec\<close> with one or several statements: whether it succeeds, and what it leaves.\<close>

fun exec_all :: "db_io \<Rightarrow> sql_stmt list \<Rightarrow> database \<Rightarrow> bool \<times> database" where
  "exec_all io [] db = (True, db)"
| "exec_all io (s # ss) db =
     (if io_exec io s
      then (case exec_stmt s db of None \<Rightarrow> (False, db) | Some db' \<Rightarrow> exec_all io ss db')
      else (False, db))"

definition has_column :: "database \<Rightarrow> string \<Rightarrow> string \<Rightarrow> bool" where
  "has_column db n c = (case db_tables db n of None \<Rightarrow> False | Some t \<Rightarrow> c \<in> set (tb_cols t))"

definition user_cols :: "string list" where
  "user_cols = [''id'', ''username'', ''password_hash'', ''role'', ''enabled'']"

definition mount_cols :: "string list" where
  "mount_cols =
     [''id'', ''name'', ''description'', ''enabled'', ''format'', ''source_auth_mode'', ''source_secret_hash'',
      ''write_queue'', ''write_timeout_ms'', ''max_clients'']"

definition binding_cols :: "string list" where
  "binding_cols = [''id'', ''user_id'', ''mountpoint_id'']"

definition schema :: "sql_stmt list" where
  "schema = [Create_if_missing t_users user_cols, Create_if_missing t_mounts mount_cols,
             Create_if_missing t_bindings binding_cols]"

definition bindings_migration :: "sql_stmt list" where
  "bindings_migration =
     [Create_if_missing t_new binding_cols, Copy_pairs t_new t_bindings, Drop_table t_bindings,
      Rename_table t_new t_bindings]"

definition migrateBindings :: "db_io \<Rightarrow> database \<Rightarrow> bool \<times> database" where
  "migrateBindings io db =
     (if \<not> io_query io t_bindings ''permission'' \<or> \<not> has_column db t_bindings ''permission'' then (True, db)
      else exec_all io bindings_migration db)"

definition migrateMountpointMaxClients :: "db_io \<Rightarrow> database \<Rightarrow> bool \<times> database" where
  "migrateMountpointMaxClients io db =
     (if \<not> io_query io t_mounts ''max_clients'' \<or> has_column db t_mounts ''max_clients'' then (True, db)
      else exec_all io [Add_column t_mounts ''max_clients'' (V_int 0)] db)"

definition antenna_migration :: "sql_stmt list" where
  "antenna_migration =
     [Add_column t_mounts ''antenna_lat'' V_null, Add_column t_mounts ''antenna_lon'' V_null,
      Add_column t_mounts ''antenna_height'' V_null, Add_column t_mounts ''antenna_updated_at'' V_null]"

definition migrateAntennaPosition :: "db_io \<Rightarrow> database \<Rightarrow> bool \<times> database" where
  "migrateAntennaPosition io db =
     (if \<not> io_query io t_mounts ''antenna_lat'' \<or> has_column db t_mounts ''antenna_lat'' then (True, db)
      else exec_all io antenna_migration db)"

definition open_stages :: "db_io \<Rightarrow> (string \<times> (database \<Rightarrow> bool \<times> database)) list" where
  "open_stages io =
     [(''set WAL mode'', exec_all io [Pragma_wal]), (''enable foreign keys'', exec_all io [Pragma_fk]),
      (''create schema'', exec_all io schema), (''migrate bindings'', migrateBindings io),
      (''migrate max_clients'', migrateMountpointMaxClients io),
      (''migrate antenna_position'', migrateAntennaPosition io)]"

fun run_stages :: "(string \<times> (database \<Rightarrow> bool \<times> database)) list \<Rightarrow> database \<Rightarrow> string option \<times> database" where
  "run_stages [] db = (None, db)"
| "run_stages ((what, stage) # rest) db =
     (let (ok, db') = stage db in if ok then run_stages rest db' else (Some what, db'))"

text \<open>The error says which step failed; the database is closed then. A new process has its own connection.\<close>

definition Open :: "db_io \<Rightarrow> database \<Rightarrow> string option \<times> database" where
  "Open io db =
     (if \<not> io_open io then (Some ''open database'', db) else run_stages (open_stages io) (db\<lparr>db_fk := False\<rparr>))"

section \<open>Databases of earlier versions\<close>

definition all_fine :: db_io where
  "all_fine = \<lparr>io_open = True, io_query = (\<lambda>t c. True), io_exec = (\<lambda>s. True)\<rparr>"

definition antenna_rest :: "string list" where
  "antenna_rest = [''antenna_lon'', ''antenna_height'', ''antenna_updated_at'']"

definition binding_pairs :: "database \<Rightarrow> (sql_value \<times> sql_value) set" where
  "binding_pairs db = set (row_pairs (db_tables db t_bindings))"

definition users_shape :: "database \<Rightarrow> bool" where
  "users_shape db \<longleftrightarrow> (\<forall>t. db_tables db t_users = Some t \<longrightarrow> set user_cols \<subseteq> set (tb_cols t))"

definition mounts_shape :: "database \<Rightarrow> bool" where
  "mounts_shape db \<longleftrightarrow> (\<forall>t. db_tables db t_mounts = Some t \<longrightarrow>
     set (butlast mount_cols) \<subseteq> set (tb_cols t)
     \<and> (''antenna_lat'' \<notin> set (tb_cols t) \<longrightarrow> set antenna_rest \<inter> set (tb_cols t) = {}))"

definition bindings_shape :: "database \<Rightarrow> bool" where
  "bindings_shape db \<longleftrightarrow> (\<forall>t. db_tables db t_bindings = Some t \<longrightarrow> set binding_cols \<subseteq> set (tb_cols t))
     \<and> (\<forall>p \<in> binding_pairs db. fst p \<noteq> V_null \<and> snd p \<noteq> V_null \<and> fk_holds db p)"

text \<open>
  A database of this or an earlier version: tables that are missing or have the columns they always had,
  bindings without NULLs that refer to rows which exist.
\<close>

definition of_some_version :: "database \<Rightarrow> bool" where
  "of_some_version db \<longleftrightarrow> users_shape db \<and> mounts_shape db \<and> bindings_shape db"

definition leftover_ok :: "database \<Rightarrow> bool" where
  "leftover_ok db \<longleftrightarrow> (\<forall>t. has_column db t_bindings ''permission'' \<and> db_tables db t_new = Some t \<longrightarrow>
     set binding_cols \<subseteq> set (tb_cols t) \<and> ''permission'' \<notin> set (tb_cols t) \<and> set (map pair_of (tb_rows t)) \<subseteq> binding_pairs db)"

definition antenna_complete :: "database \<Rightarrow> bool" where
  "antenna_complete db \<longleftrightarrow> (has_column db t_mounts ''antenna_lat'' \<longrightarrow> list_all (has_column db t_mounts) antenna_rest)"

definition current_schema :: "database \<Rightarrow> bool" where
  "current_schema db \<longleftrightarrow> list_all (has_column db t_users) user_cols \<and> list_all (has_column db t_mounts) mount_cols
     \<and> list_all (has_column db t_mounts) (''antenna_lat'' # antenna_rest)
     \<and> list_all (has_column db t_bindings) binding_cols \<and> \<not> has_column db t_bindings ''permission''"

lemmas shape_defs = users_shape_def mounts_shape_def bindings_shape_def of_some_version_def leftover_ok_def
lemmas cols_defs = user_cols_def mount_cols_def binding_cols_def antenna_rest_def

section \<open>The copy of the bindings\<close>

lemma pair_of_new [simp]: "pair_of ((\<lambda>c. V_null)(''id'' := i, ''user_id'' := u, ''mountpoint_id'' := m)) = (u, m)"
  by (simp add: pair_of_def)

lemma insert_pair_cols [simp]: "tb_cols (fold insert_pair ps t) = tb_cols t"
  by (induction ps arbitrary: t) (auto simp: insert_pair_def)

lemma fold_insert_rows:
  "\<exists>extra. tb_rows (fold insert_pair ps t) = tb_rows t @ extra \<and> set (map pair_of extra) \<subseteq> set ps"
proof (induction ps arbitrary: t)
  case (Cons p ps)
  obtain e where "tb_rows (insert_pair p t) = tb_rows t @ e" "set (map pair_of e) \<subseteq> {p}"
    by (cases "fst p = V_null \<or> snd p = V_null \<or> p \<in> set (map pair_of (tb_rows t))")
      (simp_all add: insert_pair_def)
  moreover obtain e' where "tb_rows (fold insert_pair ps (insert_pair p t)) = tb_rows (insert_pair p t) @ e'"
    "set (map pair_of e') \<subseteq> set ps" using Cons by blast
  ultimately show ?case by (intro exI [of _ "e @ e'"]) auto
qed simp

lemma fold_insert_pairs:
  assumes "\<forall>p \<in> set ps. fst p \<noteq> V_null \<and> snd p \<noteq> V_null"
  shows "set (map pair_of (tb_rows (fold insert_pair ps t))) = set (map pair_of (tb_rows t)) \<union> set ps"
  using assms
proof (induction ps arbitrary: t)
  case (Cons p ps)
  then have "set (map pair_of (tb_rows (insert_pair p t))) = insert p (set (map pair_of (tb_rows t)))"
    by (auto simp: insert_pair_def)
  with Cons show ?case by simp
qed simp

text \<open>On bindings that refer to existing rows the copy succeeds and loses no pair.\<close>

lemma copy_bindings:
  assumes "bindings_shape db" "db_tables db t_new = Some t" "db_tables db t_bindings = Some b"
    "set (map pair_of (tb_rows t)) \<subseteq> binding_pairs db"
  obtains t' where "exec_stmt (Copy_pairs t_new t_bindings) db = Some (set_table t_new t' db)"
    "tb_cols t' = tb_cols t" "set (map pair_of (tb_rows t')) = binding_pairs db"
proof -
  let ?t = "fold insert_pair (remdups (row_pairs (Some b))) t"
  have ps: "set (remdups (row_pairs (Some b))) = binding_pairs db" by (simp add: binding_pairs_def assms(3))
  obtain extra where e: "tb_rows ?t = tb_rows t @ extra" "set (map pair_of extra) \<subseteq> binding_pairs db"
    using fold_insert_rows [of "remdups (row_pairs (Some b))" t] ps by auto
  then have "list_all (fk_holds db) (drop (length (tb_rows t)) (map pair_of (tb_rows ?t)))"
    using assms(1) by (auto simp: bindings_shape_def list_all_iff)
  then have "exec_stmt (Copy_pairs t_new t_bindings) db = Some (set_table t_new ?t db)"
    using assms(2,3) by (simp add: Let_def)
  moreover have "set (map pair_of (tb_rows ?t)) = binding_pairs db"
    using fold_insert_pairs [of "remdups (row_pairs (Some b))" t] assms(1,4) ps by (auto simp: bindings_shape_def)
  ultimately show thesis using that [of ?t] by simp
qed

section \<open>Each step on a database of some version\<close>

text \<open>\<open>recoverable P\<close>: some version, with the pairs \<open>P\<close>, maybe with the rest of an interrupted migration.\<close>

definition recoverable :: "(sql_value \<times> sql_value) set \<Rightarrow> database \<Rightarrow> bool" where
  "recoverable P db \<longleftrightarrow> of_some_version db \<and> leftover_ok db \<and> binding_pairs db = P"

definition lost_bindings :: "(sql_value \<times> sql_value) set \<Rightarrow> database \<Rightarrow> bool" where
  "lost_bindings P db \<longleftrightarrow> users_shape db \<and> mounts_shape db \<and> db_tables db t_bindings = None
     \<and> (\<exists>t. db_tables db t_new = Some t \<and> set (map pair_of (tb_rows t)) = P)"

lemma exec_all_keeps:
  assumes "\<And>s db db'. s \<in> set ss \<Longrightarrow> I db \<Longrightarrow> exec_stmt s db = Some db' \<Longrightarrow> I db'" "I db"
  shows "I (snd (exec_all io ss db))"
  using assms by (induction ss arbitrary: db) (auto split: option.split)

lemma table_set [simp]:
  "db_tables (set_table n t db) k = (if k = n then Some t else db_tables db k)"
  "db_fk (set_table n t db) = db_fk db"
  by (simp_all add: set_table_def)

lemma fk_flag [simp]:
  "of_some_version (db\<lparr>db_fk := b\<rparr>) = of_some_version db" "binding_pairs (db\<lparr>db_fk := b\<rparr>) = binding_pairs db"
  "leftover_ok (db\<lparr>db_fk := b\<rparr>) = leftover_ok db" "recoverable P (db\<lparr>db_fk := b\<rparr>) = recoverable P db"
  "lost_bindings P (db\<lparr>db_fk := b\<rparr>) = lost_bindings P db"
  by (simp_all add: shape_defs binding_pairs_def fk_holds_def recoverable_def lost_bindings_def has_column_def)

lemma has_column_set [simp]:
  "has_column (set_table n t db) k c = (if k = n then c \<in> set (tb_cols t) else has_column db k c)"
  by (simp add: has_column_def)

lemma row_pairs_None [simp]: "row_pairs None = []" "row_pairs (Some t) = map pair_of (tb_rows t)"
  "row_ids None = []" "row_ids (Some t) = map (\<lambda>r. r ''id'') (tb_rows t)"
  by (simp_all add: row_pairs_def row_ids_def)

text \<open>What a statement leaves alone when it adds an empty table, or a column to the mountpoints.\<close>

definition same_contents :: "database \<Rightarrow> database \<Rightarrow> bool" where
  "same_contents db db' \<longleftrightarrow>
     row_ids (db_tables db' t_users) = row_ids (db_tables db t_users)
     \<and> row_ids (db_tables db' t_mounts) = row_ids (db_tables db t_mounts)
     \<and> row_pairs (db_tables db' t_bindings) = row_pairs (db_tables db t_bindings)
     \<and> db_tables db' t_new = db_tables db t_new
     \<and> has_column db' t_bindings ''permission'' = has_column db t_bindings ''permission''"

lemma same_contents_simps:
  assumes "same_contents db db'"
  shows "binding_pairs db' = binding_pairs db" "fk_holds db' p = fk_holds db p" "leftover_ok db' = leftover_ok db"
  using assms by (simp_all add: same_contents_def binding_pairs_def fk_holds_def leftover_ok_def)

lemma same_contents_recoverable:
  assumes "recoverable P db" "same_contents db db'" "users_shape db'" "mounts_shape db'"
    "\<And>t. db_tables db' t_bindings = Some t \<Longrightarrow> set binding_cols \<subseteq> set (tb_cols t)"
  shows "recoverable P db'"
  using assms(1,3-5)
  by (simp add: recoverable_def of_some_version_def bindings_shape_def same_contents_simps [OF assms(2)])

lemma create_keeps:
  assumes "(n, cols) \<in> {(t_users, user_cols), (t_mounts, mount_cols), (t_bindings, binding_cols)}"
    "recoverable P db" "exec_stmt (Create_if_missing n cols) db = Some db'"
  shows "recoverable P db'"
proof (cases "db_tables db n = None")
  case True
  with assms(3) have db': "db' = set_table n \<lparr>tb_cols = cols, tb_rows = [], tb_seq = 0\<rparr> db" by simp
  from assms(2) have sh: "users_shape db" "mounts_shape db" "bindings_shape db"
    by (simp_all add: recoverable_def of_some_version_def)
  show ?thesis
  proof (rule same_contents_recoverable [OF assms(2)])
    show "same_contents db db'"
      using assms(1) True by (auto simp: same_contents_def db' has_column_def [of db] cols_defs)
    show "users_shape db'" using assms(1) sh(1) by (auto simp: users_shape_def db')
    show "mounts_shape db'" using assms(1) sh(2) by (auto simp: mounts_shape_def db' mount_cols_def antenna_rest_def)
    show "set binding_cols \<subseteq> set (tb_cols t)" if "db_tables db' t_bindings = Some t" for t
      using assms(1) sh(3) that by (auto simp: bindings_shape_def db' split: if_splits)
  qed
qed (use assms in auto)

lemma schema_keeps: "recoverable P db \<Longrightarrow> recoverable P (snd (exec_all io schema db))"
  by (rule exec_all_keeps) (auto simp: schema_def simp del: exec_stmt.simps intro: create_keeps)

lemma add_column_keeps:
  assumes "exec_stmt (Add_column t_mounts c d) db = Some db'" "recoverable P db" "c \<noteq> ''id''"
    "c \<in> set antenna_rest \<Longrightarrow> has_column db t_mounts ''antenna_lat''"
  shows "recoverable P db'"
proof -
  from assms(1) obtain t where t: "db_tables db t_mounts = Some t"
    and db': "db' = set_table t_mounts (t\<lparr>tb_cols := tb_cols t @ [c], tb_rows := map (\<lambda>r. r(c := d)) (tb_rows t)\<rparr>) db"
    by (auto split: option.splits if_splits)
  from assms(2) have sh: "users_shape db" "mounts_shape db" "bindings_shape db"
    by (simp_all add: recoverable_def of_some_version_def)
  show ?thesis
  proof (rule same_contents_recoverable [OF assms(2)])
    show "same_contents db db'" using t assms(3) by (simp add: same_contents_def db' comp_def)
    show "users_shape db'" using sh(1) by (simp add: users_shape_def db')
    show "mounts_shape db'" using sh(2) assms(4) t by (auto simp: mounts_shape_def db' has_column_def)
    show "set binding_cols \<subseteq> set (tb_cols t)" if "db_tables db' t_bindings = Some t" for t
      using sh(3) that by (simp add: bindings_shape_def db')
  qed
qed

lemma add_column_has:
  "exec_stmt (Add_column t_mounts c d) db = Some db' \<Longrightarrow>
     has_column db' t_mounts k = (k = c \<or> has_column db t_mounts k)"
  by (auto simp: has_column_def split: option.splits if_splits)

lemma max_clients_keeps: "recoverable P db \<Longrightarrow> recoverable P (snd (migrateMountpointMaxClients io db))"
  unfolding migrateMountpointMaxClients_def
  by (auto simp: antenna_rest_def simp del: exec_stmt.simps intro: add_column_keeps split: option.split)

definition antenna_rest_migration :: "sql_stmt list" where
  "antenna_rest_migration = map (\<lambda>c. Add_column t_mounts c V_null) antenna_rest"

lemma antenna_migration_split: "antenna_migration = Add_column t_mounts ''antenna_lat'' V_null # antenna_rest_migration"
  by (simp add: antenna_migration_def antenna_rest_migration_def antenna_rest_def)

lemma antenna_keeps: "recoverable P db \<Longrightarrow> recoverable P (snd (migrateAntennaPosition io db))"
proof -
  assume r: "recoverable P db"
  let ?I = "\<lambda>db. recoverable P db \<and> has_column db t_mounts ''antenna_lat''"
  have rest: "?I (snd (exec_all io antenna_rest_migration d))" if "?I d" for d
  proof (rule exec_all_keeps [of _ ?I])
    show "?I d" by (rule that)
    fix s d d'
    assume "s \<in> set antenna_rest_migration" "?I d" "exec_stmt s d = Some d'"
    then show "?I d'"
      using add_column_keeps add_column_has by (auto simp: antenna_rest_migration_def antenna_rest_def simp del: exec_stmt.simps)
  qed
  have "recoverable P (snd (exec_all io antenna_migration db))"
  proof (cases "io_exec io (Add_column t_mounts ''antenna_lat'' V_null) \<and> exec_stmt (Add_column t_mounts ''antenna_lat'' V_null) db \<noteq> None")
    case True
    then obtain d where d: "io_exec io (Add_column t_mounts ''antenna_lat'' V_null)"
      "exec_stmt (Add_column t_mounts ''antenna_lat'' V_null) db = Some d" by blast
    have "?I d" using add_column_keeps [OF d(2) r] add_column_has [OF d(2)] by (simp add: antenna_rest_def)
    with rest d show ?thesis by (simp add: antenna_migration_split del: exec_stmt.simps)
  qed (use r in \<open>auto simp: antenna_migration_split simp del: exec_stmt.simps\<close>)
  with r show ?thesis by (simp add: migrateAntennaPosition_def)
qed

section \<open>The migration of the bindings\<close>

lemma recoverable_new:
  assumes "recoverable P db" "set binding_cols \<subseteq> set (tb_cols t)" "''permission'' \<notin> set (tb_cols t)"
    "set (map pair_of (tb_rows t)) \<subseteq> P"
  shows "recoverable P (set_table t_new t db)"
  using assms
  by (simp add: recoverable_def of_some_version_def users_shape_def mounts_shape_def bindings_shape_def leftover_ok_def
      binding_pairs_def fk_holds_def)

lemma create_new:
  assumes "recoverable P db"
  obtains d t where "exec_stmt (Create_if_missing t_new binding_cols) db = Some d" "recoverable P d"
    "db_tables d t_new = Some t" "\<And>n. n \<noteq> t_new \<Longrightarrow> db_tables d n = db_tables db n"
proof (cases "db_tables db t_new")
  case None
  let ?t = "\<lparr>tb_cols = binding_cols, tb_rows = [], tb_seq = 0\<rparr>"
  have "recoverable P (set_table t_new ?t db)"
    by (rule recoverable_new [OF assms]) (simp_all add: binding_cols_def)
  with that [of "set_table t_new ?t db" ?t] None show thesis by simp
next
  case (Some t)
  with that [of db t] assms show thesis by simp
qed

lemma binding_stages:
  assumes "recoverable P db" "has_column db t_bindings ''permission''"
  obtains d1 d2 d3 d4 where
    "exec_stmt (Create_if_missing t_new binding_cols) db = Some d1" "recoverable P d1"
    "exec_stmt (Copy_pairs t_new t_bindings) d1 = Some d2" "recoverable P d2"
    "exec_stmt (Drop_table t_bindings) d2 = Some d3" "lost_bindings P d3"
    "exec_stmt (Rename_table t_new t_bindings) d3 = Some d4" "recoverable P d4"
    "\<not> has_column d4 t_bindings ''permission''" "list_all (has_column d4 t_bindings) binding_cols"
    "db_tables d4 t_users = db_tables db t_users" "db_tables d4 t_mounts = db_tables db t_mounts"
proof -
  from assms(1) obtain d1 t where d1: "exec_stmt (Create_if_missing t_new binding_cols) db = Some d1" "recoverable P d1"
    "db_tables d1 t_new = Some t" "\<And>n. n \<noteq> t_new \<Longrightarrow> db_tables d1 n = db_tables db n" by (rule create_new) blast
  from assms(2) obtain b where b: "db_tables d1 t_bindings = Some b"
    by (auto simp: has_column_def d1(4) split: option.splits)
  have perm: "has_column d1 t_bindings ''permission''" using assms(2) by (simp add: has_column_def d1(4))
  have "bindings_shape d1" "leftover_ok d1" and p1: "binding_pairs d1 = P"
    using d1(2) by (simp_all only: recoverable_def of_some_version_def)
  with d1(3) perm have sh: "bindings_shape d1" "set binding_cols \<subseteq> set (tb_cols t)" "''permission'' \<notin> set (tb_cols t)"
    "set (map pair_of (tb_rows t)) \<subseteq> binding_pairs d1" "binding_pairs d1 = P"
    by (auto simp only: leftover_ok_def)
  from copy_bindings [OF sh(1) d1(3) b sh(4)] obtain t' where t':
    "exec_stmt (Copy_pairs t_new t_bindings) d1 = Some (set_table t_new t' d1)" "tb_cols t' = tb_cols t"
    "set (map pair_of (tb_rows t')) = P" unfolding sh(5) by metis
  let ?d2 = "set_table t_new t' d1"
  let ?d3 = "?d2\<lparr>db_tables := (db_tables ?d2)(t_bindings := None)\<rparr>"
  let ?d4 = "?d3\<lparr>db_tables := (db_tables ?d3)(t_new := None, t_bindings \<mapsto> t')\<rparr>"
  have r2: "recoverable P ?d2" using recoverable_new [OF d1(2)] sh t' by simp
  then have some: "users_shape ?d2" "mounts_shape ?d2" "bindings_shape ?d2" "binding_pairs ?d2 = P"
    by (simp_all add: recoverable_def of_some_version_def)
  have l3: "lost_bindings P ?d3"
    using some(1,2) t'(3) by (simp add: lost_bindings_def users_shape_def mounts_shape_def)
  have fk: "fk_holds ?d4 = fk_holds ?d2" by (rule ext) (simp add: fk_holds_def)
  have p4: "binding_pairs ?d4 = P" using t'(3) by (simp add: binding_pairs_def)
  have "bindings_shape ?d4"
    using some(3,4) sh(2) t'(2) unfolding bindings_shape_def fk p4 by simp
  then have r4: "recoverable P ?d4"
    using some(1,2) p4 by (simp add: recoverable_def of_some_version_def users_shape_def mounts_shape_def leftover_ok_def)
  show thesis
  proof (rule that [OF d1(1,2) t'(1) r2 _ l3 _ r4])
    show "exec_stmt (Drop_table t_bindings) ?d2 = Some ?d3" using b by simp
    show "exec_stmt (Rename_table t_new t_bindings) ?d3 = Some ?d4" by simp
    show "\<not> has_column ?d4 t_bindings ''permission''" using sh(3) t'(2) by (simp add: has_column_def)
    show "list_all (has_column ?d4 t_bindings) binding_cols"
      using sh(2) t'(2) by (auto simp: has_column_def list_all_iff)
    show "db_tables ?d4 t_users = db_tables db t_users" "db_tables ?d4 t_mounts = db_tables db t_mounts"
      by (simp_all add: d1(4))
  qed
qed

text \<open>The only way to lose the pairs: everything goes through up to the last statement, and that does not.\<close>

definition rename_missed :: "db_io \<Rightarrow> bool" where
  "rename_missed io \<longleftrightarrow> list_all (io_exec io) (butlast bindings_migration) \<and> \<not> io_exec io (Rename_table t_new t_bindings)"

lemma migrateBindings_cases:
  assumes "recoverable P db"
  shows "if io_query io t_bindings ''permission'' \<and> has_column db t_bindings ''permission'' \<and> rename_missed io
    then \<not> fst (migrateBindings io db) \<and> lost_bindings P (snd (migrateBindings io db))
    else recoverable P (snd (migrateBindings io db))"
proof (cases "io_query io t_bindings ''permission'' \<and> has_column db t_bindings ''permission''")
  case True
  then obtain d1 d2 d3 d4 where
    "exec_stmt (Create_if_missing t_new binding_cols) db = Some d1" "recoverable P d1"
    "exec_stmt (Copy_pairs t_new t_bindings) d1 = Some d2" "recoverable P d2"
    "exec_stmt (Drop_table t_bindings) d2 = Some d3" "lost_bindings P d3"
    "exec_stmt (Rename_table t_new t_bindings) d3 = Some d4" "recoverable P d4"
    using binding_stages [OF assms] by metis
  with True assms show ?thesis
    by (auto simp: migrateBindings_def bindings_migration_def rename_missed_def simp del: exec_stmt.simps)
qed (use assms in \<open>auto simp: migrateBindings_def\<close>)

text \<open>A start after the loss: the missing table is created again, empty.\<close>

lemma lost_then_schema:
  assumes "lost_bindings P db"
  shows "recoverable {} (set_table t_bindings \<lparr>tb_cols = binding_cols, tb_rows = [], tb_seq = 0\<rparr> db)"
  using assms
  by (simp add: lost_bindings_def recoverable_def of_some_version_def users_shape_def mounts_shape_def
      bindings_shape_def leftover_ok_def binding_pairs_def binding_cols_def)

section \<open>A start without faults\<close>

lemma fine [simp]: "io_open all_fine" "io_query all_fine t c" "io_exec all_fine s"
  by (simp_all add: all_fine_def)

lemma exec_all_append:
  "exec_all io (ss @ ts) db = (let (ok, d) = exec_all io ss db in if ok then exec_all io ts d else (False, d))"
  by (induction ss arbitrary: db) (auto split: option.split)

lemma create_fine:
  obtains d where "exec_stmt (Create_if_missing n cols) db = Some d" "\<And>k. k \<noteq> n \<Longrightarrow> db_tables d k = db_tables db k"
    "db_tables d n \<noteq> None" "db_tables db n \<noteq> None \<Longrightarrow> d = db"
    "db_tables db n = None \<Longrightarrow> d = set_table n \<lparr>tb_cols = cols, tb_rows = [], tb_seq = 0\<rparr> db"
  by (cases "db_tables db n = None") (auto simp: set_table_def)

text \<open>\<open>pending P\<close>: what a start may find; afterwards the pairs are \<open>P\<close>.\<close>

definition pending :: "(sql_value \<times> sql_value) set \<Rightarrow> database \<Rightarrow> bool" where
  "pending P db \<longleftrightarrow> recoverable P db \<or> (\<exists>Q. lost_bindings Q db \<and> P = {})"

lemma lost_set_table:
  assumes "lost_bindings P db" "(n, cols) \<in> {(t_users, user_cols), (t_mounts, mount_cols)}"
  shows "lost_bindings P (set_table n \<lparr>tb_cols = cols, tb_rows = [], tb_seq = 0\<rparr> db)"
proof -
  from assms(2) consider "n = t_users" "cols = user_cols" | "n = t_mounts" "cols = mount_cols" by auto
  then show ?thesis
    using assms(1)
    by cases (simp_all add: lost_bindings_def users_shape_def mounts_shape_def, simp add: mount_cols_def antenna_rest_def)
qed

lemma create_lost:
  assumes "lost_bindings P db" "(n, cols) \<in> {(t_users, user_cols), (t_mounts, mount_cols)}"
  shows "\<exists>d. exec_stmt (Create_if_missing n cols) db = Some d \<and> lost_bindings P d"
  using assms(1) lost_set_table [OF assms] by simp

text \<open>The rows of the other columns stay when a column is added.\<close>

definition grown :: "sql_table \<Rightarrow> sql_table \<Rightarrow> bool" where
  "grown t t' \<longleftrightarrow> set (tb_cols t) \<subseteq> set (tb_cols t')
     \<and> list_all2 (\<lambda>r r'. \<forall>c \<in> set (tb_cols t). r' c = r c) (tb_rows t) (tb_rows t')"

definition rows_kept :: "string \<Rightarrow> database \<Rightarrow> database \<Rightarrow> bool" where
  "rows_kept n db d \<longleftrightarrow> (\<forall>t. db_tables db n = Some t \<longrightarrow> (\<exists>t'. db_tables d n = Some t' \<and> grown t t'))"

lemma grown_refl [simp]: "grown t t"
  by (simp add: grown_def list_all2_same)

lemma grown_trans: "grown a b \<Longrightarrow> grown b c \<Longrightarrow> grown a c"
  unfolding grown_def by (fastforce simp: list_all2_conv_all_nth)

lemma rows_kept_trans: "rows_kept n a b \<Longrightarrow> rows_kept n b c \<Longrightarrow> rows_kept n a c"
  unfolding rows_kept_def using grown_trans by meson

lemma rows_kept_same: "db_tables d n = db_tables db n \<Longrightarrow> rows_kept n db d"
  by (simp add: rows_kept_def)

lemma rows_kept_column: "rows_kept n db d \<Longrightarrow> has_column db n c \<Longrightarrow> has_column d n c"
  by (force simp: rows_kept_def has_column_def grown_def split: option.splits)

text \<open>\<open>went db d\<close>: from one good state to a later one.\<close>

definition went :: "database \<Rightarrow> database \<Rightarrow> bool" where
  "went db d \<longleftrightarrow> rows_kept t_users db d \<and> rows_kept t_mounts db d"

lemma went_trans: "went a b \<Longrightarrow> went b c \<Longrightarrow> went a c"
  by (auto simp: went_def intro: rows_kept_trans)

lemma create_went: "exec_stmt (Create_if_missing n cols) db = Some d \<Longrightarrow> went db d"
  by (auto simp: went_def rows_kept_def split: if_splits)

lemma schema_fine:
  assumes "pending P db"
  obtains d where "exec_all all_fine schema db = (True, d)" "recoverable P d" "went db d"
    "list_all (has_column d t_users) user_cols" "list_all (has_column d t_mounts) (butlast mount_cols)"
    "list_all (has_column d t_bindings) binding_cols"
    "\<And>c. has_column d t_mounts c \<Longrightarrow> has_column db t_mounts c \<or> c \<in> set mount_cols"
proof -
  obtain d1 where d1: "exec_stmt (Create_if_missing t_users user_cols) db = Some d1" "db_tables d1 t_users \<noteq> None"
    by (rule create_fine [of t_users user_cols db]) blast
  obtain d2 where d2: "exec_stmt (Create_if_missing t_mounts mount_cols) d1 = Some d2"
    "\<And>k. k \<noteq> t_mounts \<Longrightarrow> db_tables d2 k = db_tables d1 k" "db_tables d2 t_mounts \<noteq> None"
    by (rule create_fine [of t_mounts mount_cols d1]) blast
  obtain d where d: "exec_stmt (Create_if_missing t_bindings binding_cols) d2 = Some d"
    "\<And>k. k \<noteq> t_bindings \<Longrightarrow> db_tables d k = db_tables d2 k" "db_tables d t_bindings \<noteq> None"
    "db_tables d2 t_bindings = None \<Longrightarrow> d = set_table t_bindings \<lparr>tb_cols = binding_cols, tb_rows = [], tb_seq = 0\<rparr> d2"
    by (rule create_fine [of t_bindings binding_cols d2]) (rule that, assumption+)
  have exec: "exec_all all_fine schema db = (True, d)"
    using d1(1) d2(1) d(1) by (simp add: schema_def del: exec_stmt.simps)
  have rec: "recoverable P d"
  proof (cases "recoverable P db")
    case True
    with schema_keeps [OF this, of all_fine] exec show ?thesis by simp
  next
    case False
    with assms obtain Q where l: "lost_bindings Q db" "P = {}" by (auto simp: pending_def)
    from create_lost [OF l(1), of t_users user_cols] d1(1) have l1: "lost_bindings Q d1" by auto
    from create_lost [OF l1, of t_mounts mount_cols] d2(1) have l2: "lost_bindings Q d2" by auto
    then have "db_tables d2 t_bindings = None" by (simp add: lost_bindings_def)
    from d(4) [OF this] lost_then_schema [OF l2] l(2) show ?thesis by simp
  qed
  have went: "went db d" using create_went [OF d1(1)] create_went [OF d2(1)] create_went [OF d(1)] went_trans by blast
  have t: "db_tables d t_users \<noteq> None" "db_tables d t_mounts \<noteq> None" using d1(2) d2(2,3) d(2) by auto
  from rec have sh: "users_shape d" "mounts_shape d" "bindings_shape d"
    by (simp_all only: recoverable_def of_some_version_def)
  show thesis
  proof (rule that [OF exec rec went])
    show "list_all (has_column d t_users) user_cols"
      using t(1) sh(1) by (auto simp: users_shape_def has_column_def list_all_iff)
    show "list_all (has_column d t_mounts) (butlast mount_cols)"
      using t(2) sh(2) by (auto simp: mounts_shape_def has_column_def list_all_iff)
    show "list_all (has_column d t_bindings) binding_cols"
      using d(3) sh(3) by (auto simp: bindings_shape_def has_column_def list_all_iff)
    show "has_column db t_mounts c \<or> c \<in> set mount_cols" if "has_column d t_mounts c" for c
    proof -
      have "has_column d2 t_mounts c" using that d(2) by (simp add: has_column_def)
      moreover have "has_column d1 t_mounts = has_column db t_mounts"
        using d1(1) by (auto simp: fun_eq_iff has_column_def split: if_splits)
      ultimately show ?thesis using d2(1) by (auto split: if_splits)
    qed
  qed
qed

lemma add_column_went: "exec_stmt (Add_column t_mounts c v) db = Some d \<Longrightarrow> went db d"
  by (auto simp: went_def rows_kept_def grown_def list_all2_conv_all_nth split: option.splits if_splits)

lemma add_column_fine:
  assumes "has_column db t_mounts ''id''" "\<not> has_column db t_mounts c"
  obtains d where "exec_stmt (Add_column t_mounts c v) db = Some d"
    "\<And>k. k \<noteq> t_mounts \<Longrightarrow> db_tables d k = db_tables db k"
  using assms by (auto simp: has_column_def split: option.splits)

text \<open>The two migrations of the mountpoints.\<close>

definition good :: "(sql_value \<times> sql_value) set \<Rightarrow> database \<Rightarrow> bool" where
  "good P d \<longleftrightarrow> recoverable P d \<and> list_all (has_column d t_users) user_cols
     \<and> list_all (has_column d t_mounts) (butlast mount_cols) \<and> list_all (has_column d t_bindings) binding_cols
     \<and> \<not> has_column d t_bindings ''permission''"

lemma good_grows:
  assumes "good P db" "recoverable P d" "went db d" "db_tables d t_bindings = db_tables db t_bindings"
  shows "good P d"
  using assms rows_kept_column unfolding good_def went_def by (auto simp: list_all_iff has_column_def [of _ t_bindings])

lemma add_column_good:
  assumes "good P db" "\<not> has_column db t_mounts c" "c \<noteq> ''id''"
    "c \<in> set antenna_rest \<Longrightarrow> has_column db t_mounts ''antenna_lat''"
  obtains d where "exec_stmt (Add_column t_mounts c v) db = Some d" "good P d" "went db d"
    "has_column d t_mounts = (has_column db t_mounts)(c := True)"
proof -
  have "has_column db t_mounts ''id''" using assms(1) by (simp add: good_def mount_cols_def)
  from this assms(2) obtain d where d: "exec_stmt (Add_column t_mounts c v) db = Some d"
    "\<And>k. k \<noteq> t_mounts \<Longrightarrow> db_tables d k = db_tables db k" by (rule add_column_fine) blast
  have "recoverable P d" using add_column_keeps [OF d(1) _ assms(3,4)] assms(1) by (simp add: good_def)
  then have "good P d" using good_grows [OF assms(1) _ add_column_went [OF d(1)]] d(2) by simp
  moreover have "has_column d t_mounts = (has_column db t_mounts)(c := True)"
    by (rule ext) (simp add: add_column_has [OF d(1)])
  ultimately show thesis using that d(1) add_column_went [OF d(1)] by blast
qed

lemma max_clients_fine:
  assumes "good P db"
  obtains d where "migrateMountpointMaxClients all_fine db = (True, d)" "good P d" "went db d"
    "has_column d t_mounts = (has_column db t_mounts)(''max_clients'' := True)"
proof (cases "has_column db t_mounts ''max_clients''")
  case True
  then show thesis
    using that [of db] assms by (auto simp: migrateMountpointMaxClients_def went_def rows_kept_def fun_upd_idem)
next
  case False
  from add_column_good [OF assms this, of "V_int 0"]
  obtain d where d: "exec_stmt (Add_column t_mounts ''max_clients'' (V_int 0)) db = Some d" "good P d" "went db d"
    "has_column d t_mounts = (has_column db t_mounts)(''max_clients'' := True)" by (auto simp: antenna_rest_def)
  with that False show thesis by (auto simp: migrateMountpointMaxClients_def simp del: exec_stmt.simps)
qed

lemma antenna_fine:
  assumes "good P db"
  obtains d where "migrateAntennaPosition all_fine db = (True, d)" "good P d" "went db d"
    "has_column d t_mounts ''antenna_lat''"
    "\<And>c. c \<in> set antenna_rest \<Longrightarrow> has_column d t_mounts c
        \<longleftrightarrow> has_column db t_mounts c \<or> \<not> has_column db t_mounts ''antenna_lat''"
proof (cases "has_column db t_mounts ''antenna_lat''")
  case True
  then show thesis using that [of db] assms by (auto simp: migrateAntennaPosition_def went_def rows_kept_def)
next
  case False
  have none: "\<not> has_column db t_mounts c" if "c \<in> set antenna_rest" for c
  proof -
    have "mounts_shape db" using assms by (simp add: good_def recoverable_def of_some_version_def)
    with False that show ?thesis by (auto simp: mounts_shape_def has_column_def split: option.splits)
  qed
  let ?h = "has_column db t_mounts"
  obtain a where a: "exec_stmt (Add_column t_mounts ''antenna_lat'' V_null) db = Some a" "good P a" "went db a"
    "has_column a t_mounts = ?h(''antenna_lat'' := True)"
    using add_column_good [OF assms False] by (auto simp: antenna_rest_def)
  obtain b where b: "exec_stmt (Add_column t_mounts ''antenna_lon'' V_null) a = Some b" "good P b" "went a b"
    "has_column b t_mounts = ?h(''antenna_lat'' := True, ''antenna_lon'' := True)"
    using add_column_good [OF a(2), of "''antenna_lon''"] none by (auto simp: antenna_rest_def a(4))
  obtain c where c: "exec_stmt (Add_column t_mounts ''antenna_height'' V_null) b = Some c" "good P c" "went b c"
    "has_column c t_mounts = ?h(''antenna_lat'' := True, ''antenna_lon'' := True, ''antenna_height'' := True)"
    using add_column_good [OF b(2), of "''antenna_height''"] none by (auto simp: antenna_rest_def b(4))
  obtain d where d: "exec_stmt (Add_column t_mounts ''antenna_updated_at'' V_null) c = Some d" "good P d" "went c d"
    "has_column d t_mounts = ?h(''antenna_lat'' := True, ''antenna_lon'' := True, ''antenna_height'' := True,
        ''antenna_updated_at'' := True)"
    using add_column_good [OF c(2), of "''antenna_updated_at''"] none by (auto simp: antenna_rest_def c(4))
  have "migrateAntennaPosition all_fine db = (True, d)"
    using False a(1) b(1) c(1) d(1)
    by (simp add: migrateAntennaPosition_def antenna_migration_def del: exec_stmt.simps)
  moreover have "went db d" using a(3) b(3) c(3) d(3) went_trans by blast
  moreover have "has_column d t_mounts k" if "k \<in> set antenna_rest" for k
    using that by (auto simp: d(4) antenna_rest_def)
  moreover have "has_column d t_mounts ''antenna_lat''" by (simp add: d(4))
  ultimately show thesis by (intro that [of d] d(2)) (use False in \<open>simp_all del: fun_upd_apply\<close>)
qed

text \<open>A whole start without faults.\<close>

lemma start_fine:
  assumes "pending P db"
  obtains d where "Open all_fine db = (None, d)" "good P d" "went db d"
    "has_column d t_mounts ''max_clients''" "has_column d t_mounts ''antenna_lat''"
    "\<And>c. c \<in> set antenna_rest \<Longrightarrow> has_column d t_mounts c
        \<longleftrightarrow> has_column db t_mounts c \<or> \<not> has_column db t_mounts ''antenna_lat''"
proof -
  have "pending P (db\<lparr>db_fk := True\<rparr>)" using assms by (simp add: pending_def)
  then obtain d1 where d1: "exec_all all_fine schema (db\<lparr>db_fk := True\<rparr>) = (True, d1)" "recoverable P d1"
    "went (db\<lparr>db_fk := True\<rparr>) d1" "list_all (has_column d1 t_users) user_cols"
    "list_all (has_column d1 t_mounts) (butlast mount_cols)" "list_all (has_column d1 t_bindings) binding_cols"
    "\<And>c. has_column d1 t_mounts c \<Longrightarrow> has_column (db\<lparr>db_fk := True\<rparr>) t_mounts c \<or> c \<in> set mount_cols"
    by (rule schema_fine) (rule that, assumption+)
  obtain d2 where d2: "migrateBindings all_fine d1 = (True, d2)" "good P d2" "went d1 d2"
    "has_column d2 t_mounts = has_column d1 t_mounts"
  proof (cases "has_column d1 t_bindings ''permission''")
    case False
    with d1 show thesis
      using that [of d1] by (simp add: migrateBindings_def good_def went_def rows_kept_def)
  next
    case True
    from binding_stages [OF d1(2) this] obtain e1 e2 e3 e4 where e:
      "exec_stmt (Create_if_missing t_new binding_cols) d1 = Some e1"
      "exec_stmt (Copy_pairs t_new t_bindings) e1 = Some e2"
      "exec_stmt (Drop_table t_bindings) e2 = Some e3"
      "exec_stmt (Rename_table t_new t_bindings) e3 = Some e4" "recoverable P e4"
      "\<not> has_column e4 t_bindings ''permission''" "list_all (has_column e4 t_bindings) binding_cols"
      "db_tables e4 t_users = db_tables d1 t_users" "db_tables e4 t_mounts = db_tables d1 t_mounts" by metis
    have "migrateBindings all_fine d1 = (True, e4)"
      using True e(1-4) by (simp add: migrateBindings_def bindings_migration_def del: exec_stmt.simps)
    moreover have "has_column e4 t_users = has_column d1 t_users" "has_column e4 t_mounts = has_column d1 t_mounts"
      by (simp_all add: fun_eq_iff has_column_def e(8,9))
    then have "good P e4" using e d1(4-6) by (simp add: good_def)
    moreover have "went d1 e4" using e(8,9) by (simp add: went_def rows_kept_same)
    ultimately show thesis using that \<open>has_column e4 t_mounts = has_column d1 t_mounts\<close> by blast
  qed
  obtain d3 where d3: "migrateMountpointMaxClients all_fine d2 = (True, d3)" "good P d3" "went d2 d3"
    "has_column d3 t_mounts = (has_column d2 t_mounts)(''max_clients'' := True)"
    using max_clients_fine [OF d2(2)] by metis
  obtain d where d: "migrateAntennaPosition all_fine d3 = (True, d)" "good P d" "went d3 d"
    "has_column d t_mounts ''antenna_lat''"
    "\<And>c. c \<in> set antenna_rest \<Longrightarrow> has_column d t_mounts c
        \<longleftrightarrow> has_column d3 t_mounts c \<or> \<not> has_column d3 t_mounts ''antenna_lat''"
    using antenna_fine [OF d3(2)] by metis
  have flag: "has_column (db\<lparr>db_fk := True\<rparr>) = has_column db" by (simp add: fun_eq_iff has_column_def)
  have went: "went db d"
  proof -
    have "went db (db\<lparr>db_fk := True\<rparr>)" by (simp add: went_def rows_kept_same)
    with d1(3) d2(3) d3(3) d(3) show ?thesis using went_trans by blast
  qed
  show thesis
  proof (rule that [OF _ d(2) went _ d(4)])
    show "Open all_fine db = (None, d)"
      using d1(1) d2(1) d3(1) d(1) by (simp add: Open_def open_stages_def)
    show "has_column d t_mounts ''max_clients''"
      using d(3) d3(4) rows_kept_column by (auto simp: went_def)
    have same: "has_column d3 t_mounts c = has_column db t_mounts c"
      if "c \<in> set antenna_rest \<or> c = ''antenna_lat''" for c
    proof -
      have "c \<notin> set mount_cols" "c \<noteq> ''max_clients''" using that by (auto simp: cols_defs)
      moreover have "has_column db t_mounts c \<Longrightarrow> has_column d1 t_mounts c"
        using d1(3) rows_kept_column [of t_mounts "db\<lparr>db_fk := True\<rparr>" d1 c] by (simp add: went_def flag)
      ultimately show ?thesis using d1(7) [of c] by (auto simp: d3(4) d2(4) flag)
    qed
    show "has_column d t_mounts c \<longleftrightarrow> has_column db t_mounts c \<or> \<not> has_column db t_mounts ''antenna_lat''"
      if "c \<in> set antenna_rest" for c
      using d(5) [OF that] same that by simp
  qed
qed

lemma open_current: "current_schema d \<Longrightarrow> Open all_fine d = (None, d\<lparr>db_fk := True\<rparr>)"
proof -
  assume c: "current_schema d"
  then have "has_column d t_users ''id''" "has_column d t_mounts ''id''" "has_column d t_bindings ''id''"
    by (simp_all add: current_schema_def cols_defs)
  then have "db_tables d t_users \<noteq> None" "db_tables d t_mounts \<noteq> None" "db_tables d t_bindings \<noteq> None"
    by (auto simp: has_column_def split: option.splits)
  then have "exec_all all_fine schema (d\<lparr>db_fk := True\<rparr>) = (True, d\<lparr>db_fk := True\<rparr>)" by (simp add: schema_def)
  moreover have "has_column (d\<lparr>db_fk := True\<rparr>) = has_column d" by (simp add: fun_eq_iff has_column_def)
  ultimately show ?thesis
    using c
    by (simp add: Open_def open_stages_def migrateBindings_def migrateMountpointMaxClients_def
        migrateAntennaPosition_def current_schema_def mount_cols_def)
qed

section \<open>A start with faults, or one that is killed\<close>

text \<open>When the pairs are lost: every step up to the last statement of the migration, and not that one.\<close>

definition bindings_lost :: "db_io \<Rightarrow> database \<Rightarrow> bool" where
  "bindings_lost io db \<longleftrightarrow> io_open io \<and> list_all (io_exec io) (Pragma_wal # Pragma_fk # schema)
     \<and> io_query io t_bindings ''permission'' \<and> has_column db t_bindings ''permission'' \<and> rename_missed io"

lemma stage_statements_went:
  assumes "s \<in> set (Pragma_wal # Pragma_fk # schema @ bindings_migration @ antenna_migration)
      \<or> s = Add_column t_mounts ''max_clients'' (V_int 0)" "exec_stmt s db = Some d"
  shows "went db d"
proof -
  from assms(1) consider "s = Pragma_wal" | "s = Pragma_fk" | n cols where "s = Create_if_missing n cols"
    | "s = Copy_pairs t_new t_bindings" | "s = Drop_table t_bindings" | "s = Rename_table t_new t_bindings"
    | c v where "s = Add_column t_mounts c v"
    by (auto simp: schema_def bindings_migration_def antenna_migration_def)
  then show ?thesis
  proof cases
    case 3
    with assms(2) create_went show ?thesis by blast
  next
    case 7
    with assms(2) add_column_went show ?thesis by blast
  qed (use assms(2) in \<open>auto simp: went_def rows_kept_def Let_def split: option.splits if_splits\<close>)
qed

lemma exec_all_went:
  assumes "set ss \<subseteq> set (Pragma_wal # Pragma_fk # schema @ bindings_migration @ antenna_migration)
      \<union> {Add_column t_mounts ''max_clients'' (V_int 0)}" "went a db"
  shows "went a (snd (exec_all io ss db))"
proof (rule exec_all_keeps [of _ "went a"])
  show "went a d'" if "s \<in> set ss" "went a d" "exec_stmt s d = Some d'" for s d d'
    using stage_statements_went [of s d d'] that assms(1) went_trans by auto
qed (rule assms(2))

lemma run_stages_went:
  assumes "\<forall>(what, stage) \<in> set st. \<forall>d. went a d \<longrightarrow> went a (snd (stage d))" "went a db"
  shows "went a (snd (run_stages st db))"
  using assms
proof (induction st arbitrary: db)
  case (Cons x st)
  obtain what stage where x: "x = (what, stage)" by fastforce
  obtain ok d where d: "stage db = (ok, d)" by fastforce
  with Cons.prems have "went a d" by (force simp: x)
  with Cons x d show ?case by simp
qed simp

lemma stages_went:
  assumes "went a d"
  shows "went a (snd (migrateBindings io d))" "went a (snd (migrateMountpointMaxClients io d))"
    "went a (snd (migrateAntennaPosition io d))"
  using assms exec_all_went [OF _ assms]
  by (auto simp: migrateBindings_def migrateMountpointMaxClients_def migrateAntennaPosition_def simp del: exec_all.simps)

lemma open_went: "went db (snd (Open io db))"
proof -
  have 0: "went db (db\<lparr>db_fk := False\<rparr>)" "went db db" by (simp_all add: went_def rows_kept_same)
  have "went db (snd (run_stages (open_stages io) (db\<lparr>db_fk := False\<rparr>)))"
    by (rule run_stages_went [OF _ 0(1)])
      (auto simp: open_stages_def stages_went simp del: exec_all.simps intro!: exec_all_went)
  with 0(2) show ?thesis by (simp add: Open_def)
qed

lemma schema_permission: "has_column (snd (exec_all io schema db)) t_bindings ''permission'' = has_column db t_bindings ''permission''"
  by (rule exec_all_keeps [of _ "\<lambda>d. has_column d t_bindings ''permission'' = has_column db t_bindings ''permission''"])
    (auto simp: schema_def binding_cols_def has_column_def split: if_splits)

lemma migrations_keep:
  assumes "recoverable P db"
  shows "recoverable P (snd (run_stages
    [(''migrate max_clients'', migrateMountpointMaxClients io), (''migrate antenna_position'', migrateAntennaPosition io)] db))"
  using max_clients_keeps [OF assms, of io] antenna_keeps [of P "snd (migrateMountpointMaxClients io db)" io]
  by (auto simp: split_beta Let_def)

text \<open>What any start leaves: the pairs, or the loss.\<close>

lemma open_leaves:
  assumes "recoverable P db"
  shows "if bindings_lost io db then lost_bindings P (snd (Open io db)) else recoverable P (snd (Open io db))"
proof (cases "io_open io \<and> io_exec io Pragma_wal \<and> io_exec io Pragma_fk")
  case False
  then show ?thesis using assms by (auto simp: bindings_lost_def Open_def open_stages_def)
next
  case True
  let ?d = "db\<lparr>db_fk := True\<rparr>"
  obtain ok s1 where s1: "exec_all io schema ?d = (ok, s1)" by fastforce
  have r1: "recoverable P s1" using schema_keeps [of P ?d io] assms s1 by simp
  have flag: "has_column ?d = has_column db" by (simp add: fun_eq_iff has_column_def)
  have perm: "has_column s1 t_bindings ''permission'' = has_column db t_bindings ''permission''"
    using schema_permission [of io ?d] s1 flag by simp
  have ok: "ok = list_all (io_exec io) schema"
    using s1 by (auto simp: schema_def split: if_splits)
  show ?thesis
  proof (cases ok)
    case False
    with True ok s1 r1 show ?thesis by (auto simp: bindings_lost_def Open_def open_stages_def)
  next
    case ok': True
    obtain ok2 s2 where s2: "migrateBindings io s1 = (ok2, s2)" by fastforce
    have run: "snd (Open io db) = (if ok2 then snd (run_stages [(''migrate max_clients'', migrateMountpointMaxClients io),
        (''migrate antenna_position'', migrateAntennaPosition io)] s2) else s2)"
      using True s1 s2 ok' by (simp add: Open_def open_stages_def del: exec_all.simps) (simp add: split_beta Let_def)
    have lost: "bindings_lost io db \<longleftrightarrow> io_query io t_bindings ''permission'' \<and> has_column s1 t_bindings ''permission'' \<and> rename_missed io"
      using True ok ok' perm by (auto simp: bindings_lost_def)
    show ?thesis
      using migrateBindings_cases [OF r1, of io] migrations_keep [of P s2 io] s2 lost by (auto simp: run)
  qed
qed

text \<open>
  C16. A start without faults brings the database of any earlier version up to date: it reports no error,
  afterwards every table has the columns of the current schema and the legacy permission column is gone, the
  users and mountpoints are there with the values they had, and so are the pairs of user and mountpoint; a
  further start changes no table.
\<close>

theorem open_upgrades:
  assumes "of_some_version db" "leftover_ok db" "antenna_complete db"
  shows "\<exists>d. Open all_fine db = (None, d) \<and> current_schema d \<and> binding_pairs d = binding_pairs db
    \<and> rows_kept t_users db d \<and> rows_kept t_mounts db d \<and> Open all_fine d = (None, d\<lparr>db_fk := True\<rparr>)"
proof -
  have "pending (binding_pairs db) db" using assms(1,2) by (simp add: pending_def recoverable_def)
  then obtain d where d: "Open all_fine db = (None, d)" "good (binding_pairs db) d" "went db d"
    "has_column d t_mounts ''max_clients''" "has_column d t_mounts ''antenna_lat''"
    "\<And>c. c \<in> set antenna_rest \<Longrightarrow> has_column d t_mounts c
        \<longleftrightarrow> has_column db t_mounts c \<or> \<not> has_column db t_mounts ''antenna_lat''"
    by (rule start_fine) (rule that, assumption+)
  have "list_all (has_column d t_mounts) mount_cols"
    using d(2,4) by (simp add: good_def mount_cols_def)
  moreover have "list_all (has_column d t_mounts) (''antenna_lat'' # antenna_rest)"
    using d(5,6) assms(3) by (auto simp: antenna_complete_def list_all_iff)
  ultimately have "current_schema d" using d(2) by (simp add: current_schema_def good_def)
  with open_current [OF this] d(1-3) show ?thesis by (auto simp: good_def recoverable_def went_def)
qed

text \<open>
  C17. Faults and interruptions. A start in which any query or statement fails, or whose process is killed
  before a statement, is followed by a start without faults: that one reports no error and finds users and
  mountpoints with the values they had; the pairs of user and mountpoint are all there, except in one case:
  the migration of a table with the legacy column had got to its last statement, the renaming, and that was
  not executed. Then the table had been dropped, the schema creates it again, empty, and every pair is gone.
  The antenna columns that such a start did not get to are added only if it had added none of them.
\<close>

theorem interrupted_start:
  assumes "of_some_version db" "leftover_ok db" "Open io db = (e1, db1)" "Open all_fine db1 = (e2, db2)"
  shows "e2 = None \<and> rows_kept t_users db db2 \<and> rows_kept t_mounts db db2
    \<and> binding_pairs db2 = (if bindings_lost io db then {} else binding_pairs db)
    \<and> (\<forall>c \<in> set antenna_rest. has_column db2 t_mounts c
        \<longleftrightarrow> has_column db1 t_mounts c \<or> \<not> has_column db1 t_mounts ''antenna_lat'')"
proof -
  let ?P = "if bindings_lost io db then {} else binding_pairs db"
  have "recoverable (binding_pairs db) db" using assms(1,2) by (simp add: recoverable_def)
  from open_leaves [OF this, of io] assms(3) have "pending ?P db1" by (auto simp: pending_def split: if_splits)
  then obtain d where d: "Open all_fine db1 = (None, d)" "good ?P d" "went db1 d"
    "has_column d t_mounts ''max_clients''" "has_column d t_mounts ''antenna_lat''"
    "\<And>c. c \<in> set antenna_rest \<Longrightarrow> has_column d t_mounts c
        \<longleftrightarrow> has_column db1 t_mounts c \<or> \<not> has_column db1 t_mounts ''antenna_lat''"
    by (rule start_fine) (rule that, assumption+)
  have "went db db1" using open_went [of db io] assms(3) by simp
  from went_trans [OF this d(3)] d assms(4) show ?thesis
    by (auto simp: good_def recoverable_def went_def)
qed

text \<open>A database of an earlier version: one user bound twice to one mountpoint, to publish and to subscribe.\<close>

definition old_row :: "(string \<times> sql_value) list \<Rightarrow> sql_row" where
  "old_row kvs = (\<lambda>c. nullish (map_of kvs c) V_null)"

definition old_database :: database where
  "old_database =
     \<lparr>db_tables =
        [t_users \<mapsto> \<lparr>tb_cols = user_cols, tb_rows = [old_row [(''id'', V_int 1)]], tb_seq = 1\<rparr>,
         t_mounts \<mapsto> \<lparr>tb_cols = butlast mount_cols, tb_rows = [old_row [(''id'', V_int 4)]], tb_seq = 4\<rparr>,
         t_bindings \<mapsto>
           \<lparr>tb_cols = binding_cols @ [''permission''],
            tb_rows = [old_row [(''id'', V_int 1), (''user_id'', V_int 1), (''mountpoint_id'', V_int 4), (''permission'', V_text ''publish'')],
                       old_row [(''id'', V_int 2), (''user_id'', V_int 1), (''mountpoint_id'', V_int 4), (''permission'', V_text ''subscribe'')]],
            tb_seq = 2\<rparr>],
      db_fk = False\<rparr>"

lemma old_database_shape:
  "of_some_version old_database" "leftover_ok old_database" "antenna_complete old_database"
  "binding_pairs old_database = {(V_int 1, V_int 4)}" "has_column old_database t_bindings ''permission''"
  by (simp_all add: old_database_def shape_defs antenna_complete_def has_column_def binding_pairs_def fk_holds_def
      pair_of_def old_row_def cols_defs nullish_def)

definition killed_before_rename :: db_io where
  "killed_before_rename = all_fine\<lparr>io_exec := (\<lambda>s. s \<noteq> Rename_table t_new t_bindings)\<rparr>"

theorem open_upgrades_witness:
  "\<exists>d. Open all_fine old_database = (None, d) \<and> current_schema d \<and> binding_pairs d = {(V_int 1, V_int 4)}"
  using open_upgrades [OF old_database_shape(1-3)] unfolding old_database_shape(4) by blast

theorem interrupted_start_witness:
  "binding_pairs (snd (Open all_fine (snd (Open killed_before_rename old_database)))) = {}
   \<and> binding_pairs old_database \<noteq> {}"
proof -
  have "bindings_lost killed_before_rename old_database"
    using old_database_shape(5)
    by (simp add: bindings_lost_def rename_missed_def killed_before_rename_def schema_def bindings_migration_def)
  with interrupted_start [OF old_database_shape(1,2) surjective_pairing surjective_pairing, of killed_before_rename]
  show ?thesis by (simp add: old_database_shape(4))
qed

end
