(* ===== verification/Svc_Faults.thy ===== *)
theory Svc_Faults
  imports Admin_Server
begin

text \<open>
  The database failing under a running caster: the account service (\<open>internal/account/service.go\<close>). In
  \<open>Account\<close> a statement fails only on a constraint; here any query or statement may also fail for the file's
  sake, and the service takes the branches the source has for that. A statement that fails changes nothing. A
  request meets its failures in the order of its calls: \<open>df_call k\<close> says whether its call number \<open>k\<close>
  goes through. Errors are their texts up to what the driver adds after the colon.
\<close>

section \<open>Failures\<close>

text \<open>Reading a list of rows can fail at the query, at a row, or at the end with the driver's own text.\<close>

datatype read_outcome = Read_fine | Query_failed | Scan_failed | Read_ended string

record db_faults =
  df_call :: "nat \<Rightarrow> bool"
  df_read :: read_outcome
  df_name :: "string \<Rightarrow> bool"

definition no_faults :: db_faults where
  "no_faults = \<lparr>df_call = (\<lambda>k. True), df_read = Read_fine, df_name = (\<lambda>i. True)\<rparr>"

definition db_call :: "bool \<Rightarrow> string \<Rightarrow> 'a \<Rightarrow> string + 'a" where
  "db_call ok what x = (if ok then Inr x else Inl what)"

definition db_read :: "read_outcome \<Rightarrow> string \<Rightarrow> string \<Rightarrow> 'a \<Rightarrow> string + 'a" where
  "db_read r query scan x =
     (case r of Read_fine \<Rightarrow> Inr x | Query_failed \<Rightarrow> Inl query | Scan_failed \<Rightarrow> Inl scan | Read_ended e \<Rightarrow> Inl e)"

definition of_svc :: "'a svc \<Rightarrow> string + 'a" where
  "of_svc r = map_sum error_prefix id r"

lemma db_call_simps [simp]: "db_call True what x = Inr x" "db_call False what x = Inl what"
  by (simp_all add: db_call_def)

lemma db_read_fine [simp]: "db_read Read_fine query scan x = Inr x"
  by (simp add: db_read_def)

lemma of_svc_simps [simp]: "of_svc (Inl e) = Inl (error_prefix e)" "of_svc (Inr x) = Inr x"
  by (simp_all add: of_svc_def)

lemma of_svc_Inr [simp]: "of_svc r = Inr x \<longleftrightarrow> r = Inr x"
  by (cases r) simp_all

lemma no_faults_simps [simp]: "df_call no_faults k" "df_read no_faults = Read_fine" "df_name no_faults i"
  by (simp_all add: no_faults_def)

section \<open>The service\<close>

definition f_CreateUser ::
  "bool \<Rightarrow> (string \<Rightarrow> string option) \<Rightarrow> string \<Rightarrow> string \<Rightarrow> string \<Rightarrow> store \<Rightarrow> string + (user \<times> store)" where
  "f_CreateUser ok hash username password role s =
     (case hash password of
        None \<Rightarrow> Inl ''hash password''
      | Some h \<Rightarrow> if \<not> ok then Inl ''insert user'' else of_svc (CreateUser hash username password role s))"

text \<open>The cache is looked at first; only then the database is asked. A success is cached.\<close>

definition f_Authenticate ::
  "bool \<Rightarrow> (string \<Rightarrow> string \<Rightarrow> bool) \<Rightarrow> int \<Rightarrow> string \<Rightarrow> string \<Rightarrow> store \<Rightarrow> (string + db_user option) \<times> store" where
  "f_Authenticate ok verify now username password s =
     (if auth_cached now username password s = None \<and> \<not> ok then (Inl ''query user'', s)
      else apfst Inr (Authenticate verify now username password s))"

definition f_GetUser :: "bool \<Rightarrow> int \<Rightarrow> store \<Rightarrow> string + db_user option" where
  "f_GetUser ok i s = db_call ok ''query user'' (GetUser i s)"

definition f_ListUsersPaginated ::
  "bool \<Rightarrow> read_outcome \<Rightarrow> (string \<Rightarrow> string \<Rightarrow> bool) \<Rightarrow> int \<Rightarrow> int \<Rightarrow> string \<Rightarrow> string \<Rightarrow> bool option \<Rightarrow> store
     \<Rightarrow> string + (db_user list \<times> int)" where
  "f_ListUsersPaginated ok rd like page limit search role enabled s =
     (if \<not> ok then Inl ''count users''
      else db_read rd ''list users paginated'' ''scan user'' (ListUsersPaginated like page limit search role enabled s))"

definition f_UpdateUser :: "bool \<Rightarrow> int \<Rightarrow> string \<Rightarrow> bool \<Rightarrow> store \<Rightarrow> string + store" where
  "f_UpdateUser ok i role enabled s = db_call ok ''update user'' (UpdateUser i role enabled s)"

definition f_UpdatePassword :: "bool \<Rightarrow> (string \<Rightarrow> string option) \<Rightarrow> int \<Rightarrow> string \<Rightarrow> store \<Rightarrow> string + store" where
  "f_UpdatePassword ok hash i password s =
     (case hash password of
        None \<Rightarrow> Inl ''hash password''
      | Some h \<Rightarrow> if \<not> ok then Inl ''update password'' else of_svc (UpdatePassword hash i password s))"

definition f_DeleteUser :: "bool \<Rightarrow> int \<Rightarrow> store \<Rightarrow> string + store" where
  "f_DeleteUser ok i s = db_call ok ''delete user'' (DeleteUser i s)"

text \<open>The count of administrators, then the insertion.\<close>

definition f_EnsureAdmin :: "bool \<Rightarrow> bool \<Rightarrow> (string \<Rightarrow> string option) \<Rightarrow> string \<Rightarrow> string \<Rightarrow> store \<Rightarrow> string + store" where
  "f_EnsureAdmin ok ok' hash username password s =
     (if \<not> ok then Inl ''count admins''
      else if \<exists>u \<in> set (st_users s). u_role u = RoleAdmin then Inr s
      else map_sum id snd (f_CreateUser ok' hash username password RoleAdmin s))"

definition f_CreateMountPointRow ::
  "bool \<Rightarrow> string \<Rightarrow> string \<Rightarrow> string \<Rightarrow> store \<Rightarrow> string + (mountpoint_row \<times> store)" where
  "f_CreateMountPointRow ok name description format s =
     (if \<not> ok then Inl ''insert mountpoint'' else of_svc (CreateMountPointRow name description format s))"

definition f_VerifyMountPointSourceSecret ::
  "bool \<Rightarrow> (string \<Rightarrow> string \<Rightarrow> bool) \<Rightarrow> string \<Rightarrow> string \<Rightarrow> store \<Rightarrow> string + bool" where
  "f_VerifyMountPointSourceSecret ok verify name secret s =
     (if name = [] \<or> secret = [] then Inr False
      else db_call ok ''query mountpoint source secret'' (VerifyMountPointSourceSecret verify name secret s))"

definition f_SetMountPointSourceSecret ::
  "bool \<Rightarrow> (string \<Rightarrow> string option) \<Rightarrow> int \<Rightarrow> string \<Rightarrow> store \<Rightarrow> string + store" where
  "f_SetMountPointSourceSecret ok hash i secret s =
     (if secret = [] then
        (if \<not> ok then Inl ''clear mountpoint source secret'' else of_svc (SetMountPointSourceSecret hash i secret s))
      else case hash secret of
        None \<Rightarrow> Inl ''hash mountpoint source secret''
      | Some h \<Rightarrow> if \<not> ok then Inl ''update mountpoint source secret'' else of_svc (SetMountPointSourceSecret hash i secret s))"

definition f_GetMountPointRowByID :: "bool \<Rightarrow> int \<Rightarrow> store \<Rightarrow> string + db_mount option" where
  "f_GetMountPointRowByID ok i s = db_call ok ''query mountpoint'' (GetMountPointRowByID i s)"

definition f_ListMountPointRows :: "read_outcome \<Rightarrow> store \<Rightarrow> string + db_mount list" where
  "f_ListMountPointRows rd s = db_read rd ''list mountpoints'' ''scan mountpoint'' (ListMountPointRows s)"

definition f_ListMountPointRowsPaginated ::
  "bool \<Rightarrow> read_outcome \<Rightarrow> (string \<Rightarrow> string \<Rightarrow> bool) \<Rightarrow> int \<Rightarrow> int \<Rightarrow> string \<Rightarrow> string \<Rightarrow> bool option \<Rightarrow> store
     \<Rightarrow> string + (db_mount list \<times> int)" where
  "f_ListMountPointRowsPaginated ok rd like page limit search format enabled s =
     (if \<not> ok then Inl ''count mountpoints''
      else db_read rd ''list mountpoints paginated'' ''scan mountpoint''
        (ListMountPointRowsPaginated like page limit search format enabled s))"

definition f_UpdateMountPointRow :: "bool \<Rightarrow> int \<Rightarrow> string \<Rightarrow> string \<Rightarrow> bool \<Rightarrow> store \<Rightarrow> string + store" where
  "f_UpdateMountPointRow ok i description format enabled s =
     db_call ok ''update mountpoint'' (UpdateMountPointRow i description format enabled s)"

definition f_SetMountPointMaxClients :: "bool \<Rightarrow> int \<Rightarrow> int \<Rightarrow> store \<Rightarrow> string + store" where
  "f_SetMountPointMaxClients ok i n s = db_call ok ''update mountpoint max_clients'' (SetMountPointMaxClients i n s)"

definition f_DeleteMountPointRow :: "bool \<Rightarrow> int \<Rightarrow> store \<Rightarrow> string + store" where
  "f_DeleteMountPointRow ok i s = db_call ok ''delete mountpoint'' (DeleteMountPointRow i s)"

definition f_AddBinding :: "bool \<Rightarrow> int \<Rightarrow> int \<Rightarrow> store \<Rightarrow> string + store" where
  "f_AddBinding ok userID mountpointID s =
     (if \<not> ok then Inl ''add binding'' else of_svc (AddBinding userID mountpointID s))"

definition f_ListBindings :: "read_outcome \<Rightarrow> store \<Rightarrow> string + binding list" where
  "f_ListBindings rd s = db_read rd ''list bindings'' ''scan binding'' (ListBindings s)"

definition f_ListBindingsByUser :: "read_outcome \<Rightarrow> int \<Rightarrow> store \<Rightarrow> string + binding list" where
  "f_ListBindingsByUser rd userID s = db_read rd ''list user bindings'' ''scan binding'' (ListBindingsByUser userID s)"

definition f_HasBinding :: "bool \<Rightarrow> int \<Rightarrow> string \<Rightarrow> store \<Rightarrow> string + bool" where
  "f_HasBinding ok userID name s = db_call ok ''check binding'' (HasBinding userID name s)"

definition f_RemoveBinding :: "bool \<Rightarrow> int \<Rightarrow> store \<Rightarrow> string + store" where
  "f_RemoveBinding ok i s = db_call ok ''remove binding'' (RemoveBinding i s)"

text \<open>Without failures the service is that of \<open>Account\<close>.\<close>

lemma fine_service [simp]:
  "f_CreateUser True hash n p r s = of_svc (CreateUser hash n p r s)"
  "f_Authenticate True verify now n p s = apfst Inr (Authenticate verify now n p s)"
  "f_GetUser True i s = Inr (GetUser i s)"
  "f_ListUsersPaginated True Read_fine like pg l q r b s = Inr (ListUsersPaginated like pg l q r b s)"
  "f_UpdateUser True i r e s = Inr (UpdateUser i r e s)"
  "f_UpdatePassword True hash i p s = of_svc (UpdatePassword hash i p s)"
  "f_DeleteUser True i s = Inr (DeleteUser i s)"
  "f_EnsureAdmin True True hash n p s = of_svc (EnsureAdmin hash n p s)"
  by (auto simp: f_CreateUser_def CreateUser_def f_Authenticate_def f_GetUser_def f_ListUsersPaginated_def f_UpdateUser_def
      f_UpdatePassword_def UpdatePassword_def f_DeleteUser_def f_EnsureAdmin_def EnsureAdmin_def of_svc_def Let_def
      split: option.split)

lemma fine_mount_service [simp]:
  "f_CreateMountPointRow True n d f s = of_svc (CreateMountPointRow n d f s)"
  "f_VerifyMountPointSourceSecret True verify n p s = Inr (VerifyMountPointSourceSecret verify n p s)"
  "f_SetMountPointSourceSecret True hash i p s = of_svc (SetMountPointSourceSecret hash i p s)"
  "f_GetMountPointRowByID True i s = Inr (GetMountPointRowByID i s)"
  "f_ListMountPointRows Read_fine s = Inr (ListMountPointRows s)"
  "f_ListMountPointRowsPaginated True Read_fine like pg l q f' b s = Inr (ListMountPointRowsPaginated like pg l q f' b s)"
  "f_UpdateMountPointRow True i d f e s = Inr (UpdateMountPointRow i d f e s)"
  "f_SetMountPointMaxClients True i m s = Inr (SetMountPointMaxClients i m s)"
  "f_DeleteMountPointRow True i s = Inr (DeleteMountPointRow i s)"
  "f_AddBinding True u m s = of_svc (AddBinding u m s)"
  "f_ListBindings Read_fine s = Inr (ListBindings s)"
  "f_ListBindingsByUser Read_fine u s = Inr (ListBindingsByUser u s)"
  "f_HasBinding True u n s = Inr (HasBinding u n s)"
  "f_RemoveBinding True i s = Inr (RemoveBinding i s)"
  by (auto simp: f_CreateMountPointRow_def f_VerifyMountPointSourceSecret_def VerifyMountPointSourceSecret_def
      f_SetMountPointSourceSecret_def SetMountPointSourceSecret_def f_GetMountPointRowByID_def f_ListMountPointRows_def
      f_ListMountPointRowsPaginated_def f_UpdateMountPointRow_def f_SetMountPointMaxClients_def f_DeleteMountPointRow_def
      f_AddBinding_def f_ListBindings_def f_ListBindingsByUser_def f_HasBinding_def f_RemoveBinding_def split: option.split)

text \<open>A database on which everything fails, and one on which the third call of a request does.\<close>

definition disk_full :: db_faults where
  "disk_full = \<lparr>df_call = (\<lambda>k. False), df_read = Query_failed, df_name = (\<lambda>i. False)\<rparr>"

definition fails_at :: "nat \<Rightarrow> db_faults" where
  "fails_at n = no_faults\<lparr>df_call := (\<lambda>k. k \<noteq> n)\<rparr>"

end
