(* ===== verification/Api_Faults.thy ===== *)
theory Api_Faults
  imports Svc_Faults
begin

text \<open>
  The database failing under a running caster: the handlers of \<open>internal/api/handlers.go\<close> with the branches
  for errors of the service, what an answer with an error can leave half done, and that the server stays
  consistent all the same.
\<close>

section \<open>The admin handlers\<close>

definition f_Login :: "db_faults \<Rightarrow> api_env \<Rightarrow> int \<Rightarrow> string \<Rightarrow> json option \<Rightarrow> server \<Rightarrow> string reply \<times> server" where
  "f_Login df ae now token body v =
     (case login_fields body of
        None \<Rightarrow> (jsonError ''invalid request body'' 400, v)
      | Some (u, p) \<Rightarrow>
          let (r, st) = f_Authenticate (df_call df 0) (ae_verify ae) now u p (sv_store v); v = v\<lparr>sv_store := st\<rparr> in
          case r of
            Inl e \<Rightarrow> (jsonError ''internal error'' 500, v)
          | Inr None \<Rightarrow> (jsonError ''invalid credentials'' 401, v)
          | Inr (Some user) \<Rightarrow>
              if u_role user \<noteq> RoleAdmin then (jsonError ''invalid credentials'' 401, v)
              else (jsonOK (u_username user), sess_Create token now (u_username user) v))"

definition f_ListUsers :: "db_faults \<Rightarrow> api_env \<Rightarrow> params \<Rightarrow> server \<Rightarrow> user paginated_response reply" where
  "f_ListUsers df ae q v =
     (let page = parseIntParam (query_get q ''page'') 1; limit = parseIntParam (query_get q ''limit'') 50 in
      case f_ListUsersPaginated (df_call df 0) (df_read df) (ae_like ae) page limit (query_get q ''search'')
             (query_get q ''role'') (enabled_param q) (sv_store v) of
        Inl e \<Rightarrow> jsonError e 500
      | Inr (users, count) \<Rightarrow>
          jsonOK \<lparr>pr_data = nil_slice (map to_user users), pr_total = count, pr_page = page, pr_limit = limit\<rparr>)"

definition f_CreateUser_handler :: "db_faults \<Rightarrow> api_env \<Rightarrow> json option \<Rightarrow> server \<Rightarrow> user reply \<times> server" where
  "f_CreateUser_handler df ae body v =
     (case create_user_fields body of
        None \<Rightarrow> (jsonError ''invalid request body'' 400, v)
      | Some (u, p, r) \<Rightarrow>
          if u = [] \<or> p = [] \<or> r = [] then (jsonError ''username, password, and role are required'' 400, v)
          else case f_CreateUser (df_call df 0) (ae_hash ae) u p r (sv_store v) of
                 Inl e \<Rightarrow> (jsonError e 409, v)
               | Inr (user, st) \<Rightarrow> (jsonOK user, v\<lparr>sv_store := st\<rparr>))"

definition f_UpdateUser_handler :: "db_faults \<Rightarrow> api_env \<Rightarrow> string \<Rightarrow> json option \<Rightarrow> server \<Rightarrow> unit reply \<times> server" where
  "f_UpdateUser_handler df ae idText body v =
     (case parseID idText of None \<Rightarrow> (jsonError ''invalid user id'' 400, v) | Some i \<Rightarrow>
      case update_user_fields body of
        None \<Rightarrow> (jsonError ''invalid request body'' 400, v)
      | Some (reqRole, reqEnabled, reqPassword) \<Rightarrow>
      case f_GetUser (df_call df 0) i (sv_store v) of
        Inl e \<Rightarrow> (jsonError ''user not found'' 404, v)
      | Inr None \<Rightarrow> (jsonError ''user not found'' 404, v)
      | Inr (Some user) \<Rightarrow>
      let role = (if reqRole \<noteq> [] then reqRole else u_role user);
          enabled = nullish reqEnabled (u_enabled user)
      in case f_UpdateUser (df_call df 1) i role enabled (sv_store v) of
           Inl e \<Rightarrow> (jsonError e 500, v)
         | Inr st \<Rightarrow>
      case (if reqPassword \<noteq> [] then f_UpdatePassword (df_call df 2) (ae_hash ae) i reqPassword st else Inr st) of
           Inl e \<Rightarrow> (jsonError e 500, v\<lparr>sv_store := st\<rparr>)
         | Inr st' \<Rightarrow>
             (jsonOK (), v\<lparr>sv_store := st',
                sv_mgr := (if u_enabled user \<and> \<not> enabled then mgr_DisconnectUser i (sv_mgr v) else sv_mgr v)\<rparr>))"

definition f_DeleteUser_handler :: "db_faults \<Rightarrow> string \<Rightarrow> server \<Rightarrow> unit reply \<times> server" where
  "f_DeleteUser_handler df idText v =
     (case parseID idText of None \<Rightarrow> (jsonError ''invalid user id'' 400, v) | Some i \<Rightarrow>
      let v = v\<lparr>sv_mgr := mgr_DisconnectUser i (sv_mgr v)\<rparr> in
      case f_DeleteUser (df_call df 0) i (sv_store v) of
        Inl e \<Rightarrow> (jsonError e 500, v)
      | Inr st \<Rightarrow> (jsonOK (), v\<lparr>sv_store := st\<rparr>))"

definition f_ListMountpoints :: "db_faults \<Rightarrow> api_env \<Rightarrow> params \<Rightarrow> server \<Rightarrow> mountpoint_info paginated_response reply" where
  "f_ListMountpoints df ae q v =
     (let page = parseIntParam (query_get q ''page'') 1; limit = parseIntParam (query_get q ''limit'') 50 in
      case f_ListMountPointRowsPaginated (df_call df 0) (df_read df) (ae_like ae) page limit (query_get q ''search'')
             (query_get q ''format'') (enabled_param q) (sv_store v) of
        Inl e \<Rightarrow> jsonError e 500
      | Inr (rows, count) \<Rightarrow>
          jsonOK \<lparr>pr_data = Some (map (mp_info (ae_stamp ae) (sv_mgr v)) rows), pr_total = count, pr_page = page, pr_limit = limit\<rparr>)"

definition f_CreateMountpoint :: "db_faults \<Rightarrow> api_env \<Rightarrow> json option \<Rightarrow> server \<Rightarrow> mountpoint_row reply \<times> server" where
  "f_CreateMountpoint df ae body v =
     (case create_mount_fields body of
        None \<Rightarrow> (jsonError ''invalid request body'' 400, v)
      | Some (n, d, f, p, m) \<Rightarrow>
      if n = [] then (jsonError ''name is required'' 400, v) else
      let format = (if f = [] then ''RTCM3'' else f) in
      case f_CreateMountPointRow (df_call df 0) n d format (sv_store v) of
        Inl e \<Rightarrow> (jsonError e 409, v)
      | Inr (row, st) \<Rightarrow>
      case (if p \<noteq> [] then f_SetMountPointSourceSecret (df_call df 1) (ae_hash ae) (m_id row) p st else Inr st) of
        Inl e \<Rightarrow> (jsonError e 500, v\<lparr>sv_store := st\<rparr>)
      | Inr st \<Rightarrow>
      case (if 0 < m then f_SetMountPointMaxClients (df_call df 2) (m_id row) m st else Inr st) of
        Inl e \<Rightarrow> (jsonError e 500, v\<lparr>sv_store := st\<rparr>)
      | Inr st \<Rightarrow>
      (jsonOK row, v\<lparr>sv_store := st,
         sv_mgr := nullish (mgr_Create (ae_heap ae) n d format (ae_writeQueue ae) (ae_writeTimeout ae) m (sv_mgr v)) (sv_mgr v)\<rparr>))"

definition f_UpdateMountpoint :: "db_faults \<Rightarrow> api_env \<Rightarrow> string \<Rightarrow> json option \<Rightarrow> server \<Rightarrow> unit reply \<times> server" where
  "f_UpdateMountpoint df ae idText body v =
     (case parseID idText of None \<Rightarrow> (jsonError ''invalid mountpoint id'' 400, v) | Some i \<Rightarrow>
      case update_mount_fields body of
        None \<Rightarrow> (jsonError ''invalid request body'' 400, v)
      | Some (reqDesc, reqFormat, reqEnabled, reqSecret, reqMax) \<Rightarrow>
      case f_GetMountPointRowByID (df_call df 0) i (sv_store v) of
        Inl e \<Rightarrow> (jsonError ''mountpoint not found'' 404, v)
      | Inr None \<Rightarrow> (jsonError ''mountpoint not found'' 404, v)
      | Inr (Some row) \<Rightarrow>
      let desc = (if reqDesc \<noteq> [] then reqDesc else m_description row);
          format = (if reqFormat \<noteq> [] then reqFormat else m_format row);
          enabled = nullish reqEnabled (m_enabled row);
          maxClients = nullish reqMax (m_max_clients row)
      in case f_UpdateMountPointRow (df_call df 1) i desc format enabled (sv_store v) of
           Inl e \<Rightarrow> (jsonError e 500, v)
         | Inr st \<Rightarrow>
      case (case reqMax of None \<Rightarrow> Inr st | Some n \<Rightarrow> f_SetMountPointMaxClients (df_call df 2) i n st) of
           Inl e \<Rightarrow> (jsonError e 500, v\<lparr>sv_store := st\<rparr>)
         | Inr st \<Rightarrow>
      case (case reqSecret of None \<Rightarrow> Inr st | Some p \<Rightarrow> f_SetMountPointSourceSecret (df_call df 3) (ae_hash ae) i p st) of
           Inl e \<Rightarrow> (jsonError e 500, v\<lparr>sv_store := st\<rparr>)
         | Inr st' \<Rightarrow>
             (jsonOK (), v\<lparr>sv_store := st',
                sv_mgr := nullish (mgr_UpdateMountPoint (m_name row) desc format enabled (ae_writeQueue ae)
                                     (ae_writeTimeout ae) maxClients (sv_mgr v)) (sv_mgr v)\<rparr>))"

definition f_DeleteMountpoint :: "db_faults \<Rightarrow> string \<Rightarrow> server \<Rightarrow> unit reply \<times> server" where
  "f_DeleteMountpoint df idText v =
     (case parseID idText of None \<Rightarrow> (jsonError ''invalid mountpoint id'' 400, v) | Some i \<Rightarrow>
      case f_GetMountPointRowByID (df_call df 0) i (sv_store v) of
        Inl e \<Rightarrow> (jsonError ''mountpoint not found'' 404, v)
      | Inr None \<Rightarrow> (jsonError ''mountpoint not found'' 404, v)
      | Inr (Some row) \<Rightarrow>
      let v = v\<lparr>sv_mgr := nullish (map_option fst (mgr_Delete (m_name row) (sv_mgr v))) (sv_mgr v)\<rparr> in
      case f_DeleteMountPointRow (df_call df 1) i (sv_store v) of
        Inl e \<Rightarrow> (jsonError e 500, v)
      | Inr st \<Rightarrow> (jsonOK (), v\<lparr>sv_store := st\<rparr>))"

text \<open>
  The lists of connections ask for a user's name once per connection, and show an empty one when that fails;
  \<open>df_name\<close> is by the id of the connection.
\<close>

definition f_user_name :: "bool \<Rightarrow> int \<Rightarrow> store \<Rightarrow> string" where
  "f_user_name ok i s =
     (if 0 < i
      then (case f_GetUser ok i s of Inl e \<Rightarrow> [] | Inr None \<Rightarrow> [] | Inr (Some u) \<Rightarrow> u_username u)
      else [])"

definition f_ListSources :: "db_faults \<Rightarrow> api_env \<Rightarrow> int \<Rightarrow> params \<Rightarrow> server \<Rightarrow> source_info list option" where
  "f_ListSources df ae now q v =
     nil_slice (concat (map (\<lambda>mp.
       case mp_source mp of None \<Rightarrow> [] | Some si \<Rightarrow>
       let mountFilter = query_get q ''mountpoint''; usernameFilter = query_get q ''username'';
           username = f_user_name (df_name df (so_ID si)) (so_UserID si) (sv_store v) in
       if so_ID si = [] then []
       else if mountFilter \<noteq> [] \<and> mp_Name mp \<noteq> mountFilter then []
       else if usernameFilter \<noteq> [] \<and> username \<noteq> usernameFilter then []
       else [\<lparr>si_mountpoint = mp_Name mp, si_source_id = so_ID si, si_user_id = so_UserID si, si_username = username,
              si_bytes_in = so_BytesIn si, si_connected_at = ae_stamp ae (so_StartTime si),
              si_duration_seconds = now - so_StartTime si\<rparr>]) (mgr_List (ae_names ae) (sv_mgr v))))"

definition f_ListClients :: "db_faults \<Rightarrow> api_env \<Rightarrow> int \<Rightarrow> params \<Rightarrow> server \<Rightarrow> client_info list option" where
  "f_ListClients df ae now q v =
     nil_slice (concat (map (\<lambda>mp.
       let mountFilter = query_get q ''mountpoint''; usernameFilter = query_get q ''username'' in
       if mountFilter \<noteq> [] \<and> mp_Name mp \<noteq> mountFilter then []
       else concat (map (\<lambda>cid.
         let c = mp_heap mp cid; username = f_user_name (df_name df cid) (rv_UserID c) (sv_store v) in
         if usernameFilter \<noteq> [] \<and> username \<noteq> usernameFilter then []
         else [\<lparr>ci_mountpoint = mp_Name mp, ci_client_id = cid, ci_user_id = rv_UserID c, ci_username = username,
                ci_bytes_out = rv_BytesOut c, ci_connected_at = ae_stamp ae (rv_ConnectedAt c),
                ci_duration_seconds = now - rv_ConnectedAt c\<rparr>]) (mp_clients mp)))
       (mgr_List (ae_names ae) (sv_mgr v))))"

definition f_ListBindings_handler :: "db_faults \<Rightarrow> server \<Rightarrow> (binding list option) reply" where
  "f_ListBindings_handler df v =
     (case f_ListBindings (df_read df) (sv_store v) of Inl e \<Rightarrow> jsonError e 500 | Inr bs \<Rightarrow> jsonOK (nil_slice bs))"

definition f_ListUserBindings :: "db_faults \<Rightarrow> string \<Rightarrow> server \<Rightarrow> (binding list option) reply" where
  "f_ListUserBindings df idText v =
     (case parseID idText of None \<Rightarrow> jsonError ''invalid user id'' 400
      | Some i \<Rightarrow>
          (case f_ListBindingsByUser (df_read df) i (sv_store v) of
             Inl e \<Rightarrow> jsonError e 500 | Inr bs \<Rightarrow> jsonOK (nil_slice bs)))"

definition f_CreateBinding :: "db_faults \<Rightarrow> json option \<Rightarrow> server \<Rightarrow> unit reply \<times> server" where
  "f_CreateBinding df body v =
     (case binding_fields body of
        None \<Rightarrow> (jsonError ''invalid request body'' 400, v)
      | Some (u, m) \<Rightarrow>
          if u = 0 \<or> m = 0 then (jsonError ''user_id and mountpoint_id are required'' 400, v)
          else case f_AddBinding (df_call df 0) u m (sv_store v) of
                 Inl e \<Rightarrow> (jsonError e 409, v)
               | Inr st \<Rightarrow> (jsonOK (), v\<lparr>sv_store := st\<rparr>))"

definition f_DeleteBinding :: "db_faults \<Rightarrow> string \<Rightarrow> server \<Rightarrow> unit reply \<times> server" where
  "f_DeleteBinding df idText v =
     (case parseID idText of None \<Rightarrow> (jsonError ''invalid binding id'' 400, v)
      | Some i \<Rightarrow>
          (case f_RemoveBinding (df_call df 0) i (sv_store v) of
             Inl e \<Rightarrow> (jsonError e 500, v) | Inr st \<Rightarrow> (jsonOK (), v\<lparr>sv_store := st\<rparr>)))"

text \<open>The other handlers do not ask the database.\<close>

fun f_run_handler ::
  "db_faults \<Rightarrow> api_env \<Rightarrow> int \<Rightarrow> string \<Rightarrow> handler \<Rightarrow> string \<Rightarrow> params \<Rightarrow> json option \<Rightarrow> string option \<Rightarrow> server
     \<Rightarrow> (int \<times> json) \<times> server" where
  "f_run_handler df ae now token H_Login w q body cookie v =
     apfst (encode_reply (\<lambda>u. JObj [(''status'', JStr ''ok''), (''username'', JStr u)])) (f_Login df ae now token body v)"
| "f_run_handler df ae now token H_ListUsers w q body cookie v =
     (encode_reply (encode_page encode_user) (f_ListUsers df ae q v), v)"
| "f_run_handler df ae now token H_CreateUser w q body cookie v =
     apfst (encode_reply encode_user) (f_CreateUser_handler df ae body v)"
| "f_run_handler df ae now token H_UpdateUser w q body cookie v =
     apfst (encode_reply status_ok) (f_UpdateUser_handler df ae w body v)"
| "f_run_handler df ae now token H_DeleteUser w q body cookie v =
     apfst (encode_reply status_ok) (f_DeleteUser_handler df w v)"
| "f_run_handler df ae now token H_ListMountpoints w q body cookie v =
     (encode_reply (encode_page encode_info) (f_ListMountpoints df ae q v), v)"
| "f_run_handler df ae now token H_CreateMountpoint w q body cookie v =
     apfst (encode_reply (\<lambda>m. JObj (row_fields m))) (f_CreateMountpoint df ae body v)"
| "f_run_handler df ae now token H_UpdateMountpoint w q body cookie v =
     apfst (encode_reply status_ok) (f_UpdateMountpoint df ae w body v)"
| "f_run_handler df ae now token H_DeleteMountpoint w q body cookie v =
     apfst (encode_reply status_ok) (f_DeleteMountpoint df w v)"
| "f_run_handler df ae now token H_ListSources w q body cookie v =
     ((200, encode_slice encode_source (f_ListSources df ae now q v)), v)"
| "f_run_handler df ae now token H_ListClients w q body cookie v =
     ((200, encode_slice encode_client (f_ListClients df ae now q v)), v)"
| "f_run_handler df ae now token H_ListBindings w q body cookie v =
     (encode_reply (encode_slice encode_binding) (f_ListBindings_handler df v), v)"
| "f_run_handler df ae now token H_ListUserBindings w q body cookie v =
     (encode_reply (encode_slice encode_binding) (f_ListUserBindings df w v), v)"
| "f_run_handler df ae now token H_CreateBinding w q body cookie v =
     apfst (encode_reply status_ok) (f_CreateBinding df body v)"
| "f_run_handler df ae now token H_DeleteBinding w q body cookie v =
     apfst (encode_reply status_ok) (f_DeleteBinding df w v)"
| "f_run_handler df ae now token h w q body cookie v = run_handler ae now token h w q body cookie v"

definition f_handle_request ::
  "db_faults \<Rightarrow> api_env \<Rightarrow> int \<Rightarrow> string \<Rightarrow> string option \<Rightarrow> http_request \<Rightarrow> server \<Rightarrow> fetch_outcome \<times> server" where
  "f_handle_request df ae now token cookie r v =
     (case serve now (hr_method r) (hr_path r) cookie v of
        (Refused e, v') \<Rightarrow> (Response 401 (Inr (JObj [(''error'', JStr e)])), v')
      | (Handle h vs, v') \<Rightarrow>
          (let ((st, j), v'') = f_run_handler df ae now token h (case vs of [] \<Rightarrow> [] | w # ws \<Rightarrow> w)
                                  (url_query (hr_path r)) (hr_body r) cookie v'
           in (Response st (Inr j), v''))
      | (No_route, v') \<Rightarrow> (Response 404 (Inl ''404 page not found''), v')
      | (Other_page, v') \<Rightarrow> (ae_page ae r, v'))"

section \<open>Without failures\<close>

lemma fine_user_name [simp]: "f_user_name True i s = user_name i s"
  by (auto simp: f_user_name_def user_name_def split: option.split)

lemma of_svc_case:
  "(case of_svc r of Inl e \<Rightarrow> f e | Inr x \<Rightarrow> g x) = (case r of Inl e \<Rightarrow> f (error_prefix e) | Inr x \<Rightarrow> g x)"
  by (cases r) simp_all

lemma if_of_svc: "(if b then of_svc r else Inr x) = of_svc (if b then r else Inr x)"
  by simp

lemma case_of_svc: "(case z of None \<Rightarrow> Inr x | Some p \<Rightarrow> of_svc (r p)) = of_svc (case z of None \<Rightarrow> Inr x | Some p \<Rightarrow> r p)"
  by (cases z) simp_all

lemma fine_handlers:
  "f_Login no_faults ae now token body v = h_Login ae now token body v"
  "f_ListUsers no_faults ae q v = jsonOK (h_ListUsers ae q v)"
  "f_CreateUser_handler no_faults ae body v = h_CreateUser ae body v"
  "f_UpdateUser_handler no_faults ae w body v = h_UpdateUser ae w body v"
  "f_DeleteUser_handler no_faults w v = h_DeleteUser w v"
  "f_ListMountpoints no_faults ae q v = jsonOK (h_ListMountpoints ae q v)"
  "f_CreateMountpoint no_faults ae body v = h_CreateMountpoint ae body v"
  "f_UpdateMountpoint no_faults ae w body v = h_UpdateMountpoint ae w body v"
  "f_DeleteMountpoint no_faults w v = h_DeleteMountpoint w v"
  "f_ListSources no_faults ae now q v = h_ListSources ae now q v"
  "f_ListClients no_faults ae now q v = h_ListClients ae now q v"
  "f_ListBindings_handler no_faults v = jsonOK (h_ListBindings v)"
  "f_ListUserBindings no_faults w v = h_ListUserBindings w v"
  "f_CreateBinding no_faults body v = h_CreateBinding body v"
  "f_DeleteBinding no_faults w v = h_DeleteBinding w v"
  subgoal by (simp add: f_Login_def h_Login_def split_beta Let_def cong: option.case_cong)
  subgoal by (simp add: f_ListUsers_def h_ListUsers_def split_beta Let_def)
  subgoal by (simp add: f_CreateUser_handler_def h_CreateUser_def of_svc_case split: option.split prod.split)
  subgoal by (simp add: f_UpdateUser_handler_def h_UpdateUser_def of_svc_case if_of_svc Let_def split: option.split prod.split)
  subgoal by (simp add: f_DeleteUser_handler_def h_DeleteUser_def Let_def split: option.split)
  subgoal by (simp add: f_ListMountpoints_def h_ListMountpoints_def split_beta Let_def)
  subgoal by (simp add: f_CreateMountpoint_def h_CreateMountpoint_def of_svc_case if_of_svc Let_def split: option.split prod.split sum.split)
  subgoal by (simp add: f_UpdateMountpoint_def h_UpdateMountpoint_def of_svc_case case_of_svc Let_def split: option.split prod.split)
  subgoal by (simp add: f_DeleteMountpoint_def h_DeleteMountpoint_def Let_def split: option.split)
  subgoal by (simp add: f_ListSources_def h_ListSources_def cong: option.case_cong)
  subgoal by (simp add: f_ListClients_def h_ListClients_def Let_def cong: if_cong)
  subgoal by (simp add: f_ListBindings_handler_def h_ListBindings_def)
  subgoal by (simp add: f_ListUserBindings_def h_ListUserBindings_def split: option.split)
  subgoal by (simp add: f_CreateBinding_def h_CreateBinding_def of_svc_case split: option.split prod.split)
  subgoal by (simp add: f_DeleteBinding_def h_DeleteBinding_def split: option.split)
  done

lemma fine_run_handler: "f_run_handler no_faults ae now token h w q body cookie v = run_handler ae now token h w q body cookie v"
  by (cases h) (simp_all add: fine_handlers encode_reply_def)

section \<open>What a failure leaves\<close>

text \<open>A success under failures is the success without them.\<close>

lemma service_Inr:
  "f_CreateUser ok hash n p r s = Inr x \<Longrightarrow> CreateUser hash n p r s = Inr x"
  "f_UpdateUser ok i r b s = Inr t \<Longrightarrow> t = UpdateUser i r b s"
  "f_UpdatePassword ok hash i p s = Inr t \<Longrightarrow> UpdatePassword hash i p s = Inr t"
  "f_DeleteUser ok i s = Inr t \<Longrightarrow> t = DeleteUser i s"
  "f_CreateMountPointRow ok n d f s = Inr y \<Longrightarrow> CreateMountPointRow n d f s = Inr y"
  "f_SetMountPointSourceSecret ok hash i p s = Inr t \<Longrightarrow> SetMountPointSourceSecret hash i p s = Inr t"
  "f_UpdateMountPointRow ok i d f b s = Inr t \<Longrightarrow> t = UpdateMountPointRow i d f b s"
  "f_SetMountPointMaxClients ok i k s = Inr t \<Longrightarrow> t = SetMountPointMaxClients i k s"
  "f_DeleteMountPointRow ok i s = Inr t \<Longrightarrow> t = DeleteMountPointRow i s"
  "f_AddBinding ok u m s = Inr t \<Longrightarrow> AddBinding u m s = Inr t"
  "f_RemoveBinding ok i s = Inr t \<Longrightarrow> t = RemoveBinding i s"
  "f_GetUser ok i s = Inr u' \<Longrightarrow> u' = GetUser i s"
  "f_GetMountPointRowByID ok i s = Inr m' \<Longrightarrow> m' = GetMountPointRowByID i s"
  by (auto simp: f_CreateUser_def f_UpdateUser_def f_UpdatePassword_def f_DeleteUser_def f_CreateMountPointRow_def
      f_SetMountPointSourceSecret_def f_UpdateMountPointRow_def f_SetMountPointMaxClients_def f_DeleteMountPointRow_def
      f_AddBinding_def f_RemoveBinding_def f_GetUser_def f_GetMountPointRowByID_def db_call_def
      split: if_splits option.splits)

text \<open>
  What a handler that changes several things can have changed when it gives up: the row of the user but
  not the password and not the connections; the connections but not the row; the row of a mountpoint, with or
  without its secret, but nothing at run time; the mountpoint at run time but not its row.
\<close>

definition half_done :: "handler \<Rightarrow> server \<Rightarrow> server \<Rightarrow> bool" where
  "half_done h v v' \<longleftrightarrow>
     (case h of
        H_UpdateUser \<Rightarrow> \<exists>i r e. v' = v\<lparr>sv_store := UpdateUser i r e (sv_store v)\<rparr>
      | H_DeleteUser \<Rightarrow> \<exists>i. v' = v\<lparr>sv_mgr := mgr_DisconnectUser i (sv_mgr v)\<rparr>
      | H_CreateMountpoint \<Rightarrow>
          \<exists>n d f row st. CreateMountPointRow n d f (sv_store v) = Inr (row, st)
            \<and> (v' = v\<lparr>sv_store := st\<rparr>
               \<or> (\<exists>hash p st'. SetMountPointSourceSecret hash (m_id row) p st = Inr st' \<and> v' = v\<lparr>sv_store := st'\<rparr>))
      | H_UpdateMountpoint \<Rightarrow>
          \<exists>i d f e. v' = v\<lparr>sv_store := UpdateMountPointRow i d f e (sv_store v)\<rparr>
            \<or> (\<exists>n. v' = v\<lparr>sv_store := SetMountPointMaxClients i n (UpdateMountPointRow i d f e (sv_store v))\<rparr>)
      | H_DeleteMountpoint \<Rightarrow> \<exists>n. v' = v\<lparr>sv_mgr := (sv_mgr v)(n := None)\<rparr>
      | _ \<Rightarrow> False)"

text \<open>The answer to a request that met a failure: an error object, and nothing or the first half done.\<close>

definition failed_answer :: "handler \<Rightarrow> server \<Rightarrow> (int \<times> json) \<times> server \<Rightarrow> bool" where
  "failed_answer h v res \<longleftrightarrow>
     (case res of ((st, j), v') \<Rightarrow>
        st \<in> {404, 409, 500} \<and> (\<exists>e. j = JObj [(''error'', JStr e)]) \<and> (v' = v \<or> half_done h v v'))"

lemma failed_error: "st \<in> {404, 409, 500} \<Longrightarrow> failed_answer h v (encode_reply f (jsonError e st), v)"
  by (auto simp: failed_answer_def encode_reply_def)

lemma failed_halfway: "st \<in> {404, 409, 500} \<Longrightarrow> half_done h v v' \<Longrightarrow> failed_answer h v (encode_reply f (jsonError e st), v')"
  by (auto simp: failed_answer_def encode_reply_def)

definition failed_or_same :: "handler \<Rightarrow> server \<Rightarrow> (int \<times> json) \<times> server \<Rightarrow> (int \<times> json) \<times> server \<Rightarrow> bool" where
  "failed_or_same h v res fine \<longleftrightarrow> res = fine \<or> failed_answer h v res"

lemmas service_defs = f_CreateUser_def f_Authenticate_def f_GetUser_def f_ListUsersPaginated_def f_UpdateUser_def
  f_UpdatePassword_def f_DeleteUser_def f_CreateMountPointRow_def f_SetMountPointSourceSecret_def
  f_GetMountPointRowByID_def f_ListMountPointRowsPaginated_def f_UpdateMountPointRow_def
  f_SetMountPointMaxClients_def f_DeleteMountPointRow_def f_AddBinding_def f_ListBindings_def
  f_ListBindingsByUser_def f_RemoveBinding_def db_call_def db_read_def

lemma failed_reads:
  "failed_or_same h v (encode_reply f (f_ListUsers df ae q v), v) (encode_reply f (jsonOK (h_ListUsers ae q v)), v)"
  "failed_or_same h v (encode_reply g (f_ListMountpoints df ae q v), v) (encode_reply g (jsonOK (h_ListMountpoints ae q v)), v)"
  "failed_or_same h v (encode_reply b (f_ListBindings_handler df v), v) (encode_reply b (jsonOK (h_ListBindings v)), v)"
  "failed_or_same h v (encode_reply b (f_ListUserBindings df w v), v) (encode_reply b (h_ListUserBindings w v), v)"
  by (auto simp: failed_or_same_def failed_error f_ListUsers_def h_ListUsers_def f_ListMountpoints_def h_ListMountpoints_def
      f_ListBindings_handler_def h_ListBindings_def f_ListUserBindings_def h_ListUserBindings_def service_defs Let_def
      split: option.splits read_outcome.splits prod.splits)

lemma refused_hash:
  "hash p = None \<Longrightarrow> CreateUser hash n p r s = Inl Hash_password"
  "hash p = None \<Longrightarrow> UpdatePassword hash i p s = Inl Hash_password"
  by (simp_all add: CreateUser_def UpdatePassword_def)

lemma failed_writes:
  "failed_or_same H_CreateUser v (apfst (encode_reply fu) (f_CreateUser_handler df ae body v)) (apfst (encode_reply fu) (h_CreateUser ae body v))"
  "failed_or_same H_CreateBinding v (apfst (encode_reply f) (f_CreateBinding df body v)) (apfst (encode_reply f) (h_CreateBinding body v))"
  "failed_or_same H_DeleteBinding v (apfst (encode_reply f) (f_DeleteBinding df w v)) (apfst (encode_reply f) (h_DeleteBinding w v))"
  subgoal
    by (auto simp: failed_or_same_def failed_error f_CreateUser_handler_def h_CreateUser_def f_CreateUser_def of_svc_case
        refused_hash split: option.split)
  subgoal
    by (auto simp: failed_or_same_def failed_error f_CreateBinding_def h_CreateBinding_def f_AddBinding_def of_svc_case
        split: option.split)
  subgoal
    by (auto simp: failed_or_same_def failed_error f_DeleteBinding_def h_DeleteBinding_def f_RemoveBinding_def db_call_def
        split: option.split)
  done

lemma delete_mgr: "nullish (map_option fst (mgr_Delete n g)) g = g(n := None)"
  by (auto simp: mgr_Delete_def split: option.split)

lemma failed_deletes:
  "failed_or_same H_DeleteUser v (apfst (encode_reply f) (f_DeleteUser_handler df w v)) (apfst (encode_reply f) (h_DeleteUser w v))"
  "failed_or_same H_DeleteMountpoint v (apfst (encode_reply f) (f_DeleteMountpoint df w v)) (apfst (encode_reply f) (h_DeleteMountpoint w v))"
  subgoal
    by (auto simp: failed_or_same_def f_DeleteUser_handler_def h_DeleteUser_def f_DeleteUser_def db_call_def Let_def half_done_def
        split: option.split intro!: failed_halfway)
  subgoal
    by (auto simp: failed_or_same_def failed_error f_DeleteMountpoint_def h_DeleteMountpoint_def f_GetMountPointRowByID_def
        f_DeleteMountPointRow_def db_call_def Let_def half_done_def delete_mgr split: option.split intro!: failed_halfway)
  done

lemma half_UpdateUser: "half_done H_UpdateUser v (v\<lparr>sv_store := UpdateUser i r e (sv_store v)\<rparr>)"
  by (auto simp: half_done_def)

lemma failed_UpdateUser:
  "failed_or_same H_UpdateUser v (apfst (encode_reply f) (f_UpdateUser_handler df ae w body v)) (apfst (encode_reply f) (h_UpdateUser ae w body v))"
  unfolding f_UpdateUser_handler_def h_UpdateUser_def f_GetUser_def f_UpdateUser_def
  by (auto simp: failed_or_same_def failed_error failed_halfway half_UpdateUser db_call_def of_svc_case Let_def
      f_UpdatePassword_def refused_hash split: option.split sum.split)

lemma half_CreateMountpoint:
  "CreateMountPointRow n d f (sv_store v) = Inr (row, st) \<Longrightarrow> half_done H_CreateMountpoint v (v\<lparr>sv_store := st\<rparr>)"
  "CreateMountPointRow n d f (sv_store v) = Inr (row, st) \<Longrightarrow> SetMountPointSourceSecret hash (m_id row) p st = Inr st'
     \<Longrightarrow> half_done H_CreateMountpoint v (v\<lparr>sv_store := st'\<rparr>)"
  unfolding half_done_def handler.case by blast+

lemma refused_secret: "p \<noteq> [] \<Longrightarrow> hash p = None \<Longrightarrow> SetMountPointSourceSecret hash i p s = Inl Hash_secret"
  by (simp add: SetMountPointSourceSecret_def)

lemma failed_CreateMountpoint:
  "failed_or_same H_CreateMountpoint v (apfst (encode_reply f) (f_CreateMountpoint df ae body v))
     (apfst (encode_reply f) (h_CreateMountpoint ae body v))"
  unfolding f_CreateMountpoint_def h_CreateMountpoint_def f_CreateMountPointRow_def f_SetMountPointMaxClients_def
  by (auto simp: failed_or_same_def failed_error db_call_def of_svc_case Let_def
      f_SetMountPointSourceSecret_def refused_secret split: option.split sum.split
      intro!: failed_halfway intro: half_CreateMountpoint)

lemma half_UpdateMountpoint:
  "half_done H_UpdateMountpoint v (v\<lparr>sv_store := UpdateMountPointRow i d f e (sv_store v)\<rparr>)"
  "half_done H_UpdateMountpoint v (v\<lparr>sv_store := SetMountPointMaxClients i n (UpdateMountPointRow i d f e (sv_store v))\<rparr>)"
  unfolding half_done_def handler.case by blast+

lemma failed_UpdateMountpoint:
  "failed_or_same H_UpdateMountpoint v (apfst (encode_reply f) (f_UpdateMountpoint df ae w body v))
     (apfst (encode_reply f) (h_UpdateMountpoint ae w body v))"
  unfolding f_UpdateMountpoint_def h_UpdateMountpoint_def f_GetMountPointRowByID_def f_UpdateMountPointRow_def
    f_SetMountPointMaxClients_def
  by (auto simp: failed_or_same_def failed_error failed_halfway half_UpdateMountpoint db_call_def of_svc_case Let_def
      f_SetMountPointSourceSecret_def refused_secret split: option.split sum.split)

lemma failed_Login:
  "failed_or_same H_Login v (apfst (encode_reply f) (f_Login df ae now token body v)) (apfst (encode_reply f) (h_Login ae now token body v))"
proof (cases "login_fields body")
  case (Some up)
  obtain u p where up: "up = (u, p)" by (cases up)
  show ?thesis
  proof (cases "auth_cached now u p (sv_store v) = None \<and> \<not> df_call df 0")
    case True
    with Some up show ?thesis by (simp add: failed_or_same_def failed_error f_Login_def f_Authenticate_def Let_def)
  next
    case False
    then have "f_Authenticate (df_call df 0) verify now u p (sv_store v) = apfst Inr (Authenticate verify now u p (sv_store v))" for verify
      by (auto simp: f_Authenticate_def)
    with Some up show ?thesis
      by (simp add: failed_or_same_def f_Login_def h_Login_def split_beta Let_def cong: option.case_cong if_cong)
  qed
qed (simp add: failed_or_same_def f_Login_def h_Login_def)

definition names_only :: "handler \<Rightarrow> bool" where
  "names_only h \<longleftrightarrow> h \<in> {H_ListSources, H_ListClients}"

lemma failed_run_handler:
  "names_only h \<and> fst (fst (f_run_handler df ae now token h w q body cookie v)) = 200
      \<and> snd (f_run_handler df ae now token h w q body cookie v) = v
   \<or> failed_or_same h v (f_run_handler df ae now token h w q body cookie v) (run_handler ae now token h w q body cookie v)"
proof (cases h)
  case H_Login
  then show ?thesis using failed_Login by simp
next
  case H_UpdateUser
  then show ?thesis using failed_UpdateUser by simp
next
  case H_CreateMountpoint
  then show ?thesis using failed_CreateMountpoint by simp
next
  case H_UpdateMountpoint
  then show ?thesis using failed_UpdateMountpoint by simp
next
  case H_ListUsers
  then show ?thesis using failed_reads(1) [of h v "encode_page encode_user" df ae q] by (simp add: encode_reply_def)
next
  case H_ListMountpoints
  then show ?thesis using failed_reads(2) [of h v "encode_page encode_info" df ae q] by (simp add: encode_reply_def)
next
  case H_ListBindings
  then show ?thesis using failed_reads(3) [of h v "encode_slice encode_binding" df] by (simp add: encode_reply_def)
qed (use failed_writes failed_deletes failed_reads(4) in \<open>auto simp: names_only_def failed_or_same_def\<close>)

section \<open>The server stays consistent\<close>

lemma half_done_ok:
  assumes v: "server_ok verify v" and h: "half_done h v v'"
  shows "server_ok verify v'"
proof -
  have sv: "store_inv verify (sv_store v)" "mgr_ok (sv_store v) (sv_mgr v)" using v by (simp_all add: server_ok_iff)
  have row: "server_ok verify (v\<lparr>sv_store := t\<rparr>)"
    if "CreateMountPointRow n d f (sv_store v) = Inr (r, st)" "store_inv verify st \<Longrightarrow> store_inv verify t"
      "map m_name (st_mounts t) = map m_name (st_mounts st)" for n d f r st t
  proof -
    have "mgr_ok st (sv_mgr v)" using mgr_ok_more [OF sv(2)] mount_names_ops(6) [OF that(1)] by blast
    with that store_inv_ops(6) [OF sv(1) that(1)] show ?thesis by (simp add: server_ok_iff mgr_ok_names [of st])
  qed
  show ?thesis
  proof (cases h)
    case H_CreateMountpoint
    with h obtain n d f r st where c: "CreateMountPointRow n d f (sv_store v) = Inr (r, st)"
      and "v' = v\<lparr>sv_store := st\<rparr> \<or> (\<exists>hash p st'. SetMountPointSourceSecret hash (m_id r) p st = Inr st' \<and> v' = v\<lparr>sv_store := st'\<rparr>)"
      unfolding half_done_def H_CreateMountpoint handler.case by blast
    then show ?thesis using row [OF c] store_inv_ops(7) mount_names_ops(7) by blast
  next
    case H_UpdateMountpoint
    with h obtain i d f e where t: "v' = v\<lparr>sv_store := UpdateMountPointRow i d f e (sv_store v)\<rparr>
        \<or> (\<exists>n. v' = v\<lparr>sv_store := SetMountPointMaxClients i n (UpdateMountPointRow i d f e (sv_store v))\<rparr>)"
      unfolding half_done_def H_UpdateMountpoint handler.case by blast
    have st: "store_inv verify (UpdateMountPointRow i d f e (sv_store v))" by (rule store_inv_ops(8) [OF sv(1)])
    from t server_okI(1) [OF v] st store_inv_ops(9) [OF st] show ?thesis by (auto simp: mount_names_ops(8,9) simp del: map_map)
  next
    case H_UpdateUser
    with h obtain i r e where "v' = v\<lparr>sv_store := UpdateUser i r e (sv_store v)\<rparr>" by (auto simp: half_done_def)
    then show ?thesis using server_okI(1) [OF v store_inv_ops(3) [OF sv(1)]] by (simp add: mount_names_ops(3))
  next
    case H_DeleteUser
    with h v show ?thesis by (auto simp: half_done_def server_ok_iff intro: mgr_ok_DisconnectUser)
  next
    case H_DeleteMountpoint
    with h v show ?thesis by (auto simp: half_done_def server_ok_iff mgr_ok_def split: if_splits)
  qed (use h in \<open>simp_all add: half_done_def\<close>)
qed

lemma f_run_handler_ok:
  assumes "server_ok (ae_verify ae) v"
  shows "server_ok (ae_verify ae) (snd (f_run_handler df ae now token h w q body cookie v))"
  using failed_run_handler [of h df ae now token w q body cookie v] assms run_handler_ok [OF assms, of now token h w q body cookie]
  by (auto simp: failed_or_same_def failed_answer_def split_beta intro: half_done_ok)

lemma f_handle_request_state:
  "snd (f_handle_request df ae now token cookie r v) =
     (case serve now (hr_method r) (hr_path r) cookie v of
        (Handle h vs, v') \<Rightarrow> snd (f_run_handler df ae now token h (case vs of [] \<Rightarrow> [] | w # ws \<Rightarrow> w)
                               (url_query (hr_path r)) (hr_body r) cookie v')
      | (_, v') \<Rightarrow> v')"
  by (simp add: f_handle_request_def split_beta Let_def split: dispatch.split)

lemma fine_handle_request: "f_handle_request no_faults ae now token cookie r v = handle_request ae now token cookie r v"
  by (simp add: f_handle_request_def handle_request_def fine_run_handler split: dispatch.split prod.split)

lemma serve_ok:
  assumes "server_ok verify v" "serve now m path cookie v = (d, v')"
  shows "server_ok verify v'"
  using serve_state [of now m path cookie v] assms by auto

text \<open>The events of the server, each with the failures it meets.\<close>

fun f_server_step :: "api_env \<Rightarrow> db_faults \<times> server_event \<Rightarrow> server \<Rightarrow> server" where
  "f_server_step ae (df, Request now token cookie r) v = snd (f_handle_request df ae now token cookie r v)"
| "f_server_step ae (df, Caster n op) v = server_step ae (Caster n op) v"
| "f_server_step ae (df, Caster_login now n p) v =
     v\<lparr>sv_store := snd (f_Authenticate (df_call df 0) (ae_verify ae) now n p (sv_store v))\<rparr>"
| "f_server_step ae (df, Caster_antenna n pos) v = (if df_call df 0 then server_step ae (Caster_antenna n pos) v else v)"

lemma f_Authenticate_store: "snd (f_Authenticate ok verify now n p s) \<in> {s, snd (Authenticate verify now n p s)}"
  by (simp add: f_Authenticate_def)

interpretation failing_run: kept "f_server_step ae" "server_ok (ae_verify ae)" for ae
proof
  fix v and ev :: "db_faults \<times> server_event" assume v: "server_ok (ae_verify ae) v"
  obtain df e where ev: "ev = (df, e)" by fastforce
  show "server_ok (ae_verify ae) (f_server_step ae ev v)"
  proof (cases e)
    case (Request now token cookie r)
    obtain d v' where d: "serve now (hr_method r) (hr_path r) cookie v = (d, v')" by fastforce
    from serve_ok [OF v d] d ev Request show ?thesis
      by (simp add: f_handle_request_state f_run_handler_ok split: dispatch.split)
  next
    case (Caster_login now n p)
    have "snd (f_Authenticate (df_call df 0) (ae_verify ae) now n p (sv_store v)) = sv_store v
        \<or> snd (f_Authenticate (df_call df 0) (ae_verify ae) now n p (sv_store v)) = snd (Authenticate (ae_verify ae) now n p (sv_store v))"
      using f_Authenticate_store [of "df_call df 0" "ae_verify ae" now n p "sv_store v"] by simp
    moreover have "server_ok (ae_verify ae) (server_step ae (Caster_login now n p) v)" using v by (rule server_ok_step)
    ultimately show ?thesis using ev Caster_login v by auto
  next
    case (Caster_antenna n pos)
    with v ev server_ok_step [OF v, of "Caster_antenna n pos"] show ?thesis by simp
  next
    case (Caster n op)
    with ev server_ok_step [OF v, of "Caster n op"] show ?thesis by simp
  qed
qed

section \<open>Properties\<close>


lemma GetUser_updated:
  assumes "GetUser i s = Some u"
  shows "GetUser i (UpdateUser i role e s) = Some (u\<lparr>u_role := role, u_enabled := e\<rparr>)"
proof -
  have "u_id u = i" using find_Some_in [of _ "st_users s" u] assms by (auto simp: GetUser_def)
  with assms show ?thesis by (simp add: GetUser_def UpdateUser_def clear_cache_def find_update)
qed

text \<open>An update of a user who is disabled closes no connection.\<close>

lemma update_of_disabled:
  assumes "parseID w = Some i" "GetUser i (sv_store v) = Some u" "\<not> u_enabled u"
  shows "sv_mgr (snd (f_UpdateUser_handler df ae w body v)) = sv_mgr v"
  using assms
  by (auto simp: f_UpdateUser_handler_def f_GetUser_def db_call_def Let_def split: option.split sum.split)

text \<open>
  C15. A user can be disabled and stay connected. When a request disables a user and changes the
  password, and the password cannot be stored (bcrypt refuses it, or the second statement fails), the
  request is answered with 500, the user is disabled, and every connection of the user is open. Repeating the request
  does not help: it succeeds, but neither it nor any other update that follows closes the connections, because
  the handler disconnects only a user whom it finds enabled.
\<close>

theorem failed_disable_keeps_connections:
  assumes "parseID w = Some i" "GetUser i (sv_store v) = Some u"
    and "update_user_fields body = Some (role, Some False, p)" "p \<noteq> []"
    and "df_call df 0" "df_call df 1" "ae_hash ae p = None \<or> \<not> df_call df 2"
    and "f_UpdateUser_handler df ae w body v = (out, v1)"
  shows "(\<exists>e. out = jsonError e 500) \<and> map_option u_enabled (GetUser i (sv_store v1)) = Some False \<and> sv_mgr v1 = sv_mgr v
    \<and> fst (h_UpdateUser ae w (Some (JObj [(''enabled'', JBool False)])) v1) = jsonOK ()
    \<and> (\<forall>df' body'. sv_mgr (snd (f_UpdateUser_handler df' ae w body' v1)) = sv_mgr v)"
proof -
  let ?role = "if role \<noteq> [] then role else u_role u"
  let ?st = "UpdateUser i ?role False (sv_store v)"
  have "\<exists>e. f_UpdatePassword (df_call df 2) (ae_hash ae) i p ?st = Inl e"
    using assms(7) by (auto simp: f_UpdatePassword_def split: option.split)
  then obtain e where "f_UpdatePassword (df_call df 2) (ae_hash ae) i p ?st = Inl e" ..
  with assms have r: "out = jsonError e 500" "v1 = v\<lparr>sv_store := ?st\<rparr>"
    by (simp_all add: f_UpdateUser_handler_def f_GetUser_def f_UpdateUser_def Let_def)
  let ?u = "u\<lparr>u_role := ?role, u_enabled := False\<rparr>"
  have u: "GetUser i (sv_store v1) = Some ?u" using GetUser_updated [OF assms(2)] r(2) by simp
  moreover have "fst (h_UpdateUser ae w (Some (JObj [(''enabled'', JBool False)])) v1) = jsonOK ()"
    using assms(1) u
    by (simp add: h_UpdateUser_def update_user_fields_def body_fields_def str_field_def bool_ptr_field_def Let_def)
  moreover have "sv_mgr (snd (f_UpdateUser_handler df' ae w body' v1)) = sv_mgr v" for df' body'
    using update_of_disabled [OF assms(1) u, of df' ae body'] r(2) by simp
  ultimately show ?thesis using r by simp
qed

lemma mgr_Update_absent: "mgr_UpdateMountPoint k d f e wq wt mc g = Some g' \<Longrightarrow> g n = None \<Longrightarrow> g' n = None"
  by (auto simp: mgr_UpdateMountPoint_def Let_def split: option.splits if_splits)

lemma nullish_Update_absent: "g n = None \<Longrightarrow> nullish (mgr_UpdateMountPoint k d f e wq wt mc g) g n = None"
  by (cases "mgr_UpdateMountPoint k d f e wq wt mc g") (auto dest: mgr_Update_absent)

lemma update_absent:
  assumes "sv_mgr v n = None"
  shows "sv_mgr (snd (f_UpdateMountpoint df ae w body v)) n = None"
proof (cases "parseID w")
  case (Some i)
  show ?thesis
  proof (cases "update_mount_fields body")
    case (Some x)
    obtain d f e p m where x: "x = (d, f, e, p, m)" by (metis prod_cases5)
    show ?thesis
    proof (cases "f_GetMountPointRowByID (df_call df 0) i (sv_store v)")
      case (Inr r)
      show ?thesis
        using assms \<open>parseID w = Some i\<close> Some x Inr
        by (cases r) (simp_all add: f_UpdateMountpoint_def Let_def nullish_Update_absent split: sum.split)
    qed (use assms \<open>parseID w = Some i\<close> Some x in \<open>simp add: f_UpdateMountpoint_def\<close>)
  qed (use assms Some in \<open>simp add: f_UpdateMountpoint_def\<close>)
qed (use assms in \<open>simp add: f_UpdateMountpoint_def\<close>)

text \<open>
  A mountpoint can come into being in the table only. When a mountpoint is created with a secret that cannot be
  stored (bcrypt refuses it, or the second statement fails), the request is answered with 500, but the row is
  there and enabled, and at run time there is no mountpoint. Creating it again is refused, and no update makes it
  appear: until it is deleted or the caster restarts, nobody can connect to it.
\<close>

theorem half_created_mountpoint:
  assumes "server_ok (ae_verify ae) v" "create_mount_fields body = Some (n, d, f, p, m)" "n \<noteq> []" "p \<noteq> []"
    and "n \<notin> set (map m_name (st_mounts (sv_store v)))"
    and "df_call df 0" "ae_hash ae p = None \<or> \<not> df_call df 1"
    and "f_CreateMountpoint df ae body v = (out, v1)"
  shows "(\<exists>e. out = jsonError e 500) \<and> (\<exists>row \<in> set (st_mounts (sv_store v1)). m_name row = n \<and> m_enabled row)
    \<and> sv_mgr v1 n = None
    \<and> (\<forall>df' body' d' f' p' m'. create_mount_fields body' = Some (n, d', f', p', m')
          \<longrightarrow> (\<exists>e. f_CreateMountpoint df' ae body' v1 = (jsonError e 409, v1)))
    \<and> (\<forall>df' w body'. sv_mgr (snd (f_UpdateMountpoint df' ae w body' v1)) n = None)"
proof -
  let ?f = "if f = [] then ''RTCM3'' else f"
  obtain row st where c: "CreateMountPointRow n d ?f (sv_store v) = Inr (row, st)"
    and row: "\<exists>r \<in> set (st_mounts st). m_name r = n \<and> m_enabled r"
    using assms(5) by (auto simp: CreateMountPointRow_def Let_def mountpoint_row.defs)
  have "\<exists>e. f_SetMountPointSourceSecret (df_call df 1) (ae_hash ae) (m_id row) p st = Inl e"
    using assms(4,7) by (auto simp: f_SetMountPointSourceSecret_def split: option.split)
  then obtain e where "f_SetMountPointSourceSecret (df_call df 1) (ae_hash ae) (m_id row) p st = Inl e" ..
  with assms c have r: "out = jsonError e 500" "v1 = v\<lparr>sv_store := st\<rparr>"
    by (simp_all add: f_CreateMountpoint_def f_CreateMountPointRow_def Let_def)
  from assms(1,5) have "sv_mgr v n = None" by (cases "sv_mgr v n") (auto simp: server_ok_def mgr_ok_def)
  then have none: "sv_mgr v1 n = None" using r(2) by simp
  have "\<exists>e. f_CreateMountpoint df' ae body' v1 = (jsonError e 409, v1)"
    if b: "create_mount_fields body' = Some (n, d', f', p', m')" for df' body' d' f' p' m'
  proof -
    have "\<exists>e. f_CreateMountPointRow (df_call df' 0) n d' (if f' = [] then ''RTCM3'' else f') st = Inl e"
      using row by (auto simp: f_CreateMountPointRow_def CreateMountPointRow_def)
    then obtain e where "f_CreateMountPointRow (df_call df' 0) n d' (if f' = [] then ''RTCM3'' else f') st = Inl e" ..
    with b assms(3) r(2) show ?thesis by (simp add: f_CreateMountpoint_def Let_def)
  qed
  with r row none update_absent show ?thesis by auto
qed

section \<open>Instances\<close>

definition delete_root :: http_request where
  "delete_root = fetch_args (fst (api_deleteUser 1)) (snd (api_deleteUser 1))"

lemma delete_root_served:
  "serve 50 (hr_method delete_root) (hr_path delete_root) (Some ''tok'') sample_server = (Handle H_DeleteUser [''1''], sample_server)"
proof -
  have "int_str 1 = ''1''" by code_simp
  then have "path_segments (''/api/users/'' @ ''1'') = [''api'', ''users'', ''1'']" "hr_method delete_root = ''DELETE''"
    "hr_path delete_root = ''/api/users/'' @ ''1''"
    using path_segments_item(1) [OF plain_int_str [of 1]] by (simp_all add: delete_root_def api_defs fetch_args_def)
  then show ?thesis
    by (intro serve_route [OF sample_session]) (simp_all add: route_simps)
qed


theorem failed_disable_keeps_connections_witness:
  "\<exists>e v1. f_UpdateUser_handler (fails_at 2) sample_env ''1''
       (Some (JObj [(''enabled'', JBool False), (''password'', JStr ''long'')])) sample_server = (jsonError e 500, v1)
     \<and> sv_mgr v1 = sv_mgr sample_server"
proof -
  let ?body = "Some (JObj [(''enabled'', JBool False), (''password'', JStr ''long'')])"
  obtain out v1 where r: "f_UpdateUser_handler (fails_at 2) sample_env ''1'' ?body sample_server = (out, v1)" by fastforce
  have i: "parseID ''1'' = Some 1" by code_simp
  have u: "\<exists>u. GetUser 1 (sv_store sample_server) = Some u"
    by (simp add: sample_server_def start_server_def sample_tables_eq GetUser_def)
  then obtain u where u: "GetUser 1 (sv_store sample_server) = Some u" ..
  have b: "update_user_fields ?body = Some ([], Some False, ''long'')"
    by (simp add: update_user_fields_def body_fields_def str_field_def bool_ptr_field_def)
  from failed_disable_keeps_connections [OF i u b _ _ _ _ r] r show ?thesis by (auto simp: fails_at_def)
qed

theorem half_created_mountpoint_witness:
  "\<exists>e v1. f_CreateMountpoint (fails_at 1) sample_env
       (Some (JObj [(''name'', JStr ''B''), (''source_secret'', JStr ''key'')])) sample_server = (jsonError e 500, v1)
     \<and> sv_mgr v1 ''B'' = None \<and> ''B'' \<in> set (map m_name (st_mounts (sv_store v1)))"
proof -
  let ?body = "Some (JObj [(''name'', JStr ''B''), (''source_secret'', JStr ''key'')])"
  obtain out v1 where r: "f_CreateMountpoint (fails_at 1) sample_env ?body sample_server = (out, v1)" by fastforce
  have ok: "server_ok (ae_verify sample_env) sample_server"
    using start_server_ok [OF sample_store_ok, of sample_env] by (simp add: sample_server_def sample_env_def)
  have b: "create_mount_fields ?body = Some (''B'', [], [], ''key'', 0)"
    by (simp add: create_mount_fields_def body_fields_def str_field_def int_field_def int_ptr_field_def)
  have n: "''B'' \<notin> set (map m_name (st_mounts (sv_store sample_server)))"
    by (simp add: sample_server_def start_server_def sample_tables_eq sample_row_def)
  from half_created_mountpoint [OF ok b _ _ n _ _ r] r show ?thesis
    by (auto simp: fails_at_def intro: rev_image_eqI)
qed

end
