(* ===== verification/Sim_Frames.thy ===== *)
theory Sim_Frames
  imports Antenna "HOL-Library.Sublist"
begin

text \<open>
  The frames of the simulators: \<open>buildRTCM3Frame\<close> and \<open>crc24q\<close> of \<open>cmd/simbase\<close>, the framer of
  \<open>cmd/simrover\<close>. The random bytes of a frame are arguments. A register of the check sum is a 32-bit word,
  as in the source; the check sum itself is 24 bits wide.
\<close>

type_synonym word32 = "32 word"

section \<open>The check sum\<close>

definition crc_bit :: "word32 \<Rightarrow> word32" where
  "crc_bit crc =
     (let crc = push_bit 1 crc in if crc AND 0x1000000 \<noteq> 0 then crc XOR 0x1864CFB else crc)"

definition crc_byte :: "word32 \<Rightarrow> byte \<Rightarrow> word32" where
  "crc_byte crc b = (crc_bit ^^ 8) (crc XOR push_bit 16 (ucast b))"

definition crc24q :: "byte list \<Rightarrow> word32" where
  "crc24q data = foldl crc_byte 0 data AND 0xFFFFFF"

section \<open>Building a frame\<close>

definition clamp_payload :: "int \<Rightarrow> nat" where
  "clamp_payload payloadLen = nat (if payloadLen < 2 then 2 else if payloadLen > 1023 then 1023 else payloadLen)"

text \<open>\<open>nib\<close> is \<open>rand.Intn(16)\<close>, \<open>rnd i\<close> the random byte at index \<open>i\<close> of the frame.\<close>

definition frame_head :: "16 word \<Rightarrow> int \<Rightarrow> byte \<Rightarrow> (nat \<Rightarrow> byte) \<Rightarrow> byte list" where
  "frame_head msgType payloadLen nib rnd =
     (let n = clamp_payload payloadLen in
      [0xD3, ucast (drop_bit 8 (of_nat n :: 64 word) AND 3), ucast (of_nat n AND 0xFF :: 64 word),
       ucast (drop_bit 4 msgType), ucast (push_bit 4 msgType) OR nib]
      @ map rnd [5..<3 + n])"

definition buildRTCM3Frame :: "16 word \<Rightarrow> int \<Rightarrow> byte \<Rightarrow> (nat \<Rightarrow> byte) \<Rightarrow> byte list" where
  "buildRTCM3Frame msgType payloadLen nib rnd =
     (let head = frame_head msgType payloadLen nib rnd; crc = crc24q head in
      head @ [ucast (drop_bit 16 crc), ucast (drop_bit 8 crc), ucast crc])"

section \<open>The framer of the rover\<close>

text \<open>The search loop with its index; \<open>None\<close> for -1.\<close>

fun sim_index :: "nat \<Rightarrow> byte list \<Rightarrow> nat option" where
  "sim_index i [] = None"
| "sim_index i (b # bs) = (if b = 0xD3 then Some i else sim_index (i + 1) bs)"

lemma sim_index_bounds: "sim_index i bs = Some k \<Longrightarrow> i \<le> k \<and> k < i + length bs"
  by (induction i bs rule: sim_index.induct) (auto split: if_splits)

lemma sim_index_pos: "sim_index 0 bs = Some k \<Longrightarrow> bs ! 0 \<noteq> 0xD3 \<Longrightarrow> 0 < k \<and> k < length bs"
  using sim_index_bounds [of 0 bs k] by (cases bs; cases k) (auto dest: sim_index_bounds split: if_splits)

function sim_drain :: "byte list \<Rightarrow> byte list list \<times> byte list" where
  "sim_drain buf =
     (if length buf < 3 then ([], buf)
      else if buf ! 0 \<noteq> 0xD3
      then (case sim_index 0 buf of None \<Rightarrow> ([], []) | Some idx \<Rightarrow> sim_drain (drop idx buf))
      else let frameLen = 3 + payload_len (buf ! 1) (buf ! 2) + 3 in
        if length buf < frameLen then ([], buf)
        else (let (fs, r) = sim_drain (drop frameLen buf) in (take frameLen buf # fs, r)))"
  by pat_completeness auto

termination sim_drain
  by (relation "measure length") (auto dest: sim_index_pos)

declare sim_drain.simps [simp del]

definition sim_push :: "byte list \<Rightarrow> byte list \<Rightarrow> byte list list \<times> byte list" where
  "sim_push data buf = sim_drain (buf @ data)"

primrec sim_push_all :: "byte list list \<Rightarrow> byte list \<Rightarrow> byte list list \<times> byte list" where
  "sim_push_all [] buf = ([], buf)"
| "sim_push_all (d # ds) buf =
     (let (fs, buf') = sim_push d buf; (gs, r) = sim_push_all ds buf' in (fs @ gs, r))"

definition log_msg_type :: "byte list \<Rightarrow> (16 word) option" where
  "log_msg_type data =
     (if length data < 5 then None
      else Some (push_bit 4 (ucast (data ! 3)) OR drop_bit 4 (ucast (data ! 4))))"

section \<open>The check sum of a frame with its check sum\<close>

lemma crc_bit_test: "crc AND 0x1000000 \<noteq> 0 \<longleftrightarrow> bit (crc :: word32) 24"
  using bit_iff_and_push_bit_not_eq_0 [of crc 24] by simp

lemma bit_shift1: "bit (push_bit 1 (c :: word32)) i \<longleftrightarrow> i < 32 \<and> 1 \<le> i \<and> bit c (i - 1)"
  unfolding bit_push_bit_iff by auto

lemma crc_bit_eq: "crc_bit c = (if bit c 23 then push_bit 1 c XOR 0x1864CFB else push_bit 1 c)"
  unfolding crc_bit_def Let_def crc_bit_test bit_shift1 by simp

lemma bit_polynomial: "bit (0x1864CFB :: word32) 24" "25 \<le> i \<Longrightarrow> \<not> bit (0x1864CFB :: word32) i"
proof -
  show "bit (0x1864CFB :: word32) 24" by simp
  have "(0x1864CFB :: word32) = take_bit 25 0x1864CFB" by simp
  then show "25 \<le> i \<Longrightarrow> \<not> bit (0x1864CFB :: word32) i" by (metis bit_take_bit_iff not_less)
qed

lemma crc_bit_high:
  assumes "\<And>i. 24 \<le> i \<Longrightarrow> \<not> bit c i" "24 \<le> i"
  shows "\<not> bit (crc_bit c) i"
proof (cases "i = 24")
  case True
  then show ?thesis
    unfolding crc_bit_eq using bit_polynomial(1) bit_shift1 [of c 24] by (auto simp: bit_xor_iff)
next
  case False
  with assms(2) have i: "25 \<le> i" by simp
  then have "\<not> bit (push_bit 1 c) i" using assms(1) [of "i - 1"] bit_shift1 [of c i] by auto
  with bit_polynomial(2) [OF i] show ?thesis unfolding crc_bit_eq by (auto simp only: bit_xor_iff split: if_splits)
qed

lemma crc_bits_high:
  assumes "\<And>i. 24 \<le> i \<Longrightarrow> \<not> bit c i" "24 \<le> i"
  shows "\<not> bit ((crc_bit ^^ n) c) i"
  using assms(2)
proof (induction n arbitrary: i)
  case (Suc n)
  then show ?case using crc_bit_high [of "(crc_bit ^^ n) c" i] by simp
qed (use assms(1) in simp)

lemma byte_at_16_high: "24 \<le> i \<Longrightarrow> \<not> bit (push_bit 16 (ucast (b :: byte)) :: word32) i"
  using bit_imp_le_length [of b "i - 16"] by (auto simp: bit_simps)

lemma crc_byte_high: "(\<And>i. 24 \<le> i \<Longrightarrow> \<not> bit c i) \<Longrightarrow> 24 \<le> i \<Longrightarrow> \<not> bit (crc_byte c b) i"
  unfolding crc_byte_def
  by (rule crc_bits_high) (auto simp: bit_xor_iff byte_at_16_high)

lemma foldl_crc_high: "(\<And>i. 24 \<le> i \<Longrightarrow> \<not> bit c i) \<Longrightarrow> 24 \<le> i \<Longrightarrow> \<not> bit (foldl crc_byte c bs) i"
  by (induction bs arbitrary: c) (auto simp: crc_byte_high)

text \<open>While the top bits are clear the register is only shifted.\<close>

lemma crc_shift:
  assumes "\<And>i. 24 - n \<le> i \<Longrightarrow> \<not> bit c i" "n \<le> 24"
  shows "(crc_bit ^^ n) c = push_bit n c"
  using assms
proof (induction n arbitrary: c)
  case (Suc n)
  have "\<not> bit c 23" using Suc.prems by simp
  then have one: "crc_bit c = push_bit 1 c" unfolding crc_bit_eq by (simp only: if_False)
  have "\<not> bit (push_bit 1 c) i" if "24 - n \<le> i" for i
    unfolding bit_shift1 using that Suc.prems(1) [of "i - 1"] Suc.prems(2) by auto
  from Suc.IH [OF this] Suc.prems(2) have "(crc_bit ^^ n) (push_bit 1 c) = push_bit n (push_bit 1 c)" by simp
  then show ?case by (simp only: funpow_Suc_right o_apply one push_bit_push_bit) simp
qed simp

text \<open>Reading the top byte of the register moves the others up.\<close>

lemma crc_byte_top:
  assumes "\<And>i. 24 \<le> i \<Longrightarrow> \<not> bit c i"
  shows "crc_byte c (ucast (drop_bit 16 c)) = push_bit 8 (take_bit 16 c)"
proof -
  have "c XOR push_bit 16 (ucast (ucast (drop_bit 16 c) :: byte)) = take_bit 16 c"
  proof (rule bit_word_eqI)
    fix i assume "i < LENGTH(32)"
    then show "bit (c XOR push_bit 16 (ucast (ucast (drop_bit 16 c) :: byte))) i = bit (take_bit 16 c) i"
      using assms [of i] by (cases "24 \<le> i") (auto simp: bit_simps)
  qed
  moreover have "(crc_bit ^^ 8) (take_bit 16 c) = push_bit 8 (take_bit 16 c)"
    by (rule crc_shift) (auto simp: bit_simps)
  ultimately show ?thesis by (simp add: crc_byte_def)
qed

lemma crc_residue:
  assumes high: "\<And>i. 24 \<le> i \<Longrightarrow> \<not> bit c i"
  shows "foldl crc_byte c [ucast (drop_bit 16 c), ucast (drop_bit 8 c), ucast c] = 0"
proof -
  let ?d = "push_bit 8 (take_bit 16 c)"
  let ?e = "push_bit 8 (take_bit 16 ?d)"
  have d: "\<not> bit ?d i" if "24 \<le> i" for i using that by (auto simp: bit_simps)
  have e: "\<not> bit ?e i" if "24 \<le> i" for i using that by (auto simp: bit_simps)
  have b1: "(ucast (drop_bit 8 c) :: byte) = ucast (drop_bit 16 ?d)"
    by (rule bit_word_eqI) (auto simp: bit_simps)
  have b2: "(ucast c :: byte) = ucast (drop_bit 16 ?e)"
    by (rule bit_word_eqI) (auto simp: bit_simps)
  have "push_bit 8 (take_bit 16 ?e) = 0"
    by (rule bit_word_eqI) (auto simp: bit_simps)
  with crc_byte_top [OF high] crc_byte_top [of ?d] crc_byte_top [of ?e] d e b1 b2
  show ?thesis by simp
qed

lemma crc24q_high: "24 \<le> i \<Longrightarrow> \<not> bit (foldl crc_byte 0 data) i"
  by (rule foldl_crc_high) simp_all

lemma crc24q_eq: "crc24q data = foldl crc_byte 0 data"
proof -
  have "foldl crc_byte 0 data AND mask 24 = foldl crc_byte 0 data"
  proof (rule bit_word_eqI)
    fix i assume "i < LENGTH(32)"
    then show "bit (foldl crc_byte 0 data AND mask 24) i = bit (foldl crc_byte 0 data) i"
      using crc24q_high [of i data] by (cases "24 \<le> i") (auto simp: bit_simps)
  qed
  then show ?thesis by (simp add: crc24q_def mask_numeral)
qed

lemma frame_residue: "crc24q (buildRTCM3Frame mt n nib rnd) = 0"
proof -
  let ?h = "frame_head mt n nib rnd"
  have "crc24q (buildRTCM3Frame mt n nib rnd)
      = foldl crc_byte (crc24q ?h) [ucast (drop_bit 16 (crc24q ?h)), ucast (drop_bit 8 (crc24q ?h)), ucast (crc24q ?h)]"
    unfolding buildRTCM3Frame_def Let_def crc24q_eq [of "_ @ _"] foldl_append crc24q_eq [of ?h, symmetric] ..
  also have "\<dots> = 0" by (rule crc_residue) (simp add: crc24q_eq crc24q_high)
  finally show ?thesis .
qed

section \<open>The frame is one\<close>

lemma clamp_bounds: "2 \<le> clamp_payload n" "clamp_payload n \<le> 1023"
  by (auto simp: clamp_payload_def)

lemma length_head: "length (frame_head mt n nib rnd) = 3 + clamp_payload n"
  using clamp_bounds(1) [of n] by (simp add: frame_head_def Let_def)

lemma length_frame: "length (buildRTCM3Frame mt n nib rnd) = clamp_payload n + 6"
  by (simp add: buildRTCM3Frame_def length_head Let_def)

lemma frame_nth:
  "buildRTCM3Frame mt n nib rnd ! 0 = 0xD3"
  "buildRTCM3Frame mt n nib rnd ! 1 = ucast (drop_bit 8 (of_nat (clamp_payload n) :: 64 word) AND 3)"
  "buildRTCM3Frame mt n nib rnd ! 2 = ucast (of_nat (clamp_payload n) AND 0xFF :: 64 word)"
  "buildRTCM3Frame mt n nib rnd ! 3 = ucast (drop_bit 4 mt)"
  "buildRTCM3Frame mt n nib rnd ! 4 = ucast (push_bit 4 mt) OR nib"
  by (simp_all add: buildRTCM3Frame_def frame_head_def Let_def nth_append nth_Cons')

lemma length_bytes:
  assumes "n < 1024"
  shows "unat (ucast (drop_bit 8 (of_nat n :: 64 word) AND 3) :: byte) = n div 256"
    and "unat (ucast (of_nat n AND 0xFF :: 64 word) :: byte) = n mod 256"
proof -
  have n: "unat (of_nat n :: 64 word) = n" using assms by (simp add: unat_of_nat)
  have "drop_bit 8 (of_nat n :: 64 word) AND 3 = take_bit 2 (drop_bit 8 (of_nat n))"
    by (simp add: take_bit_eq_mask mask_eq_exp_minus_1)
  moreover have "unat (take_bit 2 (drop_bit 8 (of_nat n :: 64 word))) = n div 256"
    unfolding unsigned_take_bit_eq unsigned_drop_bit_eq n
    using assms by (simp add: drop_bit_eq_div take_bit_eq_mod)
  ultimately show "unat (ucast (drop_bit 8 (of_nat n :: 64 word) AND 3) :: byte) = n div 256"
    using assms by (simp add: unsigned_ucast_eq take_bit_nat_eq_self_iff)
  have "(of_nat n AND 0xFF :: 64 word) = take_bit 8 (of_nat n)"
    by (simp add: take_bit_eq_mask mask_eq_exp_minus_1)
  moreover have "unat (take_bit 8 (of_nat n :: 64 word)) = n mod 256"
    unfolding unsigned_take_bit_eq n by (simp add: take_bit_eq_mod)
  ultimately show "unat (ucast (of_nat n AND 0xFF :: 64 word) :: byte) = n mod 256"
    by (simp add: unsigned_ucast_eq take_bit_nat_eq_self_iff)
qed

lemma frame_payload_len:
  "payload_len (buildRTCM3Frame mt n nib rnd ! 1) (buildRTCM3Frame mt n nib rnd ! 2) = clamp_payload n"
proof -
  have c: "clamp_payload n < 1024" using clamp_bounds(2) [of n] by simp
  then have "clamp_payload n div 256 < 4" by (simp add: div_less_iff_less_mult)
  then show ?thesis unfolding frame_nth payload_len_eq length_bytes [OF c] by simp
qed

lemma built_frame_wf: "wf_frame (buildRTCM3Frame mt n nib rnd)"
  unfolding wf_frame_def frame_len_def frame_payload_len length_frame frame_nth(1)
  by (simp add: frame_consts)

lemma built_frame_type:
  assumes "nib < 16"
  shows "ExtractMsgType (buildRTCM3Frame mt n nib rnd) = take_bit 12 mt"
proof -
  have nib: "\<not> bit nib i" if "4 \<le> i" for i
  proof -
    have "unat nib < 16" using assms by (simp add: word_less_nat_alt)
    then have "take_bit 4 nib = nib"
      by (simp add: word_unat_eq_iff unsigned_take_bit_eq take_bit_nat_eq_self)
    then show ?thesis using that by (metis bit_take_bit_iff not_less)
  qed
  have "5 \<le> length (buildRTCM3Frame mt n nib rnd)" using clamp_bounds(1) [of n] by (simp add: length_frame)
  then have "ExtractMsgType (buildRTCM3Frame mt n nib rnd)
      = push_bit 4 (ucast (ucast (drop_bit 4 mt) :: byte)) OR drop_bit 4 (ucast (ucast (push_bit 4 mt) OR nib :: byte))"
    unfolding ExtractMsgType_def frame_nth by simp
  also have "\<dots> = take_bit 12 mt"
  proof (rule bit_word_eqI)
    fix i assume "i < LENGTH(16)"
    then show "bit (push_bit 4 (ucast (ucast (drop_bit 4 mt) :: byte)) OR drop_bit 4 (ucast (ucast (push_bit 4 mt) OR nib :: byte)) :: 16 word) i
        = bit (take_bit 12 mt) i"
      using nib [of "4 + i"] by (auto simp: bit_simps)
  qed
  finally show ?thesis .
qed

section \<open>The framer is the caster's\<close>

lemma sim_index_find: "sim_index i bs = map_option ((+) i) (findPreamble bs)"
  by (induction i bs rule: sim_index.induct) (auto simp: preamble_def option.map_comp comp_def)

lemma sim_drain_eq: "sim_drain buf = drain buf"
proof (induction buf rule: sim_drain.induct)
  case (1 buf)
  have "sim_index 0 buf = findPreamble buf" by (cases "findPreamble buf") (simp_all add: sim_index_find)
  with 1 show ?case
    by (subst sim_drain.simps, subst drain.simps)
      (auto simp: frame_consts frame_len_def Let_def split: option.split)
qed

lemma sim_push_all_eq: "sim_push_all ds (fr_buf f) = (snd (push_all ds f), fr_buf (fst (push_all ds f)))"
proof (induction ds arbitrary: f)
  case (Cons d ds)
  have "sim_push d (fr_buf f) = (snd (framer_Push d f), fr_buf (fst (framer_Push d f)))"
    by (simp add: sim_push_def sim_drain_eq framer_Push_def split_beta Let_def)
  with Cons [of "fst (framer_Push d f)"] show ?case by (simp add: split_beta Let_def)
qed simp

lemma log_msg_type_eq: "log_msg_type data = (if length data < 5 then None else Some (ExtractMsgType data))"
  by (simp add: log_msg_type_def ExtractMsgType_def)

text \<open>What the rover's framer gets out of a fresh start: the frames of what has arrived.\<close>

lemma sim_push_all_frames: "fst (sim_push_all ds []) = fst (frames (concat ds))"
  using sim_push_all_eq [of ds "\<lparr>fr_buf = []\<rparr>"] push_all_frames [of "\<lparr>fr_buf = []\<rparr>" ds] by simp

text \<open>Of a stream of frames that breaks off anywhere, the frames that are complete.\<close>

lemma frames_of_prefix:
  assumes "prefix s (concat fs)" "\<forall>f \<in> set fs. wf_frame f"
  shows "prefix (fst (frames s)) fs"
proof -
  from assms(1) obtain t where "concat fs = s @ t" by (auto simp: prefix_def)
  moreover have "fst (frames (concat fs)) = fs"
    using frames_stream [of "map (\<lambda>f. ([], f)) fs"] assms(2) by (simp add: comp_def split_beta)
  ultimately show ?thesis using frames_append [of s t] by (metis fst_conv prefixI)
qed

end
