(* ===== verification/Simulators.thy ===== *)
theory Simulators
  imports Sim_Frames Admission
begin

text \<open>
  The simulators \<open>cmd/simbase\<close> and \<open>cmd/simrover\<close>: the lists of mountpoints, the launch of the simulated
  stations, and one simulated base and one simulated rover with their counters. What the network does (the
  dial, each write, each read) is an argument: the outcomes the goroutine sees, in order. Both goroutines
  return only after an error or the stop signal, so a list of outcomes that ends is a goroutine still running.
\<close>

section \<open>Strings\<close>

text \<open>\<open>strings.Index\<close> and \<open>strings.Contains\<close>\<close>

fun str_index :: "'a list \<Rightarrow> 'a list \<Rightarrow> nat option" where
  "str_index sub [] = (if sub = [] then Some 0 else None)"
| "str_index sub (c # cs) = (if prefix sub (c # cs) then Some 0 else map_option Suc (str_index sub cs))"

definition str_contains :: "'a list \<Rightarrow> 'a list \<Rightarrow> bool" where
  "str_contains s sub \<longleftrightarrow> str_index sub s \<noteq> None"

lemma str_contains_iff: "str_contains s sub \<longleftrightarrow> (\<exists>a b. s = a @ sub @ b)"
  unfolding str_contains_def sublist_def [symmetric]
  by (induction s) (auto simp: sublist_Cons_right)

lemma str_contains_append: "str_contains (a @ sub @ b) sub"
  by (auto simp: str_contains_iff)

lemma str_index_first:
  assumes "sub \<noteq> []" "hd sub \<notin> set pre"
  shows "str_index sub (pre @ sub @ t) = Some (length pre)"
  using assms(2)
proof (induction pre)
  case Nil
  with assms(1) show ?case by (cases sub) auto
next
  case (Cons c pre)
  with assms(1) have "\<not> prefix sub (c # pre @ sub @ t)" by (cases sub) auto
  with Cons show ?case by simp
qed

section \<open>Which mountpoints\<close>

definition base_mounts :: "string \<Rightarrow> string \<Rightarrow> nat \<Rightarrow> string list" where
  "base_mounts mount pre count =
     (if count = 1 \<and> mount \<noteq> [] then [mount]
      else if count = 1 \<and> mount = [] then [pre @ ''_0'']
      else map (\<lambda>i. pre @ ''_'' @ nat_str i) [0..<count])"

definition rover_mounts :: "string \<Rightarrow> string \<Rightarrow> string list" where
  "rover_mounts single multi =
     (if multi \<noteq> [] then filter (\<lambda>p. p \<noteq> []) (map TrimSpace (split_on CHR '','' multi))
      else if single \<noteq> [] then [single] else [])"

text \<open>
  The launch loop of \<open>simrover\<close>: rover \<open>i\<close> goes to mountpoint \<open>i\<close> modulo the list. \<open>stopped i\<close> says which
  case the \<open>select\<close> after rover \<open>i\<close> takes; its \<open>break\<close> leaves the \<open>select\<close>, so the loop goes on either way.
  The result is what is launched, with the delays that were waited out.
\<close>

datatype launched = L_rover nat string | L_waited

fun launch_rovers :: "nat \<Rightarrow> nat \<Rightarrow> string list \<Rightarrow> (nat \<Rightarrow> bool) \<Rightarrow> launched list" where
  "launch_rovers 0 i mountList stopped = []"
| "launch_rovers (Suc left) i mountList stopped =
     L_rover i (mountList ! (i mod length mountList))
     # (if left > 0 then (if stopped i then [] else [L_waited]) else [])
     @ launch_rovers left (i + 1) mountList stopped"

section \<open>A simulated base\<close>

record sim_counters =
  g_TotalBytes :: nat
  g_TotalPkts :: nat
  g_Connected :: nat
  g_Failed :: nat
  g_Disconnected :: nat
  g_Kicked :: nat

definition count_failed :: "sim_counters \<Rightarrow> sim_counters" where
  "count_failed g = g\<lparr>g_Failed := g_Failed g + 1\<rparr>"

definition count_connected :: "sim_counters \<Rightarrow> sim_counters" where
  "count_connected g = g\<lparr>g_Connected := g_Connected g + 1\<rparr>"

definition count_traffic :: "nat \<Rightarrow> nat \<Rightarrow> sim_counters \<Rightarrow> sim_counters" where
  "count_traffic bytes pkts g =
     g\<lparr>g_TotalBytes := g_TotalBytes g + bytes, g_TotalPkts := g_TotalPkts g + pkts\<rparr>"

text \<open>
  The opening both programs share: the dial, the request, the first read of at most 4096 bytes (\<open>None\<close> for
  an error). \<open>Inl\<close> says after which step it is given up.
\<close>

datatype sim_failure = F_dial | F_send | F_read | F_rejected string

definition sim_open :: "bool \<Rightarrow> bool \<Rightarrow> string option \<Rightarrow> sim_failure + string" where
  "sim_open dial_ok send_ok first =
     (if \<not> dial_ok then Inl F_dial
      else if \<not> send_ok then Inl F_send
      else case first of
          None \<Rightarrow> Inl F_read
        | Some respStr \<Rightarrow> if str_contains respStr ''200'' then Inr respStr else Inl (F_rejected (TrimSpace respStr)))"

text \<open>The send loop: the stop signal, or a tick with its random bytes and the outcome of the write.\<close>

datatype base_event = B_stop | B_tick byte "nat \<Rightarrow> byte" bool

fun base_loop :: "16 word \<Rightarrow> int \<Rightarrow> base_event list \<Rightarrow> sim_counters \<Rightarrow> byte list list \<times> sim_counters" where
  "base_loop msgType payloadSize [] g = ([], g)"
| "base_loop msgType payloadSize (B_stop # es) g = ([], g)"
| "base_loop msgType payloadSize (B_tick nib rnd ok # es) g =
     (let frame = buildRTCM3Frame msgType payloadSize nib rnd in
      if \<not> ok then ([], g)
      else (let (fs, g') = base_loop msgType payloadSize es (count_traffic (length frame) 1 g) in (frame # fs, g')))"

definition runBase ::
  "bool \<Rightarrow> int \<Rightarrow> string \<Rightarrow> string \<Rightarrow> string \<Rightarrow> bool \<Rightarrow> string option \<Rightarrow> 16 word \<Rightarrow> int \<Rightarrow> base_event list
     \<Rightarrow> sim_counters \<Rightarrow> byte list list \<times> sim_counters" where
  "runBase dial_ok version mount user pass send_ok first msgType payloadSize es g =
     (case sim_open dial_ok (sendSourceRequest version mount user pass \<noteq> None \<and> send_ok) first of
        Inl e \<Rightarrow> ([], count_failed g)
      | Inr respStr \<Rightarrow> base_loop msgType payloadSize es (count_connected g))"

section \<open>A simulated rover\<close>

text \<open>What follows the headers in the first read.\<close>

definition leftover :: "string \<Rightarrow> byte list" where
  "leftover respStr =
     (case str_index (crlf @ crlf) respStr of
        None \<Rightarrow> []
      | Some headerEnd \<Rightarrow> if headerEnd + 4 < length respStr then of_bytes (drop (headerEnd + 4) respStr) else [])"

text \<open>
  A read: its bytes (\<open>rn > 0\<close> or none) and how it ended. With an error the goroutine returns, and an error
  that is not the end of the stream counts as a kick unless the stop channel is closed by then.
\<close>

datatype read_end = R_more | R_EOF | R_error bool

fun rover_loop :: "(byte list \<times> read_end) list \<Rightarrow> byte list \<Rightarrow> sim_counters \<Rightarrow> byte list list \<times> sim_counters" where
  "rover_loop [] buf g = ([], g)"
| "rover_loop ((data, e) # rs) buf g =
     (let (pkts, buf') = (if data \<noteq> [] then sim_push data buf else ([], buf));
          g' = (if data \<noteq> [] then count_traffic (length data) (length pkts) g else g)
      in case e of
           R_more \<Rightarrow> (let (later, g'') = rover_loop rs buf' g' in (pkts @ later, g''))
         | R_EOF \<Rightarrow> (pkts, g'\<lparr>g_Disconnected := g_Disconnected g' + 1\<rparr>)
         | R_error stopped \<Rightarrow>
             (pkts, (if stopped then g' else g'\<lparr>g_Kicked := g_Kicked g' + 1\<rparr>)\<lparr>g_Disconnected := g_Disconnected g' + 1\<rparr>))"

definition runRover ::
  "bool \<Rightarrow> bool \<Rightarrow> string option \<Rightarrow> (byte list \<times> read_end) list \<Rightarrow> sim_counters \<Rightarrow> byte list list \<times> sim_counters" where
  "runRover dial_ok send_ok first reads g =
     (case sim_open dial_ok send_ok first of
        Inl F_dial \<Rightarrow> ([], count_failed g)
      | Inl e \<Rightarrow> ([], (count_failed g)\<lparr>g_Disconnected := g_Disconnected g + 1\<rparr>)
      | Inr respStr \<Rightarrow>
          (let g = count_connected g; rest = leftover respStr;
               (pkts, buf) = (if rest \<noteq> [] then sim_push rest [] else ([], []));
               g = (if rest \<noteq> [] then count_traffic (length rest) (length pkts) g else g);
               (later, g) = rover_loop reads buf g
           in (pkts @ later, g)))"

section \<open>What a simulated rover gets\<close>

text \<open>The bytes of the reads up to the first that ends the loop.\<close>

fun reads_taken :: "(byte list \<times> read_end) list \<Rightarrow> byte list list" where
  "reads_taken [] = []"
| "reads_taken ((data, e) # rs) = data # (if e = R_more then reads_taken rs else [])"

lemma concat_nonempty [simp]: "concat (filter (\<lambda>d. d \<noteq> []) ds) = concat ds"
  by (induction ds) auto

lemma rover_loop_pkts: "fst (rover_loop rs buf g) = fst (sim_push_all (filter (\<lambda>d. d \<noteq> []) (reads_taken rs)) buf)"
  by (induction rs arbitrary: buf g) (auto simp: split_beta Let_def split: read_end.split)

lemma rover_loop_counts:
  "g_TotalBytes (snd (rover_loop rs buf g)) = g_TotalBytes g + length (concat (reads_taken rs))"
  "g_TotalPkts (snd (rover_loop rs buf g)) = g_TotalPkts g + length (fst (rover_loop rs buf g))"
  by (induction rs arbitrary: buf g)
    (auto simp: split_beta Let_def count_traffic_def split: read_end.split)

lemma runRover_pkts:
  assumes "sim_open dial_ok send_ok first = Inr respStr"
  shows "fst (runRover dial_ok send_ok first reads g) = fst (frames (leftover respStr @ concat (reads_taken reads)))"
proof -
  let ?ds = "(if leftover respStr \<noteq> [] then [leftover respStr] else []) @ filter (\<lambda>d. d \<noteq> []) (reads_taken reads)"
  have "fst (runRover dial_ok send_ok first reads g) = fst (sim_push_all ?ds [])"
    using assms by (simp add: runRover_def split_beta Let_def rover_loop_pkts)
  then show ?thesis by (simp add: sim_push_all_frames)
qed

lemma runRover_counts:
  assumes "sim_open dial_ok send_ok first = Inr respStr" "runRover dial_ok send_ok first reads g = (pkts, g')"
  shows "g_TotalPkts g' = g_TotalPkts g + length pkts"
    and "g_TotalBytes g' = g_TotalBytes g + length (leftover respStr) + length (concat (reads_taken reads))"
  using assms rover_loop_counts
  by (auto simp: runRover_def split_beta Let_def count_traffic_def count_connected_def)

section \<open>The reply and what follows it\<close>

lemma of_char_inj: "(of_char c :: byte) = of_char d \<Longrightarrow> c = d"
proof -
  have u: "unat (of_char x :: byte) = of_char x" for x
    using char_lt [of x] unat_of_nat [of "of_char x", where ?'a = 8] unfolding of_nat_of_char by simp
  assume "(of_char c :: byte) = of_char d"
  then have "(of_char c :: nat) = of_char d" using u by metis
  then show "c = d" by simp
qed

lemma of_bytes_inj: "of_bytes s = of_bytes t \<Longrightarrow> s = t"
  unfolding of_bytes_def using of_char_inj by (meson injI inj_map_eq_map)

lemma of_bytes_append [simp]: "of_bytes (s @ t) = of_bytes s @ of_bytes t" "of_bytes [] = []" "length (of_bytes s) = length s"
  by (simp_all add: of_bytes_def)

definition admitted_reply :: string where
  "admitted_reply = resp ''ICY 200 OK''"

lemma reply_shape: "admitted_reply = ''ICY 200 OK'' @ crlf @ crlf" "length admitted_reply = 14"
  by (simp_all add: admitted_reply_def resp_def)

lemma reply_no_preamble: "preamble \<notin> set (of_bytes admitted_reply)"
  by (simp add: admitted_reply_def resp_def of_bytes_def preamble_def)

text \<open>A first read that holds all of the reply, and one that holds a part with the status.\<close>

lemma leftover_whole: "leftover (admitted_reply @ t) = of_bytes t"
proof -
  have "str_index (crlf @ crlf) (''ICY 200 OK'' @ (crlf @ crlf) @ t) = Some 10"
    by (subst str_index_first) simp_all
  then have "str_index (crlf @ crlf) (admitted_reply @ t) = Some 10" by (simp add: reply_shape)
  then show ?thesis by (cases t) (simp_all add: leftover_def reply_shape)
qed

lemma leftover_part:
  assumes "n < 14"
  shows "leftover (take n admitted_reply) = []"
proof -
  from assms have "n \<in> {0, 1, 2, 3, 4, 5, 6, 7, 8, 9, 10, 11, 12, 13}"
    unfolding insert_iff empty_iff by presburger
  then show ?thesis by (auto simp: leftover_def reply_shape)
qed

lemma reply_says_200: "7 \<le> n \<Longrightarrow> str_contains (take n (admitted_reply @ t)) ''200''"
proof -
  assume n: "7 \<le> n"
  let ?x = "'' OK'' @ crlf @ crlf @ t"
  have "admitted_reply @ t = (''ICY '' @ ''200'') @ ?x" by (simp add: reply_shape)
  moreover have "take n ((''ICY '' @ ''200'') @ ?x) = (''ICY '' @ ''200'') @ take (n - 7) ?x"
    using n by (subst take_append) (simp add: eval_nat_numeral)
  ultimately have "take n (admitted_reply @ t) = ''ICY '' @ ''200'' @ take (n - 7) ?x"
    by (metis append_assoc)
  then show ?thesis by (metis str_contains_append)
qed

text \<open>However the network cuts the reply and the stream behind it, the framer gets the frames of the stream.\<close>

lemma first_read_frames:
  assumes "of_bytes first @ rest = of_bytes admitted_reply @ wire"
  shows "frames (leftover first @ rest) = frames wire"
proof (cases "length first < 14")
  case True
  let ?tail = "drop (length first) (of_bytes admitted_reply)"
  have len: "length first \<le> length (of_bytes admitted_reply)" using True by (simp add: reply_shape)
  have "of_bytes first = take (length first) (of_bytes admitted_reply)"
    using arg_cong [OF assms, of "take (length first)"] len by simp
  then have "first = take (length first) admitted_reply"
    by (intro of_bytes_inj) (simp add: of_bytes_def take_map)
  then have lo: "leftover first = []" using leftover_part [OF True] by metis
  have "rest = ?tail @ wire"
    using arg_cong [OF assms, of "drop (length first)"] len by simp
  moreover have "preamble \<notin> set ?tail" using reply_no_preamble by (meson in_set_dropD)
  then have "resync (?tail @ wire) = resync wire" by (simp add: resync_append resync_none)
  ultimately show ?thesis unfolding lo by (metis append_Nil frames_resync)
next
  case False
  then have len: "length (of_bytes admitted_reply) \<le> length first" by (simp add: reply_shape)
  have "of_bytes (take 14 first) = of_bytes admitted_reply"
    using arg_cong [OF assms, of "take 14"] False by (simp add: of_bytes_def take_map reply_shape(2) [unfolded of_bytes_def])
  then have "take 14 first = admitted_reply" by (rule of_bytes_inj)
  then obtain t where t: "first = admitted_reply @ t" by (metis append_take_drop_id)
  then show ?thesis using assms by (simp add: leftover_whole)
qed

lemma prefix_short: "prefix xs (ys @ zs) \<Longrightarrow> length xs < length ys \<Longrightarrow> prefix xs ys"
  by (metis less_imp_le prefixI prefix_length_prefix)

lemma prefix_long:
  assumes "prefix xs (ys @ zs)" "length ys \<le> length xs"
  obtains d where "xs = ys @ d" "prefix d zs"
proof -
  have "prefix ys xs" using assms prefix_length_prefix [of ys "ys @ zs" xs] by simp
  then obtain d where "xs = ys @ d" by (auto simp: prefix_def)
  with assms(1) that show thesis by simp
qed

lemma first_read_shape:
  assumes "prefix (of_bytes first) (of_bytes admitted_reply @ wire)"
  shows "\<exists>t. first = take (length first) (admitted_reply @ t)"
proof (cases "length first < 14")
  case True
  then have "prefix (of_bytes first) (of_bytes admitted_reply)"
    by (intro prefix_short [OF assms]) (simp add: reply_shape(2))
  then have "of_bytes first = of_bytes (take (length first) admitted_reply)"
    by (auto simp: prefix_def of_bytes_def take_map [symmetric])
  then have "first = take (length first) admitted_reply" by (rule of_bytes_inj)
  with True show ?thesis by (intro exI [of _ "[]"]) simp
next
  case False
  then have "length (of_bytes admitted_reply) \<le> length (of_bytes first)" by (simp add: reply_shape(2))
  with assms obtain d where "of_bytes first = of_bytes admitted_reply @ d" by (rule prefix_long)
  then have "of_bytes (take 14 first) = of_bytes admitted_reply"
    by (simp add: of_bytes_def take_map [symmetric] reply_shape(2) [unfolded of_bytes_def])
  then have "take 14 first = admitted_reply" by (rule of_bytes_inj)
  then have "first = admitted_reply @ drop 14 first" by (metis append_take_drop_id)
  then show ?thesis by (metis order_refl take_all)
qed

lemma sim_open_admitted:
  assumes "7 \<le> length first" "prefix (of_bytes first) (of_bytes admitted_reply @ wire)"
  shows "sim_open True True (Some first) = Inr first"
  using first_read_shape [OF assms(2)] reply_says_200 [OF assms(1)] by (auto simp: sim_open_def) metis

lemma reads_frames:
  assumes "prefix (of_bytes first @ rest) (of_bytes admitted_reply @ wire)"
  obtains w where "prefix w wire" "frames (leftover first @ rest) = frames w"
    "of_bytes first @ rest = of_bytes admitted_reply @ wire \<Longrightarrow> w = wire"
proof (cases "length (of_bytes first @ rest) < 14")
  case True
  from assms have "prefix (of_bytes first) (of_bytes admitted_reply @ wire)" by (metis prefix_def append_assoc)
  then obtain t where "first = take (length first) (admitted_reply @ t)" using first_read_shape by blast
  moreover have "length first < 14" using True by simp
  ultimately have "first = take (length first) admitted_reply" by (simp add: reply_shape(2))
  then have lo: "leftover first = []" using leftover_part [OF \<open>length first < 14\<close>] by metis
  have "prefix (of_bytes first @ rest) (of_bytes admitted_reply)"
    using True by (intro prefix_short [OF assms]) (simp add: reply_shape(2))
  then have "preamble \<notin> set rest" using reply_no_preamble by (metis Un_iff prefix_def set_append)
  then have "frames rest = frames []" by (metis frames_resync resync_none resync_Nil)
  moreover have "of_bytes first @ rest \<noteq> of_bytes admitted_reply @ wire"
  proof
    assume "of_bytes first @ rest = of_bytes admitted_reply @ wire"
    then have "length (of_bytes first @ rest) = 14 + length wire" by (simp add: reply_shape(2))
    with True show False by simp
  qed
  ultimately show thesis using lo that [of "[]"] by simp
next
  case False
  then have "length (of_bytes admitted_reply) \<le> length (of_bytes first @ rest)" by (simp add: reply_shape(2))
  with assms obtain w where "of_bytes first @ rest = of_bytes admitted_reply @ w" "prefix w wire"
    by (rule prefix_long)
  with that first_read_frames [of first rest w] show thesis by auto
qed

section \<open>From the base to the rover\<close>

text \<open>Streams that a simulated base can have written, or part of it.\<close>

definition base_output :: "16 word \<Rightarrow> int \<Rightarrow> byte list \<Rightarrow> bool" where
  "base_output mt n st \<longleftrightarrow>
     (\<exists>es g. prefix st (concat (fst (base_loop mt n es g))) \<and> (\<forall>nib rnd ok. B_tick nib rnd ok \<in> set es \<longrightarrow> nib < 16))"

definition sim_frame :: "16 word \<Rightarrow> int \<Rightarrow> byte list \<Rightarrow> bool" where
  "sim_frame mt n f \<longleftrightarrow> (\<exists>nib rnd. f = buildRTCM3Frame mt n nib rnd)
     \<and> crc24q f = 0 \<and> length f = clamp_payload n + 6 \<and> log_msg_type f = Some (take_bit 12 mt)"

lemma built_sim_frame: "nib < 16 \<Longrightarrow> sim_frame mt n (buildRTCM3Frame mt n nib rnd)"
  using clamp_bounds(1) [of n]
  by (auto simp: sim_frame_def frame_residue length_frame log_msg_type_eq built_frame_type)

lemma base_loop_frames:
  "\<forall>nib rnd ok. B_tick nib rnd ok \<in> set es \<longrightarrow> nib < 16 \<Longrightarrow> f \<in> set (fst (base_loop mt n es g)) \<Longrightarrow>
     sim_frame mt n f \<and> wf_frame f"
  by (induction mt n es g rule: base_loop.induct)
    (auto simp: split_beta Let_def built_frame_wf intro: built_sim_frame split: if_splits)

lemma base_output_frames:
  assumes "base_output mt n st" "f \<in> set (fst (frames st))"
  shows "sim_frame mt n f \<and> wf_frame f"
proof -
  from assms(1) obtain es g where "prefix st (concat (fst (base_loop mt n es g)))"
    and es: "\<forall>nib rnd ok. B_tick nib rnd ok \<in> set es \<longrightarrow> nib < 16" by (auto simp: base_output_def)
  moreover have "\<forall>f \<in> set (fst (base_loop mt n es g)). wf_frame f" using base_loop_frames [OF es] by blast
  ultimately have "prefix (fst (frames st)) (fst (base_loop mt n es g))" using frames_of_prefix by blast
  with assms(2) have "f \<in> set (fst (base_loop mt n es g))" by (auto simp: prefix_def)
  with base_loop_frames [OF es] show ?thesis by blast
qed

text \<open>Every frame broadcast is one of a simulated base, whichever base was connected when.\<close>

lemma sent_sim_frames:
  assumes "relay_ok s" "\<forall>st \<in> set (rl_streams s). base_output mt n st"
  shows "\<forall>f \<in> set (rl_sent s). sim_frame mt n f \<and> wf_frame f"
proof
  fix f assume "f \<in> set (rl_sent s)"
  moreover have "rl_sent s @ relay_pending s = stream_frames (rl_streams s)"
    using assms(1) by (simp add: relay_ok_def frames_ok_def)
  ultimately have "f \<in> set (stream_frames (rl_streams s))" by (metis Un_iff set_append)
  then obtain st where "st \<in> set (rl_streams s)" "f \<in> set (fst (frames st))" by (auto simp: stream_frames_def)
  with assms(2) show "sim_frame mt n f \<and> wf_frame f" using base_output_frames by blast
qed

lemma frames_of_frames: "\<forall>f \<in> set fs. wf_frame f \<Longrightarrow> fst (frames (concat fs)) = fs"
  using frames_stream [of "map (\<lambda>f. ([], f)) fs"] by (simp add: comp_def split_beta)


definition sim_sample_frame :: "byte list" where
  "sim_sample_frame = [0xD3, 0, 2, 0x3E, 0xD7, 0x3B, 0x9F, 0x17]"

lemma sim_sample_frame_built: "buildRTCM3Frame 1005 2 7 (\<lambda>i. 0) = sim_sample_frame"
  by code_simp

definition sim_sample_events :: "relay_event list" where
  "sim_sample_events =
     [E_source ''s'' 0 0, E_join ''c'' 0 8 0, E_read (take 5 sim_sample_frame), E_read (drop 5 sim_sample_frame),
      E_packet 1, E_send, E_send, E_write ''c'']"

definition sim_sample_relay :: relay where
  "sim_sample_relay = the (relay_exec sample_convert sim_sample_events (relay_start empty_point))"

lemma sim_sample_exec:
  "relay_exec sample_convert sim_sample_events (relay_start empty_point) \<noteq> None"
  "rl_wire sim_sample_relay ''c'' = sim_sample_frame" "rl_joined sim_sample_relay = [''c'']"
  "rl_streams sim_sample_relay = [sim_sample_frame]" "rl_sent sim_sample_relay = [sim_sample_frame]"
  "relay_todo sim_sample_relay = []"
  "rv_done (mp_heap (rl_mount sim_sample_relay) ''c'') = False" "rv_queue (mp_heap (rl_mount sim_sample_relay) ''c'') = []"
  by code_simp+

lemma sim_sample_run: "relay_run sample_convert (relay_start empty_point) sim_sample_events sim_sample_relay"
  using sim_sample_exec(1) by (intro relay_exec_run) (auto simp: sim_sample_relay_def)

lemma sim_sample_output: "base_output 1005 2 sim_sample_frame"
  unfolding base_output_def
proof (intro exI conjI)
  show "prefix sim_sample_frame (concat (fst (base_loop 1005 2 [B_tick 7 (\<lambda>i. 0) True] undefined)))"
    by (simp add: sim_sample_frame_built Let_def)
  show "\<forall>nib rnd ok. B_tick nib rnd ok \<in> set [B_tick 7 (\<lambda>i. 0) True] \<longrightarrow> nib < 16" by simp
qed

definition sim_zero :: sim_counters where
  "sim_zero = \<lparr>g_TotalBytes = 0, g_TotalPkts = 0, g_Connected = 0, g_Failed = 0, g_Disconnected = 0, g_Kicked = 0\<rparr>"

definition sim_sample_reads :: "(byte list \<times> read_end) list" where
  "sim_sample_reads =
     [(of_bytes (drop 9 admitted_reply) @ take 3 sim_sample_frame, R_more), (drop 3 sim_sample_frame, R_EOF)]"

lemma sim_sample_stream:
  "of_bytes (take 9 admitted_reply) @ concat (reads_taken sim_sample_reads) = of_bytes admitted_reply @ sim_sample_frame"
  unfolding sim_sample_reads_def by code_simp


section \<open>The simulators count the admitted as connected\<close>

definition refusals :: "string list" where
  "refusals =
     [resp ''HTTP/1.1 401 Unauthorized'', resp ''HTTP/1.1 403 Forbidden'', resp ''HTTP/1.1 404 Not Found'',
      resp ''HTTP/1.1 409 Conflict'', resp ''HTTP/1.1 503 Service Unavailable'', at_capacity ''Server at capacity'',
      at_capacity ''Mountpoint at capacity'', ''ERROR - Bad Password'' @ crlf]"

lemma refusals_without_200: "s \<in> set refusals \<Longrightarrow> \<not> str_contains s ''200''"
  by (auto simp: refusals_def str_contains_def resp_def at_capacity_def)

lemma replies_with_200:
  "str_contains admitted_reply ''200''" "str_contains (resp ''HTTP/1.1 200 OK'') ''200''"
  by (simp_all add: str_contains_def reply_shape resp_def)

text \<open>What a rover's handler has written, stage by stage.\<close>

definition reply_ok :: "rover_conn \<Rightarrow> bool" where
  "reply_ok r \<longleftrightarrow>
     (if rc_stage r = S_loop then rc_out r = admitted_reply
      else if rc_stage r = S_end then rc_out r \<in> set refusals
      else rc_stage r \<noteq> S_release \<and> rc_out r = [])"

lemma refuse_reply [simp]: "s \<in> set refusals \<Longrightarrow> rc_out r = [] \<Longrightarrow> reply_ok (refuse s r)"
  by (simp add: reply_ok_def refuse_def)

lemma refusals_simps [simp]:
  "resp ''HTTP/1.1 401 Unauthorized'' \<in> set refusals" "resp ''HTTP/1.1 403 Forbidden'' \<in> set refusals"
  "resp ''HTTP/1.1 404 Not Found'' \<in> set refusals" "resp ''HTTP/1.1 409 Conflict'' \<in> set refusals"
  "resp ''HTTP/1.1 503 Service Unavailable'' \<in> set refusals"
  "at_capacity ''Server at capacity'' \<in> set refusals" "at_capacity ''Mountpoint at capacity'' \<in> set refusals"
  "''ERROR - Bad Password'' @ crlf \<in> set refusals"
  by (simp_all only: refusals_def list.set insert_iff simp_thms)

lemma rover_auth_reply: "rc_out r = [] \<Longrightarrow> rc_stage r = S_auth \<Longrightarrow> reply_ok (fst (rover_auth E now r c))"
  by (auto simp: rover_auth_def reply_ok_def [of "_\<lparr>rc_stage := _\<rparr>"] reply_ok_def [of "_\<lparr>rc_user := _, rc_stage := _\<rparr>"]
      split: option.split prod.split)

lemma rover_step_reply: "reply_ok r \<Longrightarrow> \<not> settled (rc_stage r) \<Longrightarrow> reply_ok (fst (rover_step E now r c))"
  by (cases "rc_stage r")
    (auto simp: rover_step.simps reply_ok_def [of r] reply_ok_def [of "_\<lparr>rc_stage := _\<rparr>"]
      reply_ok_def [of "_\<lparr>rc_mp := _, rc_stage := _\<rparr>"] reply_ok_def [of "_\<lparr>rc_out := _, rc_stage := _\<rparr>"]
      settled_def rover_auth_reply admitted_reply_def split: option.split)

lemma run_rover_reply: "reply_ok r \<Longrightarrow> reply_ok (fst (run_rover n E now r c))"
proof (induction n arbitrary: r c)
  case (Suc n)
  then show ?case using rover_step_reply [of r E now c] by (auto simp: split_beta Let_def)
qed simp

lemma handleRover_reply:
  assumes "handleRover E now cid req c = (r, c')"
  shows "str_contains (rc_out r) ''200'' \<longleftrightarrow> rc_stage r = S_loop"
proof -
  have "reply_ok r"
    using run_rover_reply [of "new_conn cid req" 8 E now c] assms
    by (simp add: handleRover_def) (simp add: reply_ok_def new_conn_def)
  moreover have "rc_stage r = S_loop \<or> rc_stage r = S_end"
    using rover_outcome [OF assms] by (auto simp: rover_result_def split: if_splits)
  ultimately show ?thesis using refusals_without_200 replies_with_200(1) by (auto simp: reply_ok_def)
qed

lemma open_source_reply:
  "str_contains (resp reply) ''200'' \<Longrightarrow>
     str_contains (sc_out (fst (open_source reply now sid req uid c))) ''200''
       \<longleftrightarrow> sc_started (fst (open_source reply now sid req uid c)) \<noteq> None"
  by (auto simp: open_source_def refuse_source_def refusals_without_200 split: option.split)

lemma source_reply:
  "str_contains (sc_out (fst (handleSourceRev1 E now sid req c))) ''200''
     \<longleftrightarrow> sc_started (fst (handleSourceRev1 E now sid req c)) \<noteq> None"
  "str_contains (sc_out (fst (handleSourceRev2 E now sid req c))) ''200''
     \<longleftrightarrow> sc_started (fst (handleSourceRev2 E now sid req c)) \<noteq> None"
  using open_source_reply replies_with_200 refusals_simps(8)
  by (auto simp: handleSourceRev1_def handleSourceRev2_def admitted_reply_def refuse_source_def refusals_without_200
      split: option.split prod.split)

definition rover_admitted :: "caster_env \<Rightarrow> int \<Rightarrow> ntrip_request \<Rightarrow> caster \<Rightarrow> bool" where
  "rover_admitted E now req c \<longleftrightarrow> rover_allowed E now req (ca_store c)
     \<and> (\<exists>k. ca_reg c (rq_MountPoint req) = Some k \<and> mount_open c k)"

definition source_free :: "ntrip_request \<Rightarrow> caster \<Rightarrow> bool" where
  "source_free req c \<longleftrightarrow> (\<exists>k. ca_reg c (rq_MountPoint req) = Some k \<and> mp_enabled (ca_obj c k) \<and> mp_source (ca_obj c k) = None)"

definition counts_as :: "bool \<Rightarrow> sim_counters \<Rightarrow> sim_counters \<Rightarrow> bool" where
  "counts_as ok g g' \<longleftrightarrow> g_Connected g' = g_Connected g + of_bool ok \<and> g_Failed g' = g_Failed g + of_bool (\<not> ok)"

lemma loops_keep_counts:
  "g_Connected (snd (rover_loop rs buf g)) = g_Connected g" "g_Failed (snd (rover_loop rs buf g)) = g_Failed g"
  "g_Connected (snd (base_loop mt n es g')) = g_Connected g'" "g_Failed (snd (base_loop mt n es g')) = g_Failed g'"
proof -
  show "g_Connected (snd (rover_loop rs buf g)) = g_Connected g" "g_Failed (snd (rover_loop rs buf g)) = g_Failed g"
    by (induction rs arbitrary: buf g) (auto simp: split_beta Let_def count_traffic_def split: read_end.split)
  show "g_Connected (snd (base_loop mt n es g')) = g_Connected g'" "g_Failed (snd (base_loop mt n es g')) = g_Failed g'"
    by (induction mt n es g' rule: base_loop.induct) (auto simp: split_beta Let_def count_traffic_def)
qed

lemma runRover_counted:
  "counts_as (str_contains out ''200'') g (snd (runRover True True (Some out) reads g))"
  by (auto simp: counts_as_def runRover_def sim_open_def split_beta Let_def loops_keep_counts count_traffic_def
      count_connected_def count_failed_def)

lemma runBase_counted:
  assumes "version \<in> {1, 2}"
  shows "counts_as (str_contains out ''200'') g (snd (runBase True version mount user pass True (Some out) mt n es g))"
  using assms
  by (auto simp: counts_as_def runBase_def sim_open_def sendSourceRequest_def loops_keep_counts
      count_connected_def count_failed_def)

lemma source_started_iff:
  assumes "source_result_ok allowed sid req c res"
  shows "sc_started (fst res) \<noteq> None \<longleftrightarrow> allowed \<and> source_free req c"
proof -
  obtain o' c' where res: "res = (o', c')" by fastforce
  from assms have k: "sc_started o' = Some (sid, k) \<longleftrightarrow> allowed \<and> ca_reg c (rq_MountPoint req) = Some k
      \<and> mp_enabled (ca_obj c k) \<and> mp_source (ca_obj c k) = None" for k
    by (auto simp: source_result_ok_def res)
  from assms have i: "sc_started o' = Some (i, j) \<Longrightarrow> i = sid" for i j
    by (auto simp: source_result_ok_def res)
  show ?thesis unfolding res fst_conv source_free_def using k i by fastforce
qed

text \<open>
  The simulators' counters against the caster's decisions: a simulated rover whose first read is what the
  rover handler wrote counts as connected exactly if the handler admitted it, and as failed otherwise; and so
  does a simulated base of either revision with what the source handlers write. No refusal is taken for an
  admission or the other way round.
\<close>

theorem simulators_connect_iff_admitted:
  "counts_as (rover_admitted E now req c) g
     (snd (runRover True True (Some (rc_out (fst (handleRover E now cid req c)))) reads g))
   \<and> counts_as (rev1_allowed E now req (ca_store c) \<and> source_free req c) g
     (snd (runBase True 1 mount user pass True (Some (sc_out (fst (handleSourceRev1 E now sid req c)))) mt n es g))
   \<and> counts_as (rev2_allowed E now req (ca_store c) \<and> source_free req c) g
     (snd (runBase True 2 mount user pass True (Some (sc_out (fst (handleSourceRev2 E now sid req c)))) mt n es g))"
proof (intro conjI)
  obtain r c' where r: "handleRover E now cid req c = (r, c')" by fastforce
  then have "str_contains (rc_out r) ''200'' \<longleftrightarrow> rover_admitted E now req c"
    using handleRover_reply [OF r] rover_outcome [OF r] by (simp add: rover_result_def rover_admitted_def)
  then show "counts_as (rover_admitted E now req c) g
     (snd (runRover True True (Some (rc_out (fst (handleRover E now cid req c)))) reads g))"
    using runRover_counted [of "rc_out r" g reads] r by simp
  show "counts_as (rev1_allowed E now req (ca_store c) \<and> source_free req c) g
     (snd (runBase True 1 mount user pass True (Some (sc_out (fst (handleSourceRev1 E now sid req c)))) mt n es g))"
    using runBase_counted [of 1 "sc_out (fst (handleSourceRev1 E now sid req c))"]
    unfolding source_reply source_started_iff [OF rev1_ok] by simp
  show "counts_as (rev2_allowed E now req (ca_store c) \<and> source_free req c) g
     (snd (runBase True 2 mount user pass True (Some (sc_out (fst (handleSourceRev2 E now sid req c)))) mt n es g))"
    using runBase_counted [of 2 "sc_out (fst (handleSourceRev2 E now sid req c))"]
    unfolding source_reply source_started_iff [OF rev2_ok] by simp
qed

end
