(* ===== verification/Start.thy ===== *)
theory Start
  imports Caster_Admin Simulators
begin

text \<open>
  How the caster comes up: \<open>internal/config/config.go\<close>, \<open>main\<close> of \<open>cmd/caster/main.go\<close> up to the two servers,
  \<open>caster.NewServer\<close>, and the test environment that \<open>cmd/testenv\<close> prepares. Reading a file and the YAML
  library are arguments; what \<open>database.Open\<close> does to the file is \<open>Database\<close>, here it gives the tables.
  Durations are in milliseconds.
\<close>

section \<open>Configuration\<close>

record server_config =
  sc_Listen :: string
  sc_AdminListen :: string

record auth_config =
  ac_Enabled :: bool
  ac_AdminMode :: string
  ac_NtripSourceAuth :: string
  ac_NtripRoverAuth :: string

record database_config =
  dc_Type :: string
  dc_Path :: string

record limits_config =
  lc_MaxClients :: int
  lc_MaxConnPerIP :: int

record mountpoint_defaults =
  md_WriteQueue :: int
  md_WriteTimeout :: int

record config =
  cf_Server :: server_config
  cf_Auth :: auth_config
  cf_Database :: database_config
  cf_Limits :: limits_config
  cf_MountpointDefaults :: mountpoint_defaults

definition defaultConfig :: config where
  "defaultConfig =
     \<lparr>cf_Server = \<lparr>sc_Listen = '':2101'', sc_AdminListen = '':8080''\<rparr>,
      cf_Auth = \<lparr>ac_Enabled = True, ac_AdminMode = ''session'', ac_NtripSourceAuth = ''user_binding'',
                 ac_NtripRoverAuth = ''basic''\<rparr>,
      cf_Database = \<lparr>dc_Type = ''sqlite'', dc_Path = ''caster.db''\<rparr>,
      cf_Limits = \<lparr>lc_MaxClients = 5000, lc_MaxConnPerIP = 10\<rparr>,
      cf_MountpointDefaults = \<lparr>md_WriteQueue = 64, md_WriteTimeout = 3 * 1000\<rparr>\<rparr>"

datatype config_error = Read_config string | Parse_config string

text \<open>\<open>yaml.Unmarshal\<close> writes the fields a document names over those of the configuration it is given.\<close>

definition Load ::
  "(string \<Rightarrow> string + string) \<Rightarrow> (string \<Rightarrow> config \<Rightarrow> string + config) \<Rightarrow> string \<Rightarrow> config_error + config" where
  "Load readFile unmarshal path =
     (case readFile path of
        Inl e \<Rightarrow> Inl (Read_config e)
      | Inr data \<Rightarrow>
          (case unmarshal data defaultConfig of Inl e \<Rightarrow> Inl (Parse_config e) | Inr cfg \<Rightarrow> Inr cfg))"

section \<open>The two servers\<close>

definition ntrip_of :: "config \<Rightarrow> ntrip_config" where
  "ntrip_of cfg =
     \<lparr>nc_AuthEnabled = ac_Enabled (cf_Auth cfg), nc_NtripSourceAuth = ac_NtripSourceAuth (cf_Auth cfg),
      nc_NtripRoverAuth = ac_NtripRoverAuth (cf_Auth cfg)\<rparr>"

text \<open>The manager's mountpoints as objects: the number of an object is the place of its row.\<close>

definition place :: "string list \<Rightarrow> string \<Rightarrow> nat option" where
  "place names n = map_of (zip names [0..<length names]) n"

definition NewServer :: "config \<Rightarrow> manager \<Rightarrow> store \<Rightarrow> caster" where
  "NewServer cfg g s =
     (let names = map m_name (ListMountPointRows s) in
      \<lparr>ca_store = s, ca_reg = (\<lambda>n. if g n = None then None else place names n),
       ca_obj = (\<lambda>k. the (g (names ! k))), ca_limiter = NewGlobalLimiter (lc_MaxClients (cf_Limits cfg))\<rparr>)"

definition env_of :: "config \<Rightarrow> api_env \<Rightarrow> caster_env" where
  "env_of cfg ae = \<lparr>ce_cfg = ntrip_of cfg, ce_verify = ae_verify ae\<rparr>"

definition with_defaults :: "config \<Rightarrow> api_env \<Rightarrow> api_env" where
  "with_defaults cfg ae =
     ae\<lparr>ae_writeQueue := md_WriteQueue (cf_MountpointDefaults cfg), ae_writeTimeout := md_WriteTimeout (cf_MountpointDefaults cfg)\<rparr>"

text \<open>\<open>main\<close> up to the servers; every failure ends the process with exit status 1.\<close>

datatype start_failure = Failed_config config_error | Failed_database string | Failed_admin svc_error

definition start_main ::
  "(string \<Rightarrow> string + string) \<Rightarrow> (string \<Rightarrow> config \<Rightarrow> string + config) \<Rightarrow> (string \<Rightarrow> string + store) \<Rightarrow> api_env \<Rightarrow> string
     \<Rightarrow> start_failure + (config \<times> caster \<times> server)" where
  "start_main readFile unmarshal open_db ae cfgPath =
     (case Load readFile unmarshal cfgPath of
        Inl e \<Rightarrow> Inl (Failed_config e)
      | Inr cfg \<Rightarrow>
          (case open_db (dc_Path (cf_Database cfg)) of
             Inl e \<Rightarrow> Inl (Failed_database e)
           | Inr db \<Rightarrow>
               (case EnsureAdmin (ae_hash ae) ''admin'' ''admin'' db of
                  Inl e \<Rightarrow> Inl (Failed_admin e)
                | Inr s \<Rightarrow>
                    (let v = start_server (with_defaults cfg ae) s in Inr (cfg, NewServer cfg (sv_mgr v) s, v)))))"

section \<open>The test environment\<close>

definition bench_name :: "string \<Rightarrow> nat \<Rightarrow> nat \<Rightarrow> string" where
  "bench_name pre numMounts i = (if numMounts = 1 then pre else pre @ ''_'' @ nat_str i)"

definition add_bench :: "string \<Rightarrow> nat \<Rightarrow> int \<Rightarrow> int \<Rightarrow> nat \<Rightarrow> store \<Rightarrow> store svc" where
  "add_bench pre numMounts baseID roverID i s =
     (case CreateMountPointRow (bench_name pre numMounts i) (''test mountpoint '' @ nat_str i) ''RTCM3'' s of
        Inl e \<Rightarrow> Inl e
      | Inr (mp, s) \<Rightarrow>
          (case AddBinding baseID (m_id mp) s of
             Inl e \<Rightarrow> Inl e
           | Inr s \<Rightarrow> AddBinding roverID (m_id mp) s))"

fun add_benches :: "string \<Rightarrow> nat \<Rightarrow> int \<Rightarrow> int \<Rightarrow> nat list \<Rightarrow> store \<Rightarrow> store svc" where
  "add_benches pre numMounts baseID roverID [] s = Inr s"
| "add_benches pre numMounts baseID roverID (i # is) s =
     (case add_bench pre numMounts baseID roverID i s of
        Inl e \<Rightarrow> Inl e | Inr s \<Rightarrow> add_benches pre numMounts baseID roverID is s)"

definition testenv :: "(string \<Rightarrow> string option) \<Rightarrow> string \<Rightarrow> nat \<Rightarrow> store svc" where
  "testenv hash pre numMounts =
     (case CreateUser hash ''admin'' ''admin'' RoleAdmin NewService of
        Inl e \<Rightarrow> Inl e
      | Inr (admin, s) \<Rightarrow>
          (case CreateUser hash ''base'' ''test'' RoleBase s of
             Inl e \<Rightarrow> Inl e
           | Inr (baseU, s) \<Rightarrow>
               (case CreateUser hash ''rover1'' ''test'' RoleRover s of
                  Inl e \<Rightarrow> Inl e
                | Inr (roverU, s) \<Rightarrow> add_benches pre numMounts (u_id baseU) (u_id roverU) [0..<numMounts] s)))"

section \<open>The start\<close>

lemma place_nth: "distinct names \<Longrightarrow> place names n = Some k \<longleftrightarrow> k < length names \<and> names ! k = n"
  unfolding place_def by (auto simp: map_of_zip_nth in_set_zip dest!: map_of_SomeD)

lemma list_rows [simp]: "set (ListMountPointRows s) = set (st_mounts s)"
  by (simp add: ListMountPointRows_def)

lemma distinct_names: "store_ok s \<Longrightarrow> distinct (map m_name (ListMountPointRows s))"
proof -
  assume "store_ok s"
  then have "inj_on m_name (set (st_mounts s))" "distinct (st_mounts s)"
    by (auto simp: store_ok_defs distinct_map)
  then show ?thesis by (simp add: ListMountPointRows_def distinct_map)
qed

lemma sync_mgr_ok: "store_ok s \<Longrightarrow> mgr_ok s (syncMountpoints ae s)"
  unfolding syncMountpoints_def by (rule sync_fold_ok) (simp_all add: mgr_ok_def)

text \<open>The mountpoint of an enabled row, as \<open>syncMountpoints\<close> creates it.\<close>

definition fresh_mount :: "api_env \<Rightarrow> db_mount \<Rightarrow> mount_point" where
  "fresh_mount ae row =
     NewMountPoint (ae_heap ae) (m_name row) (m_description row) (m_format row)
       (nullish (m_write_queue row) (ae_writeQueue ae)) (nullish (m_write_timeout_ms row) (ae_writeTimeout ae)) (m_max_clients row)"

lemma sync_fold_other: "n \<notin> m_name ` set rows \<Longrightarrow> fold (sync_row ae) rows g n = g n"
  by (induction rows arbitrary: g) (auto simp: sync_row_def mgr_Create_def nullish_def)

lemma sync_fold_row:
  "distinct (map m_name rows) \<Longrightarrow> row \<in> set rows \<Longrightarrow> g (m_name row) = None \<Longrightarrow>
     fold (sync_row ae) rows g (m_name row) = (if m_enabled row then Some (fresh_mount ae row) else None)"
proof (induction rows arbitrary: g)
  case (Cons r rows)
  show ?case
  proof (cases "r = row")
    case True
    with Cons.prems have "m_name row \<notin> m_name ` set rows" by auto
    moreover have "sync_row ae row g (m_name row) = (if m_enabled row then Some (fresh_mount ae row) else None)"
      using Cons.prems(3) by (simp add: sync_row_def mgr_Create_def nullish_def fresh_mount_def)
    ultimately show ?thesis using True by (simp add: sync_fold_other)
  next
    case False
    with Cons.prems have "row \<in> set rows" "m_name r \<noteq> m_name row" by auto
    then have "sync_row ae r g (m_name row) = None"
      using Cons.prems(3) by (auto simp: sync_row_def mgr_Create_def nullish_def)
    with Cons \<open>row \<in> set rows\<close> show ?thesis by simp
  qed
qed simp

lemma sync_row_of:
  assumes "store_ok s" "row \<in> set (st_mounts s)"
  shows "syncMountpoints ae s (m_name row) = (if m_enabled row then Some (fresh_mount ae row) else None)"
  unfolding syncMountpoints_def
  by (rule sync_fold_row) (use distinct_names [OF assms(1)] assms(2) in simp_all)

text \<open>The caster's objects are the manager's mountpoints.\<close>

lemma NewServer_objects:
  assumes "store_ok s" "mgr_ok s g"
  shows "ca_store (NewServer cfg g s) = s" "one_name (NewServer cfg g s)"
    "(\<lambda>n. map_option (ca_obj (NewServer cfg g s)) (ca_reg (NewServer cfg g s) n)) = g"
proof -
  let ?names = "map m_name (ListMountPointRows s)"
  have d: "distinct ?names" by (rule distinct_names [OF assms(1)])
  show "ca_store (NewServer cfg g s) = s" by (simp add: NewServer_def Let_def)
  show "one_name (NewServer cfg g s)"
    using place_nth [OF d] by (auto simp: one_name_def NewServer_def Let_def split: if_splits)
  show "(\<lambda>n. map_option (ca_obj (NewServer cfg g s)) (ca_reg (NewServer cfg g s) n)) = g"
  proof
    fix n
    show "map_option (ca_obj (NewServer cfg g s)) (ca_reg (NewServer cfg g s) n) = g n"
    proof (cases "g n")
      case (Some m)
      with assms(2) have "n \<in> set ?names" by (auto simp: mgr_ok_def)
      then obtain k where "k < length ?names" "?names ! k = n" unfolding in_set_conv_nth by blast
      with place_nth [OF d] have k: "place ?names n = Some k" "?names ! k = n" by auto
      show ?thesis
        unfolding NewServer_def Let_def caster.simps Some using k Some by simp
    qed (simp add: NewServer_def Let_def)
  qed
qed

lemma EnsureAdmin_inv:
  assumes "store_inv verify s" "EnsureAdmin hash u p s = Inr t"
  shows "store_inv verify t \<and> (\<exists>a \<in> set (st_users t). u_role a = RoleAdmin)"
proof (cases "\<exists>a \<in> set (st_users s). u_role a = RoleAdmin")
  case False
  then obtain w where c: "CreateUser hash u p RoleAdmin s = Inr (w, t)"
    using assms(2) by (auto simp: EnsureAdmin_def map_sum_def split: sum.splits)
  then have "\<exists>a \<in> set (st_users t). u_role a = RoleAdmin"
    by (auto simp: CreateUser_def Let_def split: option.splits if_splits)
  with store_inv_ops(2) [OF assms(1) c] show ?thesis by simp
qed (use assms in \<open>auto simp: EnsureAdmin_def\<close>)

section \<open>A start and its failures\<close>

lemma start_main_ok:
  assumes "start_main readFile unmarshal open_db ae path = Inr (cfg, c, v)"
  obtains data db s where "readFile path = Inr data" "unmarshal data defaultConfig = Inr cfg"
    "open_db (dc_Path (cf_Database cfg)) = Inr db" "EnsureAdmin (ae_hash ae) ''admin'' ''admin'' db = Inr s"
    "v = start_server (with_defaults cfg ae) s" "c = NewServer cfg (sv_mgr v) s"
  using assms by (auto simp: start_main_def Load_def Let_def split: sum.splits)

lemma start_facts:
  assumes "start_main readFile unmarshal open_db ae path = Inr (cfg, c, v)"
    and "open_db (dc_Path (cf_Database cfg)) = Inr db" "store_ok db" "cache_ok (ae_verify ae) db"
  shows "server_ok (ae_verify ae) v \<and> caster_view c v = v \<and> one_name c
    \<and> (\<exists>u \<in> set (st_users (sv_store v)). u_role u = RoleAdmin)
    \<and> (\<forall>row \<in> set (st_mounts (sv_store v)). sv_mgr v (m_name row)
          = (if m_enabled row then Some (fresh_mount (with_defaults cfg ae) row) else None))
    \<and> gl_maxCount (ca_limiter c) = lc_MaxClients (cf_Limits cfg) \<and> gl_count (ca_limiter c) = 0
    \<and> ((\<exists>u \<in> set (st_users db). u_role u = RoleAdmin) \<longrightarrow> sv_store v = db)"
proof -
  from start_main_ok [OF assms(1)] obtain s where s: "EnsureAdmin (ae_hash ae) ''admin'' ''admin'' db = Inr s"
    and v: "v = start_server (with_defaults cfg ae) s" and c: "c = NewServer cfg (sv_mgr v) s"
    using assms(2) by (metis sum.inject(2))
  have inv: "store_inv (ae_verify ae) s" and admin: "\<exists>u \<in> set (st_users s). u_role u = RoleAdmin"
    using EnsureAdmin_inv [OF _ s, of "ae_verify ae"] assms(3,4) by (auto simp: store_inv_def)
  then have st: "store_ok s" "cache_ok (ae_verify ae) s" by (simp_all add: store_inv_def)
  have f: "sv_store v = s" "sv_mgr v = syncMountpoints (with_defaults cfg ae) s"
    by (simp_all add: v start_server_def)
  note objects = NewServer_objects [OF st(1) sync_mgr_ok [OF st(1), of "with_defaults cfg ae"], of cfg, folded f(2), folded c]
  have "server_ok (ae_verify ae) v" unfolding v by (rule start_server_ok [OF st])
  moreover have "caster_view c v = v" unfolding caster_view_def objects(1,3) using f(1) by simp
  moreover have "\<forall>row \<in> set (st_mounts s). sv_mgr v (m_name row)
      = (if m_enabled row then Some (fresh_mount (with_defaults cfg ae) row) else None)"
    unfolding f(2) using sync_row_of [OF st(1)] by blast
  moreover have "gl_maxCount (ca_limiter c) = lc_MaxClients (cf_Limits cfg) \<and> gl_count (ca_limiter c) = 0"
    by (simp add: c NewServer_def NewGlobalLimiter_def Let_def)
  moreover have "(\<exists>u \<in> set (st_users db). u_role u = RoleAdmin) \<longrightarrow> s = db"
    using s by (simp add: EnsureAdmin_def split: if_splits)
  ultimately show ?thesis using objects(2) admin f(1) by blast
qed

text \<open>
  C23. What a start comes to, whatever the tables hold (as long as they are consistent): when it does not end the
  process, the server the admin API works on is consistent and the caster's connections see the same
  mountpoints and tables; there is a user with the role of an administrator; every enabled row has its
  mountpoint, new and with the defaults of the configuration, and a disabled row has none; the server-wide
  limit is that of the configuration and nobody is counted. A start on tables that have an administrator
  changes no table.
\<close>

theorem caster_starts:
  assumes "start_main readFile unmarshal open_db ae path = Inr (cfg, c, v)"
    and "open_db (dc_Path (cf_Database cfg)) = Inr db" "store_ok db" "cache_ok (ae_verify ae) db"
  shows "server_ok (ae_verify ae) v \<and> caster_view c v = v \<and> one_name c
    \<and> (\<exists>u \<in> set (st_users (sv_store v)). u_role u = RoleAdmin)
    \<and> (\<forall>row \<in> set (st_mounts (sv_store v)). sv_mgr v (m_name row)
          = (if m_enabled row then Some (fresh_mount (with_defaults cfg ae) row) else None))
    \<and> gl_maxCount (ca_limiter c) = lc_MaxClients (cf_Limits cfg) \<and> gl_count (ca_limiter c) = 0
    \<and> ((\<exists>u \<in> set (st_users db). u_role u = RoleAdmin) \<longrightarrow> sv_store v = db)"
  using start_facts [OF assms] .

text \<open>
  The first start, on a database that is new: exactly the user admin can log in, with whatever its hash
  accepts, and as an administrator; there is no mountpoint, so every other connection is refused. When the
  password cannot be hashed the process ends.
\<close>

theorem first_start:
  assumes "open_db (dc_Path (cf_Database cfg)) = Inr NewService"
    and "readFile path = Inr data" "unmarshal data defaultConfig = Inr cfg"
  shows "case ae_hash ae ''admin'' of
      None \<Rightarrow> start_main readFile unmarshal open_db ae path = Inl (Failed_admin Hash_password)
    | Some h \<Rightarrow> (\<exists>c v. start_main readFile unmarshal open_db ae path = Inr (cfg, c, v)
        \<and> (\<forall>n p. case fst (Authenticate (ae_verify ae) now n p (ca_store c)) of
              None \<Rightarrow> \<not> (n = ''admin'' \<and> ae_verify ae h p)
            | Some u \<Rightarrow> n = ''admin'' \<and> ae_verify ae h p \<and> u_username u = ''admin'' \<and> u_role u = RoleAdmin)
        \<and> ca_reg c = Map.empty)"
proof (cases "ae_hash ae ''admin''")
  case None
  with assms show ?thesis
    by (simp add: start_main_def Load_def EnsureAdmin_def CreateUser_def NewService_def)
next
  case (Some h)
  let ?u = "\<lparr>u_id = 1, u_username = ''admin'', u_role = RoleAdmin, u_enabled = True, du_password_hash = h\<rparr>"
  let ?s = "NewService\<lparr>st_users := [?u], st_users_seq := 1\<rparr>"
  let ?v = "start_server (with_defaults cfg ae) ?s"
  have "EnsureAdmin (ae_hash ae) ''admin'' ''admin'' NewService = Inr ?s"
    using Some by (simp add: EnsureAdmin_def CreateUser_def NewService_def Let_def)
  then have "start_main readFile unmarshal open_db ae path = Inr (cfg, NewServer cfg (sv_mgr ?v) ?s, ?v)"
    using assms by (simp add: start_main_def Load_def Let_def)
  moreover have "ca_store (NewServer cfg (sv_mgr ?v) ?s) = ?s" by (simp add: NewServer_def Let_def)
  moreover have "case fst (Authenticate (ae_verify ae) now n p ?s) of
      None \<Rightarrow> \<not> (n = ''admin'' \<and> ae_verify ae h p)
    | Some u \<Rightarrow> n = ''admin'' \<and> ae_verify ae h p \<and> u_username u = ''admin'' \<and> u_role u = RoleAdmin" for n p
    by (auto simp: Authenticate_def auth_cached_def auth_check_def GetUserByName_def NewService_def)
  moreover have "ca_reg (NewServer cfg (sv_mgr ?v) ?s) = Map.empty"
    by (simp add: NewServer_def Let_def start_server_def syncMountpoints_def ListMountPointRows_def NewService_def)
  ultimately show ?thesis using Some by auto
qed

section \<open>The test environment is ready\<close>

lemma AddBinding_has:
  assumes "AddBinding u m s = Inr t" "row \<in> set (st_mounts s)" "m_id row = m"
  shows "HasBinding u (m_name row) t"
  using assms by (force simp: AddBinding_def HasBinding_def Let_def split: if_splits)

lemma AddBinding_keeps:
  assumes "AddBinding u m s = Inr t"
  shows "st_users t = st_users s" "st_mounts t = st_mounts s" "st_authCache t = st_authCache s"
    "HasBinding v n s \<Longrightarrow> HasBinding v n t"
proof -
  show f: "st_users t = st_users s" "st_mounts t = st_mounts s" "st_authCache t = st_authCache s"
    using assms by (auto simp: AddBinding_def Let_def split: if_splits)
  have "set (st_bindings s) \<subseteq> set (st_bindings t)" using assms by (auto simp: AddBinding_def Let_def split: if_splits)
  then show "HasBinding v n s \<Longrightarrow> HasBinding v n t" by (auto simp: HasBinding_def f(2))
qed

lemma AddBinding_succeeds:
  "GetUser u s \<noteq> None \<Longrightarrow> GetMountPointRowByID m s \<noteq> None \<Longrightarrow> \<exists>t. AddBinding u m s = Inr t"
  by (auto simp: AddBinding_def Let_def)

lemma same_users: "st_users t = st_users s \<Longrightarrow> GetUser u t = GetUser u s"
  by (simp add: GetUser_def)

text \<open>What the loop has made ready of the mountpoints.\<close>

definition bench_ready :: "int \<Rightarrow> int \<Rightarrow> string \<Rightarrow> store \<Rightarrow> bool" where
  "bench_ready b r n s \<longleftrightarrow> HasBinding b n s \<and> HasBinding r n s
     \<and> (\<exists>row \<in> set (st_mounts s). m_name row = n \<and> m_enabled row \<and> m_max_clients row = 0)"

lemma add_bench_ok:
  assumes "store_ok s" "GetUser b s \<noteq> None" "GetUser r s \<noteq> None" "bench_name pre N i \<notin> set (map m_name (st_mounts s))"
  obtains t where "add_bench pre N b r i s = Inr t" "store_ok t" "st_users t = st_users s"
    "st_authCache t = st_authCache s" "bench_ready b r (bench_name pre N i) t"
    "set (map m_name (st_mounts t)) = insert (bench_name pre N i) (set (map m_name (st_mounts s)))"
    "\<And>n. bench_ready b r n s \<Longrightarrow> bench_ready b r n t"
proof -
  let ?n = "bench_name pre N i" and ?d = "''test mountpoint '' @ nat_str i"
  obtain row s1 where c: "CreateMountPointRow ?n ?d ''RTCM3'' s = Inr (row, s1)"
    using assms(4) by (auto simp: CreateMountPointRow_def Let_def)
  then obtain full where s1: "st_mounts s1 = st_mounts s @ [full]" "m_name full = ?n" "m_id full = m_id row"
    "m_enabled full" "m_max_clients full = 0" "st_users s1 = st_users s" "st_authCache s1 = st_authCache s"
    "st_bindings s1 = st_bindings s"
    using assms(4) by (auto simp: CreateMountPointRow_def Let_def mountpoint_row.defs)
  have ok1: "store_ok s1" using CreateMountPointRow_ok [OF assms(1)] c by (force simp: map_sum_def split: sum.splits)
  have full: "full \<in> set (st_mounts s1)" by (simp add: s1)
  then have row: "GetMountPointRowByID (m_id row) s1 \<noteq> None"
    using s1(3) by (auto simp: GetMountPointRowByID_def find_None_iff)
  obtain s2 where s2: "AddBinding b (m_id row) s1 = Inr s2"
    using AddBinding_succeeds [OF _ row] assms(2) same_users [OF s1(6)] by auto
  note k2 = AddBinding_keeps [OF s2]
  have row2: "GetMountPointRowByID (m_id row) s2 \<noteq> None" using row k2(2) by (simp add: GetMountPointRowByID_def)
  obtain t where t: "AddBinding r (m_id row) s2 = Inr t"
    using AddBinding_succeeds [OF _ row2, of r] assms(3) same_users [OF s1(6), of r] same_users [OF k2(1), of r] by auto
  note kt = AddBinding_keeps [OF t]
  show thesis
  proof (rule that)
    show "add_bench pre N b r i s = Inr t" unfolding add_bench_def c sum.case prod.case s2 t ..
    show "store_ok t" using AddBinding_ok ok1 s2 t by blast
    show "st_users t = st_users s" "st_authCache t = st_authCache s" by (simp_all add: kt k2 s1)
    show "bench_ready b r ?n t"
      using kt(4) AddBinding_has [OF s2 full s1(3)] AddBinding_has [OF t _ s1(3)] full s1(2,4,5) k2(2) kt(2)
      by (auto simp: bench_ready_def)
    show "set (map m_name (st_mounts t)) = insert ?n (set (map m_name (st_mounts s)))" by (simp add: kt k2 s1)
    show "bench_ready b r n t" if "bench_ready b r n s" for n
    proof -
      have "HasBinding u n s1" if "HasBinding u n s" for u using that by (auto simp: HasBinding_def s1)
      with that show ?thesis using kt(2,4) k2(2,4) s1(1) by (auto simp: bench_ready_def)
    qed
  qed
qed

lemma bench_name_inj: "i < N \<Longrightarrow> j < N \<Longrightarrow> bench_name pre N i = bench_name pre N j \<Longrightarrow> i = j"
  by (cases "N = 1") (auto simp: bench_name_def dest!: arg_cong [of "nat_str i" "nat_str j" "parse_digits 0"])

lemma add_benches_ok:
  assumes "store_ok s" "GetUser b s \<noteq> None" "GetUser r s \<noteq> None" "distinct is" "set is \<subseteq> {..<N}"
    "bench_name pre N ` set is \<inter> set (map m_name (st_mounts s)) = {}"
  shows "\<exists>t. add_benches pre N b r is s = Inr t \<and> store_ok t \<and> st_users t = st_users s \<and> st_authCache t = st_authCache s
    \<and> (\<forall>n. bench_ready b r n s \<longrightarrow> bench_ready b r n t) \<and> (\<forall>i \<in> set is. bench_ready b r (bench_name pre N i) t)"
  using assms
proof (induction "is" arbitrary: s)
  case (Cons i "is")
  then have "bench_name pre N i \<notin> set (map m_name (st_mounts s))" by auto
  with Cons.prems(1-3) obtain s1 where s1: "add_bench pre N b r i s = Inr s1" "store_ok s1" "st_users s1 = st_users s"
    "st_authCache s1 = st_authCache s" "bench_ready b r (bench_name pre N i) s1"
    "set (map m_name (st_mounts s1)) = insert (bench_name pre N i) (set (map m_name (st_mounts s)))"
    "\<And>n. bench_ready b r n s \<Longrightarrow> bench_ready b r n s1" by (rule add_bench_ok) blast
  have "bench_name pre N i \<noteq> bench_name pre N j" if "j \<in> set is" for j
    using Cons.prems(4,5) that bench_name_inj [of j N i pre] by auto
  then have "bench_name pre N ` set is \<inter> set (map m_name (st_mounts s1)) = {}"
    unfolding s1(6) using Cons.prems(6) by auto
  moreover have "GetUser b s1 \<noteq> None" "GetUser r s1 \<noteq> None" using Cons.prems(2,3) same_users [OF s1(3)] by simp_all
  ultimately obtain t where t: "add_benches pre N b r is s1 = Inr t" "store_ok t" "st_users t = st_users s1"
    "st_authCache t = st_authCache s1" "\<forall>n. bench_ready b r n s1 \<longrightarrow> bench_ready b r n t"
    "\<forall>i \<in> set is. bench_ready b r (bench_name pre N i) t"
    using Cons.IH [OF s1(2)] Cons.prems(4,5) by auto
  with s1 show ?case by auto
qed simp

definition testenv_users :: "string \<Rightarrow> string \<Rightarrow> db_user list" where
  "testenv_users ha ht =
     [\<lparr>u_id = 1, u_username = ''admin'', u_role = RoleAdmin, u_enabled = True, du_password_hash = ha\<rparr>,
      \<lparr>u_id = 2, u_username = ''base'', u_role = RoleBase, u_enabled = True, du_password_hash = ht\<rparr>,
      \<lparr>u_id = 3, u_username = ''rover1'', u_role = RoleRover, u_enabled = True, du_password_hash = ht\<rparr>]"

lemma testenv_store:
  assumes "hash ''admin'' = Some ha" "hash ''test'' = Some ht"
  obtains s where "testenv hash pre N = Inr s" "store_ok s" "st_users s = testenv_users ha ht"
    "st_authCache s = Map.empty" "\<And>i. i < N \<Longrightarrow> bench_ready 2 3 (bench_name pre N i) s"
proof -
  let ?s = "NewService\<lparr>st_users := testenv_users ha ht, st_users_seq := 3\<rparr>"
  have run: "testenv hash pre N = add_benches pre N 2 3 [0..<N] ?s"
    by (simp add: testenv_def CreateUser_def assms Let_def NewService_def testenv_users_def)
  have "store_ok ?s" by (simp add: store_ok_defs NewService_def testenv_users_def)
  moreover have "GetUser 2 ?s \<noteq> None" "GetUser 3 ?s \<noteq> None" by (simp_all add: GetUser_def testenv_users_def)
  moreover have "set [0..<N] \<subseteq> {..<N}" "bench_name pre N ` set [0..<N] \<inter> set (map m_name (st_mounts ?s)) = {}"
    by (auto simp: NewService_def)
  ultimately obtain t where "add_benches pre N 2 3 [0..<N] ?s = Inr t" "store_ok t" "st_users t = st_users ?s"
    "st_authCache t = st_authCache ?s" "\<forall>i \<in> set [0..<N]. bench_ready 2 3 (bench_name pre N i) t"
    using add_benches_ok [of ?s 2 3 "[0..<N]" N pre] by auto
  with that [of t] run show thesis by (simp add: NewService_def)
qed

lemma login_of:
  assumes "st_authCache s = Map.empty" "st_users s = testenv_users ha ht" "ce_verify E ht ''test''"
  shows "login_as E now ''base'' ''test'' RoleBase s = (Some (testenv_users ha ht ! 1), auth_store now ''base'' ''test'' (testenv_users ha ht ! 1) s)"
    and "login_as E now ''rover1'' ''test'' RoleRover s = (Some (testenv_users ha ht ! 2), auth_store now ''rover1'' ''test'' (testenv_users ha ht ! 2) s)"
  using assms
  by (simp_all add: login_as_def Authenticate_def auth_cached_def auth_check_def GetUserByName_def testenv_users_def)

text \<open>What the caster makes of the requests of the two simulators, on the wire.\<close>

lemma wire_base:
  assumes "visible mount" "user \<noteq> []" "CHR '':'' \<notin> set user"
    and "concat reads = the (sendSourceRequest 2 mount user pass) @ data"
  obtains req later where "rq_MountPoint req = mount" "\<And>s. authenticateBasic E now req RoleBase s = login_as E now user pass RoleBase s"
    "handle E names err now sid reads c
      = (source_result later (fst (handleSourceRev2 E now sid req c)), snd (handleSourceRev2 E now sid req c))"
proof -
  from parsed_request [OF post_request_parsed [OF assms(1,3,4)], of err] obtain req buf later where
    p: "ParseRequest err [] reads = Inr (req, buf, later)" "rq_Type req = RequestSourceRev2" "rq_MountPoint req = mount"
    and cred: "Option.bind (rq_Headers req ''Authorization'') ParseBasicAuth = Some (user, pass)"
    using assms(2) by auto
  show thesis
    by (rule that [OF p(3) authenticateBasic_login [OF cred]]) (simp add: handle_def p split_beta Let_def)
qed

definition test_auth :: "config \<Rightarrow> bool" where
  "test_auth cfg \<longleftrightarrow> ac_Enabled (cf_Auth cfg) \<and> ac_NtripSourceAuth (cf_Auth cfg) = ''user_binding''
     \<and> ac_NtripRoverAuth (cf_Auth cfg) = ''basic'' \<and> 0 < lc_MaxClients (cf_Limits cfg)"

text \<open>The base of the test environment is admitted; afterwards its mountpoint can take a rover.\<close>

lemma bench_base_starts:
  assumes "bench_ready 2 3 name s" "st_users s = testenv_users ha ht" "st_authCache s = Map.empty"
    "ce_verify E ht ''test''" "nc_AuthEnabled (ce_cfg E)"
    and "\<And>st. authenticateBasic E now req RoleBase st = login_as E now ''base'' ''test'' RoleBase st" "rq_MountPoint req = name"
    and "ca_store c = s" "ca_reg c name = Some k" "mp_enabled (ca_obj c k)" "mp_source (ca_obj c k) = None"
      "mp_MaxClients (ca_obj c k) = 0" "gl_count (ca_limiter c) < gl_maxCount (ca_limiter c)"
  shows "\<exists>o1 c1. handleSourceRev2 E now sid req c = (o1, c1) \<and> sc_started o1 = Some (sid, k)
    \<and> ca_store c1 = auth_store now ''base'' ''test'' (testenv_users ha ht ! 1) s \<and> ca_reg c1 = ca_reg c \<and> mount_open c1 k"
proof -
  let ?u = "testenv_users ha ht ! 1"
  let ?s = "auth_store now ''base'' ''test'' ?u s"
  have "HasBinding (u_id ?u) name ?s"
    using assms(1) by (simp add: bench_ready_def HasBinding_def auth_store_def testenv_users_def)
  then have "handleSourceRev2 E now sid req c = open_source ''HTTP/1.1 200 OK'' now sid req (u_id ?u) (c\<lparr>ca_store := ?s\<rparr>)"
    using assms(5) by (simp add: handleSourceRev2_def assms(6-8) login_of(1) [OF assms(3,2,4)])
  moreover obtain m where "source_New sid (u_id ?u) now (ca_obj c k) = Some m" "mp_enabled m" "mp_source m \<noteq> None" "mp_MaxClients m = 0"
    using assms(10-12) by (auto simp: source_New_def SetSource_def set_online_def Let_def)
  ultimately show ?thesis
    using assms(7,9,10,13) by (auto simp: open_source_def mgr_Get_def set_obj_def mount_open_def)
qed

lemma bench_rover_allowed:
  assumes "bench_ready 2 3 name s" "st_users s = testenv_users ha ht" "st_authCache s = Map.empty" "ce_verify E ht ''test''"
    and "authenticateBasic E now req RoleRover st = login_as E now ''rover1'' ''test'' RoleRover st" "rq_MountPoint req = name"
    and "st = auth_store past ''base'' ''test'' u s"
  shows "rover_allowed E now req st"
proof -
  let ?u = "testenv_users ha ht ! 2"
  have "login_as E now ''rover1'' ''test'' RoleRover st = (Some ?u, auth_store now ''rover1'' ''test'' ?u st)"
    using assms(2-4)
    by (simp add: assms(7) login_as_def Authenticate_def auth_cached_def auth_check_def GetUserByName_def testenv_users_def
        auth_store_def cache_key_def)
  moreover have "HasBinding (u_id ?u) name (auth_store now ''rover1'' ''test'' ?u st)"
    using assms(1) by (simp add: bench_ready_def HasBinding_def auth_store_def testenv_users_def assms(7))
  ultimately show ?thesis by (simp add: rover_allowed_def assms(5,6))
qed

lemma visible_nat_str: "visible (nat_str n)"
proof -
  have "graphic c" if "is_digit c" for c
    using that by (auto simp: is_digit_def digit_val_def Let_def graphic_def split: if_splits)
  then show ?thesis using nat_str_digits by (auto simp: list_all_iff)
qed

lemma bench_name_plain: "visible pre \<Longrightarrow> pre \<noteq> [] \<Longrightarrow> visible (bench_name pre N i) \<and> bench_name pre N i \<noteq> []"
  using visible_nat_str [of i] by (simp add: bench_name_def graphic_def)

text \<open>
  C19. The test environment works without further setup, as its documentation says: when \<open>cmd/testenv\<close> has
  prepared the tables and the caster is started on them with authentication on, then for each of its
  mountpoints the request of \<open>cmd/simbase\<close> as user base is admitted as the source, and after that the request
  of \<open>cmd/simrover\<close> as user rover1 is admitted as a rover, however the network cuts the requests into reads.
\<close>

theorem testenv_ready:
  assumes "ae_hash ae ''admin'' = Some ha" "ae_hash ae ''test'' = Some ht" "ae_verify ae ht ''test''"
    and "testenv (ae_hash ae) pre N = Inr s" "visible pre" "pre \<noteq> []" "i < N"
    and "start_main readFile unmarshal open_db ae path = Inr (cfg, c, v)"
    and "open_db (dc_Path (cf_Database cfg)) = Inr s" "test_auth cfg"
    and "concat breads = the (sendSourceRequest 2 (bench_name pre N i) ''base'' ''test'') @ bdata"
    and "concat rreads = sendRoverRequest (bench_name pre N i) ''rover1'' ''test'' @ rdata"
  shows "\<exists>k later c1. handle (env_of cfg ae) names err now sid breads c = (Source_started sid k later, c1)
    \<and> (\<exists>r. fst (handle (env_of cfg ae) names err' now' cid rreads c1) = Rover_started r)"
proof -
  let ?n = "bench_name pre N i" and ?E = "env_of cfg ae"
  have name: "visible ?n" "?n \<noteq> []" using bench_name_plain [OF assms(5,6)] by simp_all
  obtain s where st: "testenv (ae_hash ae) pre N = Inr s" "store_ok s" "st_users s = testenv_users ha ht"
    "st_authCache s = Map.empty" "bench_ready 2 3 ?n s"
    using testenv_store [of "ae_hash ae" ha ht pre N] assms(1,2,7) by metis
  with assms(4,9) have db: "open_db (dc_Path (cf_Database cfg)) = Inr s" by simp
  have "cache_ok (ae_verify ae) s" by (simp add: cache_ok_def st(4))
  from start_facts [OF assms(8) db st(2) this] st(3) have c: "caster_view c v = v" "sv_store v = s"
    "\<forall>row \<in> set (st_mounts s). sv_mgr v (m_name row)
        = (if m_enabled row then Some (fresh_mount (with_defaults cfg ae) row) else None)"
    "gl_maxCount (ca_limiter c) = lc_MaxClients (cf_Limits cfg)" "gl_count (ca_limiter c) = 0"
    by (auto simp: testenv_users_def)
  have store: "ca_store c = s" using arg_cong [OF c(1), of sv_store] c(2) by (simp add: caster_view_def)
  from st(5) obtain row where row: "row \<in> set (st_mounts s)" "m_name row = ?n" "m_enabled row" "m_max_clients row = 0"
    by (auto simp: bench_ready_def)
  have "sv_mgr v ?n = Some (fresh_mount (with_defaults cfg ae) row)" using c(3) row by auto
  then have "map_option (ca_obj c) (ca_reg c ?n) = Some (fresh_mount (with_defaults cfg ae) row)"
    using arg_cong [OF c(1), of sv_mgr] by (simp add: caster_view_def fun_eq_iff)
  then obtain k where k: "ca_reg c ?n = Some k" "ca_obj c k = fresh_mount (with_defaults cfg ae) row" by auto
  then have mp: "mp_enabled (ca_obj c k)" "mp_source (ca_obj c k) = None" "mp_MaxClients (ca_obj c k) = 0"
    by (simp_all add: fresh_mount_def NewMountPoint_def row(4))
  have E: "ce_verify ?E ht ''test''" "nc_AuthEnabled (ce_cfg ?E)"
    using assms(3,10) by (simp_all add: env_of_def ntrip_of_def test_auth_def)
  obtain breq later where b: "rq_MountPoint breq = ?n"
    "\<And>s. authenticateBasic ?E now breq RoleBase s = login_as ?E now ''base'' ''test'' RoleBase s"
    "handle ?E names err now sid breads c
      = (source_result later (fst (handleSourceRev2 ?E now sid breq c)), snd (handleSourceRev2 ?E now sid breq c))"
    using wire_base [OF name(1) _ _ assms(11), of ?E now names err sid c] by auto
  have "gl_count (ca_limiter c) < gl_maxCount (ca_limiter c)" using c(4,5) assms(10) by (simp add: test_auth_def)
  from bench_base_starts [OF st(5,3,4) E b(2,1) store k(1) mp this]
  obtain o1 c1 where o1: "handleSourceRev2 ?E now sid breq c = (o1, c1)" "sc_started o1 = Some (sid, k)"
    "ca_store c1 = auth_store now ''base'' ''test'' (testenv_users ha ht ! 1) s" "ca_reg c1 = ca_reg c" "mount_open c1 k"
    by blast
  from wire_rover [OF name _ _ assms(12), of ?E names err' now' cid c1 "ca_store c1"] obtain rreq where
    r: "(\<exists>r. fst (handle ?E names err' now' cid rreads c1) = Rover_started r)
        \<longleftrightarrow> rc_stage (fst (handleRover ?E now' cid rreq c1)) = S_loop"
      "rq_MountPoint rreq = ?n"
      "authenticateBasic ?E now' rreq RoleRover (ca_store c1) = login_as ?E now' ''rover1'' ''test'' RoleRover (ca_store c1)"
    by auto
  have "rover_allowed ?E now' rreq (ca_store c1)"
    by (rule bench_rover_allowed [OF st(5,3,4) E(1) r(3,2) o1(3)])
  then have "rc_stage (fst (handleRover ?E now' cid rreq c1)) = S_loop"
    using rover_outcome [of ?E now' cid rreq c1, OF surjective_pairing] o1(4,5) k(1) r(2) by (auto simp: rover_result_def)
  with r(1) have "\<exists>r. fst (handle ?E names err' now' cid rreads c1) = Rover_started r" by blast
  moreover have "handle ?E names err now sid breads c = (Source_started sid k (map of_bytes later), c1)"
    by (simp add: b(3) o1(1,2) source_result_def)
  ultimately show ?thesis by blast
qed

text \<open>A hash as bcrypt's for the witnesses: the password behind a mark.\<close>

definition start_env :: api_env where
  "start_env = sample_env\<lparr>ae_hash := (\<lambda>p. Some (CHR ''#'' # p)), ae_verify := (\<lambda>h p. h = CHR ''#'' # p)\<rparr>"

definition no_document :: "string \<Rightarrow> config \<Rightarrow> string + config" where
  "no_document data cfg = Inr cfg"

definition bench_store :: store where
  "bench_store = (case testenv (ae_hash start_env) ''B'' 2 of Inr s \<Rightarrow> s | Inl e \<Rightarrow> NewService)"

lemma bench_store_ok:
  "testenv (ae_hash start_env) ''B'' 2 = Inr bench_store" "store_ok bench_store" "cache_ok (ae_verify start_env) bench_store"
  "\<exists>u \<in> set (st_users bench_store). u_role u = RoleAdmin"
proof -
  obtain s where s: "testenv (ae_hash start_env) ''B'' 2 = Inr s" "store_ok s" "st_users s = testenv_users ''#admin'' ''#test''"
    "st_authCache s = Map.empty"
    using testenv_store [of "ae_hash start_env" "''#admin''" "''#test''" "''B''" 2] by (auto simp: start_env_def)
  then have "bench_store = s" by (simp add: bench_store_def)
  with s show "testenv (ae_hash start_env) ''B'' 2 = Inr bench_store" "store_ok bench_store"
    "cache_ok (ae_verify start_env) bench_store" "\<exists>u \<in> set (st_users bench_store). u_role u = RoleAdmin"
    by (simp_all add: cache_ok_def testenv_users_def)
qed

lemma bench_start:
  obtains c v where "start_main (\<lambda>p. Inr []) no_document (\<lambda>p. Inr bench_store) start_env ''config.yaml'' = Inr (defaultConfig, c, v)"
  using bench_store_ok(4) by (auto simp: start_main_def Load_def no_document_def EnsureAdmin_def Let_def)

theorem caster_starts_witness:
  "\<exists>cfg c v. start_main (\<lambda>p. Inr []) no_document (\<lambda>p. Inr bench_store) start_env ''config.yaml'' = Inr (cfg, c, v)
     \<and> caster_view c v = v \<and> sv_store v = bench_store"
proof -
  obtain c v where run: "start_main (\<lambda>p. Inr []) no_document (\<lambda>p. Inr bench_store) start_env ''config.yaml'' = Inr (defaultConfig, c, v)"
    by (rule bench_start)
  from caster_starts [OF this refl bench_store_ok(2,3)] bench_store_ok(4) run show ?thesis by blast
qed

theorem first_start_witness:
  "\<exists>c v. start_main (\<lambda>p. Inr []) no_document (\<lambda>p. Inr NewService) start_env ''config.yaml'' = Inr (defaultConfig, c, v)
     \<and> fst (Authenticate (ae_verify start_env) 0 ''admin'' ''admin'' (ca_store c)) \<noteq> None"
proof -
  have h: "ae_hash start_env ''admin'' = Some ''#admin''" "ae_verify start_env ''#admin'' ''admin''"
    by (simp_all add: start_env_def)
  have "no_document [] defaultConfig = Inr defaultConfig" by (simp add: no_document_def)
  from first_start [where open_db = "\<lambda>p. Inr NewService" and readFile = "\<lambda>p. Inr []" and cfg = defaultConfig
      and unmarshal = no_document and data = "[]" and path = "''config.yaml''" and ae = start_env and now = 0,
      OF refl refl this] h(1)
  obtain c v where "start_main (\<lambda>p. Inr []) no_document (\<lambda>p. Inr NewService) start_env ''config.yaml'' = Inr (defaultConfig, c, v)"
    and "\<And>n p. case fst (Authenticate (ae_verify start_env) 0 n p (ca_store c)) of
        None \<Rightarrow> \<not> (n = ''admin'' \<and> ae_verify start_env ''#admin'' p)
      | Some u \<Rightarrow> n = ''admin'' \<and> ae_verify start_env ''#admin'' p \<and> u_username u = ''admin'' \<and> u_role u = RoleAdmin" by auto
  note run = this(1) and logins = this(2) [of "''admin''" "''admin''"]
  then have "fst (Authenticate (ae_verify start_env) 0 ''admin'' ''admin'' (ca_store c)) \<noteq> None"
    using h(2) by (cases "fst (Authenticate (ae_verify start_env) 0 ''admin'' ''admin'' (ca_store c))") simp_all
  with run show ?thesis by blast
qed

theorem testenv_ready_witness:
  "\<exists>c v k later c1. start_main (\<lambda>p. Inr []) no_document (\<lambda>p. Inr bench_store) start_env ''config.yaml'' = Inr (defaultConfig, c, v)
    \<and> handle (env_of defaultConfig start_env) [] ''EOF'' 0 ''s'' [the (sendSourceRequest 2 ''B_0'' ''base'' ''test'')] c
        = (Source_started ''s'' k later, c1)"
proof -
  obtain c v where run: "start_main (\<lambda>p. Inr []) no_document (\<lambda>p. Inr bench_store) start_env ''config.yaml'' = Inr (defaultConfig, c, v)"
    by (rule bench_start)
  have name: "bench_name ''B'' 2 0 = ''B_0''" by code_simp
  have keys: "ae_hash start_env ''admin'' = Some ''#admin''" "ae_hash start_env ''test'' = Some ''#test''" "ae_verify start_env ''#test'' ''test''"
    by (simp_all add: start_env_def)
  have auth: "test_auth defaultConfig" by (simp add: test_auth_def defaultConfig_def)
  from testenv_ready [OF keys bench_store_ok(1) _ _ _ run, of 0 "[the (sendSourceRequest 2 ''B_0'' ''base'' ''test'')]" "[]"
      "[sendRoverRequest ''B_0'' ''rover1'' ''test'']" "[]" "[]" "''EOF''" 0 "''s''" "''EOF''" 0 "''c''"]
  obtain k later c1 where "handle (env_of defaultConfig start_env) [] ''EOF'' 0 ''s'' [the (sendSourceRequest 2 ''B_0'' ''base'' ''test'')] c
      = (Source_started ''s'' k later, c1)"
    using auth by (auto simp: name graphic_def)
  with run show ?thesis by blast
qed

end
