(* ===== verification/Caster_Faults.thy ===== *)
theory Caster_Faults
  imports Api_Faults Start
begin

text \<open>
  The database failing under a running caster: the handlers of connections (\<open>internal/caster/connection.go\<close>)
  and the start (\<open>cmd/caster/main.go\<close>). A failure never admits a connection.
\<close>

section \<open>Connections\<close>

definition f_authenticateBasic ::
  "bool \<Rightarrow> caster_env \<Rightarrow> int \<Rightarrow> ntrip_request \<Rightarrow> string \<Rightarrow> store \<Rightarrow> (string + db_user option) \<times> store" where
  "f_authenticateBasic ok E now req role s =
     (if header req ''Authorization'' = [] then (Inr None, s)
      else case ParseBasicAuth (header req ''Authorization'') of
        None \<Rightarrow> (Inr None, s)
      | Some (username, password) \<Rightarrow>
          (case f_Authenticate ok (ce_verify E) now username password s of
             (Inl e, s') \<Rightarrow> (Inl e, s')
           | (Inr None, s') \<Rightarrow> (Inr None, s')
           | (Inr (Some user), s') \<Rightarrow>
               if u_role user = RoleAdmin then (Inr (Some user), s')
               else if u_role user \<noteq> role then (Inr None, s')
               else (Inr (Some user), s')))"

text \<open>The first call is the login's or the secret's, the second the binding's.\<close>

definition f_authenticateSource ::
  "db_faults \<Rightarrow> caster_env \<Rightarrow> int \<Rightarrow> ntrip_request \<Rightarrow> store \<Rightarrow> (string + (int \<times> bool)) \<times> store" where
  "f_authenticateSource df E now req s =
     (if nc_NtripSourceAuth (ce_cfg E) = ''user_binding'' then
        (if header req ''Authorization'' \<noteq> [] then
           (case f_authenticateBasic (df_call df 0) E now req RoleBase s of
              (Inl e, s') \<Rightarrow> (Inl e, s')
            | (Inr None, s') \<Rightarrow> (Inr (0, False), s')
            | (Inr (Some user), s') \<Rightarrow>
                (map_sum id (\<lambda>has. (u_id user, has)) (f_HasBinding (df_call df 1) (u_id user) (rq_MountPoint req) s'), s'))
         else (map_sum id (\<lambda>valid. (0, valid))
                 (f_VerifyMountPointSourceSecret (df_call df 0) (ce_verify E) (rq_MountPoint req) (rq_Password req) s), s))
      else (Inr (0, True), s))"

definition f_rover_auth :: "db_faults \<Rightarrow> caster_env \<Rightarrow> int \<Rightarrow> rover_conn \<Rightarrow> caster \<Rightarrow> rover_conn \<times> caster" where
  "f_rover_auth df E now r c =
     (if nc_AuthEnabled (ce_cfg E) \<and> nc_NtripRoverAuth (ce_cfg E) = ''basic'' then
        (case f_authenticateBasic (df_call df 0) E now (rc_req r) RoleRover (ca_store c) of
           (Inl e, s) \<Rightarrow> (refuse (resp ''HTTP/1.1 401 Unauthorized'') r, c\<lparr>ca_store := s\<rparr>)
         | (Inr None, s) \<Rightarrow> (refuse (resp ''HTTP/1.1 401 Unauthorized'') r, c\<lparr>ca_store := s\<rparr>)
         | (Inr (Some user), s) \<Rightarrow>
             if u_role user \<noteq> RoleAdmin \<and> f_HasBinding (df_call df 1) (u_id user) (rq_MountPoint (rc_req r)) s \<noteq> Inr True
             then (refuse (resp ''HTTP/1.1 403 Forbidden'') r, c\<lparr>ca_store := s\<rparr>)
             else (r\<lparr>rc_user := u_id user, rc_stage := S_lookup\<rparr>, c\<lparr>ca_store := s\<rparr>))
      else (r\<lparr>rc_stage := S_lookup\<rparr>, c))"

text \<open>The stages after the login do not ask the database.\<close>

definition f_handleRover :: "db_faults \<Rightarrow> caster_env \<Rightarrow> int \<Rightarrow> string \<Rightarrow> ntrip_request \<Rightarrow> caster \<Rightarrow> rover_conn \<times> caster" where
  "f_handleRover df E now cid req c =
     (let (r, c') = f_rover_auth df E now (new_conn cid req) c in run_rover 7 E now r c')"

definition f_handleSourceRev1 ::
  "db_faults \<Rightarrow> caster_env \<Rightarrow> int \<Rightarrow> string \<Rightarrow> ntrip_request \<Rightarrow> caster \<Rightarrow> source_conn_out \<times> caster" where
  "f_handleSourceRev1 df E now sid req c =
     (if nc_AuthEnabled (ce_cfg E) then
        (case f_authenticateSource df E now req (ca_store c) of
           (Inl e, s) \<Rightarrow> (refuse_source (''ERROR - Bad Password'' @ [CHR 0x0D, CHR 0x0A]), c\<lparr>ca_store := s\<rparr>)
         | (Inr (uid, ok), s) \<Rightarrow>
             if \<not> ok then (refuse_source (''ERROR - Bad Password'' @ [CHR 0x0D, CHR 0x0A]), c\<lparr>ca_store := s\<rparr>)
             else open_source ''ICY 200 OK'' now sid req uid (c\<lparr>ca_store := s\<rparr>))
      else open_source ''ICY 200 OK'' now sid req 0 c)"

definition f_handleSourceRev2 ::
  "db_faults \<Rightarrow> caster_env \<Rightarrow> int \<Rightarrow> string \<Rightarrow> ntrip_request \<Rightarrow> caster \<Rightarrow> source_conn_out \<times> caster" where
  "f_handleSourceRev2 df E now sid req c =
     (if nc_AuthEnabled (ce_cfg E) then
        (case f_authenticateBasic (df_call df 0) E now req RoleBase (ca_store c) of
           (Inl e, s) \<Rightarrow> (refuse_source (resp ''HTTP/1.1 401 Unauthorized''), c\<lparr>ca_store := s\<rparr>)
         | (Inr None, s) \<Rightarrow> (refuse_source (resp ''HTTP/1.1 401 Unauthorized''), c\<lparr>ca_store := s\<rparr>)
         | (Inr (Some user), s) \<Rightarrow>
             if nc_NtripSourceAuth (ce_cfg E) = ''user_binding''
                \<and> f_HasBinding (df_call df 1) (u_id user) (rq_MountPoint req) s \<noteq> Inr True
             then (refuse_source (resp ''HTTP/1.1 403 Forbidden''), c\<lparr>ca_store := s\<rparr>)
             else open_source ''HTTP/1.1 200 OK'' now sid req (u_id user) (c\<lparr>ca_store := s\<rparr>))
      else open_source ''HTTP/1.1 200 OK'' now sid req 0 c)"

definition f_handle ::
  "db_faults \<Rightarrow> caster_env \<Rightarrow> string list \<Rightarrow> string \<Rightarrow> int \<Rightarrow> string \<Rightarrow> string list \<Rightarrow> caster \<Rightarrow> conn_result \<times> caster" where
  "f_handle df E names err now cid reads c =
     (case ParseRequest err [] reads of
        Inl e \<Rightarrow> (Closed [], c)
      | Inr (req, buffered, later) \<Rightarrow>
          (case rq_Type req of
             RequestSourcetable \<Rightarrow>
               (Closed (Generate (List.map_filter (\<lambda>n. map_option (ca_obj c) (ca_reg c n)) names)), c)
           | RequestRover \<Rightarrow>
               (let (r, c') = f_handleRover df E now cid req c
                in (if rc_stage r = S_loop then Rover_started r else Closed (rc_out r), c'))
           | RequestSourceRev1 \<Rightarrow> (let (o', c') = f_handleSourceRev1 df E now cid req c in (source_result later o', c'))
           | RequestSourceRev2 \<Rightarrow> (let (o', c') = f_handleSourceRev2 df E now cid req c in (source_result later o', c'))
           | RequestUnknown \<Rightarrow> (Closed [], c)))"

text \<open>A login under failures is the login without them, or an error that leaves the store as it was.\<close>

lemma f_authenticateBasic_cases:
  "f_authenticateBasic ok E now req role s = apfst Inr (authenticateBasic E now req role s)
   \<or> \<not> ok \<and> f_authenticateBasic ok E now req role s = (Inl ''query user'', s)"
  by (auto simp: f_authenticateBasic_def authenticateBasic_def f_Authenticate_def split_beta Let_def split: option.split prod.split)

definition login_store :: "caster_env \<Rightarrow> int \<Rightarrow> store \<Rightarrow> store set" where
  "login_store E now s = insert s (range (\<lambda>(n, p). snd (Authenticate (ce_verify E) now n p s)))"

lemma authenticateBasic_store: "snd (authenticateBasic E now req role s) \<in> login_store E now s"
proof (cases "header req ''Authorization'' = [] \<or> ParseBasicAuth (header req ''Authorization'') = None")
  case True
  then show ?thesis by (auto simp: authenticateBasic_def login_store_def)
next
  case False
  then obtain u p where "ParseBasicAuth (header req ''Authorization'') = Some (u, p)" by auto
  with False have "snd (authenticateBasic E now req role s) = snd (Authenticate (ce_verify E) now u p s)"
    by (auto simp: authenticateBasic_def split: prod.split option.split)
  then show ?thesis by (auto simp: login_store_def intro!: image_eqI [of _ _ "(u, p)"])
qed

text \<open>The caster after a refusal: nothing has changed but, at most, the login cache.\<close>

definition only_login :: "caster_env \<Rightarrow> int \<Rightarrow> caster \<Rightarrow> caster \<Rightarrow> bool" where
  "only_login E now c c' \<longleftrightarrow> (\<exists>s \<in> login_store E now (ca_store c). c' = c\<lparr>ca_store := s\<rparr>)"

lemma only_loginI: "s \<in> login_store E now (ca_store c) \<Longrightarrow> only_login E now c (c\<lparr>ca_store := s\<rparr>)"
  by (auto simp: only_login_def)

lemma login_store_self [simp]: "s \<in> login_store E now s"
  by (simp add: login_store_def)

lemma only_login_self [simp]: "only_login E now c c"
  using only_loginI [OF login_store_self, of E now c] by simp

lemma f_HasBinding_cases: "f_HasBinding ok u n s = Inr b \<longleftrightarrow> ok \<and> b = HasBinding u n s"
  by (auto simp: f_HasBinding_def db_call_def)

lemma rover_auth_closed:
  "f_rover_auth df E now r c = rover_auth E now r c
   \<or> (\<exists>out c'. f_rover_auth df E now r c = (refuse out r, c') \<and> only_login E now c c')"
proof (cases "f_authenticateBasic (df_call df 0) E now (rc_req r) RoleRover (ca_store c)
    = apfst Inr (authenticateBasic E now (rc_req r) RoleRover (ca_store c))")
  case True
  obtain u s where a: "authenticateBasic E now (rc_req r) RoleRover (ca_store c) = (u, s)" by fastforce
  then have "s \<in> login_store E now (ca_store c)" using authenticateBasic_store by (metis snd_conv)
  then show ?thesis
    using True a by (auto simp: f_rover_auth_def rover_auth_def f_HasBinding_cases split: option.split intro: only_loginI)
next
  case False
  with f_authenticateBasic_cases [of "df_call df 0" E now "rc_req r" RoleRover "ca_store c"]
  have "f_authenticateBasic (df_call df 0) E now (rc_req r) RoleRover (ca_store c) = (Inl ''query user'', ca_store c)" by blast
  then have "rover_auth_on E \<Longrightarrow> f_rover_auth df E now r c = (refuse (resp ''HTTP/1.1 401 Unauthorized'') r, c)"
    by (simp add: f_rover_auth_def rover_auth_on_def)
  moreover have "\<not> rover_auth_on E \<Longrightarrow> f_rover_auth df E now r c = rover_auth E now r c"
    by (auto simp: f_rover_auth_def rover_auth_def rover_auth_on_def)
  ultimately show ?thesis using only_login_self by blast
qed

lemma handleRover_start: "handleRover E now cid req c = (let (r, c') = rover_auth E now (new_conn cid req) c in run_rover 7 E now r c')"
  unfolding handleRover_def by (subst run_rover_numeral) (simp add: settled_def new_conn_def rover_step.simps)

lemma rover_closed:
  "f_handleRover df E now cid req c = handleRover E now cid req c
   \<or> (\<exists>r c'. f_handleRover df E now cid req c = (r, c') \<and> rc_stage r = S_end \<and> only_login E now c c')"
  using rover_auth_closed [of df E now "new_conn cid req" c]
  by (auto simp: f_handleRover_def handleRover_start run_rover_settled)

definition source_closed :: "caster_env \<Rightarrow> int \<Rightarrow> caster \<Rightarrow> source_conn_out \<times> caster \<Rightarrow> source_conn_out \<times> caster \<Rightarrow> bool" where
  "source_closed E now c res fine \<longleftrightarrow>
     res = fine \<or> (\<exists>out c'. res = (refuse_source out, c') \<and> only_login E now c c')"

lemma authenticateSource_closed:
  "(case f_authenticateSource df E now req s of
      (Inl e, s') \<Rightarrow> s' \<in> login_store E now s
    | (Inr x, s') \<Rightarrow> (x, s') = authenticateSource E now req s)"
proof (cases "f_authenticateBasic (df_call df 0) E now req RoleBase s = apfst Inr (authenticateBasic E now req RoleBase s)")
  case True
  obtain u s' where a: "authenticateBasic E now req RoleBase s = (u, s')" by fastforce
  then have "s' \<in> login_store E now s" using authenticateBasic_store by (metis snd_conv)
  with True a show ?thesis
    by (auto simp: f_authenticateSource_def authenticateSource_def f_HasBinding_def f_VerifyMountPointSourceSecret_def
        VerifyMountPointSourceSecret_def db_call_def split: option.split)
next
  case False
  with f_authenticateBasic_cases [of "df_call df 0" E now req RoleBase s] show ?thesis
    by (auto simp: f_authenticateSource_def authenticateSource_def f_VerifyMountPointSourceSecret_def
        VerifyMountPointSourceSecret_def db_call_def)
qed

lemma rev1_closed: "source_closed E now c (f_handleSourceRev1 df E now sid req c) (handleSourceRev1 E now sid req c)"
  using authenticateSource_closed [where df = df and E = E and now = now and req = req and s = "ca_store c"]
  by (auto simp: source_closed_def f_handleSourceRev1_def handleSourceRev1_def intro: only_loginI
      split: prod.splits sum.splits)

lemma rev2_closed: "source_closed E now c (f_handleSourceRev2 df E now sid req c) (handleSourceRev2 E now sid req c)"
proof (cases "f_authenticateBasic (df_call df 0) E now req RoleBase (ca_store c) = apfst Inr (authenticateBasic E now req RoleBase (ca_store c))")
  case True
  obtain u s where a: "authenticateBasic E now req RoleBase (ca_store c) = (u, s)" by fastforce
  then have "s \<in> login_store E now (ca_store c)" using authenticateBasic_store by (metis snd_conv)
  with True a show ?thesis
    by (auto simp: source_closed_def f_handleSourceRev2_def handleSourceRev2_def f_HasBinding_cases split: option.split intro: only_loginI)
next
  case False
  with f_authenticateBasic_cases [of "df_call df 0" E now req RoleBase "ca_store c"] show ?thesis
    by (auto simp: source_closed_def f_handleSourceRev2_def handleSourceRev2_def intro: only_loginI)
qed

lemma fine_connection:
  "f_authenticateBasic True E now req role s = apfst Inr (authenticateBasic E now req role s)"
  "f_authenticateSource no_faults E now req s = apfst Inr (authenticateSource E now req s)"
  using f_authenticateBasic_cases [of True]
  by (auto simp: f_authenticateSource_def authenticateSource_def split: prod.split option.split)

lemma fine_handle: "f_handle no_faults E names err now cid reads c = handle E names err now cid reads c"
proof -
  have "f_handleRover no_faults E now cid req c = handleRover E now cid req c" for req
    by (auto simp: f_handleRover_def handleRover_start f_rover_auth_def rover_auth_def fine_connection(1) split: prod.split option.split)
  moreover have "f_handleSourceRev1 no_faults E now cid req c = handleSourceRev1 E now cid req c" for req
    by (auto simp: f_handleSourceRev1_def handleSourceRev1_def fine_connection(2) split: prod.split)
  moreover have "f_handleSourceRev2 no_faults E now cid req c = handleSourceRev2 E now cid req c" for req
    by (auto simp: f_handleSourceRev2_def handleSourceRev2_def fine_connection(1) split: prod.split option.split)
  ultimately show ?thesis by (simp add: f_handle_def handle_def split: request_type.split sum.split prod.split)
qed

section \<open>The start\<close>

definition f_syncMountpoints :: "read_outcome \<Rightarrow> api_env \<Rightarrow> store \<Rightarrow> string + manager" where
  "f_syncMountpoints rd ae s =
     (case f_ListMountPointRows rd s of Inl e \<Rightarrow> Inl e | Inr rows \<Rightarrow> Inr (fold (sync_row ae) rows Map.empty))"

text \<open>\<open>main\<close> up to the two servers, as \<open>start_main\<close>, with the failures after the database is open.\<close>

definition f_start_main ::
  "db_faults \<Rightarrow> (string \<Rightarrow> string + string) \<Rightarrow> (string \<Rightarrow> config \<Rightarrow> string + config) \<Rightarrow> (string \<Rightarrow> string + store) \<Rightarrow> api_env
     \<Rightarrow> string \<Rightarrow> string + (config \<times> caster \<times> server)" where
  "f_start_main df readFile unmarshal open_db ae cfgPath =
     (case Load readFile unmarshal cfgPath of
        Inl e \<Rightarrow> Inl ''failed to load config''
      | Inr cfg \<Rightarrow>
     (case open_db (dc_Path (cf_Database cfg)) of
        Inl e \<Rightarrow> Inl ''failed to open database''
      | Inr db \<Rightarrow>
     (case f_EnsureAdmin (df_call df 0) (df_call df 1) (ae_hash ae) ''admin'' ''admin'' db of
        Inl e \<Rightarrow> Inl ''failed to ensure admin user''
      | Inr s \<Rightarrow>
     (case f_syncMountpoints (df_read df) (with_defaults cfg ae) s of
        Inl e \<Rightarrow> Inl ''failed to sync mountpoints''
      | Inr g \<Rightarrow> Inr (cfg, NewServer cfg g s, \<lparr>sv_store = s, sv_mgr = g, sv_sessions = Map.empty\<rparr>)))))"

text \<open>A start that comes to its servers has met no failure.\<close>

lemma f_EnsureAdmin_Inr: "f_EnsureAdmin ok ok' hash n p s = Inr t \<Longrightarrow> EnsureAdmin hash n p s = Inr t"
  by (cases "f_CreateUser ok' hash n p RoleAdmin s") (auto simp: f_EnsureAdmin_def EnsureAdmin_def split: if_splits dest: service_Inr(1))

lemma f_sync_Inr: "f_syncMountpoints rd ae s = Inr g \<Longrightarrow> g = syncMountpoints ae s"
  by (auto simp: f_syncMountpoints_def syncMountpoints_def f_ListMountPointRows_def db_read_def split: read_outcome.splits)

lemma f_start_main_Inr:
  "f_start_main df readFile unmarshal open_db ae path = Inr x \<Longrightarrow> start_main readFile unmarshal open_db ae path = Inr x"
  by (auto simp: f_start_main_def start_main_def start_server_def Let_def split: sum.splits
      dest!: f_EnsureAdmin_Inr f_sync_Inr)

section \<open>Properties\<close>


text \<open>
  C14. A failing database admits nobody. Without failures connections are handled as in \<open>Admission\<close>. With any
  failures a connection is treated as without them, or it is refused and closed, and then mountpoints,
  counters and tables are as before: at most the login cache has got an entry, from a login that succeeded.
\<close>

theorem failures_fail_closed:
  "f_handle no_faults E names err now cid reads c = handle E names err now cid reads c
   \<and> (f_handle df E names err now cid reads c = handle E names err now cid reads c
     \<or> (\<exists>out c'. f_handle df E names err now cid reads c = (Closed out, c') \<and> only_login E now c c'))"
proof (intro conjI)
  show "f_handle df E names err now cid reads c = handle E names err now cid reads c
     \<or> (\<exists>out c'. f_handle df E names err now cid reads c = (Closed out, c') \<and> only_login E now c c')"
  proof (cases "ParseRequest err [] reads")
    case (Inr x)
    obtain req buf later where x: "x = (req, buf, later)" by (metis prod_cases3)
    show ?thesis
      using Inr x rover_closed [of df E now cid req c] rev1_closed [of E now c df cid req] rev2_closed [of E now c df cid req]
      by (cases "rq_Type req") (auto simp: f_handle_def handle_def source_closed_def source_result_def refuse_source_def)
  qed (simp add: f_handle_def handle_def)
qed (rule fine_handle)

section \<open>Instances\<close>


end
