(* ===== verification/Source_Overlap.thy ===== *)
theory Source_Overlap
  imports Relay
begin

text \<open>
  Several sources of one mountpoint. \<open>ClearSource\<close>, \<open>KickSourceByUser\<close> and \<open>DisconnectAll\<close>
  (\<open>internal/mountpoint/mountpoint.go\<close>) take the source off the mountpoint under the lock, and only
  afterwards call its \<open>Stop\<close>. Nothing waits for its goroutine, \<open>ReadLoop\<close> of \<open>internal/source/source.go\<close>, so
  the next source can start while the old one still broadcasts what it has read.

  Every goroutine takes the steps of \<open>Relay\<close>, on its own thread and its own history: \<open>focus\<close> shows the
  mountpoint with one of the sources as a state of \<open>Relay\<close>, and \<open>put\<close> writes the result back. What is new is that
  a read is two steps here, the return of \<open>Conn.Read\<close> and the handling of what it returned, that
  closing the connection is a step of its own, and that the ends of the goroutines are unordered. The calls of
  the administration API are one step each, with the kicks of the rovers.
\<close>

section \<open>Source goroutines side by side\<close>

record overlap =
  ov_relay :: relay
  ov_thread :: "string \<Rightarrow> source_thread option"
  ov_read :: "string \<Rightarrow> byte list option"
  ov_open :: "string \<Rightarrow> bool"
  ov_started :: "string list"
  ov_sent :: "string \<Rightarrow> byte list list"
  ov_stream :: "string \<Rightarrow> byte list"

definition focus :: "string \<Rightarrow> overlap \<Rightarrow> relay" where
  "focus sid s = (ov_relay s)\<lparr>rl_live := ov_thread s sid, rl_sent := ov_sent s sid, rl_streams := [ov_stream s sid]\<rparr>"

definition put :: "string \<Rightarrow> relay \<Rightarrow> overlap \<Rightarrow> overlap" where
  "put sid t s = s\<lparr>ov_relay := (ov_relay s)\<lparr>rl_mount := rl_mount t\<rparr>, ov_thread := (ov_thread s)(sid := rl_live t),
     ov_sent := (ov_sent s)(sid := rl_sent t), ov_stream := (ov_stream s)(sid := last (rl_streams t))\<rparr>"

definition own_step :: "conversion \<Rightarrow> string \<Rightarrow> relay_event \<Rightarrow> overlap \<Rightarrow> overlap option" where
  "own_step cv sid e s = map_option (\<lambda>t. put sid t s) (relay_step cv e (focus sid s))"

text \<open>The goroutine is at the head of its loop; the mountpoint's source is the one with this id.\<close>

definition at_loop :: "string \<Rightarrow> overlap \<Rightarrow> bool" where
  "at_loop sid s \<longleftrightarrow> ov_read s sid = None
     \<and> (case ov_thread s sid of None \<Rightarrow> False | Some th \<Rightarrow> th_pending th = [] \<and> th_pkt th = None)"

definition feeds :: "string \<Rightarrow> overlap \<Rightarrow> bool" where
  "feeds sid s \<longleftrightarrow> (case mp_source (rl_mount (ov_relay s)) of None \<Rightarrow> False | Some src \<Rightarrow> so_ID src = sid)"

text \<open>
  The start under a fresh id (\<open>uuid.New\<close>), the return of a read and its handling, the loop over the packets, the end
  after a failed read or a closed \<open>Done\<close>, with the deferred \<open>ClearSource\<close> and \<open>Close\<close>; and \<open>Stop\<close>.
\<close>

definition ov_start :: "conversion \<Rightarrow> string \<Rightarrow> int \<Rightarrow> int \<Rightarrow> overlap \<Rightarrow> overlap option" where
  "ov_start cv sid uid now s =
     (if sid \<in> set (ov_started s) then None
      else map_option (\<lambda>t. t\<lparr>ov_open := (ov_open t)(sid := True), ov_started := ov_started t @ [sid]\<rparr>)
             (own_step cv sid (E_source sid uid now) s))"

definition ov_receive :: "string \<Rightarrow> byte list \<Rightarrow> overlap \<Rightarrow> overlap option" where
  "ov_receive sid buf s =
     (if at_loop sid s \<and> ov_open s sid \<and> length buf \<le> 4096
      then Some (s\<lparr>ov_read := (ov_read s)(sid := Some buf)\<rparr>) else None)"

definition ov_push :: "conversion \<Rightarrow> string \<Rightarrow> overlap \<Rightarrow> overlap option" where
  "ov_push cv sid s =
     (case ov_read s sid of
        None \<Rightarrow> None
      | Some buf \<Rightarrow> own_step cv sid (E_read buf) (s\<lparr>ov_read := (ov_read s)(sid := None)\<rparr>))"

definition ov_end :: "conversion \<Rightarrow> string \<Rightarrow> overlap \<Rightarrow> overlap option" where
  "ov_end cv sid s =
     (if at_loop sid s
      then map_option (\<lambda>t. t\<lparr>ov_open := (ov_open t)(sid := False)\<rparr>) (own_step cv sid E_source_end s)
      else None)"

definition ov_stop :: "string \<Rightarrow> overlap \<Rightarrow> overlap option" where
  "ov_stop sid s =
     (if sid \<in> set (ov_started s) \<and> \<not> feeds sid s then Some (s\<lparr>ov_open := (ov_open s)(sid := False)\<rparr>) else None)"

text \<open>The rovers and the calls from outside are those of \<open>Relay\<close>.\<close>

fun rover_event :: "relay_event \<Rightarrow> bool" where
  "rover_event (E_source sid uid now) = False"
| "rover_event (E_read buf) = False"
| "rover_event (E_packet now) = False"
| "rover_event E_send = False"
| "rover_event E_source_end = False"
| "rover_event _ = True"

definition ov_rover :: "conversion \<Rightarrow> relay_event \<Rightarrow> overlap \<Rightarrow> overlap option" where
  "ov_rover cv e s =
     (if rover_event e then map_option (\<lambda>t. s\<lparr>ov_relay := t\<rparr>) (relay_step cv e (ov_relay s)) else None)"

datatype overlap_event =
    V_start string int int
  | V_receive string "byte list"
  | V_push string
  | V_packet string int
  | V_send string
  | V_end string
  | V_stop string
  | V_rover relay_event

fun overlap_step :: "conversion \<Rightarrow> overlap_event \<Rightarrow> overlap \<Rightarrow> overlap option" where
  "overlap_step cv (V_start sid uid now) s = ov_start cv sid uid now s"
| "overlap_step cv (V_receive sid buf) s = ov_receive sid buf s"
| "overlap_step cv (V_push sid) s = ov_push cv sid s"
| "overlap_step cv (V_packet sid now) s = own_step cv sid (E_packet now) s"
| "overlap_step cv (V_send sid) s = own_step cv sid E_send s"
| "overlap_step cv (V_end sid) s = ov_end cv sid s"
| "overlap_step cv (V_stop sid) s = ov_stop sid s"
| "overlap_step cv (V_rover e) s = ov_rover cv e s"

definition overlap_start :: "mount_point \<Rightarrow> overlap" where
  "overlap_start m =
     \<lparr>ov_relay = relay_start m, ov_thread = (\<lambda>i. None), ov_read = (\<lambda>i. None), ov_open = (\<lambda>i. False), ov_started = [],
      ov_sent = (\<lambda>i. []), ov_stream = (\<lambda>i. [])\<rparr>"

inductive overlap_run :: "conversion \<Rightarrow> overlap \<Rightarrow> overlap_event list \<Rightarrow> overlap \<Rightarrow> bool" for cv where
  orun_Nil: "overlap_run cv s [] s"
| orun_Cons: "overlap_step cv e s = Some t \<Longrightarrow> overlap_run cv t es u \<Longrightarrow> overlap_run cv s (e # es) u"

inductive_simps overlap_run_simps [simp]: "overlap_run cv s [] u" "overlap_run cv s (e # es) u"

primrec overlap_exec :: "conversion \<Rightarrow> overlap_event list \<Rightarrow> overlap \<Rightarrow> overlap option" where
  "overlap_exec cv [] s = Some s"
| "overlap_exec cv (e # es) s = (case overlap_step cv e s of None \<Rightarrow> None | Some t \<Rightarrow> overlap_exec cv es t)"

lemma overlap_exec_run: "overlap_exec cv es s = Some t \<Longrightarrow> overlap_run cv s es t"
  by (induction es arbitrary: s) (auto split: option.splits)

section \<open>A rover between the sources\<close>

text \<open>
  \<open>W\<close> is what the rover was given, each frame with its source. For every source the frames
  are a part of its stream without gaps, from the rover's arrival on; how the sources alternate is open.
\<close>

definition of_source :: "string \<Rightarrow> (string \<times> byte list) list \<Rightarrow> byte list list" where
  "of_source sid W = map snd (filter (\<lambda>x. fst x = sid) W)"

definition part_ok :: "byte list list \<Rightarrow> bool \<Rightarrow> bool \<Rightarrow> byte list list \<Rightarrow> bool" where
  "part_ok sent behind opn ps \<longleftrightarrow>
     (\<exists>j \<le> length (lag sent behind). prefix ps (drop j sent) \<and> (opn \<longrightarrow> ps = drop j (lag sent behind)))"

definition merged_ok ::
  "(string \<Rightarrow> byte list list) \<Rightarrow> (string \<Rightarrow> bool) \<Rightarrow> byte list \<Rightarrow> byte list list \<Rightarrow> bool \<Rightarrow> rover \<Rightarrow> bool" where
  "merged_ok sent behind wire written running c \<longleftrightarrow>
     (rv_slow c \<longrightarrow> rv_done c)
     \<and> (\<exists>W. (\<forall>sid. part_ok (sent sid) (behind sid) (running \<and> \<not> rv_done c) (of_source sid W))
        \<and> prefix wire (concat (map snd W))
        \<and> (running \<longrightarrow> wire = concat written \<and> written @ rv_queue c = map snd W
                      \<and> rv_BytesOut c = int (length wire)))"

lemma of_source_simps [simp]:
  "of_source sid [] = []" "of_source sid (W @ [(i, p)]) = of_source sid W @ (if i = sid then [p] else [])"
  by (simp_all add: of_source_def)

lemma part_ok_new: "part_ok sent False opn []" 
  by (auto simp: part_ok_def lag_def intro!: exI [of _ "length sent"])

lemma part_ok_closed: "part_ok sent b opn ps \<Longrightarrow> part_ok sent b False ps"
  by (auto simp: part_ok_def)

lemma part_ok_packet:
  assumes "part_ok sent False opn ps" "opn \<Longrightarrow> b"
  shows "part_ok (sent @ [p]) b opn ps"
proof -
  from assms(1) obtain j where "j \<le> length sent" "prefix ps (drop j sent)" "opn \<longrightarrow> ps = drop j sent"
    by (auto simp: part_ok_def lag_def)
  with assms(2) show ?thesis by (auto simp: part_ok_def lag_def prefix_def intro!: exI [of _ j])
qed

lemma part_ok_missed: "part_ok sent True opn ps \<Longrightarrow> part_ok sent False False ps"
proof -
  assume "part_ok sent True opn ps"
  then obtain j where "j \<le> length (lag sent True)" "prefix ps (drop j sent)" by (auto simp: part_ok_def)
  moreover from this(1) have "j \<le> length sent" by (simp add: lag_def)
  ultimately show ?thesis by (auto simp: part_ok_def lag_def)
qed

lemma part_ok_given:
  assumes "part_ok sent True True ps" "sent \<noteq> []"
  shows "part_ok sent False True (ps @ [last sent])"
proof -
  from assms(1) obtain j where j: "j \<le> length (butlast sent)" "ps = drop j (butlast sent)"
    by (auto simp: part_ok_def lag_def)
  have "drop j (butlast sent) @ [last sent] = drop j sent"
    using j(1) assms(2) by (metis append_butlast_last_id drop_append diff_is_0_eq' drop_0)
  with j show ?thesis by (auto simp: part_ok_def lag_def intro!: exI [of _ j])
qed

lemma merged_okE:
  assumes "merged_ok sent b wire w r c"
  obtains W where "\<And>sid. part_ok (sent sid) (b sid) (r \<and> \<not> rv_done c) (of_source sid W)" "prefix wire (concat (map snd W))"
    "r \<longrightarrow> wire = concat w \<and> w @ rv_queue c = map snd W \<and> rv_BytesOut c = int (length wire)" "rv_slow c \<longrightarrow> rv_done c"
  using assms by (auto simp: merged_ok_def)

lemma merged_okI:
  assumes "\<And>sid. part_ok (sent sid) (b sid) (r \<and> \<not> rv_done c) (of_source sid W)" "prefix wire (concat (map snd W))"
    "r \<longrightarrow> wire = concat w \<and> w @ rv_queue c = map snd W \<and> rv_BytesOut c = int (length wire)" "rv_slow c \<longrightarrow> rv_done c"
  shows "merged_ok sent b wire w r c"
  using assms unfolding merged_ok_def by blast

lemma merged_ok_new: "(\<And>sid. \<not> b sid) \<Longrightarrow> merged_ok sent b [] [] True (client_New uid q now)"
  by (rule merged_okI [of _ _ _ _ "[]"]) (simp_all add: client_New_def part_ok_new)

text \<open>A closed rover is given nothing any more, and what it was given stays.\<close>

lemma merged_ok_closed:
  assumes "merged_ok sent b wire w r c" "rv_done c'"
    and "r' \<Longrightarrow> r \<and> rv_queue c' = rv_queue c \<and> rv_BytesOut c' = rv_BytesOut c"
    and "\<And>sid ps. part_ok (sent sid) (b sid) False ps \<Longrightarrow> part_ok (sent' sid) (b' sid) False ps"
  shows "merged_ok sent' b' wire w r' c'"
  using assms(1)
proof (rule merged_okE)
  fix W
  assume "\<And>sid. part_ok (sent sid) (b sid) (r \<and> \<not> rv_done c) (of_source sid W)"
  then have "part_ok (sent' sid) (b' sid) False (of_source sid W)" for sid
    using assms(4) part_ok_closed by blast
  moreover assume "prefix wire (concat (map snd W))"
    "r \<longrightarrow> wire = concat w \<and> w @ rv_queue c = map snd W \<and> rv_BytesOut c = int (length wire)"
  ultimately show ?thesis using assms(2,3) by (intro merged_okI [of _ _ _ _ W]) auto
qed

lemma merged_ok_kick: "merged_ok sent b wire w r c \<Longrightarrow> merged_ok sent b wire w r (KickSlowConsumer c)"
  by (erule merged_ok_closed) (simp_all add: KickSlowConsumer_def)

lemma merged_ok_packet:
  assumes "merged_ok sent b wire w r c" "\<not> b sid" "r \<Longrightarrow> \<not> rv_done c \<Longrightarrow> b'"
  shows "merged_ok (sent(sid := sent sid @ [p])) (b(sid := b')) wire w r c"
  using assms(1)
proof (rule merged_okE)
  fix W
  assume W: "\<And>sid. part_ok (sent sid) (b sid) (r \<and> \<not> rv_done c) (of_source sid W)"
  from W [of sid] assms(2) have "part_ok (sent sid) False (r \<and> \<not> rv_done c) (of_source sid W)" by simp
  from part_ok_packet [OF this] assms(3)
  have "part_ok (sent sid @ [p]) b' (r \<and> \<not> rv_done c) (of_source sid W)" by blast
  moreover assume "prefix wire (concat (map snd W))" "rv_slow c \<longrightarrow> rv_done c"
    "r \<longrightarrow> wire = concat w \<and> w @ rv_queue c = map snd W \<and> rv_BytesOut c = int (length wire)"
  ultimately show ?thesis using W by (intro merged_okI [of _ _ _ _ W]) auto
qed

lemma merged_ok_offered:
  assumes "merged_ok sent b wire w r c" "b sid" "sent sid \<noteq> []" "\<not> rv_done c \<Longrightarrow> r"
  shows "merged_ok sent (b(sid := False)) wire w r (offered (last (sent sid)) c)"
proof (cases "rv_done c \<or> \<not> length (rv_queue c) < rv_queueSize c")
  case True
  let ?c = "offered (last (sent sid)) c"
  from True assms(1) have "rv_done ?c" "rv_queue ?c = rv_queue c" "rv_BytesOut ?c = rv_BytesOut c"
    by (auto simp: offered_def MarkSlowAndKick_def KickSlowConsumer_def merged_ok_def)
  then show ?thesis using assms(2) part_ok_missed by (intro merged_ok_closed [OF assms(1)]) auto
next
  case False
  with assms(4) have r: "r" "\<not> rv_done c" by auto
  from assms(1) obtain W where W: "\<And>i. part_ok (sent i) (b i) (r \<and> \<not> rv_done c) (of_source i W)"
    "prefix wire (concat (map snd W))" "rv_slow c \<longrightarrow> rv_done c"
    "r \<longrightarrow> wire = concat w \<and> w @ rv_queue c = map snd W \<and> rv_BytesOut c = int (length wire)"
    by (rule merged_okE) blast
  have "part_ok (sent sid) False True (of_source sid W @ [last (sent sid)])"
    using part_ok_given W(1) [of sid] assms(2,3) r by simp
  with W r False show ?thesis
    by (intro merged_okI [of _ _ _ _ "W @ [(sid, last (sent sid))]"]) (auto simp: offered_def prefix_def)
qed

lemma merged_ok_write:
  assumes "merged_ok sent b wire w True c" "rv_queue c = p # ps"
  shows "merged_ok sent b (wire @ p) (w @ [p]) True (c\<lparr>rv_queue := ps, rv_BytesOut := rv_BytesOut c + int (length p)\<rparr>)"
  using assms(1)
proof (rule merged_okE)
  fix W
  assume W: "\<And>sid. part_ok (sent sid) (b sid) (True \<and> \<not> rv_done c) (of_source sid W)" "rv_slow c \<longrightarrow> rv_done c"
    "True \<longrightarrow> wire = concat w \<and> w @ rv_queue c = map snd W \<and> rv_BytesOut c = int (length wire)"
  then have "map snd W = (w @ [p]) @ ps" using assms(2) by simp
  then have "prefix (wire @ p) (concat (map snd W))" using W(3) by simp
  with W assms(2) show ?thesis by (intro merged_okI [of _ _ _ _ W]) auto
qed

lemma merged_ok_error:
  assumes "merged_ok sent b wire w True c" "rv_queue c = p # ps" "rv_done c'"
  shows "merged_ok sent b (wire @ take n p) w' False c'"
  using assms(1)
proof (rule merged_okE)
  fix W
  assume W: "\<And>sid. part_ok (sent sid) (b sid) (True \<and> \<not> rv_done c) (of_source sid W)"
    "True \<longrightarrow> wire = concat w \<and> w @ rv_queue c = map snd W \<and> rv_BytesOut c = int (length wire)"
  then have "map snd W = w @ p # ps" using assms(2) by simp
  then have "concat (map snd W) = (wire @ take n p) @ (drop n p @ concat ps)" using W(2) by simp
  then have "prefix (wire @ take n p) (concat (map snd W))" by (metis prefixI)
  moreover have "part_ok (sent sid) (b sid) False (of_source sid W)" for sid by (rule part_ok_closed [OF W(1)])
  ultimately show ?thesis using assms(3) by (intro merged_okI [of _ _ _ _ W]) auto
qed

section \<open>The invariant\<close>

definition ov_todo :: "overlap \<Rightarrow> string \<Rightarrow> string list" where
  "ov_todo s sid = relay_todo (focus sid s)"

definition ov_pending :: "overlap \<Rightarrow> string \<Rightarrow> byte list list" where
  "ov_pending s sid = relay_pending (focus sid s)"

text \<open>
  A source: its thread is in step with its history; the ids of the goroutines are fresh; the mountpoint's source has an
  open connection, and an open connection has a goroutine.
\<close>

definition source_ok :: "overlap \<Rightarrow> string \<Rightarrow> bool" where
  "source_ok s sid \<longleftrightarrow> thread_ok (focus sid s) \<and> frames_ok (focus sid s)
     \<and> (\<forall>th. ov_thread s sid = Some th \<longrightarrow> th_ID th = sid \<and> sid \<in> set (ov_started s))
     \<and> (sid \<notin> set (ov_started s) \<longrightarrow> ov_sent s sid = [] \<and> ov_stream s sid = [])
     \<and> (\<forall>buf. ov_read s sid = Some buf \<longrightarrow>
           length buf \<le> 4096 \<and> (\<exists>th. ov_thread s sid = Some th \<and> th_pending th = [] \<and> th_pkt th = None))
     \<and> (feeds sid s \<longrightarrow> ov_open s sid) \<and> (ov_open s sid \<longrightarrow> ov_thread s sid \<noteq> None)"

definition rovers_ok :: "overlap \<Rightarrow> bool" where
  "rovers_ok s \<longleftrightarrow> (let r = ov_relay s in \<forall>cid \<in> set (rl_joined r).
      merged_ok (ov_sent s) (\<lambda>sid. cid \<in> set (ov_todo s sid)) (rl_wire r cid) (rl_written r cid) (rl_running r cid)
        (mp_heap (rl_mount r) cid)
      \<and> (\<not> rv_done (mp_heap (rl_mount r) cid) \<longrightarrow> cid \<in> set (mp_clients (rl_mount r)) \<and> rl_running r cid))"

definition overlap_ok :: "overlap \<Rightarrow> bool" where
  "overlap_ok s \<longleftrightarrow> registry_ok (ov_relay s) \<and> runs_joined (ov_relay s) \<and> (\<forall>sid. source_ok s sid) \<and> rovers_ok s"

lemma focus_fields [simp]:
  "rl_mount (focus sid s) = rl_mount (ov_relay s)" "rl_live (focus sid s) = ov_thread s sid"
  "rl_joined (focus sid s) = rl_joined (ov_relay s)" "rl_sent (focus sid s) = ov_sent s sid"
  "rl_streams (focus sid s) = [ov_stream s sid]"
  by (simp_all add: focus_def)

lemma put_fields [simp]:
  "ov_relay (put sid t s) = (ov_relay s)\<lparr>rl_mount := rl_mount t\<rparr>" "ov_thread (put sid t s) = (ov_thread s)(sid := rl_live t)"
  "ov_sent (put sid t s) = (ov_sent s)(sid := rl_sent t)" "ov_stream (put sid t s) = (ov_stream s)(sid := last (rl_streams t))"
  "ov_read (put sid t s) = ov_read s" "ov_open (put sid t s) = ov_open s" "ov_started (put sid t s) = ov_started s"
  by (simp_all add: put_def)

lemma todo_cases: "ov_todo s sid = (case ov_thread s sid of None \<Rightarrow> [] | Some th \<Rightarrow> th_todo th)"
  and pending_cases: "ov_pending s sid = (case ov_thread s sid of None \<Rightarrow> [] | Some th \<Rightarrow> th_pending th)"
  by (simp_all add: ov_todo_def ov_pending_def relay_todo_def relay_pending_def split: option.split)

lemma stream_frames_single [simp]: "stream_frames [x] = fst (frames x)"
  by (simp add: stream_frames_def)

lemma thread_ok_focus:
  "thread_ok (focus sid s) \<longleftrightarrow> distinct (ov_todo s sid) \<and> set (ov_todo s sid) \<subseteq> set (rl_joined (ov_relay s))
     \<and> (case ov_thread s sid of None \<Rightarrow> True
        | Some th \<Rightarrow> (th_pkt th = None \<longrightarrow> th_todo th = [])
            \<and> (\<forall>p. th_pkt th = Some p \<longrightarrow> ov_sent s sid \<noteq> [] \<and> last (ov_sent s sid) = p))"
  by (simp add: thread_ok_def ov_todo_def split: option.split)

lemma frames_ok_focus:
  "frames_ok (focus sid s) \<longleftrightarrow> ov_sent s sid @ ov_pending s sid = fst (frames (ov_stream s sid))
     \<and> (case ov_thread s sid of None \<Rightarrow> True
        | Some th \<Rightarrow> resync (fr_buf (th_framer th)) = snd (frames (ov_stream s sid)))"
  by (simp add: frames_ok_def ov_pending_def split: option.split)

lemmas source_ok_defs = source_ok_def thread_ok_focus frames_ok_focus todo_cases pending_cases

text \<open>What a source's state depends on.\<close>

lemma source_ok_cong:
  assumes "source_ok s sid" "ov_thread t sid = ov_thread s sid" "ov_sent t sid = ov_sent s sid" "ov_stream t sid = ov_stream s sid"
    and "ov_read t sid = ov_read s sid" "ov_open t sid = ov_open s sid" "feeds sid t \<Longrightarrow> feeds sid s"
    and "set (rl_joined (ov_relay s)) \<subseteq> set (rl_joined (ov_relay t))" "set (ov_started s) \<subseteq> set (ov_started t)"
  shows "source_ok t sid"
  using assms unfolding source_ok_defs by (auto split: option.splits)

text \<open>The steps of the rovers and of the administration concern the rovers and the mountpoint's source only.\<close>

lemma rovers_ok_kicks:
  assumes "rovers_ok s" "kicks_only K (rl_mount (ov_relay s)) m"
    and "ov_relay t = (ov_relay s)\<lparr>rl_mount := m\<rparr>" "ov_sent t = ov_sent s" "ov_todo t = ov_todo s"
  shows "rovers_ok t"
  using assms(1,2) merged_ok_kick
  unfolding rovers_ok_def Let_def assms(3-5)
  by (auto simp: kicks_only_def KickSlowConsumer_def split: if_splits)

lemma rovers_ok_one:
  assumes ok: "rovers_ok s" and t: "ov_sent t = ov_sent s" "ov_todo t = ov_todo s" "rl_joined (ov_relay t) = rl_joined (ov_relay s)"
    and others: "\<And>i. i \<noteq> cid \<Longrightarrow> mp_heap (rl_mount (ov_relay t)) i = mp_heap (rl_mount (ov_relay s)) i
        \<and> rl_wire (ov_relay t) i = rl_wire (ov_relay s) i \<and> rl_written (ov_relay t) i = rl_written (ov_relay s) i
        \<and> rl_running (ov_relay t) i = rl_running (ov_relay s) i"
      "set (mp_clients (rl_mount (ov_relay s))) - {cid} \<subseteq> set (mp_clients (rl_mount (ov_relay t)))"
    and own: "merged_ok (ov_sent s) (\<lambda>sid. cid \<in> set (ov_todo s sid)) (rl_wire (ov_relay t) cid) (rl_written (ov_relay t) cid)
        (rl_running (ov_relay t) cid) (mp_heap (rl_mount (ov_relay t)) cid)"
      "\<not> rv_done (mp_heap (rl_mount (ov_relay t)) cid) \<Longrightarrow> cid \<in> set (mp_clients (rl_mount (ov_relay t))) \<and> rl_running (ov_relay t) cid"
  shows "rovers_ok t"
  unfolding rovers_ok_def Let_def
proof (intro ballI)
  fix i assume "i \<in> set (rl_joined (ov_relay t))"
  then show "merged_ok (ov_sent t) (\<lambda>sid. i \<in> set (ov_todo t sid)) (rl_wire (ov_relay t) i) (rl_written (ov_relay t) i)
      (rl_running (ov_relay t) i) (mp_heap (rl_mount (ov_relay t)) i)
    \<and> (\<not> rv_done (mp_heap (rl_mount (ov_relay t)) i) \<longrightarrow> i \<in> set (mp_clients (rl_mount (ov_relay t))) \<and> rl_running (ov_relay t) i)"
    using ok others(1) [of i] others(2) own t by (cases "i = cid") (auto simp: rovers_ok_def Let_def)
qed

lemma rover_of:
  assumes "rovers_ok s" "cid \<in> set (rl_joined (ov_relay s))"
  shows "merged_ok (ov_sent s) (\<lambda>sid. cid \<in> set (ov_todo s sid)) (rl_wire (ov_relay s) cid) (rl_written (ov_relay s) cid)
      (rl_running (ov_relay s) cid) (mp_heap (rl_mount (ov_relay s)) cid)"
    "\<not> rv_done (mp_heap (rl_mount (ov_relay s)) cid) \<Longrightarrow> cid \<in> set (mp_clients (rl_mount (ov_relay s))) \<and> rl_running (ov_relay s) cid"
  using assms by (auto simp: rovers_ok_def Let_def)

section \<open>Every step keeps it\<close>

lemma registry_ok_mount:
  assumes "registry_ok r" "mount_ok m" "set (mp_clients m) \<subseteq> set (mp_clients (rl_mount r))"
  shows "registry_ok (r\<lparr>rl_mount := m\<rparr>)"
  using assms by (auto simp: registry_ok_def)

text \<open>A step of one source, seen from the others.\<close>

lemma source_step_ok:
  assumes ok: "overlap_ok s"
    and t: "ov_relay t = (ov_relay s)\<lparr>rl_mount := m\<rparr>" "set (ov_started s) \<subseteq> set (ov_started t)"
      "\<And>i. i \<noteq> sid \<Longrightarrow> ov_thread t i = ov_thread s i \<and> ov_sent t i = ov_sent s i \<and> ov_stream t i = ov_stream s i
          \<and> ov_read t i = ov_read s i \<and> ov_open t i = ov_open s i \<and> (feeds i t \<longrightarrow> feeds i s)"
    and m: "mount_ok m" "set (mp_clients m) \<subseteq> set (mp_clients (rl_mount (ov_relay s)))"
    and own: "source_ok t sid" and rovers: "rovers_ok t"
  shows "overlap_ok t"
proof -
  have "source_ok t i" for i
  proof (cases "i = sid")
    case False
    then show ?thesis
      using ok t by (intro source_ok_cong [of s i t]) (simp_all add: overlap_ok_def)
  qed (use own in simp)
  moreover have "registry_ok (ov_relay t)" "runs_joined (ov_relay t)"
    using ok m registry_ok_mount by (auto simp: overlap_ok_def t runs_joined_def)
  ultimately show ?thesis using rovers by (simp add: overlap_ok_def)
qed

lemma overlap_parts:
  assumes "overlap_ok s"
  shows "source_ok s sid" "rovers_ok s" "mount_ok (rl_mount (ov_relay s))" "registry_ok (ov_relay s)"
  using assms by (auto simp: overlap_ok_def registry_ok_def)

lemma ov_start_ok:
  assumes ok: "overlap_ok s" and step: "ov_start cv sid uid now s = Some t"
  shows "overlap_ok t"
proof -
  from step obtain m where fresh: "sid \<notin> set (ov_started s)" "ov_thread s sid = None"
    and m: "source_New sid uid now (rl_mount (ov_relay s)) = Some m"
    and t: "t = s\<lparr>ov_relay := (ov_relay s)\<lparr>rl_mount := m\<rparr>,
        ov_thread := (ov_thread s)(sid := Some \<lparr>th_ID = sid, th_framer = \<lparr>fr_buf = []\<rparr>, th_pending = [], th_pkt = None, th_todo = []\<rparr>),
        ov_sent := ov_sent s, ov_stream := (ov_stream s)(sid := []), ov_open := (ov_open s)(sid := True),
        ov_started := ov_started s @ [sid]\<rparr>"
    by (auto simp: ov_start_def own_step_def src_start_def put_def split: if_splits)
  have f: "mp_heap m = mp_heap (rl_mount (ov_relay s))" "mp_clients m = mp_clients (rl_mount (ov_relay s))"
    "mp_source m = Some \<lparr>so_ID = sid, so_UserID = uid, so_BytesIn = 0, so_StartTime = now\<rparr>" "mount_ok m"
    using m overlap_parts(3) [OF ok] by (auto simp: source_New_def SetSource_def set_online_def mount_ok_def split: if_splits)
  note old = overlap_parts(1) [OF ok, of sid]
  have todo: "ov_todo t = ov_todo s" using fresh by (auto simp: fun_eq_iff todo_cases t)
  have "source_ok t sid"
    using old fresh by (auto simp: source_ok_defs t)
  moreover have "rovers_ok t"
    by (rule rovers_ok_kicks [OF overlap_parts(2) [OF ok], of "{}" m]) (simp_all add: kicks_only_def f todo, simp_all add: t)
  ultimately show ?thesis
    using ok f by (intro source_step_ok [OF ok, of t m sid]) (auto simp: t feeds_def)
qed

lemma ov_receive_ok:
  assumes ok: "overlap_ok s" and step: "ov_receive sid buf s = Some t"
  shows "overlap_ok t"
proof -
  from step have loop: "at_loop sid s" "length buf \<le> 4096" and t: "t = s\<lparr>ov_read := (ov_read s)(sid := Some buf)\<rparr>"
    by (auto simp: ov_receive_def split: if_splits)
  have todo: "ov_todo t = ov_todo s" by (auto simp: fun_eq_iff todo_cases t)
  have "source_ok t sid"
    using overlap_parts(1) [OF ok, of sid] loop
    by (auto simp: source_ok_defs t at_loop_def feeds_def split: option.splits)
  moreover have "rovers_ok t"
    using overlap_parts(2) [OF ok] by (simp add: rovers_ok_def todo) (simp add: t)
  ultimately show ?thesis
    using overlap_parts(3) [OF ok] by (intro source_step_ok [OF ok, of t "rl_mount (ov_relay s)" sid]) (auto simp: t feeds_def)
qed

lemma ov_stop_ok:
  assumes ok: "overlap_ok s" and step: "ov_stop sid s = Some t"
  shows "overlap_ok t"
proof -
  from step have off: "\<not> feeds sid s" and t: "t = s\<lparr>ov_open := (ov_open s)(sid := False)\<rparr>"
    by (auto simp: ov_stop_def split: if_splits)
  have todo: "ov_todo t = ov_todo s" by (auto simp: fun_eq_iff todo_cases t)
  have "source_ok t sid"
    using overlap_parts(1) [OF ok, of sid] off by (auto simp: source_ok_defs t feeds_def split: option.splits)
  moreover have "rovers_ok t"
    using overlap_parts(2) [OF ok] by (simp add: rovers_ok_def todo) (simp add: t)
  ultimately show ?thesis
    using overlap_parts(3) [OF ok] by (intro source_step_ok [OF ok, of t "rl_mount (ov_relay s)" sid]) (auto simp: t feeds_def)
qed

lemma ov_push_ok:
  assumes ok: "overlap_ok s" and step: "ov_push cv sid s = Some t"
  shows "overlap_ok t"
proof -
  from step obtain buf u where rd: "ov_read s sid = Some buf" and u: "src_read buf (focus sid s) = Some u"
    and t: "t = put sid u (s\<lparr>ov_read := (ov_read s)(sid := None)\<rparr>)"
    by (auto simp: ov_push_def own_step_def focus_def split: option.splits)
  note old = overlap_parts(1) [OF ok, of sid]
  from u obtain th th' where th: "ov_thread s sid = Some th" "th_pending th = []" "th_pkt th = None"
    and u': "rl_mount u = count_bytes_in (th_ID th) (length buf) (rl_mount (ov_relay s))" "rl_live u = Some th'"
      "th_ID th' = th_ID th" "th_pkt th' = None" "th_todo th' = th_todo th" "rl_sent u = ov_sent s sid" "rl_streams u = [ov_stream s sid @ buf]"
    by (auto simp: src_read_def split_beta Let_def split: option.splits if_splits)
  have m: "mount_ok (rl_mount u)" "mp_heap (rl_mount u) = mp_heap (rl_mount (ov_relay s))"
    "mp_clients (rl_mount u) = mp_clients (rl_mount (ov_relay s))"
    using overlap_parts(3) [OF ok] mount_ok_stats(1) by (simp_all add: u')
  have fd: "feeds i t = feeds i s" for i
    by (auto simp: t feeds_def u' count_bytes_in_def split: option.splits)
  have "frames_ok u" using src_read_frames [OF _ u] old by (simp add: source_ok_def)
  then have "frames_ok (focus sid t)"
    by (simp add: frames_ok_def t relay_pending_def u')
  moreover have "thread_ok (focus sid t)"
    using old th by (simp add: source_ok_def thread_ok_focus todo_cases t u')
  ultimately have "source_ok t sid"
    using old th by (auto simp: source_ok_def fd) (auto simp: t u')
  moreover have "ov_todo t = ov_todo s" using th by (auto simp: fun_eq_iff todo_cases t u')
  then have "rovers_ok t"
    by (intro rovers_ok_kicks [OF overlap_parts(2) [OF ok], of "{}" "rl_mount u"]) (simp_all add: kicks_only_def m, simp_all add: t u')
  ultimately show ?thesis
    using m by (intro source_step_ok [OF ok, of t "rl_mount u" sid]) (auto simp: fd, auto simp: t u')
qed

lemma ov_packet_ok:
  assumes ok: "overlap_ok s" and step: "own_step cv sid (E_packet now) s = Some t"
  shows "overlap_ok t"
proof -
  from step obtain th p ps where th: "ov_thread s sid = Some th" "th_pending th = p # ps" "th_pkt th = None"
    and t: "t = put sid ((focus sid s)\<lparr>rl_mount := on_1005 cv now p (rl_mount (ov_relay s)),
        rl_live := Some (th\<lparr>th_pending := ps, th_pkt := Some p, th_todo := mp_snapshot (on_1005 cv now p (rl_mount (ov_relay s)))\<rparr>),
        rl_sent := ov_sent s sid @ [p]\<rparr>) s"
    by (auto simp: own_step_def src_packet_def Let_def split: option.splits list.splits)
  note old = overlap_parts(1) [OF ok, of sid] and reg = overlap_parts(4) [OF ok]
  have m: "mount_ok (on_1005 cv now p (rl_mount (ov_relay s)))" using overlap_parts(3) [OF ok] mount_ok_stats(3) by simp
  then have snap: "mp_snapshot (on_1005 cv now p (rl_mount (ov_relay s))) = mp_clients (rl_mount (ov_relay s))"
    "distinct (mp_clients (rl_mount (ov_relay s)))"
    by (auto simp: mount_ok_def)
  have src: "mp_source (on_1005 cv now p m') = mp_source m'" for m'
    by (auto simp: on_1005_def UpdateAntennaPosition_def split: decoded.split)
  have fd: "feeds i t = feeds i s" for i by (simp add: t feeds_def src)
  have todo: "ov_todo t = (ov_todo s)(sid := mp_clients (rl_mount (ov_relay s)))"
    by (auto simp: fun_eq_iff todo_cases t snap)
  have none: "ov_todo s sid = []" using old th by (simp add: source_ok_defs)
  have "rovers_ok t"
    unfolding rovers_ok_def Let_def
  proof (intro ballI conjI)
    let ?r = "ov_relay s"
    fix cid assume "cid \<in> set (rl_joined (ov_relay t))"
    then have "cid \<in> set (rl_joined ?r)" by (simp add: t)
    note c = rover_of [OF overlap_parts(2) [OF ok] this]
    have "merged_ok ((ov_sent s)(sid := ov_sent s sid @ [p])) ((\<lambda>i. cid \<in> set (ov_todo s i))(sid := cid \<in> set (mp_clients (rl_mount ?r))))
        (rl_wire ?r cid) (rl_written ?r cid) (rl_running ?r cid) (mp_heap (rl_mount ?r) cid)"
      by (rule merged_ok_packet [OF c(1)]) (use none c(2) in auto)
    moreover have "(\<lambda>i. cid \<in> set (ov_todo t i)) = (\<lambda>i. cid \<in> set (ov_todo s i))(sid := cid \<in> set (mp_clients (rl_mount ?r)))"
      by (auto simp: fun_eq_iff todo)
    ultimately show "merged_ok (ov_sent t) (\<lambda>i. cid \<in> set (ov_todo t i)) (rl_wire (ov_relay t) cid) (rl_written (ov_relay t) cid)
        (rl_running (ov_relay t) cid) (mp_heap (rl_mount (ov_relay t)) cid)"
      by (simp add: t)
    show "\<not> rv_done (mp_heap (rl_mount (ov_relay t)) cid) \<longrightarrow> cid \<in> set (mp_clients (rl_mount (ov_relay t))) \<and> rl_running (ov_relay t) cid"
      using c(2) by (simp add: t)
  qed
  moreover have "source_ok t sid"
    using old th(1,2) reg snap(2) unfolding source_ok_defs fd by (simp add: t snap(1) registry_ok_def)
  ultimately show ?thesis
    using m by (intro source_step_ok [OF ok, of t "rl_mount (ov_relay t)" sid]) (auto simp: fd, auto simp: t)
qed

lemma ov_give_ok:
  assumes ok: "overlap_ok s" and th: "ov_thread s sid = Some th" "th_pkt th = Some p" "th_todo th = i # is"
    and t: "t = put sid ((focus sid s)\<lparr>rl_mount := broadcast_one p i (rl_mount (ov_relay s)), rl_live := Some (th\<lparr>th_todo := is\<rparr>)\<rparr>) s"
  shows "overlap_ok t"
proof -
  note old = overlap_parts(1) [OF ok, of sid] and m = overlap_parts(3) [OF ok]
  let ?r = "ov_relay s" and ?r' = "ov_relay t"
  from old th have last: "ov_sent s sid \<noteq> []" "last (ov_sent s sid) = p" and i: "i \<notin> set is" "i \<in> set (rl_joined ?r)"
    by (auto simp: source_ok_defs)
  have fd: "feeds j t = feeds j s" for j by (simp add: t feeds_def broadcast_one_fields)
  have todo: "ov_todo t = (ov_todo s)(sid := is)" "ov_todo s sid = i # is"
    using th by (auto simp: fun_eq_iff todo_cases t)
  have "rovers_ok t"
    unfolding rovers_ok_def Let_def
  proof (intro ballI conjI)
    fix cid assume "cid \<in> set (rl_joined ?r')"
    then have "cid \<in> set (rl_joined ?r)" by (simp add: t)
    note c = rover_of [OF overlap_parts(2) [OF ok] this]
    show "merged_ok (ov_sent t) (\<lambda>j. cid \<in> set (ov_todo t j)) (rl_wire ?r' cid) (rl_written ?r' cid) (rl_running ?r' cid) (mp_heap (rl_mount ?r') cid)"
    proof (cases "cid = i")
      case True
      have "merged_ok (ov_sent s) ((\<lambda>j. cid \<in> set (ov_todo s j))(sid := False)) (rl_wire ?r cid) (rl_written ?r cid) (rl_running ?r cid)
          (offered (last (ov_sent s sid)) (mp_heap (rl_mount ?r) cid))"
        by (rule merged_ok_offered [OF c(1)]) (use c(2) last True todo in auto)
      moreover have "(\<lambda>j. cid \<in> set (ov_todo t j)) = (\<lambda>j. cid \<in> set (ov_todo s j))(sid := False)"
        using i True by (auto simp: fun_eq_iff todo)
      ultimately show ?thesis using last True by (simp add: t broadcast_one_heap)
    next
      case False
      then have "(\<lambda>j. cid \<in> set (ov_todo t j)) = (\<lambda>j. cid \<in> set (ov_todo s j))" by (auto simp: fun_eq_iff todo)
      with c(1) False show ?thesis by (simp add: t broadcast_one_heap)
    qed
    show "\<not> rv_done (mp_heap (rl_mount ?r') cid) \<longrightarrow> cid \<in> set (mp_clients (rl_mount ?r')) \<and> rl_running ?r' cid"
      using c(2) offered_done by (auto simp: t broadcast_one_heap broadcast_one_fields)
  qed
  moreover have "source_ok t sid"
    using old th by (auto simp: source_ok_defs fd) (auto simp: t)
  ultimately show ?thesis
    using m by (intro source_step_ok [OF ok, of t "rl_mount (ov_relay t)" sid]) (auto simp: fd, auto simp: t broadcast_one_ok broadcast_one_fields)
qed

lemma ov_send_ok:
  assumes ok: "overlap_ok s" and step: "own_step cv sid E_send s = Some t"
  shows "overlap_ok t"
proof -
  from step obtain th p where th: "ov_thread s sid = Some th" "th_pkt th = Some p"
    by (auto simp: own_step_def src_send_def split: option.splits list.splits)
  show ?thesis
  proof (cases "th_todo th")
    case (Cons i "is")
    with step th show ?thesis
      by (intro ov_give_ok [OF ok th Cons]) (auto simp: own_step_def src_send_def)
  next
    case Nil
    with step th have t: "t = put sid ((focus sid s)\<lparr>rl_mount := addBytesOut p (rl_mount (ov_relay s)), rl_live := Some (th\<lparr>th_pkt := None\<rparr>)\<rparr>) s"
      by (auto simp: own_step_def src_send_def)
    note old = overlap_parts(1) [OF ok, of sid]
    have m: "mount_ok (addBytesOut p (rl_mount (ov_relay s)))" using overlap_parts(3) [OF ok] mount_ok_stats(2) by simp
    have fd: "feeds i t = feeds i s" for i by (simp add: t feeds_def addBytesOut_def)
    have todo: "ov_todo t = ov_todo s" using th by (auto simp: fun_eq_iff todo_cases t)
    have "rovers_ok t"
      by (intro rovers_ok_kicks [OF overlap_parts(2) [OF ok], of "{}" "rl_mount (ov_relay t)"])
        (auto simp: kicks_only_def todo, auto simp: t)
    moreover have "source_ok t sid"
      using old th Nil by (auto simp: source_ok_defs fd) (auto simp: t)
    ultimately show ?thesis
      using m by (intro source_step_ok [OF ok, of t "rl_mount (ov_relay t)" sid]) (auto simp: fd, auto simp: t)
  qed
qed

lemma ClearSource_feeds:
  "ov_relay t = (ov_relay s)\<lparr>rl_mount := ClearSource sid (rl_mount (ov_relay s))\<rparr> \<Longrightarrow> feeds i t \<longleftrightarrow> feeds i s \<and> i \<noteq> sid"
  by (auto simp: feeds_def ClearSource_def kick_all_def set_online_def split: option.splits)

lemma ov_end_ok:
  assumes ok: "overlap_ok s" and step: "ov_end cv sid s = Some t"
  shows "overlap_ok t"
proof -
  note old = overlap_parts(1) [OF ok, of sid]
  from step old obtain th where th: "ov_thread s sid = Some th" "th_pending th = []" "th_pkt th = None" "ov_read s sid = None"
    and t: "t = (put sid ((focus sid s)\<lparr>rl_mount := ClearSource sid (rl_mount (ov_relay s)), rl_live := None\<rparr>) s)
        \<lparr>ov_open := (ov_open s)(sid := False)\<rparr>"
    by (auto simp: ov_end_def at_loop_def own_step_def src_end_def source_ok_def split: option.splits if_splits)
  have fd: "feeds i t \<longleftrightarrow> feeds i s \<and> i \<noteq> sid" for i by (rule ClearSource_feeds) (simp add: t)
  obtain K where K: "kicks_only K (rl_mount (ov_relay s)) (ClearSource sid (rl_mount (ov_relay s)))" using ClearSource_kicks by blast
  have m: "mount_ok (ClearSource sid (rl_mount (ov_relay s)))"
    using overlap_parts(3) [OF ok] mount_ok_step [of "rl_mount (ov_relay s)" "O_ClearSource sid"] by simp
  have todo: "ov_todo t = ov_todo s" using th old by (auto simp: fun_eq_iff todo_cases t source_ok_def thread_ok_focus)
  have "rovers_ok t"
    by (rule rovers_ok_kicks [OF overlap_parts(2) [OF ok] K]) (auto simp: todo, auto simp: t)
  moreover have "source_ok t sid"
    using old th by (auto simp: source_ok_defs fd) (auto simp: t)
  ultimately show ?thesis
    using m K by (intro source_step_ok [OF ok, of t "rl_mount (ov_relay t)" sid]) (auto simp: fd, auto simp: t kicks_only_def)
qed

text \<open>A step of a rover or from outside.\<close>

lemma rover_step_ok:
  assumes ok: "overlap_ok s" and t: "t = s\<lparr>ov_relay := r\<rparr>"
    and reg: "registry_ok r" "runs_joined r" "set (rl_joined (ov_relay s)) \<subseteq> set (rl_joined r)"
    and src: "mp_source (rl_mount r) = mp_source (rl_mount (ov_relay s)) \<or> mp_source (rl_mount r) = None"
    and rovers: "rovers_ok t"
  shows "overlap_ok t"
proof -
  have "feeds i t \<Longrightarrow> feeds i s" for i using src by (elim disjE) (simp_all add: feeds_def t)
  then have "source_ok t i" for i
    using ok reg(3) by (intro source_ok_cong [of s i t]) (simp_all add: overlap_ok_def t)
  with reg rovers show ?thesis by (simp add: overlap_ok_def t)
qed

lemma todo_rover [simp]: "ov_todo (s\<lparr>ov_relay := r\<rparr>) = ov_todo s"
  by (auto simp: fun_eq_iff todo_cases)

lemma outside_source:
  "from_outside op \<Longrightarrow> mp_source (mount_step op m) = mp_source m \<or> mp_source (mount_step op m) = None"
  by (cases op) (auto simp: mount_op_defs Let_def split: option.splits)

lemma RemoveClient_source [simp]: "mp_source (RemoveClient i m) = mp_source m"
  by (simp add: RemoveClient_def unregister_def count_clients_def rebuildSnapshotLocked_def)

lemma ov_outside_ok:
  assumes ok: "overlap_ok s" and op: "from_outside op"
  shows "overlap_ok (s\<lparr>ov_relay := (ov_relay s)\<lparr>rl_mount := mount_step op (rl_mount (ov_relay s))\<rparr>\<rparr>)"
proof -
  obtain K where K: "kicks_only K (rl_mount (ov_relay s)) (mount_step op (rl_mount (ov_relay s)))"
    using outside_kicks [OF op] by blast
  have m: "mount_ok (mount_step op (rl_mount (ov_relay s)))"
    using overlap_parts(3) [OF ok] by (rule mount_ok_step)
  show ?thesis
    by (rule rover_step_ok [OF ok refl])
      (use ok op K m outside_source registry_ok_mount rovers_ok_kicks [OF overlap_parts(2) [OF ok] K] in
        \<open>auto simp: overlap_ok_def runs_joined_def kicks_only_def\<close>)
qed

lemma ov_join_ok:
  assumes ok: "overlap_ok s" and step: "cl_join cid (client_New uid q now) (ov_relay s) = Some r"
  shows "overlap_ok (s\<lparr>ov_relay := r\<rparr>)"
proof -
  let ?c = "client_New uid q now" and ?r = "ov_relay s"
  from step obtain m where fresh: "cid \<notin> set (rl_joined ?r)" and m: "AddClient cid ?c (rl_mount ?r) = Some m"
    and r: "r = ?r\<lparr>rl_mount := m, rl_running := (rl_running ?r)(cid := True), rl_wire := (rl_wire ?r)(cid := []),
        rl_written := (rl_written ?r)(cid := []), rl_joined := rl_joined ?r @ [cid]\<rparr>"
    by (auto simp: cl_join_def split: if_splits)
  have new: "cid \<notin> set (mp_clients (rl_mount ?r))" "cid \<notin> set (ov_todo s i)" for i
    using fresh overlap_parts(4) [OF ok] overlap_parts(1) [OF ok, of i] by (auto simp: registry_ok_def source_ok_def thread_ok_focus)
  have "mount_ok m" using overlap_parts(3) [OF ok] mount_ok_step [of "rl_mount ?r" "O_AddClient cid ?c"] m by simp
  moreover have mf: "mp_clients m = mp_clients (rl_mount ?r) @ [cid]" "mp_heap m = (mp_heap (rl_mount ?r))(cid := ?c)"
    "mp_source m = mp_source (rl_mount ?r)"
    using m new by (auto simp: AddClient_def count_clients_def rebuildSnapshotLocked_def split: if_splits)
  ultimately have "registry_ok r" using overlap_parts(4) [OF ok] by (auto simp: registry_ok_def r)
  moreover have "rovers_ok (s\<lparr>ov_relay := r\<rparr>)"
    using overlap_parts(2) [OF ok] new fresh merged_ok_new
    by (auto simp: rovers_ok_def Let_def r mf)
  ultimately show ?thesis
    using ok by (intro rover_step_ok [OF ok refl]) (auto simp: overlap_ok_def runs_joined_def r mf)
qed

lemma ov_one_ok:
  assumes ok: "overlap_ok s"
    and r: "rl_joined r = rl_joined (ov_relay s)" "mp_source (rl_mount r) = mp_source (rl_mount (ov_relay s))"
    and others: "\<And>i. i \<noteq> cid \<Longrightarrow> mp_heap (rl_mount r) i = mp_heap (rl_mount (ov_relay s)) i \<and> rl_wire r i = rl_wire (ov_relay s) i
        \<and> rl_written r i = rl_written (ov_relay s) i \<and> rl_running r i = rl_running (ov_relay s) i"
    and reg: "mount_ok (rl_mount r)" "set (mp_clients (rl_mount r)) \<subseteq> set (mp_clients (rl_mount (ov_relay s)))"
      "set (mp_clients (rl_mount (ov_relay s))) - {cid} \<subseteq> set (mp_clients (rl_mount r))"
      "cid \<in> set (mp_clients (rl_mount r)) \<Longrightarrow> rl_running r cid" "rl_running r cid \<Longrightarrow> rl_running (ov_relay s) cid"
    and own: "merged_ok (ov_sent s) (\<lambda>sid. cid \<in> set (ov_todo s sid)) (rl_wire r cid) (rl_written r cid) (rl_running r cid)
        (mp_heap (rl_mount r) cid)"
      "\<not> rv_done (mp_heap (rl_mount r) cid) \<Longrightarrow> cid \<in> set (mp_clients (rl_mount r)) \<and> rl_running r cid"
  shows "overlap_ok (s\<lparr>ov_relay := r\<rparr>)"
proof -
  have run: "rl_running r i" if "i \<in> set (mp_clients (rl_mount r))" for i
    using that others [of i] reg overlap_parts(4) [OF ok] by (cases "i = cid") (auto simp: registry_ok_def)
  have "registry_ok r" using overlap_parts(4) [OF ok] reg run by (auto simp: registry_ok_def r)
  moreover have "rl_running r i \<Longrightarrow> rl_running (ov_relay s) i" for i
    using others [of i] reg(5) by (cases "i = cid") auto
  then have "runs_joined r" using ok by (auto simp: overlap_ok_def runs_joined_def r)
  moreover have "rovers_ok (s\<lparr>ov_relay := r\<rparr>)"
    by (rule rovers_ok_one [OF overlap_parts(2) [OF ok], of _ cid]) (use r others reg own in auto)
  ultimately show ?thesis using r by (intro rover_step_ok [OF ok refl]) auto
qed

lemma ov_client_ok:
  assumes ok: "overlap_ok s" and step: "relay_step cv e (ov_relay s) = Some r" and e: "loop_event cid e \<or> e = E_hangup cid"
  shows "overlap_ok (s\<lparr>ov_relay := r\<rparr>)"
proof -
  have joined: "cid \<in> set (rl_joined (ov_relay s))"
    using ok step e by (cases e) (auto simp: overlap_ok_def runs_joined_def cl_write_def cl_write_error_def cl_leave_def cl_hangup_def
      split: list.splits if_splits)
  note c = rover_of [OF overlap_parts(2) [OF ok] joined] and m = overlap_parts(3) [OF ok] and reg = overlap_parts(4) [OF ok]
  show ?thesis
  proof (cases e)
    case (E_write i)
    with e step obtain p ps where q: "rv_queue (mp_heap (rl_mount (ov_relay s)) cid) = p # ps" and run: "rl_running (ov_relay s) cid"
      and r: "r = (ov_relay s)\<lparr>rl_mount := upd_client cid (\<lambda>c. c\<lparr>rv_queue := ps, rv_BytesOut := rv_BytesOut c + int (length p)\<rparr>) (rl_mount (ov_relay s)),
          rl_wire := (rl_wire (ov_relay s))(cid := rl_wire (ov_relay s) cid @ p), rl_written := (rl_written (ov_relay s))(cid := rl_written (ov_relay s) cid @ [p])\<rparr>"
      by (auto simp: cl_write_def split: list.splits if_splits)
    show ?thesis
      by (rule ov_one_ok [OF ok, of r cid])
        (use m c(2) run merged_ok_write [OF c(1) [unfolded run [THEN eqTrueI]] q] in \<open>auto simp: r\<close>)
  next
    case (E_write_error i n)
    let ?f = "\<lambda>ps c. KickSlowConsumer (c\<lparr>rv_queue := ps\<rparr>)"
    from E_write_error e step obtain p ps where q: "rv_queue (mp_heap (rl_mount (ov_relay s)) cid) = p # ps" and run: "rl_running (ov_relay s) cid"
      and r: "r = (ov_relay s)\<lparr>rl_mount := RemoveClient cid (upd_client cid (?f ps) (rl_mount (ov_relay s))),
          rl_running := (rl_running (ov_relay s))(cid := False), rl_wire := (rl_wire (ov_relay s))(cid := rl_wire (ov_relay s) cid @ take n p)\<rparr>"
      by (auto simp: cl_write_error_def split: list.splits if_splits)
    have m': "mount_ok (upd_client cid (?f ps) (rl_mount (ov_relay s)))" using m by simp
    show ?thesis
      by (rule ov_one_ok [OF ok, of r cid])
        (use merged_ok_error [OF c(1) [unfolded run [THEN eqTrueI]] q] RemoveClient_fields [OF m'] in
          \<open>auto simp: r KickSlowConsumer_def\<close>)
  next
    case (E_leave i)
    with e step have don: "rv_done (mp_heap (rl_mount (ov_relay s)) cid)"
      and r: "r = (ov_relay s)\<lparr>rl_mount := RemoveClient cid (rl_mount (ov_relay s)), rl_running := (rl_running (ov_relay s))(cid := False)\<rparr>"
      by (auto simp: cl_leave_def split: if_splits)
    show ?thesis
      by (rule ov_one_ok [OF ok, of r cid])
        (use merged_ok_closed [OF c(1) don, of False] don RemoveClient_fields [OF m] in \<open>auto simp: r\<close>)
  next
    case (E_hangup i)
    with e step have r: "r = (ov_relay s)\<lparr>rl_mount := upd_client cid KickSlowConsumer (rl_mount (ov_relay s))\<rparr>"
      by (auto simp: cl_hangup_def split: if_splits)
    show ?thesis
      by (rule ov_one_ok [OF ok, of r cid])
        (use m reg merged_ok_kick [OF c(1)] in \<open>auto simp: r KickSlowConsumer_def registry_ok_def\<close>)
  qed (use e in auto)
qed

lemma ov_rover_ok:
  assumes ok: "overlap_ok s" and step: "ov_rover cv e s = Some t"
  shows "overlap_ok t"
proof -
  from step obtain r where r: "relay_step cv e (ov_relay s) = Some r" "t = s\<lparr>ov_relay := r\<rparr>" and e: "rover_event e"
    by (auto simp: ov_rover_def split: if_splits)
  show ?thesis
  proof (cases e)
    case (E_join i u q n)
    with r ov_join_ok [OF ok] show ?thesis by simp
  next
    case (E_outside op)
    with r ov_outside_ok [OF ok] show ?thesis by (auto split: if_splits)
  qed (use e r ov_client_ok [OF ok r(1)] in auto)
qed

lemma overlap_step_ok: "overlap_ok s \<Longrightarrow> overlap_step cv e s = Some t \<Longrightarrow> overlap_ok t"
  by (cases e)
    (auto dest: ov_start_ok ov_receive_ok ov_push_ok ov_packet_ok ov_send_ok ov_end_ok ov_stop_ok ov_rover_ok)

lemma overlap_run_ok: "overlap_run cv s es t \<Longrightarrow> overlap_ok s \<Longrightarrow> overlap_ok t"
  by (induction rule: overlap_run.induct) (auto dest: overlap_step_ok)

lemma overlap_start_ok:
  assumes "mount_ok m" "mp_clients m = []" "mp_source m = None"
  shows "overlap_ok (overlap_start m)"
  using assms
  by (simp add: overlap_ok_def overlap_start_def relay_start_def registry_ok_def runs_joined_def rovers_ok_def source_ok_defs feeds_def)

lemma overlap_reachable:
  assumes "overlap_run cv (overlap_start m) es s" "mount_ok m" "mp_clients m = []" "mp_source m = None"
  shows "overlap_ok s"
  using overlap_run_ok [OF assms(1) overlap_start_ok [OF assms(2-4)]] .

section \<open>A source that was taken off\<close>

text \<open>All that the source has to send: its stream with the read that is not handled yet.\<close>

definition read_so_far :: "string \<Rightarrow> overlap \<Rightarrow> byte list" where
  "read_so_far sid s = ov_stream s sid @ (case ov_read s sid of None \<Rightarrow> [] | Some buf \<Rightarrow> buf)"

definition is_stale :: "string \<Rightarrow> overlap \<Rightarrow> bool" where
  "is_stale sid s \<longleftrightarrow> sid \<in> set (ov_started s) \<and> \<not> ov_open s sid"

lemma frames_prefix: "prefix (fst (frames a)) (fst (frames (a @ b)))"
  using frames_append [of a b] by simp

lemma own_step_fields:
  "own_step cv sid e s = Some t \<Longrightarrow> ov_open t = ov_open s \<and> ov_read t = ov_read s \<and> ov_started t = ov_started s
     \<and> (i \<noteq> sid \<longrightarrow> ov_stream t i = ov_stream s i)"
  by (auto simp: own_step_def)

lemma stale_step:
  assumes "overlap_step cv e s = Some t" "is_stale sid s"
  shows "is_stale sid t \<and> read_so_far sid t = read_so_far sid s"
proof (cases e)
  case (V_start i u n)
  with assms show ?thesis
    by (auto simp: ov_start_def is_stale_def read_so_far_def dest!: own_step_fields [of _ _ _ _ _ sid] split: if_splits)
next
  case (V_receive i b)
  with assms show ?thesis by (auto simp: ov_receive_def is_stale_def read_so_far_def split: if_splits)
next
  case (V_push i)
  with assms show ?thesis
    by (cases "i = sid")
      (auto simp: ov_push_def own_step_def src_read_def split_beta Let_def is_stale_def read_so_far_def split: option.splits if_splits)
next
  case (V_packet i n)
  with assms show ?thesis
    by (cases "i = sid") (auto simp: own_step_def src_packet_def Let_def is_stale_def read_so_far_def split: option.splits list.splits)
next
  case (V_send i)
  with assms show ?thesis
    by (cases "i = sid") (auto simp: own_step_def src_send_def is_stale_def read_so_far_def split: option.splits list.splits)
next
  case (V_end i)
  with assms show ?thesis
    by (cases "i = sid") (auto simp: ov_end_def own_step_def src_end_def is_stale_def read_so_far_def split: option.splits if_splits)
qed (use assms in \<open>auto simp: ov_stop_def ov_rover_def is_stale_def read_so_far_def split: if_splits\<close>)

lemma stale_run:
  "overlap_run cv s es t \<Longrightarrow> is_stale sid s \<Longrightarrow> is_stale sid t \<and> read_so_far sid t = read_so_far sid s"
  by (induction rule: overlap_run.induct) (auto dest: stale_step)

lemma sent_frames: "overlap_ok s \<Longrightarrow> ov_sent s sid @ ov_pending s sid = fst (frames (ov_stream s sid))"
  using overlap_parts(1) [of s sid] by (simp add: source_ok_def frames_ok_focus)

text \<open>A goroutine is never stuck: one of its steps is possible, whatever the others do.\<close>

fun own_event :: "string \<Rightarrow> overlap_event \<Rightarrow> bool" where
  "own_event sid (V_push i) = (i = sid)"
| "own_event sid (V_packet i now) = (i = sid)"
| "own_event sid (V_send i) = (i = sid)"
| "own_event sid (V_end i) = (i = sid)"
| "own_event sid _ = False"

lemma goroutine_goes_on:
  assumes "overlap_ok s" "ov_thread s sid \<noteq> None"
  shows "\<exists>e t. own_event sid e \<and> overlap_step cv e s = Some t"
proof -
  from assms(2) obtain th where th: "ov_thread s sid = Some th" by auto
  consider b where "ov_read s sid = Some b" | p where "ov_read s sid = None" "th_pkt th = Some p"
    | p ps where "ov_read s sid = None" "th_pkt th = None" "th_pending th = p # ps"
    | "ov_read s sid = None" "th_pkt th = None" "th_pending th = []"
    by (cases "ov_read s sid"; cases "th_pkt th"; cases "th_pending th") auto
  then show ?thesis
  proof cases
    case 1
    with overlap_parts(1) [OF assms(1), of sid] th
    have "overlap_step cv (V_push sid) s \<noteq> None"
      by (auto simp: ov_push_def own_step_def src_read_def focus_def split_beta Let_def source_ok_def)
    then show ?thesis by (intro exI [of _ "V_push sid"]) auto
  next
    case 2
    with th have "overlap_step cv (V_send sid) s \<noteq> None"
      by (cases "th_todo th") (auto simp: own_step_def src_send_def)
    then show ?thesis by (intro exI [of _ "V_send sid"]) auto
  next
    case 3
    with th have "overlap_step cv (V_packet sid 0) s \<noteq> None"
      by (auto simp: own_step_def src_packet_def Let_def)
    then show ?thesis by (intro exI [of _ "V_packet sid 0"]) auto
  next
    case 4
    with th have "overlap_step cv (V_end sid) s \<noteq> None"
      by (auto simp: ov_end_def at_loop_def own_step_def src_end_def)
    then show ?thesis by (intro exI [of _ "V_end sid"]) auto
  qed
qed

section \<open>Properties\<close>

text \<open>
  C6. Sources that overlap: in every interleaving of any number of source goroutines on one mountpoint, with sources
  that are taken off, closed and replaced while they broadcast, and with rovers and administration calls, every
  source's frames sent so far (with those still to come from its last read) are the frames of its own byte stream; and a
  rover's connection carries a merge of whole frames \<open>W\<close> in which each source contributes a part of its frames in
  order and without gaps. A rover that is open and has an empty queue has received for every source
  all the frames since it joined, but for one being broadcast.
\<close>

theorem overlapping_sources_merge:
  assumes "overlap_run cv (overlap_start m) es s" "mount_ok m" "mp_clients m = []" "mp_source m = None"
  shows "(\<forall>sid. ov_sent s sid @ ov_pending s sid = fst (frames (ov_stream s sid)))
    \<and> (\<forall>cid \<in> set (rl_joined (ov_relay s)). \<exists>W.
        prefix (rl_wire (ov_relay s) cid) (concat (map snd W))
        \<and> (\<forall>sid. \<exists>j. prefix (of_source sid W) (drop j (ov_sent s sid)))
        \<and> (\<not> rv_done (mp_heap (rl_mount (ov_relay s)) cid) \<and> rv_queue (mp_heap (rl_mount (ov_relay s)) cid) = []
            \<longrightarrow> rl_wire (ov_relay s) cid = concat (map snd W)
              \<and> (\<forall>sid. \<exists>j. of_source sid W = drop j (lag (ov_sent s sid) (cid \<in> set (ov_todo s sid))))))"
proof (intro conjI ballI allI)
  note ok = overlap_reachable [OF assms]
  show "ov_sent s sid @ ov_pending s sid = fst (frames (ov_stream s sid))" for sid by (rule sent_frames [OF ok])
  fix cid assume "cid \<in> set (rl_joined (ov_relay s))"
  note c = rover_of [OF overlap_parts(2) [OF ok] this]
  from c(1) obtain W where
    "\<And>sid. part_ok (ov_sent s sid) (cid \<in> set (ov_todo s sid))
       (rl_running (ov_relay s) cid \<and> \<not> rv_done (mp_heap (rl_mount (ov_relay s)) cid)) (of_source sid W)"
    "prefix (rl_wire (ov_relay s) cid) (concat (map snd W))"
    "rl_running (ov_relay s) cid \<longrightarrow> rl_wire (ov_relay s) cid = concat (rl_written (ov_relay s) cid)
       \<and> rl_written (ov_relay s) cid @ rv_queue (mp_heap (rl_mount (ov_relay s)) cid) = map snd W"
    by (auto elim!: merged_okE)
  with c(2) show "\<exists>W. prefix (rl_wire (ov_relay s) cid) (concat (map snd W))
        \<and> (\<forall>sid. \<exists>j. prefix (of_source sid W) (drop j (ov_sent s sid)))
        \<and> (\<not> rv_done (mp_heap (rl_mount (ov_relay s)) cid) \<and> rv_queue (mp_heap (rl_mount (ov_relay s)) cid) = []
            \<longrightarrow> rl_wire (ov_relay s) cid = concat (map snd W)
              \<and> (\<forall>sid. \<exists>j. of_source sid W = drop j (lag (ov_sent s sid) (cid \<in> set (ov_todo s sid)))))"
    unfolding part_ok_def by (intro exI [of _ W]) (metis append_Nil2)
qed

text \<open>
  C10. A source that was taken off stays off: once \<open>Stop\<close> has closed its connection it is never again the source of
  the mountpoint, the end of its goroutine changes neither the mountpoint nor a rover of its successor, the goroutine
  can always take its next step until it ends, and all it still broadcasts are frames of what it had
  read by then; when it has ended these were all of them.
\<close>

theorem stale_source_stays_out:
  assumes "overlap_run cv (overlap_start m) es s" "mount_ok m" "mp_clients m = []" "mp_source m = None"
    and "is_stale sid s" "overlap_run cv s es' t"
  shows "\<not> feeds sid t \<and> (\<forall>u. overlap_step cv (V_end sid) t = Some u \<longrightarrow> ov_relay u = ov_relay t)
    \<and> prefix (ov_sent t sid) (fst (frames (read_so_far sid s)))
    \<and> (if ov_thread t sid = None then ov_sent t sid = fst (frames (read_so_far sid s))
       else \<exists>e u. own_event sid e \<and> overlap_step cv e t = Some u)"
proof -
  have ok: "overlap_ok t" using overlap_run_ok [OF assms(6) overlap_reachable [OF assms(1-4)]] .
  from stale_run [OF assms(6,5)] have st: "is_stale sid t" "read_so_far sid t = read_so_far sid s" by simp_all
  then have off: "\<not> feeds sid t" using overlap_parts(1) [OF ok, of sid] by (auto simp: source_ok_def is_stale_def)
  then have "ClearSource sid (rl_mount (ov_relay t)) = rl_mount (ov_relay t)"
    by (auto simp: feeds_def ClearSource_def split: option.splits)
  then have fin: "\<forall>u. overlap_step cv (V_end sid) t = Some u \<longrightarrow> ov_relay u = ov_relay t"
    using overlap_parts(1) [OF ok, of sid]
    by (auto simp: ov_end_def own_step_def src_end_def source_ok_def split: option.splits if_splits)
  have "prefix (ov_sent t sid) (fst (frames (ov_stream t sid)))"
    using sent_frames [OF ok, of sid] by (metis prefixI)
  also have "prefix (fst (frames (ov_stream t sid))) (fst (frames (read_so_far sid t)))"
    by (simp add: read_so_far_def frames_prefix)
  finally have pre: "prefix (ov_sent t sid) (fst (frames (read_so_far sid s)))" by (simp add: st(2))
  have "ov_thread t sid = None \<Longrightarrow> ov_sent t sid = fst (frames (read_so_far sid t))"
    using sent_frames [OF ok, of sid] overlap_parts(1) [OF ok, of sid]
    by (auto simp: pending_cases source_ok_def read_so_far_def split: option.split)
  then have "ov_thread t sid = None \<Longrightarrow> ov_sent t sid = fst (frames (read_so_far sid s))" by (simp add: st(2))
  moreover have "ov_thread t sid \<noteq> None \<Longrightarrow> \<exists>e u. own_event sid e \<and> overlap_step cv e t = Some u"
    by (rule goroutine_goes_on [OF ok])
  ultimately have "if ov_thread t sid = None then ov_sent t sid = fst (frames (read_so_far sid s))
       else \<exists>e u. own_event sid e \<and> overlap_step cv e t = Some u"
    unfolding if_bool_eq_conj by blast
  with off fin pre show ?thesis by blast
qed

text \<open>
  A run in which it matters: the source \<open>a\<close> reads two frames and is kicked after the first, \<open>b\<close> takes its place,
  a rover joins, and between two frames of \<open>b\<close> it receives the second frame of \<open>a\<close>.
\<close>

definition short_frame :: "byte \<Rightarrow> byte list" where
  "short_frame x = [0xD3, 0, 1, x, 1, 2, 3]"

definition before_stop :: "overlap_event list" where
  "before_stop =
     [V_start ''a'' 1 0, V_receive ''a'' (short_frame 7 @ short_frame 8), V_push ''a'', V_packet ''a'' 0, V_send ''a'',
      V_rover (E_outside (O_KickSourceByUser 1)), V_stop ''a'']"

definition after_stop :: "overlap_event list" where
  "after_stop =
     [V_start ''b'' 2 0, V_rover (E_join ''c'' 0 8 0), V_receive ''b'' (short_frame 9 @ short_frame 10), V_push ''b'',
      V_packet ''b'' 0, V_send ''b'', V_packet ''a'' 0, V_send ''a'', V_send ''b'', V_packet ''b'' 0, V_send ''b'', V_send ''a'',
      V_end ''a'', V_rover (E_write ''c''), V_rover (E_write ''c''), V_rover (E_write ''c'')]"

definition stopped_state :: overlap where
  "stopped_state = the (overlap_exec sample_convert before_stop (overlap_start empty_point))"

definition merged_state :: overlap where
  "merged_state = the (overlap_exec sample_convert after_stop stopped_state)"

lemma sample_overlap:
  "overlap_exec sample_convert before_stop (overlap_start empty_point) \<noteq> None"
  "overlap_exec sample_convert after_stop stopped_state \<noteq> None"
  "ov_started stopped_state = [''a'']" "ov_open stopped_state ''a'' = False"
  "ov_stream stopped_state ''a'' = short_frame 7 @ short_frame 8" "ov_read stopped_state ''a'' = None"
  "ov_thread merged_state ''a'' = None" "ov_sent merged_state ''a'' = [short_frame 7, short_frame 8]"
  "rl_joined (ov_relay merged_state) = [''c'']"
  "rl_wire (ov_relay merged_state) ''c'' = short_frame 9 @ short_frame 8 @ short_frame 10"
  by code_simp+

lemma overlap_run_append: "overlap_run cv s es t \<Longrightarrow> overlap_run cv t es' u \<Longrightarrow> overlap_run cv s (es @ es') u"
  by (induction rule: overlap_run.induct) (auto intro: overlap_run.intros)

lemma sample_overlap_runs:
  "overlap_run sample_convert (overlap_start empty_point) before_stop stopped_state"
  "overlap_run sample_convert stopped_state after_stop merged_state"
  using sample_overlap(1,2) by (auto intro!: overlap_exec_run simp: stopped_state_def merged_state_def)

lemma empty_point_idle: "mp_source empty_point = None"
  by (simp add: empty_point_def NewMountPoint_def)

theorem overlapping_sources_merge_witness:
  "rl_wire (ov_relay merged_state) ''c'' = short_frame 9 @ short_frame 8 @ short_frame 10
    \<and> (\<exists>W. prefix (short_frame 9 @ short_frame 8 @ short_frame 10) (concat (map snd W))
    \<and> (\<forall>sid. \<exists>j. prefix (of_source sid W) (drop j (ov_sent merged_state sid))))"
proof -
  note merge = overlapping_sources_merge [OF overlap_run_append [OF sample_overlap_runs] empty_point_ok empty_point_idle]
  from merge [THEN conjunct2, THEN bspec, of "''c''"] obtain W
    where "prefix (rl_wire (ov_relay merged_state) ''c'') (concat (map snd W))"
      "\<forall>sid. \<exists>j. prefix (of_source sid W) (drop j (ov_sent merged_state sid))"
    by (auto simp: sample_overlap(9))
  then show ?thesis unfolding sample_overlap(10) by (intro conjI refl) blast
qed

theorem stale_source_stays_out_witness:
  "is_stale ''a'' stopped_state \<and> \<not> feeds ''a'' merged_state
    \<and> [short_frame 7, short_frame 8] = fst (frames (short_frame 7 @ short_frame 8))"
proof -
  have "is_stale ''a'' stopped_state" by (simp add: is_stale_def sample_overlap)
  with stale_source_stays_out [OF sample_overlap_runs(1) empty_point_ok empty_point_idle this sample_overlap_runs(2)]
  show ?thesis by (simp add: sample_overlap read_so_far_def)
qed

end
