(* ===== verification/Write_Loop.thy ===== *)
theory Write_Loop
  imports Relay
begin

text \<open>
  One rover at the grain of Go's channels (\<open>internal/client/client.go\<close>, the loop body of \<open>Broadcast\<close>):
  the buffered channel, the two \<open>select\<close>s of the broadcast, the \<open>select\<close> of the write loop, the goroutine that
  reads, and \<open>KickSlowConsumer\<close>, which closes \<open>Done\<close> and then the connection. A \<open>select\<close> with several cases
  that are ready takes any of them, so the case taken is part of the event. \<open>Relay\<close> does all this in
  fewer and larger steps; what it relies on, \<open>rover_ok\<close>, is shown here for the small steps.

  \<open>wl_sent\<close> and \<open>wl_written\<close> record the packets offered so far and the packets written in full; they do not
  influence the steps.
\<close>

section \<open>The goroutines of a rover\<close>

text \<open>
  The write loop is not started yet, before its \<open>select\<close>, blocked in it, in \<open>Conn.Write\<close>, or has returned.
\<close>

datatype loop_state = Not_started | At_select | Blocked | Writing "byte list" | Returned

record write_loop =
  wl_cap :: nat
  wl_chan :: "byte list list"
  wl_loop :: loop_state
  wl_done :: bool
  wl_connClosed :: bool
  wl_readDone :: bool
  wl_slow :: bool
  wl_BytesOut :: int
  wl_registered :: bool
  wl_wire :: "byte list"
  wl_offer :: "byte list option"
  wl_sent :: "byte list list"
  wl_written :: "byte list list"

text \<open>\<open>make\<close> panics when the size is negative.\<close>

definition make_chan :: "int \<Rightarrow> nat option" where
  "make_chan n = (if n < 0 then None else Some (nat n))"

text \<open>\<open>New\<close> and the registration by \<open>AddClient\<close>.\<close>

definition wl_New :: "int \<Rightarrow> write_loop option" where
  "wl_New queueSize = map_option (\<lambda>n.
     \<lparr>wl_cap = n, wl_chan = [], wl_loop = Not_started, wl_done = False, wl_connClosed = False, wl_readDone = False,
      wl_slow = False, wl_BytesOut = 0, wl_registered = True, wl_wire = [], wl_offer = None, wl_sent = [], wl_written = []\<rparr>)
     (make_chan queueSize)"

definition wl_Kick :: "write_loop \<Rightarrow> write_loop" where
  "wl_Kick w = w\<lparr>wl_done := True\<rparr>"

definition wl_MarkSlow :: "write_loop \<Rightarrow> write_loop" where
  "wl_MarkSlow w = (if wl_slow w then w else wl_Kick (w\<lparr>wl_slow := True\<rparr>))"

text \<open>The cases of the two \<open>select\<close>s that have more than one.\<close>

datatype select_case = Case_packet | Case_done | Case_read | Case_default

text \<open>The first \<open>select\<close> of the broadcast skips a closed rover.\<close>

definition bc_check :: "byte list \<Rightarrow> write_loop \<Rightarrow> write_loop option" where
  "bc_check p w =
     (if wl_offer w \<noteq> None then None
      else Some (w\<lparr>wl_offer := (if wl_done w then None else Some p), wl_sent := wl_sent w @ [p]\<rparr>))"

text \<open>A blocked receiver gets the packet directly; otherwise the channel needs room.\<close>

definition can_send :: "write_loop \<Rightarrow> bool" where
  "can_send w \<longleftrightarrow> wl_loop w = Blocked \<or> length (wl_chan w) < wl_cap w"

definition chan_send :: "byte list \<Rightarrow> write_loop \<Rightarrow> write_loop" where
  "chan_send p w = (if wl_loop w = Blocked then w\<lparr>wl_loop := Writing p\<rparr> else w\<lparr>wl_chan := wl_chan w @ [p]\<rparr>)"

definition bc_select :: "select_case \<Rightarrow> write_loop \<Rightarrow> write_loop option" where
  "bc_select k w =
     (case wl_offer w of None \<Rightarrow> None
      | Some p \<Rightarrow>
          let w' = w\<lparr>wl_offer := None\<rparr>
          in (case k of
                Case_packet \<Rightarrow> if can_send w then Some (chan_send p w') else None
              | Case_done \<Rightarrow> if wl_done w then Some w' else None
              | Case_default \<Rightarrow> if can_send w \<or> wl_done w then None else Some (wl_MarkSlow w')
              | Case_read \<Rightarrow> None))"

text \<open>The write loop: its start, its \<open>select\<close>, the write, and the return with the deferred \<open>removeFromMount\<close>.\<close>

definition wl_start :: "write_loop \<Rightarrow> write_loop option" where
  "wl_start w = (if wl_loop w = Not_started then Some (w\<lparr>wl_loop := At_select\<rparr>) else None)"

definition wl_return :: "write_loop \<Rightarrow> write_loop" where
  "wl_return w = w\<lparr>wl_loop := Returned, wl_registered := False\<rparr>"

definition wl_block :: "write_loop \<Rightarrow> write_loop option" where
  "wl_block w =
     (if wl_loop w = At_select \<and> wl_chan w = [] \<and> \<not> wl_done w \<and> \<not> wl_readDone w
      then Some (w\<lparr>wl_loop := Blocked\<rparr>) else None)"

definition wl_select :: "select_case \<Rightarrow> write_loop \<Rightarrow> write_loop option" where
  "wl_select k w =
     (if wl_loop w \<notin> {At_select, Blocked} then None
      else (case k of
          Case_packet \<Rightarrow> (case wl_chan w of [] \<Rightarrow> None | p # ps \<Rightarrow> Some (w\<lparr>wl_chan := ps, wl_loop := Writing p\<rparr>))
        | Case_done \<Rightarrow> if wl_done w then Some (wl_return w) else None
        | Case_read \<Rightarrow> if wl_readDone w then Some (wl_return w) else None
        | Case_default \<Rightarrow> None))"

definition wl_write :: "write_loop \<Rightarrow> write_loop option" where
  "wl_write w =
     (case wl_loop w of
        Writing p \<Rightarrow>
          if wl_connClosed w then None
          else Some (w\<lparr>wl_wire := wl_wire w @ p, wl_BytesOut := wl_BytesOut w + int (length p), wl_loop := At_select,
                       wl_written := wl_written w @ [p]\<rparr>)
      | _ \<Rightarrow> None)"

definition wl_write_error :: "nat \<Rightarrow> write_loop \<Rightarrow> write_loop option" where
  "wl_write_error n w =
     (case wl_loop w of
        Writing p \<Rightarrow>
          if length p < n then None
          else Some (wl_return (wl_Kick (w\<lparr>wl_wire := wl_wire w @ take n p\<rparr>)))
      | _ \<Rightarrow> None)"

text \<open>
  The reading goroutine; kicks from elsewhere, of which some take the rover out of the registry; the second half of
  \<open>KickSlowConsumer\<close>.
\<close>

definition rd_error :: "write_loop \<Rightarrow> write_loop option" where
  "rd_error w = (if wl_loop w = Not_started \<or> wl_readDone w then None else Some (wl_Kick w))"

definition rd_return :: "write_loop \<Rightarrow> write_loop option" where
  "rd_return w = (if wl_loop w \<noteq> Not_started \<and> wl_done w then Some (w\<lparr>wl_readDone := True\<rparr>) else None)"

definition conn_Close :: "write_loop \<Rightarrow> write_loop option" where
  "conn_Close w = (if wl_done w then Some (w\<lparr>wl_connClosed := True\<rparr>) else None)"

datatype loop_step =
    L_check "byte list"
  | L_offer select_case
  | L_start
  | L_block
  | L_select select_case
  | L_write
  | L_write_error nat
  | L_read_error
  | L_read_return
  | L_kick bool
  | L_close

fun wl_step :: "loop_step \<Rightarrow> write_loop \<Rightarrow> write_loop option" where
  "wl_step (L_check p) w = bc_check p w"
| "wl_step (L_offer k) w = bc_select k w"
| "wl_step L_start w = wl_start w"
| "wl_step L_block w = wl_block w"
| "wl_step (L_select k) w = wl_select k w"
| "wl_step L_write w = wl_write w"
| "wl_step (L_write_error n) w = wl_write_error n w"
| "wl_step L_read_error w = rd_error w"
| "wl_step L_read_return w = rd_return w"
| "wl_step (L_kick remove) w = Some (wl_Kick (w\<lparr>wl_registered := wl_registered w \<and> \<not> remove\<rparr>))"
| "wl_step L_close w = conn_Close w"

inductive wl_run :: "write_loop \<Rightarrow> loop_step list \<Rightarrow> write_loop \<Rightarrow> bool" where
  wl_Nil: "wl_run w [] w"
| wl_Cons: "wl_step e w = Some v \<Longrightarrow> wl_run v es u \<Longrightarrow> wl_run w (e # es) u"

inductive_simps wl_run_simps [simp]: "wl_run w [] u" "wl_run w (e # es) u"

section \<open>The contract\<close>

definition held :: "loop_state \<Rightarrow> byte list list" where
  "held l = (case l of Writing p \<Rightarrow> [p] | _ \<Rightarrow> [])"

text \<open>The rover as \<open>Relay\<close> sees it: the packet being written still counts as queued.\<close>

definition as_rover :: "int \<Rightarrow> int \<Rightarrow> write_loop \<Rightarrow> rover" where
  "as_rover uid now w =
     \<lparr>rv_UserID = uid, rv_queue = held (wl_loop w) @ wl_chan w, rv_queueSize = Suc (wl_cap w), rv_done = wl_done w,
      rv_slow = wl_slow w, rv_BytesOut = wl_BytesOut w, rv_ConnectedAt = now\<rparr>"

text \<open>The contract in terms of what was accepted: everything offered, as long as the rover is open.\<close>

definition accepted :: "write_loop \<Rightarrow> byte list list" where
  "accepted w = wl_written w @ held (wl_loop w) @ wl_chan w"

lemma held_simps [simp]:
  "held Not_started = []" "held At_select = []" "held Blocked = []" "held (Writing p) = [p]" "held Returned = []"
  by (simp_all add: held_def)

definition offers :: "write_loop \<Rightarrow> byte list list" where
  "offers w = (case wl_offer w of None \<Rightarrow> [] | Some p \<Rightarrow> [p])"

definition loop_inv :: "write_loop \<Rightarrow> bool" where
  "loop_inv w \<longleftrightarrow>
     (wl_slow w \<or> wl_connClosed w \<or> wl_readDone w \<longrightarrow> wl_done w)
     \<and> (if wl_loop w = Returned then prefix (wl_wire w) (concat (wl_sent w)) \<and> wl_done w \<and> \<not> wl_registered w
        else wl_wire w = concat (wl_written w) \<and> wl_BytesOut w = int (length (wl_wire w))
          \<and> prefix (accepted w @ offers w) (wl_sent w) \<and> (\<not> wl_done w \<longrightarrow> accepted w @ offers w = wl_sent w))
     \<and> length (wl_chan w) \<le> wl_cap w \<and> (wl_loop w = Blocked \<longrightarrow> wl_chan w = [])"

lemmas wl_defs = bc_check_def bc_select_def can_send_def chan_send_def wl_start_def wl_block_def wl_select_def wl_return_def
  wl_write_def wl_write_error_def rd_error_def rd_return_def conn_Close_def wl_Kick_def wl_MarkSlow_def

lemma loop_inv_new: "wl_New q = Some w \<Longrightarrow> loop_inv w \<and> int (wl_cap w) = q"
  by (auto simp: wl_New_def make_chan_def loop_inv_def accepted_def offers_def split: if_splits)

lemma prefix_moreI: "prefix xs ys \<Longrightarrow> prefix xs (ys @ zs)"
  by (auto simp: prefix_def)

lemma prefix_dropD: "prefix (xs @ zs) ys \<Longrightarrow> prefix xs ys"
  by (auto simp: prefix_def)

text \<open>A loop that is still running has written whole packets, and only such that were offered.\<close>

lemma loop_inv_wire: "loop_inv w \<Longrightarrow> prefix (wl_wire w) (concat (wl_sent w))"
  by (cases "wl_loop w = Returned")
    (auto simp: loop_inv_def accepted_def dest!: prefix_dropD [THEN prefix_concat])

text \<open>The steps that move packets along, or drop what the broadcast holds when the rover is closed.\<close>

lemma loop_inv_change:
  assumes inv: "loop_inv w"
    and same: "wl_loop v = Returned \<longleftrightarrow> wl_loop w = Returned" "wl_wire v = wl_wire w" "wl_BytesOut v = wl_BytesOut w"
      "wl_written v = wl_written w" "wl_sent v = wl_sent w" "wl_cap v = wl_cap w"
    and grow: "wl_registered v \<Longrightarrow> wl_registered w" "wl_done w \<Longrightarrow> wl_done v"
      "wl_slow v \<or> wl_connClosed v \<or> wl_readDone v \<Longrightarrow> wl_done v"
    and chan: "length (wl_chan v) \<le> wl_cap w" "wl_loop v = Blocked \<Longrightarrow> wl_chan v = []"
    and moved: "prefix (accepted v @ offers v) (accepted w @ offers w)"
      "\<not> wl_done v \<Longrightarrow> accepted v @ offers v = accepted w @ offers w"
  shows "loop_inv v"
proof (cases "wl_loop w = Returned")
  case True
  with inv same grow chan show ?thesis by (auto simp: loop_inv_def)
next
  case False
  with inv have w: "wl_wire w = concat (wl_written w)" "wl_BytesOut w = int (length (wl_wire w))"
    "prefix (accepted w @ offers w) (wl_sent w)" "\<not> wl_done w \<Longrightarrow> accepted w @ offers w = wl_sent w"
    by (auto simp: loop_inv_def)
  have "prefix (accepted v @ offers v) (wl_sent v)" using moved(1) w(3) same(5) by (metis prefix_order.trans)
  moreover have "\<not> wl_done v \<Longrightarrow> accepted v @ offers v = wl_sent v" using moved(2) w(4) grow(2) same(5) by metis
  moreover have "wl_wire v = concat (wl_written v)" "wl_BytesOut v = int (length (wl_wire v))" "wl_loop v \<noteq> Returned"
    using w(1,2) same False by simp_all
  ultimately show ?thesis using grow(3) chan same(6) unfolding loop_inv_def by metis
qed

lemma loop_inv_running:
  assumes "loop_inv w" "wl_loop w \<noteq> Returned"
  shows "wl_wire w = concat (wl_written w)" "wl_BytesOut w = int (length (wl_wire w))"
    "prefix (accepted w @ offers w) (wl_sent w)" "\<not> wl_done w \<Longrightarrow> accepted w @ offers w = wl_sent w"
  using assms by (auto simp: loop_inv_def)

lemma loop_inv_common:
  assumes "loop_inv w"
  shows "length (wl_chan w) \<le> wl_cap w" "wl_loop w = Blocked \<Longrightarrow> wl_chan w = []"
    "wl_slow w \<or> wl_connClosed w \<or> wl_readDone w \<Longrightarrow> wl_done w"
  using assms by (auto simp: loop_inv_def)

lemma bc_check_inv:
  assumes "loop_inv w" "bc_check p w = Some v"
  shows "loop_inv v"
proof -
  have v: "v = w\<lparr>wl_offer := (if wl_done w then None else Some p), wl_sent := wl_sent w @ [p]\<rparr>"
    and none: "offers w = []" using assms(2) by (auto simp: bc_check_def offers_def split: if_splits)
  have acc: "accepted v = accepted w" "offers v = (if wl_done w then [] else [p])"
    by (simp_all add: v accepted_def offers_def)
  show ?thesis
  proof (cases "wl_loop w = Returned")
    case True
    with assms(1) show ?thesis by (auto simp: loop_inv_def v prefix_moreI)
  next
    case False
    note r = loop_inv_running [OF assms(1) False, unfolded none append_Nil2]
    have "prefix (accepted v @ offers v) (wl_sent v)"
      using r(3,4) by (cases "wl_done w") (simp_all add: acc, simp_all add: v prefix_moreI)
    moreover have "\<not> wl_done v \<Longrightarrow> accepted v @ offers v = wl_sent v"
      using r(4) by (simp add: acc) (simp add: v)
    ultimately show ?thesis
      using False r(1,2) loop_inv_common [OF assms(1)] unfolding loop_inv_def by (simp add: v)
  qed
qed

lemma bc_select_inv:
  assumes "loop_inv w" "bc_select k w = Some v"
  shows "loop_inv v"
proof -
  obtain p where p: "wl_offer w = Some p" and offers: "offers w = [p]"
    using assms(2) by (auto simp: bc_select_def offers_def split: option.splits)
  note c = loop_inv_common [OF assms(1)]
  show ?thesis
  proof (cases k)
    case Case_packet
    with assms(2) p have send: "can_send w" and v: "v = chan_send p (w\<lparr>wl_offer := None\<rparr>)"
      by (auto simp: bc_select_def Let_def split: if_splits)
    have "accepted v @ offers v = accepted w @ offers w"
      using c(2) unfolding offers by (cases "wl_loop w") (simp_all add: v chan_send_def accepted_def offers_def)
    with c send show ?thesis
      by (cases "wl_loop w = Blocked"; intro loop_inv_change [OF assms(1)]) (simp_all add: v chan_send_def can_send_def)
  next
    case Case_done
    with assms(2) p have don: "wl_done w" and v: "v = w\<lparr>wl_offer := None\<rparr>"
      by (auto simp: bc_select_def Let_def split: if_splits)
    have "accepted v = accepted w" "offers v = []" by (simp_all add: v accepted_def offers_def)
    with c don show ?thesis by (intro loop_inv_change [OF assms(1)]) (simp_all add: v)
  next
    case Case_default
    with assms(2) p have v: "v = wl_MarkSlow (w\<lparr>wl_offer := None\<rparr>)"
      by (auto simp: bc_select_def Let_def split: if_splits)
    have d: "wl_done v" using c(3) by (auto simp: v wl_MarkSlow_def wl_Kick_def)
    have "accepted v = accepted w" "offers v = []" by (simp_all add: v accepted_def offers_def wl_MarkSlow_def wl_Kick_def)
    with c d show ?thesis
      by (intro loop_inv_change [OF assms(1)]) (simp_all add: v wl_MarkSlow_def wl_Kick_def split: if_splits)
  next
    case Case_read
    with assms(2) p show ?thesis by (simp add: bc_select_def Let_def)
  qed
qed

lemma wl_return_inv:
  assumes "wl_done w" "prefix (wl_wire w) (concat (wl_sent w))" "length (wl_chan w) \<le> wl_cap w"
  shows "loop_inv (wl_return w)"
  using assms by (simp add: loop_inv_def wl_return_def)

lemma wl_select_inv:
  assumes "loop_inv w" "wl_select k w = Some v"
  shows "loop_inv v"
proof -
  note c = loop_inv_common [OF assms(1)]
  from assms(2) consider p ps where "wl_loop w \<in> {At_select, Blocked}" "wl_chan w = p # ps" "v = w\<lparr>wl_chan := ps, wl_loop := Writing p\<rparr>"
    | "v = wl_return w" "wl_done w \<or> wl_readDone w"
    by (cases k) (auto simp: wl_select_def split: list.splits if_splits)
  then show ?thesis
  proof cases
    case 1
    then have "accepted v = accepted w" "offers v = offers w" by (auto simp: accepted_def offers_def)
    with 1 c show ?thesis by (intro loop_inv_change [OF assms(1)]) auto
  next
    case 2
    with c loop_inv_wire [OF assms(1)] show ?thesis by (auto intro: wl_return_inv)
  qed
qed

lemma wl_write_inv:
  assumes "loop_inv w" "wl_write w = Some v"
  shows "loop_inv v"
proof -
  from assms(2) obtain p where p: "wl_loop w = Writing p"
    and v: "v = w\<lparr>wl_wire := wl_wire w @ p, wl_BytesOut := wl_BytesOut w + int (length p), wl_loop := At_select,
                       wl_written := wl_written w @ [p]\<rparr>"
    by (auto simp: wl_write_def split: loop_state.splits if_splits)
  have "accepted v = accepted w" "offers v = offers w" by (simp_all add: accepted_def offers_def v p)
  moreover have "wl_loop w \<noteq> Returned" by (simp add: p)
  note loop_inv_running [OF assms(1) this]
  ultimately show ?thesis
    using loop_inv_common [OF assms(1)] unfolding loop_inv_def by (simp add: v)
qed

lemma wl_write_error_inv:
  assumes "loop_inv w" "wl_write_error n w = Some v"
  shows "loop_inv v"
proof -
  from assms(2) obtain p where p: "wl_loop w = Writing p" and v: "v = wl_return (wl_Kick (w\<lparr>wl_wire := wl_wire w @ take n p\<rparr>))"
    by (auto simp: wl_write_error_def split: loop_state.splits if_splits)
  have "wl_loop w \<noteq> Returned" by (simp add: p)
  note r = loop_inv_running [OF assms(1) this]
  from r(3) p have "prefix ((wl_written w @ [p]) @ wl_chan w @ offers w) (wl_sent w)" by (simp add: accepted_def)
  from prefix_concat [OF prefix_dropD [OF this]] r(1) have "prefix (wl_wire w @ p) (concat (wl_sent w))" by simp
  then have "prefix (wl_wire w @ take n p) (concat (wl_sent w))"
    by (metis append_take_drop_id append_assoc prefix_dropD)
  then show ?thesis
    using loop_inv_common [OF assms(1)] unfolding v by (intro wl_return_inv) (simp_all add: wl_Kick_def)
qed

lemma other_step_inv:
  assumes "loop_inv w"
    and "wl_start w = Some v \<or> wl_block w = Some v \<or> rd_error w = Some v \<or> rd_return w = Some v \<or> conn_Close w = Some v
      \<or> v = wl_Kick (w\<lparr>wl_registered := wl_registered w \<and> b\<rparr>)"
  shows "loop_inv v"
proof -
  note c = loop_inv_common [OF assms(1)]
  have "accepted v = accepted w" "offers v = offers w"
    using assms(2)
    by (auto simp: accepted_def offers_def wl_start_def wl_block_def rd_error_def rd_return_def conn_Close_def wl_Kick_def
        split: if_splits)
  with c assms(2) show ?thesis
    by (intro loop_inv_change [OF assms(1)])
      (auto simp: wl_start_def wl_block_def rd_error_def rd_return_def conn_Close_def wl_Kick_def split: if_splits)
qed

lemma loop_inv_step:
  assumes "loop_inv w" "wl_step e w = Some v"
  shows "loop_inv v"
proof (cases e)
  case (L_check p)
  with assms bc_check_inv show ?thesis by simp
next
  case (L_offer k)
  with assms bc_select_inv show ?thesis by simp
next
  case (L_select k)
  with assms wl_select_inv show ?thesis by simp
next
  case L_write
  with assms wl_write_inv show ?thesis by simp
next
  case (L_write_error n)
  with assms wl_write_error_inv show ?thesis by simp
qed (use assms other_step_inv [OF assms(1), of v] in auto)

lemma wl_cap_step: "wl_step e w = Some v \<Longrightarrow> wl_cap v = wl_cap w"
  by (cases e) (auto simp: wl_defs Let_def split: if_splits option.splits list.splits loop_state.splits select_case.splits)

lemma wl_run_inv: "wl_run w es v \<Longrightarrow> loop_inv w \<Longrightarrow> loop_inv v \<and> wl_cap v = wl_cap w"
proof (induction rule: wl_run.induct)
  case (wl_Cons e w v es u)
  from wl_cap_step [OF wl_Cons.hyps(1)] loop_inv_step [OF wl_Cons.prems wl_Cons.hyps(1)] wl_Cons.IH show ?case by simp
qed simp

section \<open>A closed rover's loop returns\<close>

text \<open>The steps that are left to the write loop; a packet that the broadcast still holds may come in addition.\<close>

definition steps_left :: "write_loop \<Rightarrow> nat" where
  "steps_left w =
     (case wl_loop w of
        Returned \<Rightarrow> 0
      | Not_started \<Rightarrow> 2 * length (wl_chan w @ offers w) + 2
      | Writing p \<Rightarrow> 2 * length (wl_chan w @ offers w) + 2
      | _ \<Rightarrow> 2 * length (wl_chan w @ offers w) + 1)"

fun own_loop_step :: "loop_step \<Rightarrow> bool" where
  "own_loop_step L_start = True"
| "own_loop_step L_block = True"
| "own_loop_step (L_select k) = True"
| "own_loop_step L_write = True"
| "own_loop_step (L_write_error n) = True"
| "own_loop_step _ = False"

lemma closed_loop_step:
  assumes "wl_step e w = Some v" "wl_done w"
  shows "wl_done v \<and> steps_left v + (if own_loop_step e then 1 else 0) \<le> steps_left w"
  using assms
  by (cases e; cases "wl_loop w")
    (auto simp: wl_defs steps_left_def offers_def Let_def split: if_splits option.splits list.splits select_case.splits)

lemma closed_loop_run:
  "wl_run w es v \<Longrightarrow> wl_done w \<Longrightarrow> wl_done v \<and> steps_left v + length (filter own_loop_step es) \<le> steps_left w"
proof (induction rule: wl_run.induct)
  case (wl_Cons e w v es u)
  from closed_loop_step [OF wl_Cons.hyps(1) wl_Cons.prems] wl_Cons.IH show ?case by (auto split: if_splits)
qed simp

section \<open>Properties\<close>

text \<open>
  C7. The write loop keeps the contract that the relay relies on: in every interleaving of the broadcast, the
  write loop, the reader and kicks, with any choice of the \<open>select\<close>s and any failing write, the connection of a rover carries
  a prefix of the packets offered to it, in order, and a rover that is open has all of them written, in the hands of
  its loop or in its channel, but for the one the broadcast is about to send. The channel never holds more than its
  size, a rover is only kicked as slow when the channel is full, and when the loop has returned the rover is
  closed and out of the registry.
\<close>

theorem write_loop_meets_contract:
  assumes "wl_New queueSize = Some w0" "wl_run w0 es w"
  shows "rover_ok (wl_sent w) (wl_offer w \<noteq> None) (wl_wire w) (wl_written w) (wl_loop w \<noteq> Returned) (as_rover uid now w)
    \<and> int (length (wl_chan w)) \<le> queueSize
    \<and> (\<forall>v. wl_step (L_offer Case_default) w = Some v \<longrightarrow> int (length (wl_chan w)) = queueSize)
    \<and> (wl_loop w = Returned \<longrightarrow> wl_done w \<and> \<not> wl_registered w)"
proof -
  from loop_inv_new [OF assms(1)] wl_run_inv [OF assms(2)]
  have inv: "loop_inv w" and cap: "int (wl_cap w) = queueSize" by auto
  note c = loop_inv_common [OF inv]
  let ?c = "as_rover uid now w"
  have acc: "wl_written w @ rv_queue ?c = accepted w" by (simp add: as_rover_def accepted_def)
  have lag: "accepted w = lag (wl_sent w) (wl_offer w \<noteq> None)" if "accepted w @ offers w = wl_sent w"
    using that by (cases "wl_offer w") (auto simp: offers_def lag_def simp flip: that)
  have "wl_loop w \<noteq> Returned \<longrightarrow> wl_wire w = concat (wl_written w) \<and> prefix (accepted w) (wl_sent w)
      \<and> wl_BytesOut w = int (length (wl_wire w)) \<and> (\<not> wl_done w \<longrightarrow> accepted w = lag (wl_sent w) (wl_offer w \<noteq> None))"
    using loop_inv_running [OF inv] prefix_dropD lag by blast
  moreover have "rv_slow ?c = wl_slow w" "rv_done ?c = wl_done w" "rv_BytesOut ?c = wl_BytesOut w" by (simp_all add: as_rover_def)
  ultimately have "rover_ok (wl_sent w) (wl_offer w \<noteq> None) (wl_wire w) (wl_written w) (wl_loop w \<noteq> Returned) ?c"
    using c(3) loop_inv_wire [OF inv] unfolding rover_ok_def acc
    by (intro conjI exI [of _ 0]) (simp_all only: drop_0 le0, blast)
  moreover have "wl_step (L_offer Case_default) w = Some v \<Longrightarrow> length (wl_chan w) = wl_cap w" for v
    using c(1) by (auto simp: bc_select_def can_send_def Let_def split: option.splits if_splits)
  moreover have "wl_loop w = Returned \<longrightarrow> wl_done w \<and> \<not> wl_registered w" using inv by (auto simp: loop_inv_def)
  ultimately show ?thesis using c(1) cap by auto
qed

text \<open>
  A channel of size one: while the first packet is being written the second one waits in the channel, and the third kicks the
  rover, which has the first and half of the second when its loop returns.
\<close>

definition slow_steps :: "loop_step list" where
  "slow_steps =
     [L_start, L_check [1, 2], L_offer Case_packet, L_select Case_packet, L_check [3, 4], L_offer Case_packet, L_check [5],
      L_offer Case_default, L_write, L_select Case_packet, L_close, L_write_error 1]"

primrec wl_exec :: "loop_step list \<Rightarrow> write_loop \<Rightarrow> write_loop option" where
  "wl_exec [] w = Some w"
| "wl_exec (e # es) w = (case wl_step e w of None \<Rightarrow> None | Some v \<Rightarrow> wl_exec es v)"

lemma wl_exec_run: "wl_exec es w = Some v \<Longrightarrow> wl_run w es v"
  by (induction es arbitrary: w) (auto split: option.splits)

definition slow_loop :: write_loop where
  "slow_loop = the (wl_exec slow_steps (the (wl_New 1)))"

lemma slow_loop_run:
  "wl_New 1 \<noteq> None" "wl_exec slow_steps (the (wl_New 1)) \<noteq> None" "wl_wire slow_loop = [1, 2, 3]" "wl_loop slow_loop = Returned"
  "wl_slow slow_loop" "wl_sent slow_loop = [[1, 2], [3, 4], [5]]"
  by code_simp+

theorem write_loop_meets_contract_witness:
  "wl_wire slow_loop = [1, 2, 3] \<and> wl_slow slow_loop \<and> wl_done slow_loop \<and> int (length (wl_chan slow_loop)) \<le> 1"
proof -
  have "wl_New 1 = Some (the (wl_New 1))" "wl_run (the (wl_New 1)) slow_steps slow_loop"
    using slow_loop_run(1,2) by (auto intro!: wl_exec_run simp: slow_loop_def)
  from write_loop_meets_contract [OF this] show ?thesis by (simp add: slow_loop_run)
qed

text \<open>
  A closed rover's loop returns: after \<open>KickSlowConsumer\<close> the write loop takes at most two steps per packet in its
  channel and four more, whatever happens around it, and until it has returned it can always take one. With a
  negative queue size there is no rover at all: \<open>make\<close> panics.
\<close>

theorem closed_loop_returns:
  assumes "wl_New queueSize = Some w0" "wl_run w0 es w" "wl_done w" "wl_run w es' v"
  shows "int (length (filter own_loop_step es')) \<le> 2 * queueSize + 4
    \<and> (wl_loop v = Returned \<or> (\<exists>e u. own_loop_step e \<and> wl_step e v = Some u))"
proof -
  from loop_inv_new [OF assms(1)] wl_run_inv [OF assms(2)]
  have inv: "loop_inv w" and cap: "int (wl_cap w) = queueSize" by auto
  have "length (wl_chan w) \<le> wl_cap w" by (rule loop_inv_common(1) [OF inv])
  moreover have "length (offers w) \<le> 1" by (simp add: offers_def split: option.split)
  ultimately have "steps_left w \<le> 2 * wl_cap w + 4" by (simp add: steps_left_def split: loop_state.split)
  moreover note closed_loop_run [OF assms(4,3)]
  ultimately have "int (length (filter own_loop_step es')) \<le> 2 * queueSize + 4" using cap by linarith
  moreover have "\<exists>e u. own_loop_step e \<and> wl_step e v = Some u" if "wl_loop v \<noteq> Returned"
  proof (cases "wl_loop v")
    case Not_started
    then show ?thesis by (intro exI [of _ L_start]) (simp add: wl_start_def)
  next
    case (Writing p)
    then show ?thesis by (intro exI [of _ "L_write_error 0"]) (simp add: wl_write_error_def)
  qed (use that closed_loop_run [OF assms(4,3)] in \<open>auto intro!: exI [of _ "L_select Case_done"] simp: wl_select_def\<close>)
  ultimately show ?thesis by blast
qed

theorem closed_loop_returns_witness:
  "wl_run (the (wl_New 1)) [L_kick True] (wl_Kick ((the (wl_New 1))\<lparr>wl_registered := False\<rparr>))
   \<and> (\<exists>e u. own_loop_step e \<and> wl_step e (wl_Kick ((the (wl_New 1))\<lparr>wl_registered := False\<rparr>)) = Some u)"
proof -
  let ?w = "wl_Kick ((the (wl_New 1))\<lparr>wl_registered := False\<rparr>)"
  have new: "wl_New 1 = Some (the (wl_New 1))" using slow_loop_run(1) by auto
  have f: "wl_done ?w" "wl_loop ?w = Not_started" by code_simp+
  have run: "wl_run (the (wl_New 1)) [L_kick True] ?w" by (simp add: wl_Kick_def)
  from closed_loop_returns [OF new run f(1), of "[]" ?w] f(2) run show ?thesis by simp
qed

end
