(* ===== verification/Spec2Isabelle.thy ===== *)
theory Spec2Isabelle
  imports Users_Page Mountpoints_Page Connections_Page Dashboard_Page Map_Layer Auth Antenna Caster_Admin Api_Contract Ui_Kit_Pages
    Shutdown Ecef Entry Database Caster_Faults Source_Overlap Write_Loop
begin

text \<open>
  A verification library for an NTRIP caster and its administration client.

  \<^bold>\<open>The program.\<close> The caster (\<open>internal/\<close>, Go) relays correction data from base stations
  ("sources") to rovers ("clients") over mountpoints. An SQLite database holds users, mountpoints
  and the bindings between them. An HTTP server offers them under \<open>/api/\<close>, and a React
  application (\<open>web/src\<close>, TypeScript) is its user interface. The client calls the server
  through one function, \<open>request\<close>; the server's handlers call the account service, which
  owns the tables, and the mountpoint manager, which owns the connections.

  \<^bold>\<open>Theories, from the browser to the tables.\<close>

  \<^item> \<^verbatim>\<open>Prelude, Url, Json\<close>: what both sides share. Strings are their UTF-8 bytes; decimal printing and
    \<open>strconv.ParseInt\<close>; form encoding in the browser and \<open>url.ParseQuery\<close> in Go, with the
    round trip between them; JSON values; the locale \<open>kept\<close> for components whose operations
    keep an invariant.
  \<^item> \<^verbatim>\<open>Api_Types, Api_Client, Api_Hooks\<close> (\<open>web/src/api\<close>): rows and requests as records, \<open>request\<close>
    with every branch of its error handling, each member of \<open>api\<close>, and the query and mutation
    hooks with cache keys and invalidations. \<open>fetch\<close> and the query client are arguments.
  \<^item> \<^verbatim>\<open>Ui, Texts, Pagination, Page_Patterns\<close>: rendered trees and the events their enabled controls can
    fire; the literals; the pager (\<open>components/pagination.tsx\<close>); the locales \<open>paged_list\<close>,
    \<open>paged_session\<close> and \<open>submit_form\<close> that the pages with lists and dialogs fulfil.
  \<^item> \<^verbatim>\<open>Users_Page, User_Bindings, Mountpoints_Page, Connections_Page, Dashboard_Page, Map_Page\<close>
    (\<open>web/src/pages\<close>): a record for the \<open>useState\<close> variables, one function per handler, a step
    function over the events of the page and the rendered tree. A handler that awaits a request is
    split at the \<open>await\<close>; the answer is an event of its own, so answers interleave with input.
    \<^verbatim>\<open>Map_Layer\<close> has the effects of the map's marker layer as React runs them over its life.
  \<^item> \<^verbatim>\<open>Ui_Kit, Ui_Kit_Events, Ui_Kit_Pages\<close> (\<open>web/src/components/ui\<close>, \<open>lib/utils.ts\<close>): every wrapper as
    a function from properties and children to the tree of primitives it returns, class names included;
    what a user can do on a tree of primitives; and the proof that drawing a page through the wrappers
    changes none of it.
  \<^item> \<^verbatim>\<open>Auth, Format\<close>: login state, route table, guard, layout and login page; number and time formatting.
  \<^item> \<^verbatim>\<open>Account\<close> (\<open>internal/account\<close>): the tables as lists of rows, every service operation, and the login
    cache. \<open>Authenticate\<close> is also split where the code does not hold the lock.
  \<^item> \<^verbatim>\<open>Rtcm, Antenna\<close> (\<open>internal/rtcm\<close>): the framer over byte words, the 1005 decoder over a bit reader.
  \<^item> \<^verbatim>\<open>Mount_Runtime\<close> (\<open>internal/mountpoint\<close>, \<open>client\<close>, \<open>metrics\<close>): sources, clients with their queues,
    broadcast, kicks, counters, and the manager. Client objects live in a heap under their ids, so a
    kicked client that is out of the registry is still an object.
  \<^item> \<^verbatim>\<open>Go_Strings, Ntrip_Protocol\<close> (\<open>internal/caster/protocol.go\<close>, \<open>internal/auth\<close>, the request writers of
    \<open>cmd/simbase\<close> and \<open>cmd/simrover\<close>): \<open>strings.Fields\<close>, trimming, base64 and buffered reading; the parser
    of requests and of the Authorization header over the reads of a connection.
  \<^item> \<^verbatim>\<open>Relay\<close> (\<open>internal/source\<close>, the write loop of \<open>internal/client\<close>): the goroutines of a source and of
    the rovers of one mountpoint as steps that interleave with each other and with kicks from outside.
    \<^verbatim>\<open>Source_Overlap\<close> has sources that are replaced while they still broadcast, as several source loops of \<open>Relay\<close> on one
    mountpoint; \<^verbatim>\<open>Write_Loop\<close> has one rover at the grain of channels and \<open>select\<close>s, and shows for it what \<open>Relay\<close> assumes.
  \<^item> \<^verbatim>\<open>Caster_Limits\<close> (\<open>internal/limiter\<close>, \<open>internal/sourcetable\<close>, the accept loop of \<open>server.go\<close>).
  \<^item> \<^verbatim>\<open>Admission, Caster_Net\<close> (\<open>internal/caster/connection.go\<close>): a rover's handler in stages, one per access
    to shared state; a source's handler; a whole connection from its bytes on; and many handlers whose
    stages interleave with each other and with arbitrary changes of the tables and mountpoints.
  \<^item> \<^verbatim>\<open>Admin_Api, Admin_Server\<close> (\<open>internal/api\<close>, \<open>syncMountpoints\<close> of \<open>cmd/caster\<close>): sessions, request
    decoding, every handler, JSON answers, routes; \<open>handle_request\<close> is the whole server as a
    function from a request to the answer \<open>fetch\<close> sees and the next state. \<^verbatim>\<open>Api_Contract\<close> compares the
    answers with the types of \<open>web/src/api/types.ts\<close>.
  \<^item> \<^verbatim>\<open>Caster_Admin\<close>: the abstraction from the caster's objects to the mountpoints the admin API works on.
  \<^item> \<^verbatim>\<open>Database\<close> (\<open>internal/database\<close>): opening the file, the schema and the migrations as sequences of SQL
    statements that commit one by one; a query or statement may fail, or the process be killed before it.
  \<^item> \<^verbatim>\<open>Start, Shutdown\<close> (\<open>internal/config\<close>, \<open>cmd/caster\<close>, \<open>cmd/testenv\<close>, \<open>Shutdown\<close> of \<open>server.go\<close>): from the
    configuration to the two servers, the tables of the test environment, and the steps of a shutdown interleaved
    with the handlers and with what the other sides do.
  \<^item> \<^verbatim>\<open>Svc_Faults, Api_Faults, Caster_Faults\<close>: the account service, the admin handlers, the handlers of connections
    and the start once more, with a database whose queries and statements may fail at any point.
  \<^item> \<^verbatim>\<open>Sim_Frames, Simulators\<close> (\<open>cmd/simbase\<close>, \<open>cmd/simrover\<close>): the check sum, the frames and the framer of the
    simulators; their opening, loops, mountpoint lists and counters.
  \<^item> \<^verbatim>\<open>Ecef\<close> (\<open>internal/rtcm/decode1005.go\<close>): from geocentric coordinates to latitude, longitude and height, and
    the distance of two positions, over the real numbers.
  \<^item> \<^verbatim>\<open>Entry\<close> (\<open>web/src/main.tsx\<close>, \<open>web/vite.config.ts\<close>, \<open>spaHandler\<close>): how the browser gets the application.
  \<^item> this theory: statements that span client, server and caster.

  \<^bold>\<open>What is shown.\<close> Access: no administration page without a login, no answer and no change under
  \<open>/api/\<close> without a valid session, sessions for verified administrators only; who is served as a rover or
  a source, from the bytes on the wire; a user disabled in the browser is locked out at once, at the
  admin page and at the caster. Lists: page numbers stay in range, and every row that matches the
  filters is on a page that clicks on the pager reach and the server answers. Dialogs: requests are
  complete, deletes and kicks concern what the dialog shows, and an edit arrives in the table field by
  field. State: every interleaving of requests and caster operations keeps tables, run-time mountpoints
  and counters consistent, by the locale \<open>kept\<close>; every stage of a connection is a sequence of these
  operations (a simulation); the counter of rovers is exact in every interleaving, and handlers and
  closed connections end. Streams: requests and frames do not depend on how the network cuts them; what
  a rover receives is a contiguous part of the stream of frames, from a simulated base to the packets a
  simulated rover decodes; sources that overlap are merged frame by frame, each in its own order. Life of the process: a start upgrades every earlier database without loss and
  comes to a consistent server; the test environment admits its simulators; an orderly shutdown ends.
  Failures: whatever fails in the database, nobody is admitted who would not be, the server stays consistent, and
  a failed request leaves nothing or one listed change.
  Drawing: the wrappers keep events and texts, and the marker layer of the map leaves nothing behind.
  Types: answers have the declared types up to three stated weakenings. Behaviour that departs from what the code or its texts intend is stated as it is: the
  pager that disappears on a late page, the login cache that a race can fill with a disabled user, the
  mountpoint that cannot be enabled after a start, the bytes lost between request and read loop, the
  limit per address that ends with the handshake, the migration that loses all bindings when it is interrupted
  before its last statement, the user who is disabled by a failing request and stays connected, the mountpoint that
  comes into being in the table only, the rover that holds up a shutdown, the frames of a kicked source between those of the next, the loop that leaves the exact latitude again,
  and the races between the checks of a rover's handler and what they guard.

  \<^bold>\<open>Interfaces.\<close> \<open>kept\<close> (operations that keep an invariant) is interpreted by the account service, the
  mountpoints, the server without and with failures, the accept loop and the marker layer; \<open>paged_list\<close>,
  \<open>paged_session\<close> and \<open>submit_form\<close> by the pages; \<open>client_registry\<close>, what a rover's handler relies on at a mountpoint, by \<open>Mount_Runtime\<close>.

  \<^bold>\<open>Parameters.\<close> Code outside the sources is an argument of the definitions: \<open>fetch\<close>, the query client,
  the route matcher, OpenLayers, \<open>tailwind-merge\<close>, \<open>clsx\<close> and \<open>class-variance-authority\<close>, \<open>toLocaleString\<close> and \<open>Date\<close> in the
  client; bcrypt (\<open>hash\<close>, \<open>verify\<close>), SQLite's \<open>LIKE\<close>, the clock, random tokens, connection ids, the conversion of
  coordinates in \<open>Antenna\<close> (\<open>Ecef\<close> has it), the reading of files and of YAML, SQLite's failures (\<open>db_io\<close>, \<open>db_faults\<close>), the
  simulators' random bytes and the iteration order of Go maps in the server. Where a theorem relies on one of them, the
  hypothesis is in its statement.

  \<^bold>\<open>Numbers and loops.\<close> Words where bits matter (RTCM), \<open>wrap64\<close> for the SQL offset, range hypotheses
  (\<open>int64\<close>) for identifiers that pass through \<open>ParseInt\<close>. All functions are total: the framer's loop and
  the readers of request lines terminate because every round shortens the input, which is proved. The one
  fuel is that of \<open>handleRover\<close>, whose eight steps are enough because no path to the write loop has more
  than eight stages; \<open>rover_handler_ends\<close> shows the bound for any interleaving. The digits of a decimal fraction stop
  after 17, as JavaScript prints no more.

  \<^bold>\<open>Not modelled.\<close> The rounding of floating-point numbers in the coordinates; the text of the configuration and its
  parser; command-line flags, logging, printed statistics and the delivery of signals; the embedded files; the
  shutdown of the HTTP server, which is the library's; socket options and deadlines. Write queues of size zero
  or less are in \<open>Write_Loop\<close> only (\<open>make\<close> panics on a negative size); the other theories take sizes from one on. A call that
  disconnects a mountpoint is one step with its kicks. Paths are taken to be clean, so the redirects of
  Go's mux do not occur.
\<close>

section \<open>Lists across client and server\<close>

text \<open>A list request of the client is run by the list handler with the parameters it was given.\<close>

lemma call_server_listUsers:
  assumes "valid_session now cookie v"
  shows "call_server ae now token cookie (api_listUsers (Some p)) v =
    (Response 200 (Inr (encode_page encode_user (h_ListUsers ae (list_users_query p) v))), v)"
proof -
  let ?path = "with_query ''/api/users'' (list_users_query p)"
  have "serve now ''GET'' ?path cookie v = (Handle H_ListUsers [], v)"
    by (rule serve_route [OF assms]) (simp_all add: client_paths route_simps)
  then show ?thesis
    by (simp add: call_server_def handle_request_def api_defs fetch_args_def url_query_with_query)
qed

lemma call_server_listMountpoints:
  assumes "valid_session now cookie v"
  shows "call_server ae now token cookie (api_listMountpoints (Some p)) v =
    (Response 200 (Inr (encode_page encode_info (h_ListMountpoints ae (list_mountpoints_query p) v))), v)"
proof -
  let ?path = "with_query ''/api/mountpoints'' (list_mountpoints_query p)"
  have "serve now ''GET'' ?path cookie v = (Handle H_ListMountpoints [], v)"
    by (rule serve_route [OF assms]) (simp_all add: client_paths route_simps)
  then show ?thesis
    by (simp add: call_server_def handle_request_def api_defs fetch_args_def url_query_with_query)
qed

lemma parseIntParam_int_str [simp]: "1 \<le> i \<Longrightarrow> i < 2 ^ 63 \<Longrightarrow> parseIntParam (int_str i) d = i"
  by (simp add: parseIntParam_def)

definition enabled_filter :: "string \<Rightarrow> bool option" where
  "enabled_filter f = (if f = [] then None else Some (f = ''true''))"

text \<open>The page of users that the server sends for the state of the users page.\<close>

definition users_answer_page :: "api_env \<Rightarrow> users_state \<Rightarrow> server \<Rightarrow> user paginated_response" where
  "users_answer_page ae s v =
     (let (rows, total) = ListUsersPaginated (ae_like ae) (us_page s) 50 (us_search s) (us_roleFilter s)
                            (enabled_filter (us_enabledFilter s)) (sv_store v)
      in \<lparr>pr_data = nil_slice (map to_user rows), pr_total = total, pr_page = us_page s, pr_limit = 50\<rparr>)"

lemma users_query_answer:
  assumes "valid_session now cookie v" and "1 \<le> us_page s" and "us_page s < 2 ^ 63"
  shows "call_server ae now token cookie (api_listUsers (users_query s)) v =
    (Response 200 (Inr (encode_page encode_user (users_answer_page ae s v))), v)"
proof -
  have "h_ListUsers ae (list_users_query (the (users_query s))) v = users_answer_page ae s v"
    using assms(2,3)
    by (auto simp: h_ListUsers_def users_answer_page_def users_query_def list_users_query_def query_get_simps enabled_param_def
        enabled_filter_def Let_def split_beta)
  then show ?thesis using call_server_listUsers [OF assms(1), of ae token "the (users_query s)"] by (simp add: users_query_def)
qed

text \<open>Every selected row is on a page that the pager reaches from the first one.\<close>

lemma paginate_covers:
  assumes "0 < limit" and "int (length rows) < 2 ^ 62" and "x \<in> set rows" and "sel x"
  shows "\<exists>k. 1 \<le> k \<and> k \<le> 2 ^ 62 \<and> clicks_to (int (length (filter sel rows))) limit 1 k
    \<and> x \<in> set (fst (paginate key sel k limit rows))"
proof -
  define xs where "xs = sort_key key (filter sel rows)"
  have "x \<in> set xs" using assms(3,4) by (simp add: xs_def)
  then obtain i where i: "i < length xs" "xs ! i = x" by (metis in_set_conv_nth)
  define j where "j = i div nat limit"
  have l: "0 < nat limit" using assms(1) by simp
  have j: "j * nat limit \<le> i" "i < (j + 1) * nat limit"
    using l dividend_less_times_div [OF l, of i] by (simp_all add: j_def algebra_simps)
  have n: "length xs = length (filter sel rows)" by (simp add: xs_def)
  have le: "length xs \<le> length rows" by (simp add: n)
  have jl: "int j * limit = int (j * nat limit)" using assms(1) by simp
  have x: "x \<in> set (take (nat limit) (drop (j * nat limit) xs))"
  proof -
    have "x = drop (j * nat limit) xs ! (i - j * nat limit)" using i j by simp
    moreover have "i - j * nat limit < length (take (nat limit) (drop (j * nat limit) xs))" using i j by auto
    ultimately show ?thesis by (metis nth_mem nth_take length_take min_less_iff_conj)
  qed
  have "int j * limit < 2 ^ 62" using jl j(1) i(1) le assms(2) by linarith
  then have "int j * limit < 2 ^ 63" by simp
  from paginate_rows [OF assms(1) this, of key sel rows] x have p: "x \<in> set (fst (paginate key sel (int j + 1) limit rows))"
    by (simp add: xs_def)
  have "\<not> int (length xs) \<le> int j * limit" using jl j(1) i(1) by linarith
  then have "int j + 1 \<le> total_pages (int (length xs)) limit"
    using total_pages_spec [OF assms(1), of "int (length xs)" "int j"] by linarith
  then have "clicks_to (int (length xs)) limit 1 (1 + int j)" by (intro clicks_up) simp_all
  moreover have "j \<le> i" unfolding j_def by simp
  then have "int j + 1 \<le> 2 ^ 62" using i(1) le assms(2) by linarith
  ultimately show ?thesis using p n by (intro exI [of _ "int j + 1"]) (simp add: add.commute)
qed

text \<open>
  C3. Nothing is lost between the table, the server and the pager: whatever search text and filters
  the users page shows, every stored user that matches them is on one of the pages, the pager
  leads from the first page to that page, and the request the page sends there is answered with a
  list that contains the user.
\<close>

theorem every_matching_user_is_reachable:
  assumes "valid_session now cookie v" and "int (length (st_users (sv_store v))) < 2 ^ 62"
    and "u \<in> set (st_users (sv_store v))"
    and "users_where (ae_like ae) (us_search s) (us_roleFilter s) (enabled_filter (us_enabledFilter s)) u"
  shows "\<exists>k r. call_server ae now token cookie (api_listUsers (users_query (users_handlePageChange k s))) v
        = (Response 200 (Inr (encode_page encode_user r)), v)
    \<and> clicks_to (pr_total r) (pr_limit r) 1 k \<and> to_user u \<in> set (nullish (pr_data r) [])"
proof -
  let ?sel = "users_where (ae_like ae) (us_search s) (us_roleFilter s) (enabled_filter (us_enabledFilter s))"
  from paginate_covers [of 50 "st_users (sv_store v)" u ?sel u_id] assms obtain k
    where k: "1 \<le> k" "k \<le> 2 ^ 62" "clicks_to (int (length (filter ?sel (st_users (sv_store v))))) 50 1 k"
      and m: "u \<in> set (fst (paginate u_id ?sel k 50 (st_users (sv_store v))))" by auto
  let ?s = "users_handlePageChange k s" and ?r = "users_answer_page ae (users_handlePageChange k s) v"
  have "call_server ae now token cookie (api_listUsers (users_query ?s)) v = (Response 200 (Inr (encode_page encode_user ?r)), v)"
    using k by (intro users_query_answer assms(1)) (simp_all add: users_handlePageChange_def)
  moreover have "clicks_to (pr_total ?r) (pr_limit ?r) 1 k"
    using k by (simp add: users_answer_page_def users_handlePageChange_def ListUsersPaginated_def paginate_def Let_def)
  moreover have "to_user u \<in> set (nullish (pr_data ?r) [])"
    using m by (auto simp: users_answer_page_def users_handlePageChange_def ListUsersPaginated_def nil_slice_def split_beta Let_def)
  ultimately show ?thesis by blast
qed

section \<open>Editing a mountpoint\<close>

text \<open>The request of a mutation, as its hook sends it.\<close>

definition run_mutation ::
  "api_env \<Rightarrow> int \<Rightarrow> string \<Rightarrow> string option \<Rightarrow> mutation \<Rightarrow> server \<Rightarrow> fetch_outcome \<times> server" where
  "run_mutation ae now token cookie m v = call_server ae now token cookie (mo_mutationFn (mutation_hook m)) v"

text \<open>
  C4. The edit dialog of a mountpoint, from the keys typed to the table: whatever happens on the page
  between opening the dialog on the row of a stored mountpoint and saving it, the save sends one
  request, and the stored row then holds the last value entered for each field. The exceptions are
  the texts that the server takes as absent: an erased description or format stays what it was,
  while an erased secret field removes the stored secret.
\<close>

theorem mount_edit_reaches_table:
  assumes "valid_session now cookie v" and "GetMountPointRowByID (m_id row) (sv_store v) = Some row"
    and "mp = mp_info (ae_stamp ae) (sv_mgr v) row" and "int64 (m_id row)"
    and "\<forall>(d, e) \<in> set es. \<not> is_openEdit e" and "t = mounts_run es (mounts_openEdit mp s)" and "mo_editMount t \<noteq> None"
    and "int64 (entered max_clients_entry es (m_max_clients row))"
    and "\<And>p. entered secret_entry es None = Some p \<Longrightarrow> p \<noteq> [] \<Longrightarrow> ae_hash ae p \<noteq> None"
  shows "\<exists>m v'. mounts_handleUpdate t = [Run m]
    \<and> run_mutation ae now token cookie m v = (Response 200 (Inr (JObj [(''status'', JStr ''ok'')])), v')
    \<and> GetMountPointRowByID (m_id row) (sv_store v') = Some (row\<lparr>
         m_description := str_or (entered desc_entry es (m_description row)) (m_description row),
         m_format := str_or (entered format_entry es (m_format row)) (m_format row),
         m_enabled := entered enabled_entry es (m_enabled row),
         m_max_clients := entered max_clients_entry es (m_max_clients row),
         dm_secret_hash := new_secret (ae_hash ae) (dm_secret_hash row) (entered secret_entry es None)\<rparr>)"
proof -
  have mp: "m_id mp = m_id row" "m_description mp = m_description row" "m_format mp = m_format row"
    "m_enabled mp = m_enabled row" "m_max_clients mp = m_max_clients row"
    by (simp_all add: assms(3) mp_info_def Let_def)
  define r where "r = \<lparr>um_description = Some (entered desc_entry es (m_description row)),
      um_format = Some (entered format_entry es (m_format row)), um_enabled = Some (entered enabled_entry es (m_enabled row)),
      um_source_secret = entered secret_entry es None, um_max_clients = Some (entered max_clients_entry es (m_max_clients row))\<rparr>"
  note run = edit_run [OF assms(5), of "mounts_openEdit mp s", unfolded openEdit_fields mp, folded assms(6)]
  from run assms(7) have "mo_editMount t = Some mp" by auto
  from handleUpdate_edit_secret [OF this] run have send: "mounts_handleUpdate t = [Run (Update_mountpoint (m_id row) r)]"
    by (simp add: mp r_def)
  have "\<And>n. um_max_clients r = Some n \<Longrightarrow> int64 n"
    and "\<And>p. um_source_secret r = Some p \<Longrightarrow> p \<noteq> [] \<Longrightarrow> ae_hash ae p \<noteq> None"
    using assms(8,9) by (simp_all add: r_def)
  from UpdateMountpoint_run [OF assms(4) this assms(2) refl] obtain w
    where h: "\<exists>g. h_UpdateMountpoint ae (int_str (m_id row)) (Some (stringify_update_mountpoint r)) v = (jsonOK (), v\<lparr>sv_store := w, sv_mgr := g\<rparr>)"
      and w: "GetMountPointRowByID (m_id row) w = Some (updated_row (ae_hash ae) r row)" by fastforce
  from h have "\<exists>v'. run_mutation ae now token cookie (Update_mountpoint (m_id row) r) v
      = (Response 200 (Inr (JObj [(''status'', JStr ''ok'')])), v') \<and> sv_store v' = w"
    by (auto simp: run_mutation_def mutation_hook_defs call_server_updateMountpoint [OF assms(1)] encode_reply_def status_ok_def
        split_beta Let_def)
  with send w show ?thesis by (auto simp: updated_row_def r_def)
qed

section \<open>Locking a user out\<close>

lemma update_user_fields_stringify:
  "update_user_fields (Some (stringify_update_user r)) = Some (nullish (uu_role r) [], uu_enabled r, nullish (uu_password r) [])"
  by (cases "uu_role r"; cases "uu_enabled r"; cases "uu_password r")
    (simp_all add: update_user_fields_def body_fields_def stringify_update_user_def str_field_def bool_ptr_field_def)

lemma call_server_updateUser:
  assumes "valid_session now cookie v"
  shows "call_server ae now token cookie (api_updateUser i r) v =
    (let ((st, j), v') = run_handler ae now token H_UpdateUser (int_str i)
         (url_query (''/api/users/'' @ int_str i)) (Some (stringify_update_user r)) cookie v
     in (Response st (Inr j), v'))"
proof -
  have "serve now ''PUT'' (''/api/users/'' @ int_str i) cookie v = (Handle H_UpdateUser [int_str i], v)"
    by (rule serve_route [OF assms]) (simp_all add: client_paths route_simps)
  then show ?thesis
    by (simp add: call_server_def handle_request_def api_defs fetch_args_def split_beta Let_def)
qed

text \<open>After \<open>UpdateUser\<close> with \<open>enabled\<close> off and possibly a new password, no login succeeds.\<close>

lemma disabled_cannot_login:
  assumes "users_ok s" and "GetUser i s = Some u" and "t = UpdateUser i role False s \<or> UpdatePassword hash i p (UpdateUser i role False s) = Inr t"
  shows "fst (Authenticate verify now (u_username u) q t) = None"
proof -
  from assms(2) have u: "u \<in> set (st_users s)" "u_id u = i"
    using find_Some_in [of _ "st_users s" u] by (auto simp: GetUser_def)
  have "find (\<lambda>v. u_username v = u_username u) (st_users s) \<noteq> None" using u(1) by (auto simp: find_None_iff)
  then obtain w where w: "find (\<lambda>v. u_username v = u_username u) (st_users s) = Some w" by auto
  with assms(1) u(1) have "w = u" using find_Some_in [OF w] by (auto simp: users_ok_def distinct_map dest: inj_onD)
  with w u(2) have "\<exists>x. GetUserByName (u_username u) t = Some x \<and> \<not> u_enabled x"
    using assms(3)
    by (auto simp: GetUserByName_def UpdateUser_def UpdatePassword_def clear_cache_def find_update split: option.splits
        simp del: map_map)
  moreover have "st_authCache t = Map.empty"
    using assms(3) by (auto simp: UpdateUser_def UpdatePassword_def clear_cache_def split: option.splits)
  ultimately show ?thesis by (auto simp: Authenticate_def auth_cached_def auth_check_def)
qed

lemma disconnected_no_trace:
  "mgr_DisconnectUser uid g n = Some m \<Longrightarrow>
     (\<forall>c \<in> set (mp_clients m). rv_UserID (mp_heap m c) \<noteq> uid) \<and> (\<forall>src. mp_source m = Some src \<longrightarrow> so_UserID src \<noteq> uid)"
proof -
  assume "mgr_DisconnectUser uid g n = Some m"
  then obtain a where "m = KickClientsByUser uid (KickSourceByUser uid a)" by (auto simp: mgr_DisconnectUser_def)
  then show ?thesis using disconnected_mount [of uid a] by simp
qed

text \<open>The edit dialog of an enabled user, saved with the switch off.\<close>

lemma disable_run:
  assumes "valid_session now cookie v" and "server_ok (ae_verify ae) v" and "int64 i"
    and "GetUser i (sv_store v) = Some u" and "u_enabled u" and "uu_enabled r = Some False"
    and "\<And>p. uu_password r = Some p \<Longrightarrow> p \<noteq> [] \<Longrightarrow> ae_hash ae p \<noteq> None"
    and "run_mutation ae now token cookie (Update_user i r) v = (answer, v')"
  shows "answer = Response 200 (Inr (JObj [(''status'', JStr ''ok'')]))"
    "fst (Authenticate (ae_verify ae) later (u_username u) p (sv_store v')) = None"
    "sv_mgr v' = mgr_DisconnectUser i (sv_mgr v)"
proof -
  define role where "role = (if nullish (uu_role r) [] \<noteq> [] then nullish (uu_role r) [] else u_role u)"
  define st where "st = UpdateUser i role False (sv_store v)"
  define x where "x = (if nullish (uu_password r) [] \<noteq> [] then UpdatePassword (ae_hash ae) i (nullish (uu_password r) []) st else Inr st)"
  have "\<exists>t. x = Inr t"
    using assms(7) by (cases "uu_password r") (auto simp: x_def UpdatePassword_def)
  then obtain t where t: "x = Inr t" ..
  have "h_UpdateUser ae (int_str i) (Some (stringify_update_user r)) v =
      (case x of Inl e \<Rightarrow> (jsonError (error_prefix e) 500, v\<lparr>sv_store := st\<rparr>)
       | Inr t \<Rightarrow> (jsonOK (), v\<lparr>sv_store := t, sv_mgr := mgr_DisconnectUser i (sv_mgr v)\<rparr>))"
    using assms(3-6)
    by (simp only: h_UpdateUser_def parseID_int_str update_user_fields_stringify option.case prod.case Let_def nullish_simps
        x_def st_def role_def simp_thms if_True not_False_eq_True)
  with t assms(8) have a: "answer = Response 200 (Inr (JObj [(''status'', JStr ''ok'')]))"
      "v' = v\<lparr>sv_store := t, sv_mgr := mgr_DisconnectUser i (sv_mgr v)\<rparr>"
    by (simp_all add: run_mutation_def mutation_hook_defs call_server_updateUser [OF assms(1)] encode_reply_def status_ok_def
        split_beta Let_def)
  have "fst (Authenticate (ae_verify ae) later (u_username u) p t) = None"
    using assms(2,4) t
    by (intro disabled_cannot_login [where s = "sv_store v" and i = i and role = role and hash = "ae_hash ae"
          and p = "nullish (uu_password r) []"])
      (auto simp: server_ok_def store_ok_def x_def st_def split: if_splits)
  with a show "answer = Response 200 (Inr (JObj [(''status'', JStr ''ok'')]))"
    "fst (Authenticate (ae_verify ae) later (u_username u) p (sv_store v')) = None"
    "sv_mgr v' = mgr_DisconnectUser i (sv_mgr v)" by simp_all
qed

text \<open>
  C12. Saving the edit dialog of an enabled user with the switch off locks the user out at once: no
  password is accepted any more, by the caster or by the admin page, whatever the login cache
  held, and no source and no client of the user stays connected.
\<close>

theorem disabling_user_locks_out:
  assumes "valid_session now cookie v" and "server_ok (ae_verify ae) v" and "int64 i"
    and "GetUser i (sv_store v) = Some u" and "u_enabled u" and "uu_enabled r = Some False"
    and "\<And>p. uu_password r = Some p \<Longrightarrow> p \<noteq> [] \<Longrightarrow> ae_hash ae p \<noteq> None"
    and "run_mutation ae now token cookie (Update_user i r) v = (answer, v')"
  shows "answer = Response 200 (Inr (JObj [(''status'', JStr ''ok'')]))
    \<and> fst (Authenticate (ae_verify ae) later (u_username u) p (sv_store v')) = None
    \<and> (\<forall>n mp. sv_mgr v' n = Some mp \<longrightarrow>
         (\<forall>c \<in> set (mp_clients mp). rv_UserID (mp_heap mp c) \<noteq> i) \<and> (\<forall>src. mp_source mp = Some src \<longrightarrow> so_UserID src \<noteq> i))"
  using disable_run(1,3) [OF assms] disable_run(2) [OF assms, of later p] disconnected_no_trace [of i "sv_mgr v"] by auto


section \<open>Live data\<close>

lemma mgr_List_sum:
  "distinct names \<Longrightarrow> set names = dom g \<Longrightarrow> sum_list (map f (mgr_List names g)) = (\<Sum>n \<in> dom g. f (the (g n)))" for f :: "mount_point \<Rightarrow> int"
proof -
  assume d: "distinct names" and n: "set names = dom g"
  have "mgr_List names g = map (\<lambda>n. the (g n)) names" using n
  proof -
    have "set ns \<subseteq> dom g \<Longrightarrow> List.map_filter g ns = map (\<lambda>n. the (g n)) ns" for ns
      by (induction ns) (auto simp: map_filter_simps)
    with n show ?thesis by (simp add: mgr_List_def)
  qed
  with d n show ?thesis by (simp add: sum_list_distinct_conv_sum_set comp_def)
qed

lemma foldl_count: "foldl (\<lambda>n m. if P m then n + 1 else n) (a :: int) xs = a + int (length (filter P xs))"
  by (induction xs arbitrary: a) auto

text \<open>
  The totals of the dashboard are exact: when the statistics are taken in a consistent state of
  the server, the number of online rovers is the number of clients registered at all mountpoints,
  and the online sources and the active mountpoints are the number of mountpoints that have a
  source. Go lists every mountpoint once.
\<close>

theorem dashboard_totals_exact:
  assumes "server_ok verify v" and "distinct (ae_names ae)" and "set (ae_names ae) = dom (sv_mgr v)"
    and "stats = h_Stats ae now v"
  shows "ss_total_clients stats = (\<Sum>n \<in> dom (sv_mgr v). int (length (mp_clients (the (sv_mgr v n)))))
    \<and> ss_total_sources stats = (\<Sum>n \<in> dom (sv_mgr v). if mp_source (the (sv_mgr v n)) \<noteq> None then 1 else 0)
    \<and> activeMountpoints (Some stats) = ss_total_sources stats"
proof -
  let ?l = "mgr_List (ae_names ae) (sv_mgr v)"
  have ok: "mount_ok (the (sv_mgr v n))" if "n \<in> dom (sv_mgr v)" for n
    using assms(1) that by (auto simp: server_ok_def mgr_ok_def)
  have "ss_total_clients stats = sum_list (map (\<lambda>m. sn_ClientCount (mp_Stats m)) ?l)"
    by (simp add: assms(4) h_Stats_def Let_def foldl_sum mount_stat_def comp_def)
  also have "\<dots> = (\<Sum>n \<in> dom (sv_mgr v). int (length (mp_clients (the (sv_mgr v n)))))"
    unfolding mgr_List_sum [OF assms(2,3)] using ok by (intro sum.cong) (auto simp: mount_ok_def)
  finally have c: "ss_total_clients stats = (\<Sum>n \<in> dom (sv_mgr v). int (length (mp_clients (the (sv_mgr v n)))))" .
  have len: "int (length (filter P xs)) = sum_list (map (\<lambda>x. if P x then 1 else 0) xs)" for P and xs :: "mount_point list"
    by (induction xs) auto
  have s: "ss_total_sources stats = int (length (filter (\<lambda>m. sn_SourceOnline (mp_Stats m)) ?l))"
    by (simp add: assms(4) h_Stats_def Let_def foldl_count mount_stat_def filter_map comp_def)
  also have "\<dots> = (\<Sum>n \<in> dom (sv_mgr v). if mp_source (the (sv_mgr v n)) \<noteq> None then 1 else 0)"
    unfolding len mgr_List_sum [OF assms(2,3)] using ok by (intro sum.cong) (auto simp: mount_ok_def)
  finally have "ss_total_sources stats = (\<Sum>n \<in> dom (sv_mgr v). if mp_source (the (sv_mgr v n)) \<noteq> None then 1 else 0)" .
  moreover have "activeMountpoints (Some stats) = int (length (filter (\<lambda>m. sn_SourceOnline (mp_Stats m)) ?l))"
    by (simp add: activeMountpoints_count stats_rows_def assms(4) h_Stats_def nil_slice_def Let_def mount_stat_def filter_map comp_def)
  ultimately show ?thesis using c s by simp
qed

text \<open>The loop of the list handlers over one mountpoint, as the filter of the page.\<close>

lemma nil_slice_eq: "nullish (nil_slice xs) [] = xs"
  by (simp add: nil_slice_def)

lemma filter_entries:
  assumes "\<And>c. mnt (e c) = n"
  shows "(if mf \<noteq> [] \<and> n \<noteq> mf then [] else concat (map (\<lambda>c. if uf \<noteq> [] \<and> usr (e c) \<noteq> uf then [] else [e c]) cs))
    = filter (\<lambda>x. keeps_row mf uf (mnt x) (usr x)) (map e cs)"
  using assms by (induction cs) (auto simp: keeps_row_def)

definition client_entry :: "api_env \<Rightarrow> int \<Rightarrow> server \<Rightarrow> mount_point \<Rightarrow> string \<Rightarrow> client_info" where
  "client_entry ae now v mp cid =
     \<lparr>ci_mountpoint = mp_Name mp, ci_client_id = cid, ci_user_id = rv_UserID (mp_heap mp cid),
      ci_username = user_name (rv_UserID (mp_heap mp cid)) (sv_store v), ci_bytes_out = rv_BytesOut (mp_heap mp cid),
      ci_connected_at = ae_stamp ae (rv_ConnectedAt (mp_heap mp cid)), ci_duration_seconds = now - rv_ConnectedAt (mp_heap mp cid)\<rparr>"

lemma ListClients_filter:
  "nullish (h_ListClients ae now q v) [] =
     filter (\<lambda>x. keeps_row (query_get q ''mountpoint'') (query_get q ''username'') (ci_mountpoint x) (ci_username x))
       (concat (map (\<lambda>mp. map (client_entry ae now v mp) (mp_clients mp)) (mgr_List (ae_names ae) (sv_mgr v))))"
proof -
  have "nullish (h_ListClients ae now q v) [] = concat (map (\<lambda>mp.
      if query_get q ''mountpoint'' \<noteq> [] \<and> mp_Name mp \<noteq> query_get q ''mountpoint'' then []
      else concat (map (\<lambda>cid. if query_get q ''username'' \<noteq> [] \<and> ci_username (client_entry ae now v mp cid) \<noteq> query_get q ''username'' then []
             else [client_entry ae now v mp cid]) (mp_clients mp))) (mgr_List (ae_names ae) (sv_mgr v)))"
    unfolding h_ListClients_def nil_slice_eq
    by (simp only: client_entry_def Let_def client_info.simps)
  also have "\<dots> = concat (map (\<lambda>mp. filter (\<lambda>x. keeps_row (query_get q ''mountpoint'') (query_get q ''username'') (ci_mountpoint x) (ci_username x))
      (map (client_entry ae now v mp) (mp_clients mp))) (mgr_List (ae_names ae) (sv_mgr v)))"
    by (subst filter_entries [where mnt = ci_mountpoint]) (simp_all add: client_entry_def)
  finally show ?thesis by (simp add: filter_concat comp_def)
qed

definition source_entry :: "api_env \<Rightarrow> int \<Rightarrow> server \<Rightarrow> mount_point \<Rightarrow> source_conn \<Rightarrow> source_info" where
  "source_entry ae now v mp si =
     \<lparr>si_mountpoint = mp_Name mp, si_source_id = so_ID si, si_user_id = so_UserID si,
      si_username = user_name (so_UserID si) (sv_store v), si_bytes_in = so_BytesIn si,
      si_connected_at = ae_stamp ae (so_StartTime si), si_duration_seconds = now - so_StartTime si\<rparr>"

definition mount_sources :: "mount_point \<Rightarrow> source_conn list" where
  "mount_sources mp = (case mp_source mp of None \<Rightarrow> [] | Some si \<Rightarrow> if so_ID si = [] then [] else [si])"

lemma ListSources_filter:
  "nullish (h_ListSources ae now q v) [] =
     filter (\<lambda>x. keeps_row (query_get q ''mountpoint'') (query_get q ''username'') (si_mountpoint x) (si_username x))
       (concat (map (\<lambda>mp. map (source_entry ae now v mp) (mount_sources mp)) (mgr_List (ae_names ae) (sv_mgr v))))"
proof -
  have "nullish (h_ListSources ae now q v) [] = concat (map (\<lambda>mp.
      if query_get q ''mountpoint'' \<noteq> [] \<and> mp_Name mp \<noteq> query_get q ''mountpoint'' then []
      else concat (map (\<lambda>si. if query_get q ''username'' \<noteq> [] \<and> si_username (source_entry ae now v mp si) \<noteq> query_get q ''username'' then []
             else [source_entry ae now v mp si]) (mount_sources mp))) (mgr_List (ae_names ae) (sv_mgr v)))"
    unfolding h_ListSources_def nil_slice_eq
    by (auto simp: source_entry_def mount_sources_def Let_def intro!: arg_cong [where f = concat] split: option.split)
  also have "\<dots> = concat (map (\<lambda>mp. filter (\<lambda>x. keeps_row (query_get q ''mountpoint'') (query_get q ''username'') (si_mountpoint x) (si_username x))
      (map (source_entry ae now v mp) (mount_sources mp))) (mgr_List (ae_names ae) (sv_mgr v)))"
    by (subst filter_entries [where mnt = si_mountpoint]) (simp_all add: source_entry_def)
  finally show ?thesis by (simp add: filter_concat comp_def)
qed

text \<open>
  The filters of the connections page, which run in the browser, select what the server's own
  filters on \<open>/api/sources\<close> and \<open>/api/clients\<close> would select.
\<close>

theorem connection_filters_agree:
  assumes "cd_clients d = h_ListClients ae now [] v" and "cd_sources d = h_ListSources ae now [] v"
    and "q = [(''mountpoint'', co_mountFilter s), (''username'', co_usernameFilter s)]"
  shows "filteredClients d s = nullish (h_ListClients ae now q v) [] \<and> filteredSources d s = nullish (h_ListSources ae now q v) []"
proof -
  have "filteredClients d s = filter (\<lambda>x. keeps_row (co_mountFilter s) (co_usernameFilter s) (ci_mountpoint x) (ci_username x))
      (nullish (cd_clients d) [])"
    and "filteredSources d s = filter (\<lambda>x. keeps_row (co_mountFilter s) (co_usernameFilter s) (si_mountpoint x) (si_username x))
      (nullish (cd_sources d) [])"
    by (simp_all add: filteredClients_def filteredSources_def split: option.split)
  then show ?thesis
    by (simp add: assms ListClients_filter ListSources_filter query_get_def keeps_row_def cong: conj_cong)
qed

section \<open>Instances\<close>

definition sample_admin :: db_user where
  "sample_admin = \<lparr>u_id = 1, u_username = ''root'', u_role = ''admin'', u_enabled = True, du_password_hash = ''hpw''\<rparr>"

lemma sample_server_users: "st_users (sv_store sample_server) = [sample_admin]"
  by (simp add: sample_server_def start_server_def sample_tables_eq NewService_def sample_admin_def)

lemma sample_server_ok: "server_ok sample_verify sample_server"
  using start_server_ok [OF sample_store_ok, of sample_env] by (simp add: sample_server_def)

theorem every_matching_user_is_reachable_witness:
  "\<exists>k r. call_server sample_env 50 ''new'' (Some ''tok'') (api_listUsers (users_query (users_handlePageChange k users_init))) sample_server
       = (Response 200 (Inr (encode_page encode_user r)), sample_server)
     \<and> to_user sample_admin \<in> set (nullish (pr_data r) [])"
proof -
  have "users_where (ae_like sample_env) (us_search users_init) (us_roleFilter users_init)
      (enabled_filter (us_enabledFilter users_init)) sample_admin"
    by (simp add: users_where_def users_init_def enabled_filter_def)
  with every_matching_user_is_reachable [OF sample_session, of sample_admin sample_env users_init "''new''"]
  show ?thesis by (simp add: sample_server_users) blast
qed

theorem mount_edit_reaches_table_witness:
  "\<exists>m v'. mounts_handleUpdate (mounts_run [(sample_mounts_data, M_editDesc []), (sample_mounts_data, M_editEnabled True)]
       (mounts_openEdit (mp_info (ae_stamp sample_env) (sv_mgr sample_server) sample_row) mounts_init)) = [Run m]
     \<and> run_mutation sample_env 50 ''new'' (Some ''tok'') m sample_server = (Response 200 (Inr (JObj [(''status'', JStr ''ok'')])), v')
     \<and> GetMountPointRowByID 1 (sv_store v') = Some (sample_row\<lparr>m_enabled := True\<rparr>)"
proof -
  let ?es = "[(sample_mounts_data, M_editDesc []), (sample_mounts_data, M_editEnabled True)]"
  let ?mp = "mp_info (ae_stamp sample_env) (sv_mgr sample_server) sample_row"
  have r: "GetMountPointRowByID (m_id sample_row) (sv_store sample_server) = Some sample_row"
    using sample_row_found by (simp add: sample_server_def start_server_def sample_row_def)
  have "int64 (m_id sample_row)" "\<forall>(d, e) \<in> set ?es. \<not> is_openEdit e"
    "mo_editMount (mounts_run ?es (mounts_openEdit ?mp mounts_init)) \<noteq> None"
    "int64 (entered max_clients_entry ?es (m_max_clients sample_row))"
    by (simp_all add: int64_def sample_row_def mounts_run_def mounts_openEdit_def entered_def)
  from mount_edit_reaches_table [OF sample_session r refl this(1,2) refl this(3,4), of "''new''"] show ?thesis
    by (simp add: entered_def sample_row_def new_secret_def)
qed

theorem disabling_user_locks_out_witness:
  "fst (Authenticate sample_verify 60 ''root'' ''pw'' (sv_store (snd (run_mutation sample_env 50 ''new'' (Some ''tok'')
     (Update_user 1 \<lparr>uu_role = Some ''admin'', uu_enabled = Some False, uu_password = None\<rparr>) sample_server)))) = None"
proof -
  let ?r = "\<lparr>uu_role = Some ''admin'', uu_enabled = Some False, uu_password = None\<rparr>"
  obtain a w where run: "run_mutation sample_env 50 ''new'' (Some ''tok'') (Update_user 1 ?r) sample_server = (a, w)" by fastforce
  have u: "GetUser 1 (sv_store sample_server) = Some sample_admin"
    by (simp add: GetUser_def sample_server_users sample_admin_def)
  have ok: "server_ok (ae_verify sample_env) sample_server" using sample_server_ok by (simp add: sample_env_def)
  have "int64 1" "u_enabled sample_admin" "uu_enabled ?r = Some False" by (simp_all add: int64_def sample_admin_def)
  from disabling_user_locks_out [OF sample_session ok this(1) u this(2,3) _ run, of 60 "''pw''"] run show ?thesis
    by (simp add: sample_env_def sample_admin_def)
qed

text \<open>A caster over the tables of a server, with the login of rovers on.\<close>

definition caster_of :: "server \<Rightarrow> caster" where
  "caster_of v = sample_caster\<lparr>ca_store := sv_store v\<rparr>"


theorem dashboard_totals_exact_witness:
  "ss_total_clients (h_Stats sample_env 50 (sample_server\<lparr>sv_mgr := [''A'' \<mapsto> sample_point]\<rparr>)) = 1"
proof -
  let ?v = "sample_server\<lparr>sv_mgr := [''A'' \<mapsto> sample_point]\<rparr>"
  have "mp_Name sample_point = ''A''"
    by (simp add: sample_point_def AddClient_def NewMountPoint_def count_clients_def rebuildSnapshotLocked_def)
  then have "server_ok sample_verify ?v"
    using sample_server_ok
    by (simp add: server_ok_def mgr_ok_def sample_point_ok sample_server_def start_server_def sample_tables_eq sample_row_def)
  moreover have "distinct (ae_names sample_env)" "set (ae_names sample_env) = dom (sv_mgr ?v)" by (simp_all add: sample_env_def)
  ultimately show ?thesis
    using dashboard_totals_exact [of sample_verify ?v sample_env "h_Stats sample_env 50 ?v" 50] by (simp add: sample_point_ok)
qed

theorem connection_filters_agree_witness:
  "filteredClients \<lparr>cd_sources = h_ListSources sample_env 9 [] sample_server, cd_sourcesLoading = False,
       cd_clients = h_ListClients sample_env 9 [] sample_server, cd_clientsLoading = False, cd_mountpointsData = None,
       cd_visible = (\<lambda>n. [0..<n]), cd_totalSize = int\<rparr> connections_init = nullish (h_ListClients sample_env 9
       [(''mountpoint'', co_mountFilter connections_init), (''username'', co_usernameFilter connections_init)] sample_server) []"
  using connection_filters_agree [OF _ _ refl] by simp

end
